(* ===== verification/Galaxy_Prelude.thy ===== *)
theory Galaxy_Prelude
  imports Main "HOL-Library.Word" "HOL-Library.List_Lexorder"
begin

text \<open>
  Shared vocabulary of the development.

  \<^item> \<open>byte\<close>, \<open>bytes\<close>, \<open>u64\<close>: the C++ types \<open>unsigned char\<close>, \<open>std::string\<close> used as a
    buffer of octets, and \<open>uint64_t\<close>/\<open>size_t\<close> of the 64-bit targets.
  \<^item> \<open>cpp_error\<close>: one constructor per exception class the modelled code throws, and
    \<open>Abort\<close> for a failed \<open>assert\<close>: the build files remove \<open>NDEBUG\<close>
    from every build type, so a failed assert always ends the process.
  \<^item> \<open>action\<close>: code that reads and writes an object and may throw. The state is
    returned on the exceptional path as well, since a C++ object keeps whatever was written
    to it before the throw.
  Log statements (\<open>_info\<close>, \<open>_dbg1\<close> and their kin) are not modelled: they only print.
\<close>

unbundle bit_operations_syntax

type_synonym byte = "8 word"
type_synonym bytes = "byte list"
type_synonym u64 = "64 word"

named_theorems action_simps \<open>running actions\<close>
named_theorems codec_intros \<open>what an operation appends to a generator or consumes from a parser\<close>

datatype cpp_error =
    Abort                        \<comment> \<open>failed \<open>assert\<close> or \<open>_check_abort\<close>\<close>
  | Format_error_read            \<comment> \<open>\<open>trivialserialize::format_error_read\<close>\<close>
  | Format_error_read_badformat
  | Format_error_read_delimiter
  | Format_error_read_invalid_version
  | Format_error_write_value_too_big
  | Invalid_argument             \<comment> \<open>\<open>std::invalid_argument\<close>\<close>
  | Invalid_argument_in_version  \<comment> \<open>a crypto system that is not compiled in\<close>
  | Runtime_error                \<comment> \<open>\<open>std::runtime_error\<close>\<close>
  | Out_of_range                 \<comment> \<open>\<open>std::out_of_range\<close>, from \<open>at()\<close>\<close>
  | Overflow_error
  | Range_error                  \<comment> \<open>\<open>std::range_error\<close>\<close>
  | Bad_alloc                    \<comment> \<open>\<open>std::bad_alloc\<close>\<close>
  | Overwrite_error              \<comment> \<open>\<open>overwrite_error\<close> of the data store\<close>
  | Filesystem_error             \<comment> \<open>\<open>boost::filesystem::filesystem_error\<close>\<close>
  | System_error                 \<comment> \<open>\<open>boost::system::system_error\<close>\<close>
  | Undefined_behaviour          \<comment> \<open>an evaluation the language gives no meaning to\<close>
  | Expected_not_found
  | Expected_not_found_missing_pubkey
  | Err_check_input              \<comment> \<open>a failed \<open>_check_input\<close>\<close>
  | Err_check_prog               \<comment> \<open>a failed \<open>_check\<close>\<close>
  | Exception_error_exit         \<comment> \<open>\<open>ui::exception_error_exit\<close>\<close>
  | Crypto_error                 \<comment> \<open>\<open>sodiumpp::crypto_error\<close>\<close>
  | No_match_found               \<comment> \<open>\<open>error_no_match_found\<close>\<close>
  | Not_enough_match_found
  | Capmodpp_error               \<comment> \<open>\<open>capmodpp::capmodpp_error\<close>, not a \<open>std::exception\<close>\<close>

type_synonym 'a result = "cpp_error + 'a"
type_synonym ('s, 'a) action = "'s \<Rightarrow> 'a result \<times> 's"

definition ret :: "'a \<Rightarrow> ('s, 'a) action" where
  "ret a s = (Inr a, s)"

definition raise :: "cpp_error \<Rightarrow> ('s, 'a) action" where
  "raise e s = (Inl e, s)"

definition andThen :: "('s, 'a) action \<Rightarrow> ('a \<Rightarrow> ('s, 'b) action) \<Rightarrow> ('s, 'b) action" where
  "andThen m f s = (case m s of (Inl e, s') \<Rightarrow> (Inl e, s') | (Inr a, s') \<Rightarrow> f a s')"

definition assertA :: "bool \<Rightarrow> ('s, unit) action" where
  "assertA b = (if b then ret () else raise Abort)"

definition bindR :: "'a result \<Rightarrow> ('a \<Rightarrow> 'b result) \<Rightarrow> 'b result" where
  "bindR r f = (case r of Inl e \<Rightarrow> Inl e | Inr a \<Rightarrow> f a)"

lemma ret_run [action_simps, simp]: "ret a s = (Inr a, s)"
  by (simp add: ret_def)

lemma raise_run [action_simps, simp]: "raise e s = (Inl e, s)"
  by (simp add: raise_def)

lemma assertA_run [action_simps, simp]:
  "assertA b s = (if b then (Inr (), s) else (Inl Abort, s))"
  by (simp add: assertA_def)

lemma andThen_Inr [simp]: "m s = (Inr a, s') \<Longrightarrow> andThen m f s = f a s'"
  by (simp add: andThen_def)

lemma andThen_Inl [simp]: "m s = (Inl e, s') \<Longrightarrow> andThen m f s = (Inl e, s')"
  by (simp add: andThen_def)

lemma andThen_eq_InrD:
  "andThen m f s = (Inr b, t) \<Longrightarrow> \<exists>a s'. m s = (Inr a, s') \<and> f a s' = (Inr b, t)"
  by (auto simp: andThen_def split: prod.splits sum.splits)

lemma bindR_simps [simp]: "bindR (Inl e) f = Inl e" "bindR (Inr a) f = f a"
  by (simp_all add: bindR_def)

lemma bindR_eq_Inr_conv: "bindR r f = Inr b \<longleftrightarrow> (\<exists>a. r = Inr a \<and> f a = Inr b)"
  by (cases r) auto

lemma bindR_eq_Inl_conv: "bindR r f = Inl e \<longleftrightarrow> r = Inl e \<or> (\<exists>a. r = Inr a \<and> f a = Inl e)"
  by (cases r) auto

subsection \<open>Properties of states that every run of an action keeps\<close>

text \<open>
  \<open>keeps R m\<close>: from any state, whether \<open>m\<close> returns or throws, the state after is
  related by \<open>R\<close> to the state before. For a reflexive and transitive \<open>R\<close> it is
  closed under sequencing, so a component proves it for its primitive operations only.
\<close>

definition keeps :: "('s \<Rightarrow> 's \<Rightarrow> bool) \<Rightarrow> ('s, 'a) action \<Rightarrow> bool" where
  "keeps R m \<longleftrightarrow> (\<forall>s. R s (snd (m s)))"

lemma keepsI: "(\<And>s. R s (snd (m s))) \<Longrightarrow> keeps R m"
  by (simp add: keeps_def)

lemma keepsD: "keeps R m \<Longrightarrow> R s (snd (m s))"
  by (simp add: keeps_def)

lemma keeps_ret: "reflp R \<Longrightarrow> keeps R (ret a)"
  by (simp add: keeps_def reflpD)

lemma keeps_raise: "reflp R \<Longrightarrow> keeps R (raise e)"
  by (simp add: keeps_def reflpD)

lemma keeps_assertA: "reflp R \<Longrightarrow> keeps R (assertA b)"
  by (simp add: keeps_def reflpD)

lemma keeps_andThen:
  assumes "transp R" and "keeps R m" and "\<And>a. keeps R (f a)"
  shows "keeps R (andThen m f)"
proof (rule keepsI)
  fix s
  obtain r s' where m: "m s = (r, s')" by force
  have 1: "R s s'" using keepsD [OF assms(2), of s] m by simp
  show "R s (snd (andThen m f s))"
  proof (cases r)
    case (Inl e)
    with m 1 show ?thesis by simp
  next
    case (Inr a)
    with m have "andThen m f s = f a s'" by simp
    moreover have "R s' (snd (f a s'))" by (rule keepsD [OF assms(3)])
    ultimately show ?thesis using 1 assms(1) by (auto dest: transpD)
  qed
qed

subsection \<open>Results, vectors and loops\<close>

text \<open>
  \<open>vec_at\<close> is \<open>at()\<close> of a vector or array; \<open>liftR\<close> runs code that only throws;
  \<open>on_fst\<close> runs an action on the first of two objects; \<open>forR\<close> and \<open>mapR\<close> are
  loops whose body may throw.
\<close>

declare upt_rec_numeral [simp del]

lemma replicate_numeral: "replicate (numeral k) x = x # replicate (pred_numeral k) x"
  by (simp add: numeral_eq_Suc)

definition vec_at :: "'a list \<Rightarrow> nat \<Rightarrow> 'a result" where
  "vec_at xs i = (if i < length xs then Inr (xs ! i) else Inl Out_of_range)"

definition liftR :: "'a result \<Rightarrow> ('s, 'a) action" where
  "liftR r s = (r, s)"

definition on_fst :: "('s, 'a) action \<Rightarrow> ('s \<times> 't, 'a) action" where
  "on_fst m = (\<lambda>(s, t). case m s of (r, s') \<Rightarrow> (r, (s', t)))"

definition on_snd :: "('t, 'a) action \<Rightarrow> ('s \<times> 't, 'a) action" where
  "on_snd m = (\<lambda>(s, t). case m t of (r, t') \<Rightarrow> (r, (s, t')))"

fun forR :: "('a \<Rightarrow> unit result) \<Rightarrow> 'a list \<Rightarrow> unit result" where
  "forR f [] = Inr ()"
| "forR f (x # xs) = bindR (f x) (\<lambda>_. forR f xs)"

fun mapR :: "('a \<Rightarrow> 'b result) \<Rightarrow> 'a list \<Rightarrow> 'b list result" where
  "mapR f [] = Inr []"
| "mapR f (x # xs) = bindR (f x) (\<lambda>y. bindR (mapR f xs) (\<lambda>ys. Inr (y # ys)))"

fun forA :: "('a \<Rightarrow> ('s, unit) action) \<Rightarrow> 'a list \<Rightarrow> ('s, unit) action" where
  "forA f [] = ret ()"
| "forA f (x # xs) = andThen (f x) (\<lambda>_. forA f xs)"

fun foldR :: "('a \<Rightarrow> 'b \<Rightarrow> 'b result) \<Rightarrow> 'a list \<Rightarrow> 'b \<Rightarrow> 'b result" where
  "foldR f [] acc = Inr acc"
| "foldR f (x # xs) acc = bindR (f x acc) (foldR f xs)"

definition use_ptr :: "'a option \<Rightarrow> 'a result" where
  \<comment> \<open>\<open>UsePtr\<close> aborts on a null pointer\<close>
  "use_ptr p = (case p of None \<Rightarrow> Inl Abort | Some x \<Rightarrow> Inr x)"

lemma use_ptr_simps [simp]: "use_ptr (Some x) = Inr x" "use_ptr None = Inl Abort"
  by (simp_all add: use_ptr_def)

lemma foldR_append: "foldR f (xs @ ys) acc = bindR (foldR f xs acc) (foldR f ys)"
  by (induction xs arbitrary: acc) (auto simp: bindR_def split: sum.splits)

lemma foldR_cong: "(\<And>x acc. x \<in> set xs \<Longrightarrow> f x acc = g x acc) \<Longrightarrow> foldR f xs acc = foldR g xs acc"
  by (induction xs arbitrary: acc) (auto simp: bindR_def split: sum.splits)

lemma vec_at_simps [simp]: "i < length xs \<Longrightarrow> vec_at xs i = Inr (xs ! i)"
  "\<not> i < length xs \<Longrightarrow> vec_at xs i = Inl Out_of_range"
  by (simp_all add: vec_at_def)

lemma liftR_run [action_simps, simp]: "liftR r s = (r, s)"
  by (simp add: liftR_def)

lemma andThen_liftR [simp]: "andThen (liftR (Inr a)) f = f a" "andThen (liftR (Inl e)) f = raise e"
  by (simp_all add: fun_eq_iff andThen_def)

lemma on_fst_run [action_simps]: "m s = (r, s') \<Longrightarrow> on_fst m (s, t) = (r, (s', t))"
  by (simp add: on_fst_def)

lemma on_snd_run [action_simps]: "m t = (r, t') \<Longrightarrow> on_snd m (s, t) = (r, (s, t'))"
  by (simp add: on_snd_def)

lemma forR_Inr_iff: "forR f xs = Inr () \<longleftrightarrow> (\<forall>x \<in> set xs. f x = Inr ())"
  by (induction xs) (auto simp: bindR_eq_Inr_conv)

lemma forR_fails: "x \<in> set xs \<Longrightarrow> f x = Inl e \<Longrightarrow> \<exists>e'. forR f xs = Inl e'"
  by (induction xs) (auto simp: bindR_def split: sum.splits)

lemma forR_append: "forR f (xs @ ys) = bindR (forR f xs) (\<lambda>_. forR f ys)"
  by (induction xs) (auto simp: bindR_def split: sum.splits)

lemma forR_single_error:
  "(\<And>x. x \<in> set xs \<Longrightarrow> f x = Inr () \<or> f x = Inl e) \<Longrightarrow> forR f xs = Inr () \<or> forR f xs = Inl e"
  by (induction xs) fastforce+

lemma upt_split_at: "i \<le> k \<Longrightarrow> k < n \<Longrightarrow> [i..<n] = [i..<k] @ k # [Suc k..<n]"
  using upt_add_eq_append [of i k "n - k"] by (simp add: upt_conv_Cons)

lemma forR_split_at:
  "i \<le> k \<Longrightarrow> k < n \<Longrightarrow> forR f [i..<n] = bindR (forR f [i..<k]) (\<lambda>_. bindR (f k) (\<lambda>_. forR f [Suc k..<n]))"
  by (simp add: upt_split_at forR_append)

lemma forA_append: "forA f (xs @ ys) = andThen (forA f xs) (\<lambda>_. forA f ys)"
  by (induction xs) (auto simp: fun_eq_iff andThen_def split: prod.splits sum.splits)

lemma forA_split_at:
  "i \<le> k \<Longrightarrow> k < n \<Longrightarrow> forA f [i..<n] = andThen (forA f [i..<k]) (\<lambda>_. andThen (f k) (\<lambda>_. forA f [Suc k..<n]))"
  by (simp add: upt_split_at forA_append)

lemma forA_skip: "(\<And>x s. x \<in> set xs \<Longrightarrow> f x s = (Inr (), s)) \<Longrightarrow> forA f xs s = (Inr (), s)"
  by (induction xs) (auto simp: andThen_def)

lemma forA_single:
  assumes "i \<le> k" "k < n" and "\<And>x s. i \<le> x \<Longrightarrow> x < n \<Longrightarrow> x \<noteq> k \<Longrightarrow> f x s = (Inr (), s)"
  shows "forA f [i..<n] s = f k s"
proof -
  have "forA f [i..<k] s = (Inr (), s)" using assms by (intro forA_skip) auto
  moreover have "forA f [Suc k..<n] t = (Inr (), t)" for t using assms by (intro forA_skip) auto
  ultimately show ?thesis
    using assms(1,2) by (simp add: forA_split_at andThen_def split: prod.split sum.split)
qed

lemma mapR_snoc: "mapR f (xs @ [x]) = bindR (mapR f xs) (\<lambda>ys. bindR (f x) (\<lambda>y. Inr (ys @ [y])))"
  by (induction xs) (auto simp: bindR_def split: sum.splits)

lemma mapR_Inr_iff: "mapR f xs = Inr ys \<longleftrightarrow> list_all2 (\<lambda>x y. f x = Inr y) xs ys"
  by (induction xs arbitrary: ys) (auto simp: bindR_eq_Inr_conv list_all2_Cons1)

lemma keeps_forA:
  assumes "reflp R" and "transp R" and "\<And>x. x \<in> set xs \<Longrightarrow> keeps R (f x)"
  shows "keeps R (forA f xs)"
  using assms(3)
proof (induction xs)
  case Nil
  show ?case unfolding forA.simps by (rule keeps_ret [OF assms(1)])
next
  case (Cons x xs)
  then show ?case unfolding forA.simps by (auto intro: keeps_andThen [OF assms(2)])
qed

subsection \<open>Lists and words\<close>

lemma take_drop_append_exact [simp]:
  "take (length bs) (drop (length pre) (pre @ bs @ post)) = bs"
  by simp

lemma fold_comm_remove1:
  assumes "\<And>x y s. f x (f y s) = f y (f x s)" and "x \<in> set xs"
  shows "fold f xs s = fold f (remove1 x xs) (f x s)"
  using assms(2)
proof (induction xs arbitrary: s)
  case (Cons y ys)
  then show ?case
    by (cases "x = y") (auto simp: assms(1) [of y x])
qed simp

lemma unat_of_nat_u64 [simp]: "n < 2 ^ 64 \<Longrightarrow> unat (of_nat n :: u64) = n"
  by (simp add: unat_of_nat take_bit_eq_mod)

lemma ucast_ucast_byte: "(ucast (ucast x :: byte) :: u64) = take_bit 8 (x :: u64)"
  by (rule bit_word_eqI) (auto simp: bit_simps)

lemma ucast_mod_256: "(ucast (x mod 256 :: u64) :: byte) = ucast x"
proof -
  have "x mod 256 = take_bit 8 x" by (simp add: take_bit_eq_mod)
  then show ?thesis
    by (auto intro!: bit_word_eqI simp: bit_simps)
qed

lemma take_bit_split_u64:
  "take_bit (k + 8) (v :: u64) = push_bit k (take_bit 8 (drop_bit k v)) + take_bit k v"
proof -
  have "push_bit k (drop_bit k (take_bit (k + 8) v)) + take_bit k (take_bit (k + 8) v)
          = take_bit (k + 8) v"
    by (rule bits_ident)
  then show ?thesis by (simp add: drop_bit_take_bit min_def)
qed

lemma keeps_liftR: "reflp R \<Longrightarrow> keeps R (liftR r)"
  by (simp add: keeps_def reflpD)

end
