(* ===== verification/Trivialserialize.thy ===== *)
theory Trivialserialize
  imports Galaxy_Prelude
begin

text \<open>
  The serialisation library: \<open>class generator\<close> and \<open>class parser\<close> of
  \<^verbatim>\<open>src/src/trivialserialize.hpp\<close> and \<^verbatim>\<open>trivialserialize.cpp\<close>, with the
  \<open>obj_serialize\<close>/\<open>obj_deserialize\<close> free functions as the operations of the locale
  \<open>obj_codec\<close>. The generator is its buffer; the parser is the octets between
  \<open>m_data_begin\<close> and \<open>m_data_end\<close> and the offset of \<open>m_data_now\<close> in them.
\<close>

section \<open>The generator\<close>

record generator =
  m_str :: bytes

definition generator_init :: generator where
  "generator_init = \<lparr>m_str = []\<rparr>"

definition push_byte_u :: "byte \<Rightarrow> (generator, unit) action" where
  "push_byte_u c g = (Inr (), g\<lparr>m_str := m_str g @ [c]\<rparr>)"

definition push_byte_s :: "byte \<Rightarrow> (generator, unit) action" where
  \<comment> \<open>a \<open>signed char\<close> argument: the same octet is appended\<close>
  "push_byte_s c g = (Inr (), g\<lparr>m_str := m_str g @ [c]\<rparr>)"

definition push_bytes_n :: "nat \<Rightarrow> bytes \<Rightarrow> (generator, unit) action" where
  "push_bytes_n n data g =
     (if n = length data then (Inr (), g\<lparr>m_str := m_str g @ data\<rparr>) else (Inl Abort, g))"

definition get_max_value_of_S_octet_uint :: "nat \<Rightarrow> u64" where
  "get_max_value_of_S_octet_uint S =
     (push_bit ((S - 1) * 8) 0xFF) OR (push_bit ((S - 1) * 8) 1 - 1)"

text \<open>The loop of \<open>push_integer_u\<close>: \<open>n\<close> octets are left, \<open>divider\<close> selects the next.\<close>

fun push_integer_u_loop :: "nat \<Rightarrow> u64 \<Rightarrow> u64 \<Rightarrow> (generator, unit) action" where
  "push_integer_u_loop 0 value divider g = (Inr (), g)"
| "push_integer_u_loop (Suc n) value divider g =
     andThen (push_byte_u (ucast ((value div divider) mod 256)))
       (\<lambda>_. push_integer_u_loop n value (drop_bit 8 divider)) g"

definition push_integer_u :: "nat \<Rightarrow> u64 \<Rightarrow> (generator, unit) action" where
  "push_integer_u S value =
     (if (if S = 8 then value \<ge> 0xFFFFFFFFFFFFFFFF
          else value \<ge> get_max_value_of_S_octet_uint S)
      then raise Format_error_write_value_too_big
      else push_integer_u_loop S value (push_bit ((S - 1) * 8) 1))"

definition push_bytes_sizeoctets :: "nat \<Rightarrow> bytes \<Rightarrow> (generator, unit) action" where
  "push_bytes_sizeoctets S data =
     andThen (push_integer_u S (of_nat (length data)))
       (\<lambda>_ g. (Inr (), g\<lparr>m_str := m_str g @ data\<rparr>))"

definition push_bytes_sizeoctets_max :: "nat \<Rightarrow> bytes \<Rightarrow> nat \<Rightarrow> (generator, unit) action" where
  "push_bytes_sizeoctets_max S data max_size_for_assert =
     andThen (assertA (length data \<le> max_size_for_assert)) (\<lambda>_. push_bytes_sizeoctets S data)"

definition push_integer_uvarint :: "u64 \<Rightarrow> (generator, unit) action" where
  "push_integer_uvarint val =
     (if val < 0xFD then push_integer_u 1 val
      else if val < 0xFFFF then andThen (push_byte_u 0xFD) (\<lambda>_. push_integer_u 2 val)
      else if val < 0xFFFFFFFF then andThen (push_byte_u 0xFE) (\<lambda>_. push_integer_u 4 val)
      else andThen (push_byte_u 0xFF) (\<lambda>_. push_integer_u 8 val))"

definition push_varstring :: "bytes \<Rightarrow> (generator, unit) action" where
  "push_varstring data =
     andThen (push_integer_uvarint (of_nat (length data)))
       (\<lambda>_. push_bytes_n (length data) data)"

fun push_each :: "('a \<Rightarrow> (generator, unit) action) \<Rightarrow> 'a list \<Rightarrow> (generator, unit) action" where
  "push_each push_object [] = ret ()"
| "push_each push_object (x # xs) = andThen (push_object x) (\<lambda>_. push_each push_object xs)"

definition push_vector_object ::
    "('a \<Rightarrow> (generator, unit) action) \<Rightarrow> 'a list \<Rightarrow> (generator, unit) action" where
  "push_vector_object push_object data =
     andThen (push_integer_uvarint (of_nat (length data))) (\<lambda>_. push_each push_object data)"

definition push_vector_string :: "bytes list \<Rightarrow> (generator, unit) action" where
  "push_vector_string data =
     andThen (push_integer_uvarint (of_nat (length data))) (\<lambda>_. push_each push_varstring data)"

text \<open>A \<open>std::map\<close> is the list of its pairs in the iteration order, which is the key order.\<close>

definition push_map_object ::
    "('k \<Rightarrow> (generator, unit) action) \<Rightarrow> ('v \<Rightarrow> (generator, unit) action) \<Rightarrow>
     ('k \<times> 'v) list \<Rightarrow> (generator, unit) action" where
  "push_map_object push_key push_val data =
     andThen (push_integer_uvarint (of_nat (length data)))
       (\<lambda>_. push_each (\<lambda>(k, v). andThen (push_key k) (\<lambda>_. push_val v)) data)"

section \<open>The parser\<close>

record parser =
  m_data :: bytes   \<comment> \<open>the octets of \<open>[m_data_begin, m_data_end)\<close>\<close>
  m_now :: nat      \<comment> \<open>\<open>m_data_now - m_data_begin\<close>\<close>

definition parser_of_string :: "bytes \<Rightarrow> parser result" where
  \<comment> \<open>constructor \<open>tag_caller_must_keep_this_string_valid\<close>\<close>
  "parser_of_string data_str =
     (if data_str = [] then Inl Invalid_argument else Inr \<lparr>m_data = data_str, m_now = 0\<rparr>)"

definition parser_of_buffer :: "bytes \<Rightarrow> parser" where
  \<comment> \<open>constructor \<open>tag_caller_must_keep_this_buffer_valid\<close>\<close>
  "parser_of_buffer buf = \<lparr>m_data = buf, m_now = 0\<rparr>"

definition remaining :: "parser \<Rightarrow> nat" where
  \<comment> \<open>\<open>m_data_end - m_data_now\<close>\<close>
  "remaining p = length (m_data p) - m_now p"

definition is_end :: "parser \<Rightarrow> bool" where
  "is_end p \<longleftrightarrow> m_now p \<ge> length (m_data p)"

definition pop_byte_u :: "(parser, byte) action" where
  "pop_byte_u p =
     (if \<not> m_now p < length (m_data p) then (Inl Format_error_read, p)
      else if \<not> remaining p \<ge> 1 then (Inl Format_error_read, p)
      else (Inr (m_data p ! m_now p), p\<lparr>m_now := m_now p + 1\<rparr>))"

definition pop_byte_s :: "(parser, byte) action" where
  \<comment> \<open>the octet; the C++ caller reads it as \<open>signed char\<close>\<close>
  "pop_byte_s p =
     (if \<not> m_now p < length (m_data p) then (Inl Format_error_read, p)
      else if \<not> remaining p \<ge> 1 then (Inl Format_error_read, p)
      else (Inr (m_data p ! m_now p), p\<lparr>m_now := m_now p + 1\<rparr>))"

definition pop_byte_skip :: "byte \<Rightarrow> (parser, unit) action" where
  "pop_byte_skip expected =
     andThen pop_byte_u
       (\<lambda>was p. if was \<noteq> expected
                then (Inl Format_error_read_delimiter, p\<lparr>m_now := m_now p - 1\<rparr>)
                else (Inr (), p))"

definition pop_bytes_n :: "nat \<Rightarrow> (parser, bytes) action" where
  "pop_bytes_n n p =
     (if n = 0 then (Inr [], p)
      else if \<not> m_now p < length (m_data p) then (Inl Format_error_read, p)
      else if \<not> remaining p \<ge> n then (Inl Format_error_read, p)
      else (Inr (take n (drop (m_now p) (m_data p))), p\<lparr>m_now := m_now p + n\<rparr>))"

definition skip_bytes_n :: "nat \<Rightarrow> (parser, unit) action" where
  "skip_bytes_n n p =
     (if n = 0 then (Inr (), p)
      else if \<not> m_now p < length (m_data p) then (Inl Format_error_read, p)
      else if \<not> remaining p \<ge> n then (Inl Format_error_read, p)
      else (Inr (), p\<lparr>m_now := m_now p + n\<rparr>))"

fun pop_integer_u_loop :: "nat \<Rightarrow> u64 \<Rightarrow> u64 \<Rightarrow> (parser, u64) action" where
  "pop_integer_u_loop 0 value multiplier = ret value"
| "pop_integer_u_loop (Suc n) value multiplier =
     andThen pop_byte_u
       (\<lambda>this_byte. pop_integer_u_loop n (value + ucast this_byte * multiplier)
                     (drop_bit 8 multiplier))"

definition pop_integer_u :: "nat \<Rightarrow> (parser, u64) action" where
  "pop_integer_u S = pop_integer_u_loop S 0 (push_bit ((S - 1) * 8) 1)"

definition pop_bytes_sizeoctets :: "nat \<Rightarrow> (parser, bytes) action" where
  "pop_bytes_sizeoctets S = andThen (pop_integer_u S) (\<lambda>size. pop_bytes_n (unat size))"

definition pop_integer_uvarint :: "(parser, u64) action" where
  "pop_integer_uvarint =
     andThen pop_byte_u
       (\<lambda>first. if first < 0xFD then ret (ucast first)
                else if first = 0xFD then pop_integer_u 2
                else if first = 0xFE then pop_integer_u 4
                else andThen (assertA (first = 0xFF)) (\<lambda>_. pop_integer_u 8))"

definition SANE_MAX_SIZE_FOR_STRING :: nat where
  "SANE_MAX_SIZE_FOR_STRING = 50000000"

definition pop_varstring :: "(parser, bytes) action" where
  "pop_varstring =
     andThen pop_integer_uvarint
       (\<lambda>size. andThen (assertA (unat size \<le> SANE_MAX_SIZE_FOR_STRING))
                 (\<lambda>_. pop_bytes_n (unat size)))"

definition skip_varstring :: "(parser, unit) action" where
  "skip_varstring =
     andThen pop_integer_uvarint
       (\<lambda>size. andThen (assertA (unat size \<le> SANE_MAX_SIZE_FOR_STRING))
                 (\<lambda>_. skip_bytes_n (unat size)))"

fun pop_each :: "(parser, 'a) action \<Rightarrow> nat \<Rightarrow> (parser, 'a list) action" where
  "pop_each pop_object 0 = ret []"
| "pop_each pop_object (Suc n) =
     andThen pop_object (\<lambda>x. andThen (pop_each pop_object n) (\<lambda>xs. ret (x # xs)))"

definition pop_vector_object :: "(parser, 'a) action \<Rightarrow> (parser, 'a list) action" where
  "pop_vector_object pop_object =
     andThen pop_integer_uvarint (\<lambda>size. pop_each pop_object (unat size))"

definition pop_vector_string :: "(parser, bytes list) action" where
  "pop_vector_string =
     andThen pop_integer_uvarint (\<lambda>size. pop_each pop_varstring (unat size))"

text \<open>\<open>std::map::emplace\<close> under the key order \<open>lt\<close>; the caller has checked the key is new.\<close>

fun map_emplace :: "('k \<Rightarrow> 'k \<Rightarrow> bool) \<Rightarrow> 'k \<Rightarrow> 'v \<Rightarrow> ('k \<times> 'v) list \<Rightarrow> ('k \<times> 'v) list" where
  "map_emplace lt key value [] = [(key, value)]"
| "map_emplace lt key value ((k, v) # m) =
     (if lt key k then (key, value) # (k, v) # m
      else if lt k key then (k, v) # map_emplace lt key value m
      else (k, v) # m)"

fun map_find :: "('k \<Rightarrow> 'k \<Rightarrow> bool) \<Rightarrow> 'k \<Rightarrow> ('k \<times> 'v) list \<Rightarrow> 'v option" where
  "map_find lt key [] = None"
| "map_find lt key ((k, v) # m) =
     (if \<not> lt key k \<and> \<not> lt k key then Some v else map_find lt key m)"

fun pop_map_loop ::
    "('k \<Rightarrow> 'k \<Rightarrow> bool) \<Rightarrow> (parser, 'k) action \<Rightarrow> (parser, 'v) action \<Rightarrow> nat \<Rightarrow>
     ('k \<times> 'v) list \<Rightarrow> (parser, ('k \<times> 'v) list) action" where
  "pop_map_loop lt pop_key pop_val 0 m = ret m"
| "pop_map_loop lt pop_key pop_val (Suc n) m =
     andThen pop_key (\<lambda>key. andThen pop_val (\<lambda>value.
       if map_find lt key m \<noteq> None then raise Format_error_read_badformat
       else let m' = map_emplace lt key value m
            in if length m' \<noteq> length m + 1 then raise Format_error_read_badformat
               else pop_map_loop lt pop_key pop_val n m'))"

definition pop_map_object ::
    "('k \<Rightarrow> 'k \<Rightarrow> bool) \<Rightarrow> (parser, 'k) action \<Rightarrow> (parser, 'v) action \<Rightarrow>
     (parser, ('k \<times> 'v) list) action" where
  "pop_map_object lt pop_key pop_val =
     andThen pop_integer_uvarint (\<lambda>size.
       andThen (pop_map_loop lt pop_key pop_val (unat size) [])
         (\<lambda>m. if length m \<noteq> unat size then raise Format_error_read_badformat else ret m))"


section \<open>Reading into a caller's buffer\<close>

text \<open>
  \<open>pop_bytes_n_into_buff\<close> writes through a pointer, so it is modelled over a flat memory:
  \<open>base\<close> is the address of \<open>m_data_begin\<close> and \<open>buff\<close> the destination.
  \<open>copy_iter_and_check_no_overlap\<close> is the helper of \<^verbatim>\<open>src/src/stdplus/misc.hpp\<close>: its
  \<open>last\<close> is the address of the last element, and it copies up to and including it.
\<close>

type_synonym memory = "nat \<Rightarrow> byte"

definition test_ranges_overlap_inclusive_noempty :: "nat \<Rightarrow> nat \<Rightarrow> nat \<Rightarrow> nat \<Rightarrow> bool result" where
  "test_ranges_overlap_inclusive_noempty start1 last1 start2 last2 =
     (if \<not> start1 \<le> last1 then Inl Abort
      else if \<not> start2 \<le> last2 then Inl Abort
      else Inr (start1 \<le> last2 \<and> start2 \<le> last1))"

definition std_copy :: "nat \<Rightarrow> nat \<Rightarrow> nat \<Rightarrow> memory \<Rightarrow> memory" where
  \<comment> \<open>\<open>std::copy(first, end, d_first)\<close> on ranges that do not overlap\<close>
  "std_copy first end_it d_first mem =
     (\<lambda>a. if d_first \<le> a \<and> a < d_first + (end_it - first) then mem (first + (a - d_first)) else mem a)"

definition copy_iter_and_check_no_overlap ::
    "nat \<Rightarrow> nat \<Rightarrow> nat \<Rightarrow> nat \<Rightarrow> memory \<Rightarrow> memory result" where
  "copy_iter_and_check_no_overlap first last_it d_first n mem =
     (if \<not> first \<le> last_it then Inl Abort
      else if \<not> n > 0 then Inl Abort
      else bindR (test_ranges_overlap_inclusive_noempty first last_it d_first (d_first + n - 1))
        (\<lambda>overlap. if overlap then Inl Err_check_input
                   else Inr (std_copy first (last_it + 1) d_first mem)))"

definition pop_bytes_n_into_buff ::
    "nat \<Rightarrow> nat \<Rightarrow> nat \<Rightarrow> (parser \<times> memory, unit) action" where
  "pop_bytes_n_into_buff base n buff = (\<lambda>(p, mem).
     if \<not> m_now p < length (m_data p) then (Inl Format_error_read, (p, mem))
     else if \<not> remaining p \<ge> n then (Inl Format_error_read, (p, mem))
     else if buff = 0 then (Inl Abort, (p, mem))
     else
       let range1 = base + m_now p; p' = p\<lparr>m_now := m_now p + n\<rparr>; range2 = base + m_now p'
       in case copy_iter_and_check_no_overlap range1 range2 buff n mem of
            Inl e \<Rightarrow> (Inl e, (p', mem))
          | Inr mem' \<Rightarrow> (Inr (), (p', mem')))"

definition obj_deserialize_locked_string :: "nat \<Rightarrow> nat \<Rightarrow> (parser \<times> memory, bytes) action" where
  \<comment> \<open>\<open>buff\<close> is the memory of the new \<open>locked_string ret(size)\<close>; its octets are returned\<close>
  "obj_deserialize_locked_string base buff = (\<lambda>(p, mem).
     case pop_integer_uvarint p of
       (Inl e, p') \<Rightarrow> (Inl e, (p', mem))
     | (Inr n, p') \<Rightarrow>
         (case pop_bytes_n_into_buff base (unat n) buff (p', mem) of
            (Inl e, s) \<Rightarrow> (Inl e, s)
          | (Inr _, (p'', mem')) \<Rightarrow> (Inr (map mem' [buff..<buff + unat n]), (p'', mem'))))"

definition obj_serialize_locked_string :: "bytes \<Rightarrow> (generator, unit) action" where
  "obj_serialize_locked_string data =
     andThen (push_integer_uvarint (of_nat (length data))) (\<lambda>_. push_bytes_n (length data) data)"

text \<open>The value and parser effect of reading a \<open>locked_string\<close>, with the memory left out.\<close>

definition pop_locked_string :: "(parser, bytes) action" where
  "pop_locked_string =
     andThen pop_integer_uvarint (\<lambda>n p.
       if \<not> m_now p < length (m_data p) then (Inl Format_error_read, p)
       else if \<not> remaining p \<ge> unat n then (Inl Format_error_read, p)
       else if unat n = 0 then (Inl Abort, p)
       else (Inr (take (unat n) (drop (m_now p) (m_data p))), p\<lparr>m_now := m_now p + unat n\<rparr>))"

section \<open>What an operation appends and consumes\<close>

definition writes :: "(generator, unit) action \<Rightarrow> bytes \<Rightarrow> bool" where
  "writes m bs \<longleftrightarrow> (\<forall>g. m g = (Inr (), g\<lparr>m_str := m_str g @ bs\<rparr>))"

definition parser_at :: "bytes \<Rightarrow> bytes \<Rightarrow> parser" where
  "parser_at pre rest = \<lparr>m_data = pre @ rest, m_now = length pre\<rparr>"

definition reads :: "(parser, 'a) action \<Rightarrow> bytes \<Rightarrow> 'a \<Rightarrow> bool" where
  "reads m bs x \<longleftrightarrow>
     (\<forall>pre post. m (parser_at pre (bs @ post)) = (Inr x, parser_at (pre @ bs) post))"

lemma writesD: "writes m bs \<Longrightarrow> m g = (Inr (), g\<lparr>m_str := m_str g @ bs\<rparr>)"
  by (simp add: writes_def)

lemma readsD:
  "reads m bs x \<Longrightarrow> m (parser_at pre (bs @ post)) = (Inr x, parser_at (pre @ bs) post)"
  by (simp add: reads_def)

lemma writes_ret [codec_intros]: "writes (ret ()) []"
  by (simp add: writes_def)

lemma writes_andThen [codec_intros]:
  "writes m as \<Longrightarrow> writes (f ()) bs \<Longrightarrow> writes (andThen m f) (as @ bs)"
  by (simp add: writes_def)

lemma reads_ret [codec_intros]: "reads (ret x) [] x"
  by (simp add: reads_def)

lemma reads_andThen [codec_intros]:
  assumes "reads m as x" and "reads (f x) bs y"
  shows "reads (andThen m f) (as @ bs) y"
  unfolding reads_def
proof (intro allI)
  fix pre post
  have "m (parser_at pre (as @ bs @ post)) = (Inr x, parser_at (pre @ as) (bs @ post))"
    by (rule readsD [OF assms(1)])
  then show "andThen m f (parser_at pre ((as @ bs) @ post))
             = (Inr y, parser_at (pre @ as @ bs) post)"
    using readsD [OF assms(2), of "pre @ as" post] by simp
qed

lemma reads_andThen_ret: "reads m bs x \<Longrightarrow> reads (andThen m (\<lambda>x. ret (f x))) bs (f x)"
  using reads_andThen [of m bs x "\<lambda>x. ret (f x)" "[]"] by (simp add: reads_ret)

lemma reads_assertA: "b \<Longrightarrow> reads (f ()) bs y \<Longrightarrow> reads (andThen (assertA b) f) bs y"
  by (simp add: reads_def)

lemma parser_of_buffer_at: "parser_of_buffer bs = parser_at [] bs"
  by (simp add: parser_of_buffer_def parser_at_def)

lemma parser_of_string_at: "bs \<noteq> [] \<Longrightarrow> parser_of_string bs = Inr (parser_at [] bs)"
  by (simp add: parser_of_string_def parser_at_def)

lemma is_end_parser_at [simp]: "is_end (parser_at pre rest) \<longleftrightarrow> rest = []"
  by (auto simp: is_end_def parser_at_def)

lemma writes_push_byte_u [codec_intros]: "writes (push_byte_u c) [c]"
  by (simp add: writes_def push_byte_u_def)

lemma reads_pop_byte_u [codec_intros]: "reads pop_byte_u [c] c"
  by (simp add: reads_def pop_byte_u_def parser_at_def remaining_def nth_append)

lemma reads_pop_byte_skip [codec_intros]: "reads (pop_byte_skip c) [c] ()"
  using reads_pop_byte_u by (simp add: reads_def pop_byte_skip_def)

lemma writes_push_bytes_n [codec_intros]: "n = length bs \<Longrightarrow> writes (push_bytes_n n bs) bs"
  by (simp add: writes_def push_bytes_n_def)

lemma reads_pop_bytes_n [codec_intros]: "n = length bs \<Longrightarrow> reads (pop_bytes_n n) bs bs"
  by (auto simp: reads_def pop_bytes_n_def parser_at_def remaining_def)

lemma reads_skip_bytes_n [codec_intros]: "n = length bs \<Longrightarrow> reads (skip_bytes_n n) bs ()"
  by (auto simp: reads_def skip_bytes_n_def parser_at_def remaining_def)

section \<open>Fixed-width integers\<close>

text \<open>Big-endian octets: the reference for the division loop and the multiplication loop.\<close>

fun be_octets :: "nat \<Rightarrow> u64 \<Rightarrow> bytes" where
  "be_octets 0 v = []"
| "be_octets (Suc n) v = ucast (drop_bit (8 * n) v) # be_octets n v"

lemma length_be_octets [simp]: "length (be_octets n v) = n"
  by (induction n) auto

lemma drop_bit_8_pow:
  assumes "n < 8" and "n \<noteq> 0"
  shows "drop_bit 8 (push_bit (8 * n) (1 :: u64)) = push_bit ((n - 1) * 8) 1"
proof -
  have "n \<in> {1, 2, 3, 4, 5, 6, 7}" using assms by auto
  then show ?thesis by auto
qed

lemma writes_push_integer_u_loop:
  "n \<le> 8 \<Longrightarrow> writes (push_integer_u_loop n v (push_bit ((n - 1) * 8) 1)) (be_octets n v)"
proof (induction n)
  case 0
  show ?case by (simp add: writes_def)
next
  case (Suc n)
  let ?d = "push_bit (8 * n) (1 :: u64)"
  have next_d: "push_integer_u_loop n v (drop_bit 8 ?d)
      = push_integer_u_loop n v (push_bit ((n - 1) * 8) 1)"
  proof (cases "n = 0")
    case True
    then show ?thesis by (simp add: fun_eq_iff)
  next
    case False
    with Suc.prems have "drop_bit 8 ?d = push_bit ((n - 1) * 8) 1"
      by (intro drop_bit_8_pow) auto
    then show ?thesis by (rule arg_cong)
  qed
  have "writes (push_byte_u (ucast ((v div ?d) mod 256))) [ucast (drop_bit (8 * n) v)]"
    using Suc.prems writes_push_byte_u by (simp add: ucast_mod_256 drop_bit_eq_div)
  moreover have "writes (push_integer_u_loop n v (drop_bit 8 ?d)) (be_octets n v)"
    using Suc by (simp only: next_d)
  ultimately show ?case
    using writes_andThen by (fastforce simp: writes_def mult.commute)
qed

lemma reads_pop_integer_u_loop:
  "n \<le> 8 \<Longrightarrow>
   reads (pop_integer_u_loop n acc (push_bit ((n - 1) * 8) 1)) (be_octets n v)
     (acc + take_bit (8 * n) v)"
proof (induction n arbitrary: acc)
  case 0
  show ?case by (simp add: reads_def)
next
  case (Suc n)
  let ?d = "push_bit (8 * n) (1 :: u64)"
  let ?b = "ucast (drop_bit (8 * n) v) :: byte"
  have next_d: "pop_integer_u_loop n a (drop_bit 8 ?d)
      = pop_integer_u_loop n a (push_bit ((n - 1) * 8) 1)" for a
  proof (cases "n = 0")
    case True
    then show ?thesis by simp
  next
    case False
    with Suc.prems have "drop_bit 8 ?d = push_bit ((n - 1) * 8) 1"
      by (intro drop_bit_8_pow) auto
    then show ?thesis by (rule arg_cong)
  qed
  have sum: "acc + ucast ?b * ?d + take_bit (8 * n) v = acc + take_bit (8 * Suc n) v"
    using take_bit_split_u64 [of "8 * n" v]
    by (simp add: ucast_ucast_byte push_bit_eq_mult algebra_simps)
  have "reads (pop_integer_u_loop n (acc + ucast ?b * ?d) (drop_bit 8 ?d)) (be_octets n v)
      (acc + take_bit (8 * Suc n) v)"
    using Suc.IH [of "acc + ucast ?b * ?d"] Suc.prems by (simp only: next_d sum)
  then have "reads (andThen pop_byte_u (\<lambda>b. pop_integer_u_loop n (acc + ucast b * ?d) (drop_bit 8 ?d)))
      ([?b] @ be_octets n v) (acc + take_bit (8 * Suc n) v)"
    by (intro reads_andThen [where x = ?b] reads_pop_byte_u)
  then show ?case by (simp add: mult.commute)
qed

lemma reads_pop_integer_u:
  assumes "S \<le> 8" and "v < 2 ^ (8 * S) \<or> S = 8"
  shows "reads (pop_integer_u S) (be_octets S v) v"
proof -
  have "take_bit (8 * S) v = v"
    using assms less_mask_eq [of v "8 * S"] by (auto simp: take_bit_word_eq_self simp flip: take_bit_eq_mask)
  then show ?thesis
    using reads_pop_integer_u_loop [OF assms(1), of 0 v] by (simp add: pop_integer_u_def)
qed


lemma get_max_value_eq:
  assumes "0 < S" and "S < 8"
  shows "get_max_value_of_S_octet_uint S = 2 ^ (8 * S) - 1"
proof -
  have "S \<in> {1, 2, 3, 4, 5, 6, 7}" using assms by auto
  then show ?thesis by (auto simp: get_max_value_of_S_octet_uint_def)
qed

text \<open>The guard of \<open>push_integer_u\<close> rejects the largest value of the width as well.\<close>

lemma push_integer_u_cases:
  assumes "0 < S" and "S \<le> 8"
  shows "push_integer_u S v g =
    (if unat v < 2 ^ (8 * S) - 1 then (Inr (), g\<lparr>m_str := m_str g @ be_octets S v\<rparr>)
     else (Inl Format_error_write_value_too_big, g))"
proof -
  have guard: "(if S = 8 then v \<ge> 0xFFFFFFFFFFFFFFFF else v \<ge> get_max_value_of_S_octet_uint S)
      \<longleftrightarrow> \<not> unat v < 2 ^ (8 * S) - 1"
  proof (cases "S = 8")
    case True
    then show ?thesis by (simp add: word_le_nat_alt not_less)
  next
    case False
    with assms have "S \<in> {1, 2, 3, 4, 5, 6, 7}" by auto
    then show ?thesis
      by (auto simp: get_max_value_eq word_le_nat_alt not_less)
  qed
  show ?thesis
    unfolding push_integer_u_def guard
    using writesD [OF writes_push_integer_u_loop [OF assms(2)], of v g] by simp
qed

lemma writes_push_integer_u [codec_intros]:
  "0 < S \<Longrightarrow> S \<le> 8 \<Longrightarrow> unat v < 2 ^ (8 * S) - 1 \<Longrightarrow> writes (push_integer_u S v) (be_octets S v)"
  by (simp add: writes_def push_integer_u_cases)

section \<open>Variable-width integers and strings\<close>

text \<open>The octets of a CompactSize integer, the reference for the four cases of the code.\<close>

definition uvarint_octets :: "u64 \<Rightarrow> bytes" where
  "uvarint_octets v =
     (if v < 0xFD then be_octets 1 v
      else if v < 0xFFFF then 0xFD # be_octets 2 v
      else if v < 0xFFFFFFFF then 0xFE # be_octets 4 v
      else 0xFF # be_octets 8 v)"

lemma writes_prefix_byte:
  "writes m bs \<Longrightarrow> writes (andThen (push_byte_u c) (\<lambda>_. m)) (c # bs)"
  using writes_andThen [OF writes_push_byte_u] by fastforce

lemma unat_not_max_u64:
  assumes "(v :: u64) \<noteq> 0xFFFFFFFFFFFFFFFF"
  shows "unat v < 18446744073709551615"
proof -
  have "unat v \<noteq> unat (0xFFFFFFFFFFFFFFFF :: u64)" using assms by (metis word_unat_eq_iff)
  moreover have "unat v < 2 ^ 64" using unsigned_less [of v] by simp
  ultimately show ?thesis by simp
qed

lemma writes_push_integer_uvarint [codec_intros]:
  "v \<noteq> 0xFFFFFFFFFFFFFFFF \<Longrightarrow> writes (push_integer_uvarint v) (uvarint_octets v)"
  unfolding push_integer_uvarint_def uvarint_octets_def
  by (auto intro!: writes_push_integer_u writes_prefix_byte simp: word_less_nat_alt unat_not_max_u64
      simp del: be_octets.simps)

lemma reads_pop_integer_uvarint [codec_intros]: "reads pop_integer_uvarint (uvarint_octets v) v"
proof -
  let ?rest = "\<lambda>first. if first < 0xFD then ret (ucast first)
                else if first = 0xFD then pop_integer_u 2
                else if first = 0xFE then pop_integer_u 4
                else andThen (assertA (first = (0xFF :: byte))) (\<lambda>_. pop_integer_u 8)"
  have first: "reads pop_integer_uvarint (c # bs) v" if "reads (?rest c) bs v" for c bs
    using reads_andThen [where f = ?rest, OF reads_pop_byte_u that]
    by (simp add: pop_integer_uvarint_def)
  consider "v < 0xFD" | "v \<ge> 0xFD" "v < 0xFFFF" | "v \<ge> 0xFFFF" "v < 0xFFFFFFFF" | "v \<ge> 0xFFFFFFFF"
    by force
  then show ?thesis
  proof cases
    case 1
    then have "unat v < 253" by (simp add: word_less_nat_alt)
    then have small: "take_bit 8 v = v" "unat (ucast v :: byte) < 253"
      using less_mask_eq [of v 8]
      by (simp_all add: word_less_nat_alt unsigned_ucast_eq take_bit_nat_def flip: take_bit_eq_mask)
    then have "reads (?rest (ucast v :: byte)) [] v"
      using reads_ret [of v] by (simp add: word_less_nat_alt ucast_ucast_byte)
    from first [OF this] 1 show ?thesis by (simp add: uvarint_octets_def)
  next
    case 2
    have "reads (?rest 0xFD) (be_octets 2 v) v"
      using reads_pop_integer_u [of 2 v] 2 by (simp add: word_less_nat_alt del: be_octets.simps)
    from first [OF this] 2 show ?thesis
      by (simp add: uvarint_octets_def word_less_nat_alt word_le_nat_alt del: be_octets.simps)
  next
    case 3
    have "reads (?rest 0xFE) (be_octets 4 v) v"
      using reads_pop_integer_u [of 4 v] 3 by (simp add: word_less_nat_alt del: be_octets.simps)
    from first [OF this] 3 show ?thesis
      by (simp add: uvarint_octets_def word_less_nat_alt word_le_nat_alt del: be_octets.simps)
  next
    case 4
    have "reads (?rest 0xFF) (be_octets 8 v) v"
      using reads_assertA [of True "\<lambda>_. pop_integer_u 8", OF _ reads_pop_integer_u [of 8 v]]
      by (simp del: be_octets.simps)
    from first [OF this] 4 show ?thesis
      by (simp add: uvarint_octets_def word_less_nat_alt word_le_nat_alt del: be_octets.simps)
  qed
qed

lemma length_uvarint_octets: "length (uvarint_octets v) \<in> {1, 3, 5, 9}"
  by (simp add: uvarint_octets_def)

definition varstring_octets :: "bytes \<Rightarrow> bytes" where
  "varstring_octets data = uvarint_octets (of_nat (length data)) @ data"

definition fits_size_t :: "'a list \<Rightarrow> bool" where
  \<comment> \<open>every C++ container: \<open>max_size()\<close> is below \<open>2^63\<close>\<close>
  "fits_size_t xs \<longleftrightarrow> length xs < 2 ^ 63"

lemma fits_size_t_word:
  assumes "fits_size_t xs"
  shows "(of_nat (length xs) :: u64) \<noteq> 0xFFFFFFFFFFFFFFFF" and "unat (of_nat (length xs) :: u64) = length xs"
proof -
  have l: "length xs < 9223372036854775808" using assms by (simp add: fits_size_t_def)
  then show "unat (of_nat (length xs) :: u64) = length xs" by simp
  then have "unat (of_nat (length xs) :: u64) \<noteq> unat (0xFFFFFFFFFFFFFFFF :: u64)" using l by simp
  then show "(of_nat (length xs) :: u64) \<noteq> 0xFFFFFFFFFFFFFFFF" by metis
qed

lemma writes_push_varstring [codec_intros]:
  "fits_size_t data \<Longrightarrow> writes (push_varstring data) (varstring_octets data)"
  unfolding push_varstring_def varstring_octets_def
  by (intro codec_intros fits_size_t_word refl)

lemma reads_varstring_body:
  assumes "length data \<le> SANE_MAX_SIZE_FOR_STRING" and "reads (f (length data)) data x"
  shows "reads (andThen pop_integer_uvarint
    (\<lambda>size. andThen (assertA (unat size \<le> SANE_MAX_SIZE_FOR_STRING)) (\<lambda>_. f (unat size))))
    (varstring_octets data) x"
proof -
  have "fits_size_t data" using assms(1) by (simp add: fits_size_t_def SANE_MAX_SIZE_FOR_STRING_def)
  then have u: "unat (of_nat (length data) :: u64) = length data" by (rule fits_size_t_word)
  show ?thesis
    unfolding varstring_octets_def
    by (rule reads_andThen [OF reads_pop_integer_uvarint]) (simp only: u reads_assertA assms)
qed

lemma reads_pop_varstring [codec_intros]:
  "length data \<le> SANE_MAX_SIZE_FOR_STRING \<Longrightarrow> reads pop_varstring (varstring_octets data) data"
  unfolding pop_varstring_def by (intro reads_varstring_body codec_intros refl)

lemma reads_skip_varstring [codec_intros]:
  "length data \<le> SANE_MAX_SIZE_FOR_STRING \<Longrightarrow> reads skip_varstring (varstring_octets data) ()"
  unfolding skip_varstring_def by (intro reads_varstring_body codec_intros refl)


section \<open>Serialisable types\<close>

text \<open>
  The contract between the containers and the \<open>obj_serialize\<close>/\<open>obj_deserialize\<close>
  specialisations they call: on the values \<open>ok\<close>, serialising appends \<open>octets x\<close>
  and deserialising consumes exactly them and gives \<open>x\<close> back.
\<close>

definition vector_octets :: "('a \<Rightarrow> bytes) \<Rightarrow> 'a list \<Rightarrow> bytes" where
  "vector_octets octets xs = uvarint_octets (of_nat (length xs)) @ concat (map octets xs)"

locale obj_codec =
  fixes obj_serialize :: "'a \<Rightarrow> (generator, unit) action"
    and obj_deserialize :: "(parser, 'a) action"
    and octets :: "'a \<Rightarrow> bytes"
    and ok :: "'a \<Rightarrow> bool"
  assumes ser: "ok x \<Longrightarrow> writes (obj_serialize x) (octets x)"
    and des: "ok x \<Longrightarrow> reads obj_deserialize (octets x) x"
begin

lemma writes_push_each:
  "list_all ok xs \<Longrightarrow> writes (push_each obj_serialize xs) (concat (map octets xs))"
proof (induction xs)
  case Nil
  show ?case by (simp add: writes_def)
next
  case (Cons x xs)
  then show ?case by (simp add: writes_andThen ser)
qed

lemma reads_pop_each:
  "list_all ok xs \<Longrightarrow> reads (pop_each obj_deserialize (length xs)) (concat (map octets xs)) xs"
proof (induction xs)
  case Nil
  show ?case by (simp add: reads_def)
next
  case (Cons x xs)
  then have "reads (pop_each obj_deserialize (length xs)) (concat (map octets xs)) xs" by simp
  then have "reads (andThen (pop_each obj_deserialize (length xs)) (\<lambda>xs. ret (x # xs)))
      (concat (map octets xs)) (x # xs)"
    by (rule reads_andThen_ret)
  with Cons.prems show ?case
    by (auto intro!: reads_andThen [where x = x] simp: des)
qed

lemma writes_push_vector_object:
  "fits_size_t xs \<Longrightarrow> list_all ok xs \<Longrightarrow> writes (push_vector_object obj_serialize xs) (vector_octets octets xs)"
  unfolding push_vector_object_def vector_octets_def
  by (intro codec_intros fits_size_t_word writes_push_each)

lemma reads_pop_vector_object:
  assumes "fits_size_t xs" and "list_all ok xs"
  shows "reads (pop_vector_object obj_deserialize) (vector_octets octets xs) xs"
  unfolding pop_vector_object_def vector_octets_def
  by (rule reads_andThen [OF reads_pop_integer_uvarint])
    (simp only: fits_size_t_word(2) [OF assms(1)] reads_pop_each [OF assms(2)])

end

text \<open>A vector of serialisable values is serialisable: the interface nests.\<close>

locale obj_vector = obj_codec

sublocale obj_vector \<subseteq> vec: obj_codec "push_vector_object obj_serialize"
  "pop_vector_object obj_deserialize" "vector_octets octets"
  "\<lambda>xs. fits_size_t xs \<and> list_all ok xs"
  by unfold_locales (auto intro: writes_push_vector_object reads_pop_vector_object)

text \<open>The interpretations: \<open>std::string\<close>, \<open>char\<close>, and with them \<open>std::vector\<close> of each.\<close>

interpretation str: obj_vector push_varstring pop_varstring varstring_octets
  "\<lambda>s. length s \<le> SANE_MAX_SIZE_FOR_STRING"
  by unfold_locales
    (auto intro!: writes_push_varstring reads_pop_varstring
      simp: fits_size_t_def SANE_MAX_SIZE_FOR_STRING_def)

interpretation chr: obj_vector push_byte_u pop_byte_u "\<lambda>c. [c]" "\<lambda>_. True"
  by unfold_locales (auto intro: codec_intros)

lemma push_vector_string_eq: "push_vector_string = push_vector_object push_varstring"
  by (simp add: push_vector_string_def push_vector_object_def fun_eq_iff)

lemma pop_vector_string_eq: "pop_vector_string = pop_vector_object pop_varstring"
  by (simp add: pop_vector_string_def pop_vector_object_def)


subsection \<open>Maps\<close>

text \<open>
  A \<open>std::map\<close> keeps its pairs sorted by the key order, so a serialised map lists them in
  that order and the parser appends every one at the end. \<open>lt\<close> is the key order.
\<close>

locale obj_map =
  key: obj_codec push_key pop_key koctets kok + val: obj_codec push_val pop_val voctets vok
  for push_key :: "'k \<Rightarrow> (generator, unit) action" and pop_key koctets kok
    and push_val :: "'v \<Rightarrow> (generator, unit) action" and pop_val voctets vok +
  fixes lt :: "'k \<Rightarrow> 'k \<Rightarrow> bool"
  assumes lt_asym: "lt a b \<Longrightarrow> \<not> lt b a"
    and lt_trans: "lt a b \<Longrightarrow> lt b c \<Longrightarrow> lt a c"
begin

lemma map_find_end:
  "sorted_wrt lt (map fst (m @ [(k, v)])) \<Longrightarrow> map_find lt k m = None"
  by (induction m) (auto dest: lt_asym)

lemma map_emplace_end:
  "sorted_wrt lt (map fst (m @ [(k, v)])) \<Longrightarrow> map_emplace lt k v m = m @ [(k, v)]"
  by (induction m) (auto dest: lt_asym)

lemma reads_pop_map_loop:
  assumes "sorted_wrt lt (map fst (m @ kvs))" and "\<forall>(k, v) \<in> set kvs. kok k \<and> vok v"
  shows "reads (pop_map_loop lt pop_key pop_val (length kvs) m)
           (concat (map (\<lambda>(k, v). koctets k @ voctets v) kvs)) (m @ kvs)"
  using assms
proof (induction kvs arbitrary: m)
  case Nil
  show ?case by (simp add: reads_def)
next
  case (Cons kv kvs)
  obtain k v where kv: "kv = (k, v)" by force
  have s: "sorted_wrt lt (map fst (m @ [(k, v)]))"
    using Cons.prems(1) kv by (auto simp: sorted_wrt_append)
  have rest: "reads (pop_map_loop lt pop_key pop_val (length kvs) (m @ [(k, v)]))
      (concat (map (\<lambda>(k, v). koctets k @ voctets v) kvs)) (m @ kv # kvs)"
    using Cons.IH [of "m @ [(k, v)]"] Cons.prems kv by simp
  show ?case
    unfolding kv using Cons.prems(2) rest
    by (auto intro!: reads_andThen [where x = k] reads_andThen [where x = v]
        simp: kv key.des val.des map_find_end [OF s] map_emplace_end [OF s])
qed

definition map_octets :: "('k \<times> 'v) list \<Rightarrow> bytes" where
  "map_octets m = uvarint_octets (of_nat (length m))
                    @ concat (map (\<lambda>(k, v). koctets k @ voctets v) m)"

definition map_ok :: "('k \<times> 'v) list \<Rightarrow> bool" where
  "map_ok m \<longleftrightarrow> fits_size_t m \<and> sorted_wrt lt (map fst m) \<and> (\<forall>(k, v) \<in> set m. kok k \<and> vok v)"

lemma writes_push_map_object:
  assumes "map_ok m"
  shows "writes (push_map_object push_key push_val m) (map_octets m)"
proof -
  have "writes (push_each (\<lambda>(k, v). andThen (push_key k) (\<lambda>_. push_val v)) m)
      (concat (map (\<lambda>(k, v). koctets k @ voctets v) m))"
    if "\<forall>(k, v) \<in> set m. kok k \<and> vok v" for m
    using that
  proof (induction m)
    case Nil
    show ?case by (simp add: writes_def)
  next
    case (Cons kv m)
    then show ?case by (cases kv) (simp add: writes_andThen key.ser val.ser del: append_assoc)
  qed
  then show ?thesis
    unfolding push_map_object_def map_octets_def using assms
    by (auto intro!: codec_intros fits_size_t_word simp: map_ok_def)
qed

lemma reads_pop_map_object:
  assumes "map_ok m"
  shows "reads (pop_map_object lt pop_key pop_val) (map_octets m) m"
proof -
  have u: "unat (of_nat (length m) :: u64) = length m"
    using assms fits_size_t_word(2) by (auto simp: map_ok_def)
  have "reads (pop_map_loop lt pop_key pop_val (length m) [])
      (concat (map (\<lambda>(k, v). koctets k @ voctets v) m)) m"
    using reads_pop_map_loop [of "[]" m] assms by (auto simp: map_ok_def)
  then have "reads (andThen (pop_map_loop lt pop_key pop_val (length m) [])
        (\<lambda>m'. if length m' \<noteq> length m then raise Format_error_read_badformat else ret m'))
      (concat (map (\<lambda>(k, v). koctets k @ voctets v) m) @ []) m"
    by (rule reads_andThen) (simp add: reads_def)
  then show ?thesis
    unfolding pop_map_object_def map_octets_def
    by (intro reads_andThen [OF reads_pop_integer_uvarint]) (simp only: u append_Nil2)
qed

end


text \<open>
  The maps the code serialises: \<open>std::map<std::string, std::string>\<close>, and
  \<open>t_kexasym\<close> of the crypto streams, \<open>std::map<char, std::vector<std::string>>\<close>, whose
  keys are ordered as the signed \<open>char\<close> of the x86 targets.
\<close>

definition char_less :: "byte \<Rightarrow> byte \<Rightarrow> bool" where
  "char_less a b \<longleftrightarrow> sint a < sint b"

interpretation strmap: obj_map
  push_varstring pop_varstring varstring_octets "\<lambda>s. length s \<le> SANE_MAX_SIZE_FOR_STRING"
  push_varstring pop_varstring varstring_octets "\<lambda>s. length s \<le> SANE_MAX_SIZE_FOR_STRING"
  "(<) :: bytes \<Rightarrow> bytes \<Rightarrow> bool"
  by unfold_locales auto

interpretation kexmap: obj_map
  push_byte_u pop_byte_u "\<lambda>c. [c]" "\<lambda>_. True"
  push_vector_string pop_vector_string "vector_octets varstring_octets"
  "\<lambda>xs. fits_size_t xs \<and> list_all (\<lambda>s. length s \<le> SANE_MAX_SIZE_FOR_STRING) xs"
  char_less
proof unfold_locales
  fix xs :: "bytes list"
  assume "fits_size_t xs \<and> list_all (\<lambda>s. length s \<le> SANE_MAX_SIZE_FOR_STRING) xs"
  then show "writes (push_vector_string xs) (vector_octets varstring_octets xs)"
    and "reads pop_vector_string (vector_octets varstring_octets xs) xs"
    unfolding push_vector_string_eq pop_vector_string_eq by (auto intro: str.vec.ser str.vec.des)
qed (auto simp: char_less_def)


section \<open>Memory safety of the parser\<close>

text \<open>
  The class invariant of \<open>parser\<close> ("current position must be in range begin..end") and the
  frame of every operation: the data is never written and the position never moves back, on
  the normal path and on the exceptional one.
\<close>

definition parser_wf :: "parser \<Rightarrow> bool" where
  "parser_wf p \<longleftrightarrow> m_now p \<le> length (m_data p)"

definition advances :: "parser \<Rightarrow> parser \<Rightarrow> bool" where
  "advances p q \<longleftrightarrow> m_data q = m_data p \<and> m_now p \<le> m_now q \<and> (parser_wf p \<longrightarrow> parser_wf q)"

named_theorems parser_safe \<open>operations that keep the parser invariant\<close>

lemma advances_reflp: "reflp advances"
  by (auto simp: reflp_def advances_def)

lemma advances_transp: "transp advances"
  by (auto simp: transp_def advances_def)

lemmas safe_steps =
  keeps_andThen [OF advances_transp] keeps_ret [OF advances_reflp]
  keeps_raise [OF advances_reflp] keeps_assertA [OF advances_reflp]

lemma safe_if: "keeps R a \<Longrightarrow> keeps R b \<Longrightarrow> keeps R (if c then a else b)"
  by simp

lemma safe_pop_byte_u [parser_safe]: "keeps advances pop_byte_u"
  by (rule keepsI) (auto simp: pop_byte_u_def advances_def parser_wf_def)

lemma safe_pop_byte_s [parser_safe]: "keeps advances pop_byte_s"
  by (rule keepsI) (auto simp: pop_byte_s_def advances_def parser_wf_def)

lemma safe_pop_byte_skip [parser_safe]: "keeps advances (pop_byte_skip c)"
  by (rule keepsI)
    (auto simp: pop_byte_skip_def pop_byte_u_def andThen_def advances_def parser_wf_def)

lemma safe_pop_bytes_n [parser_safe]: "keeps advances (pop_bytes_n n)"
  by (rule keepsI) (auto simp: pop_bytes_n_def advances_def parser_wf_def remaining_def)

lemma safe_skip_bytes_n [parser_safe]: "keeps advances (skip_bytes_n n)"
  by (rule keepsI) (auto simp: skip_bytes_n_def advances_def parser_wf_def remaining_def)

lemma safe_pop_integer_u_loop [parser_safe]: "keeps advances (pop_integer_u_loop n v m)"
  by (induction n v m rule: pop_integer_u_loop.induct)
    (simp_all only: pop_integer_u_loop.simps safe_steps parser_safe)

lemma safe_pop_integer_u [parser_safe]: "keeps advances (pop_integer_u S)"
  by (simp add: pop_integer_u_def parser_safe)

lemma safe_pop_bytes_sizeoctets [parser_safe]: "keeps advances (pop_bytes_sizeoctets S)"
  unfolding pop_bytes_sizeoctets_def by (intro safe_steps parser_safe)

lemma safe_pop_integer_uvarint [parser_safe]: "keeps advances pop_integer_uvarint"
  unfolding pop_integer_uvarint_def by (intro safe_steps parser_safe safe_if)

lemma safe_pop_varstring [parser_safe]: "keeps advances pop_varstring"
  unfolding pop_varstring_def by (intro safe_steps parser_safe)

lemma safe_skip_varstring [parser_safe]: "keeps advances skip_varstring"
  unfolding skip_varstring_def by (intro safe_steps parser_safe)

lemma safe_pop_each:
  assumes "keeps advances m"
  shows "keeps advances (pop_each m n)"
proof (induction n)
  case 0
  show ?case unfolding pop_each.simps by (rule safe_steps)
next
  case (Suc n)
  show ?case unfolding pop_each.simps by (intro safe_steps assms Suc)
qed

lemma safe_pop_vector_object [parser_safe]:
  "keeps advances m \<Longrightarrow> keeps advances (pop_vector_object m)"
  unfolding pop_vector_object_def by (intro safe_steps parser_safe safe_pop_each)

lemma safe_pop_vector_string [parser_safe]: "keeps advances pop_vector_string"
  unfolding pop_vector_string_eq by (intro parser_safe)

lemma safe_pop_locked_string [parser_safe]: "keeps advances pop_locked_string"
  unfolding pop_locked_string_def
  by (intro safe_steps parser_safe) (rule keepsI, auto simp: advances_def parser_wf_def remaining_def)

lemma safe_pop_map_loop:
  assumes "keeps advances pk" and "keeps advances pv"
  shows "keeps advances (pop_map_loop lt pk pv n m)"
proof (induction n arbitrary: m)
  case 0
  show ?case unfolding pop_map_loop.simps by (rule safe_steps)
next
  case (Suc n)
  show ?case unfolding pop_map_loop.simps Let_def by (intro safe_steps assms safe_if Suc)
qed

lemma safe_pop_map_object [parser_safe]:
  "keeps advances pk \<Longrightarrow> keeps advances pv \<Longrightarrow> keeps advances (pop_map_object lt pk pv)"
  unfolding pop_map_object_def by (intro safe_steps parser_safe safe_pop_map_loop safe_if)


lemma into_buff_advances: "advances p (fst (snd (pop_bytes_n_into_buff base n buff (p, mem))))"
  by (auto simp: pop_bytes_n_into_buff_def advances_def parser_wf_def remaining_def Let_def split: sum.split)

lemma into_buff_memory:
  "a < buff \<or> buff + n < a \<Longrightarrow> snd (snd (pop_bytes_n_into_buff base n buff (p, mem))) a = mem a"
  by (auto simp: pop_bytes_n_into_buff_def copy_iter_and_check_no_overlap_def std_copy_def Let_def bindR_def split: sum.split)

lemma locked_string_advances: "advances p (fst (snd (obj_deserialize_locked_string base buff (p, mem))))"
proof -
  obtain r q where q: "pop_integer_uvarint p = (r, q)" by force
  then have 1: "advances p q" using keepsD [OF safe_pop_integer_uvarint, of p] by simp
  show ?thesis
  proof (cases r)
    case (Inr n)
    obtain r' q' mem' where into: "pop_bytes_n_into_buff base (unat n) buff (q, mem) = (r', (q', mem'))"
      by (metis prod.exhaust)
    then have "advances p q'"
      using into_buff_advances [of q base "unat n" buff mem] transpD [OF advances_transp 1] by simp
    then show ?thesis using q Inr into by (simp add: obj_deserialize_locked_string_def split: sum.split)
  qed (use q 1 in \<open>simp add: obj_deserialize_locked_string_def\<close>)
qed

subsection \<open>Progress: what a successful read consumes\<close>

lemma pop_byte_u_consumes: "pop_byte_u p = (Inr c, q) \<Longrightarrow> m_now q = Suc (m_now p) \<and> m_data q = m_data p \<and> m_now q \<le> length (m_data q)"
  by (auto simp: pop_byte_u_def split: if_splits)

lemma pop_varstring_consumes:
  assumes "pop_varstring p = (Inr s, q)"
  shows "m_now p < m_now q \<and> m_data q = m_data p \<and> m_now q \<le> length (m_data q)"
proof -
  obtain n r where n: "pop_integer_uvarint p = (Inr n, r)"
    and rest: "andThen (assertA (unat n \<le> SANE_MAX_SIZE_FOR_STRING)) (\<lambda>_. pop_bytes_n (unat n)) r = (Inr s, q)"
    using assms andThen_eq_InrD by (force simp: pop_varstring_def)
  obtain c p1 where c: "pop_byte_u p = (Inr c, p1)"
    using n by (auto simp: pop_integer_uvarint_def andThen_def split: prod.splits sum.splits)
  define k where "k = (\<lambda>first :: byte. if first < 0xFD then ret (ucast first)
      else if first = 0xFD then pop_integer_u 2
      else if first = 0xFE then pop_integer_u 4
      else andThen (assertA (first = 0xFF)) (\<lambda>_. pop_integer_u 8) :: (parser, u64) action)"
  have "keeps advances (k first)" for first
    unfolding k_def by (intro safe_if safe_steps parser_safe)
  moreover have "k c p1 = (Inr n, r)" using n c by (simp add: pop_integer_uvarint_def k_def)
  ultimately have "advances p1 r" using keepsD [of advances "k c" p1] by simp
  moreover have "advances r q"
    using rest keepsD [OF safe_pop_bytes_n [of "unat n"], of r]
    by (simp add: andThen_def split: if_splits)
  ultimately show ?thesis
    using pop_byte_u_consumes [OF c] by (auto simp: advances_def parser_wf_def)
qed

lemma pop_each_consumes:
  assumes elem: "\<And>p x q. m p = (Inr x, q) \<Longrightarrow> m_now p < m_now q \<and> m_data q = m_data p \<and> m_now q \<le> length (m_data q)"
  shows "pop_each m n p = (Inr xs, q) \<Longrightarrow> parser_wf p \<Longrightarrow>
    length xs = n \<and> m_now p + n \<le> m_now q \<and> m_data q = m_data p \<and> parser_wf q"
proof (induction n arbitrary: p xs)
  case 0
  then show ?case by simp
next
  case (Suc n)
  obtain x p1 where x: "m p = (Inr x, p1)"
    and rest: "andThen (pop_each m n) (\<lambda>xs. ret (x # xs)) p1 = (Inr xs, q)"
    using Suc.prems(1) andThen_eq_InrD by (force simp only: pop_each.simps)
  obtain ys where ys: "pop_each m n p1 = (Inr ys, q)" "xs = x # ys"
    using andThen_eq_InrD [OF rest] by auto
  show ?case
    using Suc.IH [OF ys(1)] elem [OF x] ys(2) by (auto simp: parser_wf_def)
qed

lemma pop_bytes_n_into_buff_copies:
  assumes "0 < n" and "n \<le> remaining p" and "base + length (m_data p) < buff"
  shows "pop_bytes_n_into_buff base n buff (p, mem) =
    (Inr (), (p\<lparr>m_now := m_now p + n\<rparr>,
      (\<lambda>a. if buff \<le> a \<and> a \<le> buff + n then mem (base + m_now p + (a - buff)) else mem a)))"
proof -
  have "m_now p < length (m_data p)" "base + (m_now p + n) < buff" "buff \<le> buff + n - 1"
    using assms by (auto simp: remaining_def)
  with assms show ?thesis
    by (simp add: pop_bytes_n_into_buff_def copy_iter_and_check_no_overlap_def Let_def
        test_ranges_overlap_inclusive_noempty_def std_copy_def less_Suc_eq_le fun_eq_iff)
qed

section \<open>Properties\<close>

text \<open>
  C38: every unsigned 64-bit value but the largest survives \<open>push_integer_uvarint\<close> followed by
  \<open>pop_integer_uvarint\<close>, inside any surrounding data; it takes 1, 3, 5 or 9 octets.
\<close>

theorem uvarint_roundtrip:
  assumes "v \<noteq> 0xFFFFFFFFFFFFFFFF"
  shows "\<exists>bs. length bs \<in> {1, 3, 5, 9}
    \<and> (\<forall>g. push_integer_uvarint v g = (Inr (), g\<lparr>m_str := m_str g @ bs\<rparr>))
    \<and> (\<forall>pre post. pop_integer_uvarint (parser_at pre (bs @ post)) = (Inr v, parser_at (pre @ bs) post))"
  using writes_push_integer_uvarint [OF assms] reads_pop_integer_uvarint [of v] length_uvarint_octets [of v]
  unfolding writes_def reads_def by blast

theorem uvarint_roundtrip_witness:
  "(65535 :: u64) \<noteq> 0xFFFFFFFFFFFFFFFF \<and>
   (\<exists>bs. length bs \<in> {1, 3, 5, 9}
    \<and> (\<forall>g. push_integer_uvarint 65535 g = (Inr (), g\<lparr>m_str := m_str g @ bs\<rparr>))
    \<and> (\<forall>pre post. pop_integer_uvarint (parser_at pre (bs @ post)) = (Inr 65535, parser_at (pre @ bs) post)))"
  using uvarint_roundtrip [of 65535] by simp

text \<open>
  \<open>push_integer_u<S>\<close> accepts exactly the values below \<open>2^(8S) - 1\<close>, writes them as
  \<open>S\<close> big-endian octets, and leaves the buffer untouched when it throws. The documentation of
  the class promises values up to and including \<open>2^(8S) - 1\<close>.
\<close>

theorem push_integer_u_range:
  assumes "0 < S" and "S \<le> 8"
  shows "push_integer_u S v g =
    (if unat v < 2 ^ (8 * S) - 1 then (Inr (), g\<lparr>m_str := m_str g @ be_octets S v\<rparr>)
     else (Inl Format_error_write_value_too_big, g))"
  by (rule push_integer_u_cases [OF assms])

theorem push_integer_u_range_witness:
  "push_integer_u 1 255 generator_init = (Inl Format_error_write_value_too_big, generator_init)
   \<and> push_integer_u 1 254 generator_init = (Inr (), \<lparr>m_str = [254]\<rparr>)"
  using push_integer_u_range [of 1 255 generator_init] push_integer_u_range [of 1 254 generator_init]
  by (simp add: generator_init_def)

text \<open>
  A vector of strings, each within the sane size limit, survives \<open>push_vector_string\<close>
  followed by \<open>pop_vector_string\<close> inside any surrounding data.
\<close>

theorem vector_string_roundtrip:
  assumes "length xs < 2 ^ 63" and "\<forall>s \<in> set xs. length s \<le> SANE_MAX_SIZE_FOR_STRING"
  shows "\<exists>bs. (\<forall>g. push_vector_string xs g = (Inr (), g\<lparr>m_str := m_str g @ bs\<rparr>))
    \<and> (\<forall>pre post. pop_vector_string (parser_at pre (bs @ post)) = (Inr xs, parser_at (pre @ bs) post))"
proof -
  have ok: "fits_size_t xs" "list_all (\<lambda>s. length s \<le> SANE_MAX_SIZE_FOR_STRING) xs"
    using assms by (auto simp: fits_size_t_def list_all_iff)
  show ?thesis
    using str.writes_push_vector_object [OF ok] str.reads_pop_vector_object [OF ok]
    unfolding writes_def reads_def push_vector_string_eq pop_vector_string_eq by blast
qed

theorem vector_string_roundtrip_witness:
  "\<exists>bs. (\<forall>g. push_vector_string [[1, 2], [], [3]] g = (Inr (), g\<lparr>m_str := m_str g @ bs\<rparr>))
    \<and> (\<forall>pre post. pop_vector_string (parser_at pre (bs @ post)) = (Inr [[1, 2], [], [3]], parser_at (pre @ bs) post))"
  by (rule vector_string_roundtrip) (simp_all add: SANE_MAX_SIZE_FOR_STRING_def)

text \<open>
  C39: started inside its data, every read operation of the parser leaves the position inside the data, never before where it
  was, and the data unchanged, whether it returns or throws; the operations that read objects do if the reader of the single
  object does. The one operation that writes to memory, \<open>pop_bytes_n_into_buff\<close>, changes nothing but the octets it was
  asked for and the one behind them; that one it does overwrite (\<open>pop_bytes_n_into_buff_overrun\<close>).
\<close>

theorem parser_operations_safe:
  assumes "parser_wf p"
    and "keeps advances pop_object" and "keeps advances pop_key" and "keeps advances pop_val"
    and "q \<in> {snd (pop_byte_u p), snd (pop_byte_s p), snd (pop_byte_skip c p), snd (pop_bytes_n n p),
              snd (skip_bytes_n n p), snd (pop_integer_u S p), snd (pop_bytes_sizeoctets S p),
              snd (pop_integer_uvarint p), snd (pop_varstring p), snd (skip_varstring p),
              snd (pop_vector_string p), snd (pop_vector_object pop_object p), snd (pop_map_object lt pop_key pop_val p),
              fst (snd (pop_bytes_n_into_buff base n buff (p, mem))), fst (snd (obj_deserialize_locked_string base buff (p, mem)))}"
  shows "parser_wf q \<and> m_data q = m_data p \<and> m_now p \<le> m_now q
    \<and> (\<forall>a. a < buff \<or> buff + n < a \<longrightarrow> snd (snd (pop_bytes_n_into_buff base n buff (p, mem))) a = mem a)"
proof -
  have "advances p q"
    using assms(5)
    by (elim insertE emptyE; hypsubst)
      ((rule keepsD, intro parser_safe assms(2-4)) | rule into_buff_advances | rule locked_string_advances)+
  with assms(1) into_buff_memory show ?thesis by (simp add: advances_def)
qed

theorem parser_operations_safe_witness:
  "let p = parser_of_buffer [2, 1, 65, 7]; q = snd (pop_vector_object pop_varstring p);
       s = snd (pop_bytes_n_into_buff 8 2 20 (p, \<lambda>a. 5))
   in parser_wf p \<and> parser_wf q \<and> m_data q = m_data p \<and> m_now p \<le> m_now q
     \<and> parser_wf (fst s) \<and> m_data (fst s) = m_data p \<and> snd s 23 = 5 \<and> snd s 19 = 5"
proof -
  let ?p = "parser_of_buffer [2, 1, 65, 7]" and ?mem = "\<lambda>a. 5 :: byte"
  have "parser_wf ?p" by (simp add: parser_wf_def parser_of_buffer_def)
  note safe = parser_operations_safe [OF this safe_pop_varstring safe_pop_varstring safe_pop_varstring,
      where n = 2 and base = 8 and buff = 20 and mem = ?mem and c = 0 and S = 1 and lt = "\<lambda>_ _. False"]
  have 1: "parser_wf q \<and> m_data q = m_data ?p \<and> m_now ?p \<le> m_now q" if "q = snd (pop_vector_object pop_varstring ?p)" for q
    using safe [of q] unfolding that insert_iff by blast
  have 2: "parser_wf q \<and> m_data q = m_data ?p \<and> (a < 20 \<or> 20 + 2 < a \<longrightarrow> snd (snd (pop_bytes_n_into_buff 8 2 20 (?p, ?mem))) a = ?mem a)"
    if "q = fst (snd (pop_bytes_n_into_buff 8 2 20 (?p, ?mem)))" for q a
    using safe [of q] unfolding that insert_iff by blast
  show ?thesis
    unfolding Let_def using \<open>parser_wf ?p\<close> 1 [OF refl] 2 [OF refl, of 23] 2 [OF refl, of 19] by (intro conjI) simp_all
qed

text \<open>
  The strong exception guarantee the header documents for the single-octet reads: when
  \<open>pop_byte_u\<close>, \<open>pop_byte_s\<close> or \<open>pop_byte_skip\<close> throws, the parser is unchanged.
\<close>

theorem pop_byte_strong_guarantee:
  "(fst (pop_byte_u p) = Inl e \<longrightarrow> snd (pop_byte_u p) = p)
   \<and> (fst (pop_byte_s p) = Inl e \<longrightarrow> snd (pop_byte_s p) = p)
   \<and> (fst (pop_byte_skip c p) = Inl e \<longrightarrow> snd (pop_byte_skip c p) = p)"
  by (auto simp: pop_byte_u_def pop_byte_s_def pop_byte_skip_def andThen_def)

theorem pop_byte_strong_guarantee_witness:
  "fst (pop_byte_skip 59 (parser_of_buffer [58])) = Inl Format_error_read_delimiter
   \<and> snd (pop_byte_skip 59 (parser_of_buffer [58])) = parser_of_buffer [58]"
  using pop_byte_strong_guarantee [of "parser_of_buffer [58]" Format_error_read_delimiter 59]
  by (simp add: pop_byte_skip_def pop_byte_u_def andThen_def parser_of_buffer_def remaining_def)

text \<open>
  an element count sent by a peer cannot make the parser build more than it received: a
  vector read from a buffer has at most as many elements as there were octets left.
\<close>

theorem pop_vector_string_bounded:
  assumes "pop_vector_string p = (Inr xs, q)" and "parser_wf p"
  shows "length xs \<le> remaining p"
proof -
  obtain n r where n: "pop_integer_uvarint p = (Inr n, r)"
    and xs: "pop_each pop_varstring (unat n) r = (Inr xs, q)"
    using assms(1) andThen_eq_InrD by (force simp: pop_vector_string_def)
  have r: "advances p r" using keepsD [OF safe_pop_integer_uvarint, of p] n by simp
  with assms(2) have "parser_wf r" by (simp add: advances_def)
  then have "length xs = unat n \<and> m_now r + unat n \<le> m_now q \<and> m_data q = m_data r \<and> parser_wf q"
    by (rule pop_each_consumes [rotated, OF xs]) (rule pop_varstring_consumes)
  with r show ?thesis by (auto simp: advances_def parser_wf_def remaining_def)
qed

theorem pop_vector_string_bounded_witness:
  "\<exists>q. pop_vector_string (parser_of_buffer [1, 1, 65, 7]) = (Inr [[65]], q)
       \<and> length [[65 :: byte]] \<le> remaining (parser_of_buffer [1, 1, 65, 7])"
proof -
  let ?p = "parser_of_buffer [1, 1, 65, 7]"
  have run: "pop_vector_string ?p = (Inr [[65]], \<lparr>m_data = [1, 1, 65, 7], m_now = 3\<rparr>)"
    by (simp add: pop_vector_string_def pop_varstring_def pop_integer_uvarint_def pop_integer_u_def
        pop_bytes_n_def pop_byte_u_def remaining_def parser_of_buffer_def
        SANE_MAX_SIZE_FOR_STRING_def)
  moreover have "parser_wf ?p" by (simp add: parser_wf_def parser_of_buffer_def)
  ultimately show ?thesis using pop_vector_string_bounded [OF run] by blast
qed

text \<open>
  A \<open>std::map<std::string, std::string>\<close> survives \<open>push_map_object\<close> followed by
  \<open>pop_map_object\<close>: the duplicate-key and size checks of the parser never reject what the
  generator wrote.
\<close>

theorem map_string_roundtrip:
  assumes "length m < 2 ^ 63" and "sorted_wrt (<) (map fst m)"
    and "\<forall>(k, v) \<in> set m. length k \<le> SANE_MAX_SIZE_FOR_STRING \<and> length v \<le> SANE_MAX_SIZE_FOR_STRING"
  shows "\<exists>bs. (\<forall>g. push_map_object push_varstring push_varstring m g = (Inr (), g\<lparr>m_str := m_str g @ bs\<rparr>))
    \<and> (\<forall>pre post. pop_map_object (<) pop_varstring pop_varstring (parser_at pre (bs @ post))
          = (Inr m, parser_at (pre @ bs) post))"
proof -
  have "strmap.map_ok m" using assms by (simp add: strmap.map_ok_def fits_size_t_def)
  then show ?thesis
    using strmap.writes_push_map_object strmap.reads_pop_map_object unfolding writes_def reads_def by blast
qed

theorem map_string_roundtrip_witness:
  "\<exists>bs. (\<forall>g. push_map_object push_varstring push_varstring [([1], [2, 3]), ([1, 0], [])] g
          = (Inr (), g\<lparr>m_str := m_str g @ bs\<rparr>))
    \<and> (\<forall>pre post. pop_map_object (<) pop_varstring pop_varstring (parser_at pre (bs @ post))
          = (Inr [([1], [2, 3]), ([1, 0], [])], parser_at (pre @ bs) post))"
  by (rule map_string_roundtrip) (simp_all add: SANE_MAX_SIZE_FOR_STRING_def)

text \<open>
  The outcome of \<open>pop_varstring\<close> for every declared size and every buffer. A size above
  the sane maximum is not an exception that the callers' handlers catch, as for a buffer that is
  too short, but a failed assert: nine octets from a peer end the process.
\<close>

theorem pop_varstring_outcome:
  "pop_varstring (parser_at pre (uvarint_octets n @ rest)) =
     (let p = parser_at (pre @ uvarint_octets n) rest
      in if unat n > SANE_MAX_SIZE_FOR_STRING then (Inl Abort, p)
         else if unat n > length rest then (Inl Format_error_read, p)
         else (Inr (take (unat n) rest),
               parser_at (pre @ uvarint_octets n @ take (unat n) rest) (drop (unat n) rest)))"
proof -
  have n: "pop_integer_uvarint (parser_at pre (uvarint_octets n @ rest))
      = (Inr n, parser_at (pre @ uvarint_octets n) rest)"
    by (rule readsD [OF reads_pop_integer_uvarint])
  have "pop_bytes_n k (parser_at bs rest) =
      (if k > length rest then (Inl Format_error_read, parser_at bs rest)
       else (Inr (take k rest), parser_at (bs @ take k rest) (drop k rest)))" for k bs
    by (auto simp: pop_bytes_n_def parser_at_def remaining_def)
  with n show ?thesis by (simp add: pop_varstring_def Let_def)
qed

text \<open>
  When \<open>pop_bytes_n_into_buff\<close> succeeds it has copied the \<open>n\<close> octets it was asked
  for, and one more: the octet behind the caller's buffer is overwritten with the octet behind
  the parsed range. All other memory is unchanged.
\<close>

theorem pop_bytes_n_into_buff_overrun:
  assumes "0 < n" and "n \<le> remaining p" and "base + length (m_data p) < buff"
  shows "pop_bytes_n_into_buff base n buff (p, mem) =
    (Inr (), (p\<lparr>m_now := m_now p + n\<rparr>,
      (\<lambda>a. if buff \<le> a \<and> a \<le> buff + n then mem (base + m_now p + (a - buff)) else mem a)))"
  by (rule pop_bytes_n_into_buff_copies [OF assms])

theorem pop_bytes_n_into_buff_overrun_witness:
  "let mem = (\<lambda>a. if a < 12 then of_nat a else 0) :: memory;
       mem' = snd (snd (pop_bytes_n_into_buff 8 2 20 (parser_of_buffer [8, 9, 10, 11], mem)))
   in map mem' [19, 20, 21, 22, 23] = [0, 8, 9, 10, 0]"
proof -
  let ?p = "parser_of_buffer [8, 9, 10, 11]" and ?mem = "\<lambda>a. if a < 12 then of_nat a else 0 :: byte"
  have "pop_bytes_n_into_buff 8 2 20 (?p, ?mem) =
    (Inr (), (?p\<lparr>m_now := m_now ?p + 2\<rparr>,
      (\<lambda>a. if 20 \<le> a \<and> a \<le> 20 + 2 then ?mem (8 + m_now ?p + (a - 20)) else ?mem a)))"
    by (rule pop_bytes_n_into_buff_overrun) (simp_all add: remaining_def parser_of_buffer_def)
  then show ?thesis by (simp only: Let_def snd_conv) (simp add: parser_of_buffer_def)
qed

text \<open>
  Reading a \<open>locked_string\<close> through the memory of a freshly allocated buffer gives the
  same result and leaves the parser in the same state as the value-level reading, on every path.
\<close>

theorem locked_string_refines:
  assumes "\<And>i. i < length (m_data p) \<Longrightarrow> mem (base + i) = m_data p ! i"
    and "parser_wf p" and "base + length (m_data p) < buff"
  shows "(let (r, (q, mem')) = obj_deserialize_locked_string base buff (p, mem) in (r, q))
    = pop_locked_string p"
proof -
  obtain r q where rq: "pop_integer_uvarint p = (r, q)" by force
  have q: "m_data q = m_data p" "m_now q \<le> length (m_data p)"
    using keepsD [OF safe_pop_integer_uvarint, of p] rq assms(2) by (auto simp: advances_def parser_wf_def)
  have copied: "map (\<lambda>a. if buff \<le> a \<and> a \<le> buff + n then mem (base + m_now q + (a - buff)) else mem a)
      [buff..<buff + n] = take n (drop (m_now q) (m_data q))"
    if "n \<le> remaining q" for n
    using that q assms(1) by (intro nth_equalityI) (auto simp: remaining_def add.assoc)
  show ?thesis
  proof (cases r)
    case (Inl e)
    then show ?thesis using rq by (simp add: obj_deserialize_locked_string_def pop_locked_string_def)
  next
    case (Inr n)
    show ?thesis
    proof (cases "0 < unat n \<and> unat n \<le> remaining q")
      case True
      then show ?thesis
        using rq Inr q copied [of "unat n"] assms(3)
          pop_bytes_n_into_buff_copies [of "unat n" q base buff mem]
        by (auto simp: obj_deserialize_locked_string_def pop_locked_string_def remaining_def Let_def)
    next
      case False
      then show ?thesis
        using rq Inr assms(3)
        by (auto simp: obj_deserialize_locked_string_def pop_locked_string_def
            pop_bytes_n_into_buff_def copy_iter_and_check_no_overlap_def)
    qed
  qed
qed

theorem locked_string_refines_witness:
  "let p = parser_of_buffer [2, 7, 9, 1]; mem = (\<lambda>a. if a < 4 then [2, 7, 9, 1] ! a else 0)
   in (let (r, (q, mem')) = obj_deserialize_locked_string 0 100 (p, mem) in (r, q)) = pop_locked_string p"
proof -
  let ?p = "parser_of_buffer [2, 7, 9, 1]" and ?mem = "\<lambda>a. if a < 4 then [2, 7, 9, 1] ! a else (0 :: byte)"
  have "parser_wf ?p" by (simp add: parser_wf_def parser_of_buffer_def)
  then show ?thesis
    using locked_string_refines [of ?p ?mem 0 100] by (simp add: parser_of_buffer_def)
qed

end
