(* ===== verification/Std_Map.thy ===== *)
theory Std_Map
  imports Trivialserialize
begin

text \<open>
  \<open>std::map\<close> and \<open>std::set\<close> over keys compared with \<open>operator<\<close>: the list of pairs in iteration
  order. \<open>map_find\<close> and \<open>map_emplace\<close> are those of the serialisation library; \<open>map_erase\<close> and
  \<open>map_modify\<close> are erasing by iterator and writing through one. The lemmas hold for keys of a
  linear order, as \<open>c_haship_addr\<close> (a \<open>std::array\<close>, compared lexicographically) is.
\<close>

definition map_erase :: "'k \<Rightarrow> ('k \<times> 'v) list \<Rightarrow> ('k \<times> 'v) list" where
  "map_erase key m = filter (\<lambda>(k, v). k \<noteq> key) m"

definition map_modify :: "'k \<Rightarrow> ('v \<Rightarrow> 'v) \<Rightarrow> ('k \<times> 'v) list \<Rightarrow> ('k \<times> 'v) list" where
  "map_modify key f m = map (\<lambda>(k, v). if k = key then (k, f v) else (k, v)) m"

abbreviation find_key :: "'k::linorder \<Rightarrow> ('k \<times> 'v) list \<Rightarrow> 'v option" where
  "find_key \<equiv> map_find (<)"

abbreviation emplace_key :: "'k::linorder \<Rightarrow> 'v \<Rightarrow> ('k \<times> 'v) list \<Rightarrow> ('k \<times> 'v) list" where
  "emplace_key \<equiv> map_emplace (<)"

definition map_sorted :: "('k::linorder \<times> 'v) list \<Rightarrow> bool" where
  "map_sorted m \<longleftrightarrow> sorted_wrt (<) (map fst m)"

text \<open>The contract of the container, by which its clients reason.\<close>

locale std_map =
  fixes find :: "'k \<Rightarrow> 'm \<Rightarrow> 'v option"
    and emplace :: "'k \<Rightarrow> 'v \<Rightarrow> 'm \<Rightarrow> 'm"
    and erase :: "'k \<Rightarrow> 'm \<Rightarrow> 'm"
    and modify :: "'k \<Rightarrow> ('v \<Rightarrow> 'v) \<Rightarrow> 'm \<Rightarrow> 'm"
    and wf :: "'m \<Rightarrow> bool"
  assumes wf_emplace: "wf m \<Longrightarrow> wf (emplace k v m)"
    and wf_erase: "wf m \<Longrightarrow> wf (erase k m)"
    and wf_modify: "wf m \<Longrightarrow> wf (modify k f m)"
    and find_emplace: "wf m \<Longrightarrow> find k' (emplace k v m)
          = (if k' = k \<and> find k m = None then Some v else find k' m)"
    and find_erase: "wf m \<Longrightarrow> find k' (erase k m) = (if k' = k then None else find k' m)"
    and find_modify: "find k' (modify k f m) = (if k' = k then map_option f (find k' m) else find k' m)"
begin

lemma emplace_present: "wf m \<Longrightarrow> find k m = Some u \<Longrightarrow> find k' (emplace k v m) = find k' m"
  by (auto simp: find_emplace)

lemma find_emplace_new: "wf m \<Longrightarrow> find k m = None \<Longrightarrow> find k (emplace k v m) = Some v"
  by (simp add: find_emplace)

lemma find_emplaceD:
  "wf m \<Longrightarrow> find k' (emplace k v m) = Some u \<Longrightarrow> find k' m = Some u \<or> (k' = k \<and> u = v \<and> find k m = None)"
  by (auto simp: find_emplace split: if_splits)

lemma find_modifyD:
  "find k' (modify k f m) = Some u \<Longrightarrow> find k' m = Some u \<or> (k' = k \<and> (\<exists>u0. find k m = Some u0 \<and> u = f u0))"
  by (auto simp: find_modify split: if_splits)

end

lemma map_find_linorder: "find_key k m = map_of m (k :: 'k::linorder)"
  by (induction m) auto

lemma map_find_none_sorted:
  "sorted_wrt (<) (map fst ((k :: 'k::linorder, v) # m)) \<Longrightarrow> key < k \<Longrightarrow> map_of ((k, v) # m) key = None"
  by (auto simp: map_of_eq_None_iff)

lemma map_of_emplace_key:
  "map_sorted m \<Longrightarrow> map_of (emplace_key k v m) k' = (if k' = k \<and> map_of m k = None then Some v else map_of m k')"
  for k :: "'k::linorder"
proof (induction m)
  case (Cons x m)
  obtain k0 v0 where x: "x = (k0, v0)" by force
  have s: "map_sorted m" using Cons.prems by (simp add: map_sorted_def x)
  have "k \<notin> fst ` set m" if "k < k0" using Cons.prems that by (auto simp: map_sorted_def x)
  then have n: "map_of m k = None" if "k < k0" using that by (simp add: map_of_eq_None_iff)
  show ?case
    using Cons.IH [OF s] n by (auto simp: x)
qed simp

lemma set_emplace_key: "set (emplace_key k v m) \<subseteq> insert (k, v) (set m)"
  by (induction m) (auto split: if_splits)

lemma fst_set_emplace_key: "fst ` set (emplace_key k v m) \<subseteq> insert k (fst ` set m)"
  using image_mono [OF set_emplace_key, of fst k v m] by simp

lemma map_sorted_emplace_key: "map_sorted m \<Longrightarrow> map_sorted (emplace_key k v m)"
proof (induction m)
  case (Cons x m)
  obtain k0 v0 where x: "x = (k0, v0)" by force
  have s: "map_sorted m" using Cons.prems by (simp add: map_sorted_def x)
  have lt: "\<forall>y \<in> fst ` set m. k0 < y" using Cons.prems by (auto simp: map_sorted_def x)
  then have "\<forall>y \<in> fst ` set (emplace_key k v m). k0 < y" if "k0 < k"
    using that fst_set_emplace_key [of k v m] by blast
  then show ?case
    using Cons.IH [OF s] s lt unfolding map_sorted_def x by auto
qed (simp add: map_sorted_def)

lemma map_sorted_erase: "map_sorted m \<Longrightarrow> map_sorted (map_erase k m)"
  by (induction m) (auto simp: map_sorted_def map_erase_def)

lemma fst_map_modify [simp]: "map fst (map_modify k f m) = map fst m"
  by (induction m) (auto simp: map_modify_def)

lemma map_sorted_modify: "map_sorted m \<Longrightarrow> map_sorted (map_modify k f m)"
  by (simp add: map_sorted_def)

lemma map_of_erase: "map_of (map_erase k m) k' = (if k' = k then None else map_of m k')"
  by (induction m) (auto simp: map_erase_def)

lemma map_of_modify: "map_of (map_modify k f m) k' = (if k' = k then map_option f (map_of m k') else map_of m k')"
  by (induction m) (auto simp: map_modify_def)

interpretation smap: std_map "map_find ((<) :: 'k::linorder \<Rightarrow> 'k \<Rightarrow> bool)" "map_emplace (<)"
  map_erase map_modify "map_sorted :: ('k \<times> 'v) list \<Rightarrow> bool"
  by unfold_locales
    (simp_all add: map_find_linorder map_of_emplace_key map_of_erase map_of_modify
      map_sorted_emplace_key map_sorted_erase map_sorted_modify)

lemma find_key_Nil_iff: "m = [] \<longleftrightarrow> (\<forall>k. find_key k m = None)"
  by (cases m) (auto simp: map_find_linorder split: if_splits)

lemma find_key_in: "find_key k m = Some v \<Longrightarrow> (k, v) \<in> set m"
  by (simp add: map_find_linorder map_of_SomeD)

lemma in_find_key: "map_sorted m \<Longrightarrow> (k, v) \<in> set m \<Longrightarrow> find_key k m = Some v"
  by (metis map_find_linorder map_of_is_SomeI map_sorted_def strict_sorted_iff)

lemma set_map_erase: "set (map_erase k m) \<subseteq> set m"
  by (auto simp: map_erase_def)

lemma map_modify_emplace_const:
  "map_modify k (\<lambda>_. u) (emplace_key k v m) = map_modify k (\<lambda>_. u) (emplace_key k v' m)"
  by (induction m) (auto simp: map_modify_def)

end
