(* ===== verification/Crypto_Basic.thy ===== *)
theory Crypto_Basic
  imports Trivialserialize
begin

text \<open>
  \<^verbatim>\<open>src/src/crypto/crypto_basic.hpp\<close> and \<^verbatim>\<open>crypto_basic.cpp\<close>: the crypto system
  enumeration and its one-letter identifiers, the exclusive-or of strings, the hashes; and
  \<open>c_symhash_state\<close> of \<^verbatim>\<open>crypto.cpp\<close>.

  The primitives of libsodium/sodiumpp, NTRU and SIDH are not part of the repository: they
  are the fields of the record \<open>crypto_lib\<close>, an argument of every definition that calls them.
  A random draw is numbered, and the number of draws made so far is part of the state of the
  code that draws. \<open>enable_ntru\<close> and \<open>enable_sidh\<close> are the compile options
  \<open>ENABLE_CRYPTO_NTRU\<close> and \<open>ENABLE_CRYPTO_SIDH\<close>.
\<close>

section \<open>The primitives\<close>

record ('bx, 'ux) crypto_lib =
  enable_ntru :: bool
  enable_sidh :: bool
  crypto_generichash :: "bytes \<Rightarrow> bytes"                    \<comment> \<open>64 octets, no key\<close>
  randombytes :: "nat \<Rightarrow> nat \<Rightarrow> bytes"                       \<comment> \<open>draw number, length\<close>
  generate_pubkey_from_privkey :: "bytes \<Rightarrow> bytes"
  key_agreement :: "bytes \<Rightarrow> bytes \<Rightarrow> bytes result"          \<comment> \<open>private key, public key\<close>
  crypto_sign_keypair :: "nat \<Rightarrow> bytes \<times> bytes"              \<comment> \<open>private key, public key\<close>
  crypto_sign_detached :: "bytes \<Rightarrow> bytes \<Rightarrow> bytes result"   \<comment> \<open>message, private key\<close>
  crypto_sign_verify_detached :: "bytes \<Rightarrow> bytes \<Rightarrow> bytes \<Rightarrow> bool" \<comment> \<open>signature, message, public key\<close>
  ntru_generate_encrypt_keypair :: "nat \<Rightarrow> (bytes \<times> bytes) result"
  ntru_encrypt :: "nat \<Rightarrow> bytes \<Rightarrow> bytes \<Rightarrow> bytes result"    \<comment> \<open>message, public key\<close>
  ntru_decrypt :: "bytes \<Rightarrow> bytes \<Rightarrow> bytes result"           \<comment> \<open>ciphertext, private key\<close>
  ntru_generate_sign_keypair :: "nat \<Rightarrow> (bytes \<times> bytes) result"
  ntru_sign :: "bytes \<Rightarrow> bytes \<Rightarrow> bytes result"              \<comment> \<open>message, private key\<close>
  ntru_verify :: "bytes \<Rightarrow> bytes \<Rightarrow> bytes \<Rightarrow> bool result"     \<comment> \<open>signature, message, public key\<close>
  sidh_generate_keypair :: "nat \<Rightarrow> (bytes \<times> bytes) result"
  sidh_secret_agreement :: "bytes \<Rightarrow> bytes \<Rightarrow> bytes \<Rightarrow> bytes result" \<comment> \<open>private, own public, their public\<close>
  boxer_new :: "bool \<Rightarrow> bytes \<Rightarrow> 'bx"                       \<comment> \<open>uneven nonces?, shared key\<close>
  boxer_key :: "'bx \<Rightarrow> bytes"
  boxer_nonce :: "'bx \<Rightarrow> bytes"
  boxer_box :: "'bx \<Rightarrow> bytes \<Rightarrow> bytes result \<times> 'bx"
  unboxer_new :: "bool \<Rightarrow> bytes \<Rightarrow> 'ux"
  unboxer_key :: "'ux \<Rightarrow> bytes"
  unboxer_nonce :: "'ux \<Rightarrow> bytes"
  unboxer_unbox :: "'ux \<Rightarrow> bytes \<Rightarrow> bytes result \<times> 'ux"    \<comment> \<open>with its own nonce\<close>
  unboxer_unbox_nonce :: "'ux \<Rightarrow> bytes \<Rightarrow> bytes \<Rightarrow> bytes result \<times> 'ux" \<comment> \<open>message, given nonce\<close>

section \<open>Crypto systems\<close>

datatype t_crypto_system_type =
    e_crypto_system_type_invalid
  | e_crypto_system_type_X25519
  | e_crypto_system_type_Ed25519
  | e_crypto_system_type_NTRU_EES439EP1
  | e_crypto_system_type_SIDH
  | e_crypto_system_type_geport_todo
  | e_crypto_system_type_symhash_todo
  | e_crypto_system_type_NTRU_sign
  | e_crypto_system_type_END_normal
  | e_crypto_system_type_multikey_pub
  | e_crypto_system_type_multikey_private
  | e_crypto_system_type_multisign
  | e_crypto_system_type_END

fun enum_value :: "t_crypto_system_type \<Rightarrow> nat" where
  "enum_value e_crypto_system_type_invalid = 0"
| "enum_value e_crypto_system_type_X25519 = 5"
| "enum_value e_crypto_system_type_Ed25519 = 6"
| "enum_value e_crypto_system_type_NTRU_EES439EP1 = 7"
| "enum_value e_crypto_system_type_SIDH = 8"
| "enum_value e_crypto_system_type_geport_todo = 9"
| "enum_value e_crypto_system_type_symhash_todo = 10"
| "enum_value e_crypto_system_type_NTRU_sign = 11"
| "enum_value e_crypto_system_type_END_normal = 12"
| "enum_value e_crypto_system_type_multikey_pub = 29"
| "enum_value e_crypto_system_type_multikey_private = 30"
| "enum_value e_crypto_system_type_multisign = 31"
| "enum_value e_crypto_system_type_END = 32"

definition all_systems :: "t_crypto_system_type list" where
  "all_systems =
     [e_crypto_system_type_invalid, e_crypto_system_type_X25519, e_crypto_system_type_Ed25519,
      e_crypto_system_type_NTRU_EES439EP1, e_crypto_system_type_SIDH, e_crypto_system_type_geport_todo,
      e_crypto_system_type_symhash_todo, e_crypto_system_type_NTRU_sign, e_crypto_system_type_END_normal,
      e_crypto_system_type_multikey_pub, e_crypto_system_type_multikey_private,
      e_crypto_system_type_multisign, e_crypto_system_type_END]"

text \<open>
  \<open>int_to_enum<t_crypto_system_type>(val, true)\<close>: \<open>None\<close> stands for
  \<open>expected_not_found\<close>, which every caller turns into skipping that index.
\<close>

definition int_to_enum :: "nat \<Rightarrow> t_crypto_system_type option" where
  "int_to_enum val = find (\<lambda>s. enum_value s = val) all_systems"

definition t_crypto_system_type_to_ID :: "nat \<Rightarrow> byte result" where
  "t_crypto_system_type_to_ID val =
     (if val = 5 then Inr 0x78        \<comment> \<open>x\<close>
      else if val = 6 then Inr 0x65   \<comment> \<open>e\<close>
      else if val = 7 then Inr 0x74   \<comment> \<open>t\<close>
      else if val = 11 then Inr 0x72  \<comment> \<open>r\<close>
      else if val = 8 then Inr 0x73   \<comment> \<open>s\<close>
      else if val = 9 then Inr 0x67   \<comment> \<open>g\<close>
      else Inl Invalid_argument)"

definition t_crypto_system_type_from_ID :: "byte \<Rightarrow> t_crypto_system_type result" where
  "t_crypto_system_type_from_ID name =
     (if name = 0x78 then Inr e_crypto_system_type_X25519
      else if name = 0x65 then Inr e_crypto_system_type_Ed25519
      else if name = 0x74 then Inr e_crypto_system_type_NTRU_EES439EP1
      else if name = 0x72 then Inr e_crypto_system_type_NTRU_sign
      else if name = 0x73 then Inr e_crypto_system_type_SIDH
      else if name = 0x67 then Inr e_crypto_system_type_geport_todo
      else Inl Invalid_argument)"

definition tolower :: "char \<Rightarrow> char" where
  "tolower c = (let n = of_char c :: nat in if 65 \<le> n \<and> n \<le> 90 then char_of (n + 32) else c)"

definition t_crypto_system_type_from_string :: "string \<Rightarrow> t_crypto_system_type result" where
  "t_crypto_system_type_from_string str_name =
     (let s = map tolower str_name;
          ID = (if s = ''x25519'' then 0x78
                else if s = ''ed25519'' then 0x65
                else if s = ''ntru_ees439ep1'' then 0x74
                else if s = ''ntru_sign'' then 0x72
                else if s = ''sidh'' then 0x73
                else 0)
      in if ID = 0 then Inl Invalid_argument else t_crypto_system_type_from_ID ID)"

definition t_crypto_system_type_is_asymkex :: "t_crypto_system_type \<Rightarrow> bool result" where
  "t_crypto_system_type_is_asymkex sys =
     (if sys = e_crypto_system_type_X25519 then Inr False
      else if sys = e_crypto_system_type_SIDH then Inr False
      else if sys = e_crypto_system_type_NTRU_EES439EP1 then Inr True
      else Inl Invalid_argument)"

datatype t_crypto_use =
    e_crypto_use_secret
  | e_crypto_use_open
  | e_crypto_use_signature
  | e_crypto_use_fingerprint

fun crypto_use_byte :: "t_crypto_use \<Rightarrow> byte" where
  "crypto_use_byte e_crypto_use_secret = 0x53"       \<comment> \<open>S\<close>
| "crypto_use_byte e_crypto_use_open = 0x6F"         \<comment> \<open>o\<close>
| "crypto_use_byte e_crypto_use_signature = 0x6E"    \<comment> \<open>n\<close>
| "crypto_use_byte e_crypto_use_fingerprint = 0x66"  \<comment> \<open>f\<close>

section \<open>Strings\<close>

definition safe_string_cmp :: "bytes \<Rightarrow> bytes \<Rightarrow> bool" where
  "safe_string_cmp a b \<longleftrightarrow> (if length a \<noteq> length b then False else list_all2 (=) a b)"

definition substr_locked :: "bytes \<Rightarrow> nat \<Rightarrow> bytes result" where
  "substr_locked str len =
     (if len < 1 then Inl Runtime_error
      else if \<not> len < length str then Inl Abort
      else Inr (take len str))"

definition binary_string_xor :: "bytes \<Rightarrow> bytes \<Rightarrow> bytes result" where
  "binary_string_xor str1 str2 =
     (if length str1 \<noteq> length str2 then Inl Runtime_error else Inr (map2 (XOR) str1 str2))"

section \<open>Hashes\<close>

definition Hash1_size :: nat where
  "Hash1_size = 64"

definition Hash1 :: "('bx, 'ux) crypto_lib \<Rightarrow> bytes \<Rightarrow> bytes" where
  "Hash1 lib hash = crypto_generichash lib hash"

definition Hash1_PRV :: "('bx, 'ux) crypto_lib \<Rightarrow> bytes \<Rightarrow> bytes" where
  "Hash1_PRV lib hash = crypto_generichash lib hash"

definition Hash2 :: "('bx, 'ux) crypto_lib \<Rightarrow> bytes \<Rightarrow> bytes result" where
  "Hash2 lib hash =
     (let out = Hash1 lib (map NOT (Hash1 lib hash))
      in if length out \<noteq> Hash1_size then Inl Abort else Inr out)"

text \<open>The loop of \<open>Hash2_PRV\<close>: \<open>n\<close> times it negates the octet \<open>at(0)\<close>.\<close>

fun negate_first_loop :: "nat \<Rightarrow> bytes \<Rightarrow> bytes result" where
  "negate_first_loop 0 s = Inr s"
| "negate_first_loop (Suc n) s =
     (if s = [] then Inl Out_of_range else negate_first_loop n (s[0 := NOT (s ! 0)]))"

definition Hash2_PRV :: "('bx, 'ux) crypto_lib \<Rightarrow> bytes \<Rightarrow> bytes result" where
  "Hash2_PRV lib hash =
     (let h = Hash1_PRV lib hash
      in bindR (negate_first_loop (length h) h) (\<lambda>h'.
           let out = Hash1_PRV lib h'
           in if length out \<noteq> Hash1_size then Inl Abort else Inr out))"

section \<open>The symmetric hash state\<close>

record c_symhash_state =
  symhash_m_state :: bytes
  symhash_m_number :: int

definition c_symhash_state_init :: "bytes \<Rightarrow> int \<Rightarrow> c_symhash_state" where
  \<comment> \<open>the constructor leaves \<open>m_number\<close> uninitialised: \<open>garbage\<close> is what it holds\<close>
  "c_symhash_state_init initial_state garbage =
     \<lparr>symhash_m_state = initial_state, symhash_m_number = garbage\<rparr>"

definition next_state :: "('bx, 'ux) crypto_lib \<Rightarrow> bytes \<Rightarrow> c_symhash_state \<Rightarrow> c_symhash_state" where
  "next_state lib additional_secret_material st =
     st\<lparr>symhash_m_state := Hash1 lib (Hash1 lib (symhash_m_state st) @ additional_secret_material),
        symhash_m_number := symhash_m_number st + 1\<rparr>"

definition get_password :: "('bx, 'ux) crypto_lib \<Rightarrow> c_symhash_state \<Rightarrow> bytes result" where
  "get_password lib st = Hash2 lib (symhash_m_state st)"

section \<open>Lemmas\<close>

definition hash_sized :: "('bx, 'ux) crypto_lib \<Rightarrow> bool" where
  \<comment> \<open>documented by libsodium: the output has the requested length\<close>
  "hash_sized lib \<longleftrightarrow> (\<forall>x. length (crypto_generichash lib x) = 64)"

lemma length_Hash1 [simp]:
  "hash_sized lib \<Longrightarrow> length (Hash1 lib x) = 64" "hash_sized lib \<Longrightarrow> length (Hash1_PRV lib x) = 64"
  by (simp_all add: hash_sized_def Hash1_def Hash1_PRV_def)

lemma int_to_enum_value: "int_to_enum (enum_value s) = Some s"
  by (cases s) (simp_all add: int_to_enum_def all_systems_def)

lemma int_to_enum_Some: "int_to_enum n = Some s \<Longrightarrow> enum_value s = n"
  by (auto simp: int_to_enum_def find_Some_iff)

lemma to_ID_from_ID:
  assumes "t_crypto_system_type_to_ID n = Inr c"
  shows "\<exists>s. t_crypto_system_type_from_ID c = Inr s \<and> enum_value s = n"
  using assms
  by (auto simp: t_crypto_system_type_to_ID_def t_crypto_system_type_from_ID_def split: if_splits)

lemma from_ID_to_ID:
  assumes "t_crypto_system_type_from_ID b = Inr s"
  shows "t_crypto_system_type_to_ID (enum_value s) = Inr b"
  using assms
  by (auto simp: t_crypto_system_type_to_ID_def t_crypto_system_type_from_ID_def split: if_splits)

lemma from_string_from_ID:
  assumes "t_crypto_system_type_from_string str = Inr s"
  shows "\<exists>b. t_crypto_system_type_from_ID b = Inr s"
proof -
  have "r = Inr s" if "(if c then Inl e else r) = Inr s" for c e r
    using that by (cases c) simp_all
  from this [OF assms [unfolded t_crypto_system_type_from_string_def Let_def]]
  show ?thesis by (rule exI)
qed

definition xor_bytes :: "bytes \<Rightarrow> bytes \<Rightarrow> bytes" where
  "xor_bytes a b = map2 (XOR) a b"

lemma length_xor_bytes [simp]: "length (xor_bytes a b) = min (length a) (length b)"
  by (simp add: xor_bytes_def)

lemma nth_xor_bytes [simp]:
  "i < length a \<Longrightarrow> i < length b \<Longrightarrow> xor_bytes a b ! i = a ! i XOR b ! i"
  by (simp add: xor_bytes_def)

lemma binary_string_xor_eq:
  "length a = length b \<Longrightarrow> binary_string_xor a b = Inr (xor_bytes a b)"
  by (simp add: binary_string_xor_def xor_bytes_def)

lemma xor_bytes_commute: "length a = length b \<Longrightarrow> xor_bytes a b = xor_bytes b a"
  by (rule nth_equalityI) (simp_all add: xor.commute)

lemma xor_bytes_assoc:
  "length a = length b \<Longrightarrow> length b = length c \<Longrightarrow> xor_bytes (xor_bytes a b) c = xor_bytes a (xor_bytes b c)"
  by (rule nth_equalityI) (simp_all add: xor.assoc)

lemma xor_bytes_right_commute:
  "length a = length b \<Longrightarrow> length b = length c \<Longrightarrow> xor_bytes (xor_bytes a b) c = xor_bytes (xor_bytes a c) b"
  by (rule nth_equalityI) (simp_all add: xor.left_commute xor.commute)

lemma negate_first_twice:
  assumes "s \<noteq> []"
  shows "negate_first_loop (2 * n) s = Inr s"
  by (induction n) (use assms in simp_all)

section \<open>A concrete instance of the primitives\<close>

text \<open>
  Stand-ins with the laws of the real primitives and none of their secrecy, to run the model
  on concrete inputs: a key pair is one string, agreement is exclusive-or, a signature is the
  key and the message, a box is the nonce number and the message.
\<close>

definition hash_example :: "bytes \<Rightarrow> bytes" where
  "hash_example x = take 64 (x @ replicate 64 0)"

definition open_example :: "nat \<Rightarrow> bytes \<Rightarrow> bytes result" where
  "open_example n c = (case c of [] \<Rightarrow> Inl Crypto_error | b # m \<Rightarrow> if b = of_nat n then Inr m else Inl Crypto_error)"

definition example_lib :: "(bytes \<times> nat, bytes \<times> nat) crypto_lib" where
  "example_lib = \<lparr>
     enable_ntru = True, enable_sidh = True,
     crypto_generichash = hash_example,
     randombytes = (\<lambda>n len. replicate len (of_nat n)),
     generate_pubkey_from_privkey = id,
     key_agreement = (\<lambda>prv pub. Inr (map2 (XOR) prv pub)),
     crypto_sign_keypair = (\<lambda>n. ([of_nat n], [of_nat n])),
     crypto_sign_detached = (\<lambda>msg prv. Inr (prv @ msg)),
     crypto_sign_verify_detached = (\<lambda>sig msg pub. sig = pub @ msg),
     ntru_generate_encrypt_keypair = (\<lambda>n. Inr (replicate 659 (of_nat n), replicate 609 (of_nat n))),
     ntru_encrypt = (\<lambda>n msg pub. Inr msg),
     ntru_decrypt = (\<lambda>c prv. Inr c),
     ntru_generate_sign_keypair = (\<lambda>n. Inr (replicate 6152 (of_nat n), replicate 6158 (of_nat n))),
     ntru_sign = (\<lambda>msg prv. Inr (take 1 prv @ msg)),
     ntru_verify = (\<lambda>sig msg pub. Inr (sig = take 1 pub @ msg)),
     sidh_generate_keypair = (\<lambda>n. Inr ([of_nat n], [of_nat n])),
     sidh_secret_agreement = (\<lambda>prv own them. Inr (map2 (XOR) prv them)),
     boxer_new = (\<lambda>odd k. (k, if odd then 1 else 0)),
     boxer_key = fst,
     boxer_nonce = (\<lambda>b. [of_nat (snd b)]),
     boxer_box = (\<lambda>(k, n) m. (Inr (of_nat n # m), (k, n + 2))),
     unboxer_new = (\<lambda>odd k. (k, if odd then 1 else 0)),
     unboxer_key = fst,
     unboxer_nonce = (\<lambda>b. [of_nat (snd b)]),
     unboxer_unbox = (\<lambda>(k, n) c. (open_example n c, (k, n + 2))),
     unboxer_unbox_nonce = (\<lambda>(k, n) c nonce. (open_example (unat (hd nonce)) c, (k, n)))\<rparr>"

lemma example_hash [simp]: "crypto_generichash example_lib = hash_example"
  unfolding example_lib_def by (simp only: crypto_lib.select_convs)

lemma hash_sized_example: "hash_sized example_lib"
  by (auto simp: hash_sized_def hash_example_def min_def)

section \<open>Properties\<close>

text \<open>
  The identifier letters and the enumeration agree: \<open>t_crypto_system_type_from_ID\<close>
  inverts \<open>t_crypto_system_type_to_ID\<close> wherever that is defined, and every name that
  \<open>t_crypto_system_type_from_string\<close> accepts is a system with an identifier.
\<close>

theorem crypto_system_ID_roundtrip:
  "(\<forall>c. t_crypto_system_type_to_ID n = Inr c \<longrightarrow>
      map_sum id enum_value (t_crypto_system_type_from_ID c) = Inr n)
   \<and> (\<forall>s. t_crypto_system_type_from_ID b = Inr s \<longrightarrow> t_crypto_system_type_to_ID (enum_value s) = Inr b)
   \<and> (\<forall>s. t_crypto_system_type_from_string str = Inr s \<longrightarrow>
        (\<exists>c. t_crypto_system_type_to_ID (enum_value s) = Inr c))"
proof (intro conjI allI impI)
  show "map_sum id enum_value (t_crypto_system_type_from_ID c) = Inr n"
    if "t_crypto_system_type_to_ID n = Inr c" for c
    using to_ID_from_ID [OF that] by auto
qed (auto dest: from_ID_to_ID from_string_from_ID)

theorem crypto_system_ID_roundtrip_witness:
  "t_crypto_system_type_to_ID 11 = Inr 0x72
   \<and> map_sum id enum_value (t_crypto_system_type_from_ID 0x72) = Inr 11"
  using crypto_system_ID_roundtrip [of 11 0 "[]"] by (simp add: t_crypto_system_type_to_ID_def)

text \<open>
  \<open>Hash2_PRV\<close> is \<open>Hash1\<close> applied twice: its loop negates the octet \<open>at(0)\<close> 64
  times instead of each octet once, so unlike \<open>Hash2\<close> it negates nothing.
\<close>

theorem Hash2_PRV_no_negation:
  assumes "\<And>x. length (crypto_generichash lib x) = 64"
  shows "Hash2_PRV lib x = Inr (Hash1 lib (Hash1 lib x))
    \<and> Hash2 lib x = Inr (Hash1 lib (map NOT (Hash1 lib x)))"
proof -
  have "Hash1_PRV lib x \<noteq> []" using assms [of x] by (auto simp: Hash1_PRV_def)
  from negate_first_twice [OF this, of 32] assms
  have "Hash2_PRV lib x = Inr (Hash1 lib (Hash1 lib x))"
    by (simp add: Hash2_PRV_def Hash1_PRV_def Hash1_def Hash1_size_def Let_def)
  moreover have "Hash2 lib x = Inr (Hash1 lib (map NOT (Hash1 lib x)))"
    using assms by (simp add: Hash2_def Hash1_def Hash1_size_def Let_def)
  ultimately show ?thesis ..
qed

theorem Hash2_PRV_no_negation_witness:
  "Hash2_PRV example_lib [1] = Inr (1 # replicate 63 0)
   \<and> Hash2 example_lib [1] = Inr (254 # replicate 63 255)"
proof -
  have len: "length (crypto_generichash example_lib x) = 64" for x
    using hash_sized_example by (simp add: hash_sized_def)
  show ?thesis
    using Hash2_PRV_no_negation [of example_lib "[1]", OF len]
    by (simp add: Hash1_def hash_example_def)
qed

end
