(* ===== verification/String_Codec.thy ===== *)
theory String_Codec
  imports Galaxy_Prelude
begin

text \<open>
  The hexadecimal codec of \<^verbatim>\<open>src/src/strings_utils.cpp\<close>: the conversions between
  \<open>string_as_bin\<close> and \<open>string_as_hex\<close>. Characters are octets (\<open>0x30\<close> is the digit
  zero, \<open>0x61\<close> the letter a). The code compares signed \<open>char\<close>s; an octet of 128 and above is
  negative there and is outside both ranges under either reading.
\<close>

section \<open>Digits\<close>

definition int2hexchar :: "byte \<Rightarrow> byte result" where
  "int2hexchar i =
     (if i \<le> 9 then Inr (0x30 + i)
      else if i \<le> 15 then Inr (0x61 + (i - 10))
      else Inl Invalid_argument)"

definition hexchar2int :: "byte \<Rightarrow> byte result" where
  "hexchar2int c =
     (if 0x30 \<le> c \<and> c \<le> 0x39 then Inr (c - 0x30)
      else if 0x61 \<le> c \<and> c \<le> 0x66 then Inr (c - 0x61 + 10)
      else Inl Invalid_argument)"

definition hex_octet :: "byte \<Rightarrow> byte \<Rightarrow> byte result" where
  \<comment> \<open>\<open>hexchar2int(ch)*16 + hexchar2int(cl)\<close>\<close>
  "hex_octet ch cl = bindR (hexchar2int ch) (\<lambda>h. bindR (hexchar2int cl) (\<lambda>l. Inr (h * 16 + l)))"

definition doublehexchar2int :: "bytes \<Rightarrow> byte result" where
  "doublehexchar2int s = (if length s \<noteq> 2 then Inl Invalid_argument else hex_octet (s ! 0) (s ! 1))"

section \<open>Strings\<close>

fun hex_encode_loop :: "bytes \<Rightarrow> bytes result" where
  "hex_encode_loop [] = Inr []"
| "hex_encode_loop (b # bs) =
     bindR (int2hexchar (b div 16)) (\<lambda>bh. bindR (int2hexchar (b mod 16)) (\<lambda>bl.
       bindR (hex_encode_loop bs) (\<lambda>rest. Inr (bh # bl # rest))))"

definition string_as_hex_of_bin :: "bytes \<Rightarrow> bytes result" where
  "string_as_hex_of_bin bin =
     (let in_size_max1 = (2 ^ 64 - 1) div 2
      in if \<not> length bin < in_size_max1 then Inl Abort
         else if \<not> length bin < in_size_max1 - 1 then Inl Abort
         else hex_encode_loop bin)"

text \<open>The loop reads two characters at a time; a last odd character is taken as a low nibble.\<close>

fun hex_decode_loop :: "bytes \<Rightarrow> bytes result" where
  "hex_decode_loop [] = Inr []"
| "hex_decode_loop [cl] = bindR (hex_octet 0x30 cl) (\<lambda>octet. Inr [octet])"
| "hex_decode_loop (ch # cl # rest) =
     bindR (hex_octet ch cl) (\<lambda>octet. bindR (hex_decode_loop rest) (\<lambda>out. Inr (octet # out)))"

definition string_as_bin_of_hex :: "bytes \<Rightarrow> bytes result" where
  "string_as_bin_of_hex encoded = (if encoded = [] then Inr [] else hex_decode_loop encoded)"

section \<open>The range test of \<open>is_ascii_normal\<close>\<close>

definition ascii_in_range :: "int \<Rightarrow> bool" where
  "ascii_in_range x \<longleftrightarrow> x \<ge> 0 \<or> x \<le> 255"

definition is_ascii_normal :: "(int \<Rightarrow> bool) \<Rightarrow> bytes \<Rightarrow> bool" where
  \<comment> \<open>\<open>isprint\<close> of the C library, on \<open>char\<close> converted to \<open>int\<close>\<close>
  "is_ascii_normal isprint str =
     list_all (\<lambda>c. \<not> (let x = sint c in if \<not> ascii_in_range x then True else \<not> isprint x)) str"

section \<open>Lemmas\<close>

lemma unat_of_nat_self: "i = of_nat (unat (i :: byte))"
  by simp

lemma hexchar_roundtrip:
  assumes "i \<le> 15"
  shows "\<exists>c. int2hexchar i = Inr c \<and> hexchar2int c = Inr i"
proof -
  have "unat i < 16" using assms by (simp add: word_le_nat_alt)
  then have "unat i \<in> set [0..<16]" by simp
  then have "i \<in> set (map of_nat [0..<16])"
    by (metis image_eqI image_set unat_of_nat_self)
  then show ?thesis
    by (simp add: upt_conv_Cons) (elim disjE; simp add: int2hexchar_def hexchar2int_def)
qed

lemma byte_nibbles: "(b div 16) * 16 + b mod 16 = (b :: byte)"
  by (rule div_mult_mod_eq)

lemma byte_div_16: "(b :: byte) div 16 \<le> 15"
proof -
  have "unat b < 256" using unsigned_less [of b] by simp
  then show ?thesis by (simp add: word_le_nat_alt unat_div)
qed

lemma byte_mod_16: "(b :: byte) mod 16 \<le> 15"
  by (simp add: word_le_nat_alt unat_mod)

lemma hex_encode_decode:
  "\<exists>h. hex_encode_loop bs = Inr h \<and> hex_decode_loop h = Inr bs \<and> length h = 2 * length bs"
proof (induction bs)
  case (Cons b bs)
  obtain h where h: "hex_encode_loop bs = Inr h" "hex_decode_loop h = Inr bs" "length h = 2 * length bs"
    using Cons.IH by blast
  obtain ch where ch: "int2hexchar (b div 16) = Inr ch" "hexchar2int ch = Inr (b div 16)"
    using hexchar_roundtrip [OF byte_div_16] by blast
  obtain cl where cl: "int2hexchar (b mod 16) = Inr cl" "hexchar2int cl = Inr (b mod 16)"
    using hexchar_roundtrip [OF byte_mod_16] by blast
  show ?case
    using h ch cl byte_nibbles [of b] by (simp add: hex_octet_def)
qed simp

definition is_hex_digit :: "byte \<Rightarrow> bool" where
  "is_hex_digit c \<longleftrightarrow> (0x30 \<le> c \<and> c \<le> 0x39) \<or> (0x61 \<le> c \<and> c \<le> 0x66)"

lemma hexchar2int_cases:
  "is_hex_digit c \<Longrightarrow> \<exists>i. hexchar2int c = Inr i" "\<not> is_hex_digit c \<Longrightarrow> hexchar2int c = Inl Invalid_argument"
  by (auto simp: is_hex_digit_def hexchar2int_def)

lemma hex_octet_cases:
  "is_hex_digit a \<and> is_hex_digit b \<Longrightarrow> \<exists>i. hex_octet a b = Inr i"
  "\<not> (is_hex_digit a \<and> is_hex_digit b) \<Longrightarrow> hex_octet a b = Inl Invalid_argument"
  using hexchar2int_cases [of a] hexchar2int_cases [of b] by (force simp: hex_octet_def)+

lemma hex_decode_outcome:
  "if list_all is_hex_digit h then \<exists>bs. hex_decode_loop h = Inr bs \<and> length bs = (length h + 1) div 2
   else hex_decode_loop h = Inl Invalid_argument"
proof (induction h rule: hex_decode_loop.induct)
  case (2 cl)
  have "is_hex_digit 0x30" by (simp add: is_hex_digit_def)
  then show ?case using hex_octet_cases [of "0x30" cl] by auto
next
  case (3 ch cl rest)
  consider "is_hex_digit ch \<and> is_hex_digit cl" | "\<not> (is_hex_digit ch \<and> is_hex_digit cl)" by blast
  then show ?case
    using 3 by cases (use hex_octet_cases [of ch cl] in \<open>auto split: if_splits\<close>)
qed simp

section \<open>Properties\<close>

text \<open>
  Encoding any octet string as hexadecimal text and decoding it gives the string back, and
  the text is twice as long.
\<close>

theorem hex_roundtrip:
  assumes "length bs < 2 ^ 62"
  shows "\<exists>h. string_as_hex_of_bin bs = Inr h \<and> string_as_bin_of_hex h = Inr bs \<and> length h = 2 * length bs"
proof -
  obtain h where h: "hex_encode_loop bs = Inr h" "hex_decode_loop h = Inr bs" "length h = 2 * length bs"
    using hex_encode_decode by blast
  moreover have "string_as_hex_of_bin bs = hex_encode_loop bs"
    using assms by (simp add: string_as_hex_of_bin_def)
  moreover have "string_as_bin_of_hex h = hex_decode_loop h"
    by (simp add: string_as_bin_of_hex_def)
  ultimately show ?thesis by simp
qed

theorem hex_roundtrip_witness:
  "\<exists>h. string_as_hex_of_bin [0xFD, 0x42] = Inr h \<and> string_as_bin_of_hex h = Inr [0xFD, 0x42]
       \<and> length h = 2 * length [0xFD :: byte, 0x42]"
  by (rule hex_roundtrip) simp

text \<open>
  decoding succeeds exactly on strings of digits and lower-case letters a to f, of odd length
  too, and throws \<open>std::invalid_argument\<close> on every other string.
\<close>

theorem string_as_bin_outcome:
  "(case string_as_bin_of_hex h of
      Inr bs \<Rightarrow> list_all is_hex_digit h \<and> length bs = (length h + 1) div 2
    | Inl e \<Rightarrow> \<not> list_all is_hex_digit h \<and> e = Invalid_argument)"
  using hex_decode_outcome [of h]
  by (cases "h = []") (auto simp: string_as_bin_of_hex_def split: if_splits sum.splits)

text \<open>
  The comment above the decoder gives \<open>"20a"\<close> as the encoding of \<open>02 0a\<close>; the code pads
  the last character instead of the first and reads \<open>20 0a\<close>.
\<close>

lemma string_as_bin_odd: "string_as_bin_of_hex [0x32, 0x30, 0x61] = Inr [0x20, 0x0A]"
  by (simp add: string_as_bin_of_hex_def hex_octet_def hexchar2int_def)

lemma ascii_in_range_always: "ascii_in_range x"
  by (auto simp: ascii_in_range_def)

end
