(* ===== verification/Multikeys.thy ===== *)
theory Multikeys
  imports Crypto_Basic String_Codec "HOL-Library.Multiset"
begin

text \<open>
  Collections of keys and signatures: \<open>c_multicryptostrings\<close> of
  \<^verbatim>\<open>src/src/crypto/multikeys.tpl.hpp\<close>, \<open>c_multikeys_pub\<close> and the addresses derived
  from it in \<^verbatim>\<open>multikeys.cpp\<close>. The record is the object: \<open>m_cryptolists_general\<close> has one
  vector of keys per crypto system, indexed by the enumeration, and \<open>m_hash_cached\<close> is the
  mutable cache of the fingerprint, empty when it has to be computed. The class is a
  template over the key type: \<open>push_key\<close> and \<open>pop_key\<close> are the \<open>obj_serialize\<close> and
  \<open>obj_deserialize\<close> of that type.
\<close>

section \<open>The collection\<close>

record multicryptostrings =
  m_cryptolists_general :: "bytes list list"
  m_hash_cached :: bytes
  m_crypto_use :: t_crypto_use

definition multicryptostrings_init :: "t_crypto_use \<Rightarrow> multicryptostrings" where
  "multicryptostrings_init crypto_use =
     \<lparr>m_cryptolists_general = replicate 32 [], m_hash_cached = [], m_crypto_use = crypto_use\<rparr>"

definition get_count_keys_in_system ::
    "'z multicryptostrings_scheme \<Rightarrow> t_crypto_system_type \<Rightarrow> nat result" where
  "get_count_keys_in_system mk crypto_type =
     bindR (vec_at (m_cryptolists_general mk) (enum_value crypto_type)) (\<lambda>v. Inr (length v))"

definition get_count_of_systems :: "'z multicryptostrings_scheme \<Rightarrow> nat" where
  "get_count_of_systems mk = length (m_cryptolists_general mk)"

definition add_key :: "t_crypto_system_type \<Rightarrow> bytes \<Rightarrow> ('z multicryptostrings_scheme, unit) action" where
  "add_key type pubkey mk =
     (if \<not> enum_value type < length (m_cryptolists_general mk) then (Inl Out_of_range, mk)
      else (Inr (), mk\<lparr>m_cryptolists_general :=
              (m_cryptolists_general mk)[enum_value type :=
                 m_cryptolists_general mk ! enum_value type @ [pubkey]]\<rparr>))"

definition get_key :: "'z multicryptostrings_scheme \<Rightarrow> t_crypto_system_type \<Rightarrow> nat \<Rightarrow> bytes result" where
  "get_key mk crypto_type number_of_key =
     bindR (vec_at (m_cryptolists_general mk) (enum_value crypto_type)) (\<lambda>v. vec_at v number_of_key)"

definition set_hash_dirty :: "'z multicryptostrings_scheme \<Rightarrow> 'z multicryptostrings_scheme" where
  "set_hash_dirty mk = mk\<lparr>m_hash_cached := []\<rparr>"

definition clear :: "'z multicryptostrings_scheme \<Rightarrow> 'z multicryptostrings_scheme" where
  "clear mk = mk\<lparr>m_cryptolists_general := map (\<lambda>_. []) (m_cryptolists_general mk)\<rparr>"

section \<open>Serialisation\<close>

definition GMK :: bytes where
  "GMK = [0x47, 0x4D, 0x4B]"

definition generated :: "(generator, unit) action \<Rightarrow> bytes result" where
  \<comment> \<open>run on a new generator and take \<open>gen.str()\<close>\<close>
  "generated m = (case m generator_init of (Inl e, g) \<Rightarrow> Inl e | (Inr _, g) \<Rightarrow> Inr (m_str g))"

definition used_types :: "bytes list list \<Rightarrow> nat" where
  "used_types keylists = length (filter (\<lambda>ix. keylists ! ix \<noteq> []) [0..<length keylists])"

definition serialize_system ::
    "(bytes \<Rightarrow> (generator, unit) action) \<Rightarrow> bytes list list \<Rightarrow> nat \<Rightarrow> (generator, unit) action" where
  "serialize_system push_key keylists ix =
     (if keylists ! ix \<noteq> [] then
        andThen (liftR (t_crypto_system_type_to_ID ix)) (\<lambda>ID.
        andThen (push_integer_uvarint (ucast ID)) (\<lambda>_.
          push_vector_object push_key (keylists ! ix)))
      else ret ())"

definition serialize_bin ::
    "(bytes \<Rightarrow> (generator, unit) action) \<Rightarrow> 'z multicryptostrings_scheme \<Rightarrow> bytes result" where
  "serialize_bin push_key mk =
     (let keylists = m_cryptolists_general mk
      in generated
          (andThen (push_bytes_n 3 GMK) (\<lambda>_.
           andThen (push_byte_u 0x61) (\<lambda>_.
           andThen (push_byte_u (crypto_use_byte (m_crypto_use mk))) (\<lambda>_.
           andThen (push_integer_uvarint (of_nat (used_types keylists))) (\<lambda>_.
             forA (serialize_system push_key keylists) [0..<length keylists]))))))"

definition assign_system :: "nat \<Rightarrow> bytes list \<Rightarrow> ('z multicryptostrings_scheme, unit) action" where
  "assign_system ix sys_keys mk =
     (if \<not> ix < length (m_cryptolists_general mk) then (Inl Out_of_range, mk)
      else (Inr (), mk\<lparr>m_cryptolists_general := (m_cryptolists_general mk)[ix := sys_keys]\<rparr>))"

definition load_system ::
    "(parser, bytes) action \<Rightarrow> (parser \<times> 'z multicryptostrings_scheme, unit) action" where
  "load_system pop_key =
     andThen (on_fst pop_integer_uvarint) (\<lambda>ID.
     andThen (liftR (t_crypto_system_type_from_ID (ucast ID))) (\<lambda>sys_id.
     andThen (on_fst (pop_vector_object pop_key)) (\<lambda>sys_keys.
       on_snd (assign_system (enum_value sys_id) sys_keys))))"

definition load_body ::
    "(parser, bytes) action \<Rightarrow> (parser \<times> 'z multicryptostrings_scheme, unit) action" where
  "load_body pop_key =
     andThen (on_fst (pop_bytes_n 3)) (\<lambda>magic_marker.
     if magic_marker \<noteq> GMK then raise Runtime_error
     else andThen (on_fst pop_byte_u) (\<lambda>magic_version.
     andThen (on_fst pop_byte_u) (\<lambda>magic_crypto_use.
     andThen (\<lambda>(p, mk). (if magic_crypto_use \<noteq> crypto_use_byte (m_crypto_use mk)
                         then Inl Runtime_error else Inr (), (p, mk))) (\<lambda>_.
     if magic_version = 0x61 then
       andThen (on_fst pop_integer_uvarint) (\<lambda>map_size.
       andThen (assertA (unat map_size \<le> 100)) (\<lambda>_.
       andThen (forA (\<lambda>_. load_system pop_key) [0..<unat map_size]) (\<lambda>_.
       andThen (\<lambda>(p, mk). (if \<not> is_end p then Inl Runtime_error else Inr (), (p, mk))) (\<lambda>_.
         on_snd (\<lambda>mk. (Inr (), set_hash_dirty mk))))))
     else raise Format_error_read_invalid_version))))"

definition load_from_bin ::
    "(parser, bytes) action \<Rightarrow> bytes \<Rightarrow> ('z multicryptostrings_scheme, unit) action" where
  "load_from_bin pop_key data mk =
     (case parser_of_string data of
        Inl e \<Rightarrow> (Inl e, mk)
      | Inr p \<Rightarrow> (case load_body pop_key (p, mk) of (r, (p', mk')) \<Rightarrow> (r, mk')))"

section \<open>The fingerprint\<close>

fun fpr_accumulate :: "('bx, 'ux) crypto_lib \<Rightarrow> bytes list \<Rightarrow> bytes \<Rightarrow> bytes result" where
  "fpr_accumulate lib [] fpr_accum = Inr fpr_accum"
| "fpr_accumulate lib (pk # pks) fpr_accum =
     bindR (binary_string_xor fpr_accum (Hash1 lib pk)) (fpr_accumulate lib pks)"

definition fingerprint_system ::
    "('bx, 'ux) crypto_lib \<Rightarrow> bytes list list \<Rightarrow> nat \<Rightarrow> (generator, unit) action" where
  "fingerprint_system lib keylists ix =
     (if keylists ! ix \<noteq> [] then
        andThen (liftR (t_crypto_system_type_to_ID ix)) (\<lambda>ID.
        andThen (push_byte_u ID) (\<lambda>_.
        andThen (liftR (fpr_accumulate lib (keylists ! ix) (replicate Hash1_size 0))) (\<lambda>fpr_accum.
          push_varstring fpr_accum)))
      else ret ())"

definition update_hash :: "('bx, 'ux) crypto_lib \<Rightarrow> ('z multicryptostrings_scheme, unit) action" where
  "update_hash lib mk =
     (let keylists = m_cryptolists_general mk
      in case generated
          (andThen (push_bytes_n 3 GMK) (\<lambda>_.
           andThen (push_byte_u 0x61) (\<lambda>_.
           andThen (push_byte_u (crypto_use_byte e_crypto_use_fingerprint)) (\<lambda>_.
           andThen (push_byte_u 1) (\<lambda>_.
           andThen (push_integer_uvarint (of_nat (used_types keylists))) (\<lambda>_.
             forA (fingerprint_system lib keylists) [0..<length keylists]))))))
         of Inl e \<Rightarrow> (Inl e, mk)
          | Inr fingerprint_serial \<Rightarrow> (Inr (), mk\<lparr>m_hash_cached := Hash1 lib fingerprint_serial\<rparr>))"

definition get_hash :: "('bx, 'ux) crypto_lib \<Rightarrow> ('z multicryptostrings_scheme, bytes) action" where
  "get_hash lib mk =
     (case (if m_hash_cached mk = [] then update_hash lib mk else (Inr (), mk)) of
        (Inl e, mk') \<Rightarrow> (Inl e, mk')
      | (Inr _, mk') \<Rightarrow> if m_hash_cached mk' = [] then (Inl Abort, mk') else (Inr (m_hash_cached mk'), mk'))"

definition operator_greater ::
    "('bx, 'ux) crypto_lib \<Rightarrow> 'y multicryptostrings_scheme \<Rightarrow> 'z multicryptostrings_scheme \<Rightarrow> bool result" where
  "operator_greater lib lhs rhs =
     bindR (fst (get_hash lib lhs)) (\<lambda>h1. bindR (fst (get_hash lib rhs)) (\<lambda>h2. Inr (h1 > h2)))"

section \<open>Storing keys in files\<close>

datatype t_datastore =
    e_datastore_galaxy_wallet_PRV
  | e_datastore_galaxy_pub
  | e_datastore_galaxy_sig
  | e_datastore_galaxy_instalation_key_conf
  | e_datastore_local_path

definition datastore_save ::
    "(t_datastore \<Rightarrow> string \<Rightarrow> bytes \<Rightarrow> bool \<Rightarrow> ('fs, unit) action) \<Rightarrow> (bytes \<Rightarrow> (generator, unit) action) \<Rightarrow>
     string \<Rightarrow> bool \<Rightarrow> 'z multicryptostrings_scheme \<Rightarrow> ('fs, unit) action" where
  \<comment> \<open>\<open>save_string\<close> stands for \<open>datastore::save_string\<close> and \<open>save_string_mlocked\<close>; the case for
     signatures has no \<open>break\<close> and goes on into the case for private keys\<close>
  "datastore_save save_string push_key fname overwrite mk =
     andThen (liftR (serialize_bin push_key mk)) (\<lambda>serialized_data.
       case m_crypto_use mk of
         e_crypto_use_open \<Rightarrow> save_string e_datastore_galaxy_pub fname serialized_data overwrite
       | e_crypto_use_signature \<Rightarrow>
           andThen (save_string e_datastore_galaxy_sig fname serialized_data overwrite) (\<lambda>_.
             save_string e_datastore_galaxy_wallet_PRV fname serialized_data overwrite)
       | e_crypto_use_secret \<Rightarrow> save_string e_datastore_galaxy_wallet_PRV fname serialized_data overwrite
       | e_crypto_use_fingerprint \<Rightarrow> raise Runtime_error)"

definition datastore_load ::
    "(t_datastore \<Rightarrow> string \<Rightarrow> bytes result) \<Rightarrow> (parser, bytes) action \<Rightarrow> string \<Rightarrow>
     ('z multicryptostrings_scheme, unit) action" where
  "datastore_load load_string pop_key fname mk =
     (let load_kind = (\<lambda>kind.
        case load_string kind fname of
          Inl e \<Rightarrow> (Inl e, mk)
        | Inr data \<Rightarrow> load_from_bin pop_key data (clear mk))
      in case m_crypto_use mk of
           e_crypto_use_open \<Rightarrow> load_kind e_datastore_galaxy_pub
         | e_crypto_use_secret \<Rightarrow> load_kind e_datastore_galaxy_wallet_PRV
         | e_crypto_use_signature \<Rightarrow> load_kind e_datastore_galaxy_sig
         | e_crypto_use_fingerprint \<Rightarrow> (Inl Runtime_error, mk))"

section \<open>Public keys and the address of an identity\<close>

record c_multikeys_pub = multicryptostrings +
  m_ipv6_prefix :: bytes   \<comment> \<open>text, for example \<open>fd42\<close>\<close>

definition c_multikeys_pub_init :: c_multikeys_pub where
  "c_multikeys_pub_init =
     \<lparr>m_cryptolists_general = replicate 32 [], m_hash_cached = [], m_crypto_use = e_crypto_use_open,
      m_ipv6_prefix = [0x66, 0x64, 0x34, 0x32]\<rparr>"

definition set_ipv6_prefix :: "bytes \<Rightarrow> c_multikeys_pub \<Rightarrow> c_multikeys_pub" where
  "set_ipv6_prefix prefix mk = mk\<lparr>m_ipv6_prefix := prefix\<rparr>"

definition add_public :: "t_crypto_system_type \<Rightarrow> bytes \<Rightarrow> (c_multikeys_pub, unit) action" where
  "add_public crypto_type key = add_key crypto_type key"

definition get_public :: "c_multikeys_pub \<Rightarrow> t_crypto_system_type \<Rightarrow> nat \<Rightarrow> bytes result" where
  "get_public mk crypto_type number_of_key = get_key mk crypto_type number_of_key"

definition get_ipv6_string_bin :: "('bx, 'ux) crypto_lib \<Rightarrow> (c_multikeys_pub, bytes) action" where
  \<comment> \<open>\<open>len_ip - len_pre\<close> is an \<open>int\<close>; when negative it is a huge count for \<open>substr\<close>\<close>
  "get_ipv6_string_bin lib =
     andThen (get_hash lib) (\<lambda>hash mk.
       case string_as_bin_of_hex (m_ipv6_prefix mk) of
         Inl e \<Rightarrow> (Inl e, mk)
       | Inr prefix_bin \<Rightarrow>
           (let len_ip = 128 div 8; len_pre = length prefix_bin
            in (Inr (prefix_bin @ (if len_pre \<le> len_ip then take (len_ip - len_pre) hash else hash)), mk)))"

definition get_ipv6_string_hex :: "('bx, 'ux) crypto_lib \<Rightarrow> (c_multikeys_pub, bytes) action" where
  "get_ipv6_string_hex lib = andThen (get_ipv6_string_bin lib) (\<lambda>bin. liftR (string_as_hex_of_bin bin))"

fun hexdot_loop :: "nat \<Rightarrow> nat \<Rightarrow> bytes \<Rightarrow> bytes" where
  \<comment> \<open>\<open>i\<close> is the position of the next character, \<open>n\<close> the length of the whole string\<close>
  "hexdot_loop i n [] = []"
| "hexdot_loop i n (c # cs) =
     c # (if i \<noteq> 0 \<and> i + 1 \<noteq> n \<and> (i + 1) mod 4 = 0 then 0x3A # hexdot_loop (i + 1) n cs
          else hexdot_loop (i + 1) n cs)"

definition get_ipv6_string_hexdot :: "('bx, 'ux) crypto_lib \<Rightarrow> (c_multikeys_pub, bytes) action" where
  "get_ipv6_string_hexdot lib =
     andThen (get_ipv6_string_hex lib) (\<lambda>hex_str. ret (hexdot_loop 0 (length hex_str) hex_str))"

section \<open>Serialisation: lemmas\<close>

lemma writes_forA:
  "(\<And>x. x \<in> set xs \<Longrightarrow> writes (f x) (octets x)) \<Longrightarrow> writes (forA f xs) (concat (map octets xs))"
proof (induction xs)
  case Nil
  show ?case by (simp add: writes_def)
next
  case (Cons x xs)
  then show ?case by (simp add: writes_andThen)
qed

lemma generated_writes: "writes m bs \<Longrightarrow> generated m = Inr bs"
  by (simp add: generated_def writes_def generator_init_def)

lemma used_types_le: "used_types ls \<le> length ls"
  unfolding used_types_def by (metis length_filter_le length_upt diff_zero)

lemma small_size_t: "n \<le> 32 \<Longrightarrow> (of_nat n :: u64) \<noteq> 0xFFFFFFFFFFFFFFFF \<and> unat (of_nat n :: u64) = n"
  using fits_size_t_word [of "replicate n ()"] by (simp add: fits_size_t_def)

lemma to_ID_small: "t_crypto_system_type_to_ID ix = Inr c \<Longrightarrow> unat c < 128"
  by (auto simp: t_crypto_system_type_to_ID_def split: if_splits)

lemma ucast_byte_u64: "(ucast (ucast (c :: byte) :: u64) :: byte) = c"
  by (rule bit_word_eqI) (auto simp: bit_simps)

text \<open>
  Reading changes the parser and the collection: \<open>loads m bs f\<close> says that on the octets
  \<open>bs\<close> the action consumes exactly them and applies \<open>f\<close> to the key lists.
\<close>

definition loads ::
    "(parser \<times> 'z multicryptostrings_scheme, unit) action \<Rightarrow> bytes \<Rightarrow>
     (bytes list list \<Rightarrow> bytes list list) \<Rightarrow> bool" where
  "loads m bs f \<longleftrightarrow>
     (\<forall>pre post mk. length (m_cryptolists_general mk) = 32 \<longrightarrow>
        m (parser_at pre (bs @ post), mk) =
          (Inr (), (parser_at (pre @ bs) post,
             mk\<lparr>m_cryptolists_general := f (m_cryptolists_general mk)\<rparr>)))"

lemma loads_end:
  "loads m bs f \<Longrightarrow> length (m_cryptolists_general mk) = 32 \<Longrightarrow>
   m (parser_at pre bs, mk) =
     (Inr (), (parser_at (pre @ bs) [], mk\<lparr>m_cryptolists_general := f (m_cryptolists_general mk)\<rparr>))"
  unfolding loads_def by (metis append_Nil2)

lemma loads_andThen_forA:
  assumes "loads m as f" and "loads (forA (\<lambda>_. m') ys) bs g"
    and "\<And>ls. length ls = 32 \<Longrightarrow> length (f ls) = 32"
  shows "loads (andThen m (\<lambda>_. forA (\<lambda>_. m') ys)) (as @ bs) (g \<circ> f)"
  unfolding loads_def
proof (intro allI impI)
  fix pre post and mk :: "'a multicryptostrings_scheme"
  assume l: "length (m_cryptolists_general mk) = 32"
  have "m (parser_at pre (as @ bs @ post), mk) =
      (Inr (), (parser_at (pre @ as) (bs @ post), mk\<lparr>m_cryptolists_general := f (m_cryptolists_general mk)\<rparr>))"
    using assms(1) l by (simp add: loads_def)
  moreover have "forA (\<lambda>_. m') ys (parser_at (pre @ as) (bs @ post),
        mk\<lparr>m_cryptolists_general := f (m_cryptolists_general mk)\<rparr>) =
      (Inr (), (parser_at (pre @ as @ bs) post,
        mk\<lparr>m_cryptolists_general := g (f (m_cryptolists_general mk))\<rparr>))"
    using assms(2,3) l by (simp add: loads_def)
  ultimately show "andThen m (\<lambda>_. forA (\<lambda>_. m') ys) (parser_at pre ((as @ bs) @ post), mk) =
      (Inr (), (parser_at (pre @ as @ bs) post,
        mk\<lparr>m_cryptolists_general := (g \<circ> f) (m_cryptolists_general mk)\<rparr>))"
    by simp
qed

lemma fold_update_nth:
  "i < length old \<Longrightarrow>
   fold (\<lambda>ix l. l[ix := new ! ix]) ixs old ! i = (if i \<in> set ixs then new ! i else old ! i)"
  by (induction ixs arbitrary: old) (auto simp: nth_list_update)

lemma length_fold_update [simp]: "length (fold (\<lambda>ix l. l[ix := new ! ix]) ixs old) = length old"
  by (induction ixs arbitrary: old) auto

locale key_codec = obj_codec push_key pop_key octets ok
  for push_key :: "bytes \<Rightarrow> (generator, unit) action" and pop_key octets ok
begin

definition keylists_ok :: "bytes list list \<Rightarrow> bool" where
  "keylists_ok ls \<longleftrightarrow> length ls = 32 \<and>
     (\<forall>ix < 32. ls ! ix \<noteq> [] \<longrightarrow>
        (\<exists>c. t_crypto_system_type_to_ID ix = Inr c) \<and> fits_size_t (ls ! ix) \<and> list_all ok (ls ! ix))"

definition system_octets :: "bytes list list \<Rightarrow> nat \<Rightarrow> bytes" where
  "system_octets ls ix =
     (case t_crypto_system_type_to_ID ix of
        Inl e \<Rightarrow> [] | Inr c \<Rightarrow> uvarint_octets (ucast c) @ vector_octets octets (ls ! ix))"

lemma ID_not_max: "(ucast (c :: byte) :: u64) \<noteq> 0xFFFFFFFFFFFFFFFF"
proof
  assume "(ucast c :: u64) = 0xFFFFFFFFFFFFFFFF"
  then have "unat (ucast c :: u64) = 18446744073709551615" by simp
  moreover have "unat c < 256" using unsigned_less [where 'b = 8 and w = c] by simp
  then have "unat (ucast c :: u64) < 256" by (simp add: unsigned_ucast_eq take_bit_nat_eq_self)
  ultimately show False by simp
qed

lemma writes_serialize_system:
  assumes "keylists_ok ls" and "ix < 32"
  shows "writes (serialize_system push_key ls ix) (if ls ! ix \<noteq> [] then system_octets ls ix else [])"
proof (cases "ls ! ix = []")
  case True
  then show ?thesis by (simp add: serialize_system_def writes_def)
next
  case False
  then obtain c where c: "t_crypto_system_type_to_ID ix = Inr c"
    and "fits_size_t (ls ! ix)" "list_all ok (ls ! ix)"
    using assms by (auto simp: keylists_ok_def)
  then have "writes (andThen (push_integer_uvarint (ucast c)) (\<lambda>_. push_vector_object push_key (ls ! ix)))
      (system_octets ls ix)"
    by (auto simp: system_octets_def intro!: codec_intros ID_not_max writes_push_vector_object)
  with False c show ?thesis by (simp add: serialize_system_def writes_def)
qed

definition keymap_octets :: "bytes list list \<Rightarrow> bytes" where
  "keymap_octets ls = concat (map (system_octets ls) (filter (\<lambda>ix. ls ! ix \<noteq> []) [0..<length ls]))"

definition gmk_octets :: "t_crypto_use \<Rightarrow> bytes list list \<Rightarrow> bytes" where
  "gmk_octets use ls = GMK @ [0x61] @ [crypto_use_byte use] @ uvarint_octets (of_nat (used_types ls)) @ keymap_octets ls"

lemma serialize_bin_eq:
  assumes "keylists_ok (m_cryptolists_general mk)"
  shows "serialize_bin push_key mk = Inr (gmk_octets (m_crypto_use mk) (m_cryptolists_general mk))"
proof -
  let ?ls = "m_cryptolists_general mk"
  have len: "length ?ls = 32" using assms by (simp add: keylists_ok_def)
  have "concat (map (\<lambda>ix. if ?ls ! ix \<noteq> [] then system_octets ?ls ix else []) ixs) =
      concat (map (system_octets ?ls) (filter (\<lambda>ix. ?ls ! ix \<noteq> []) ixs))" for ixs
    by (induction ixs) auto
  then have "writes (forA (serialize_system push_key ?ls) [0..<length ?ls]) (keymap_octets ?ls)"
    using writes_forA [of "[0..<length ?ls]" "serialize_system push_key ?ls"
        "\<lambda>ix. if ?ls ! ix \<noteq> [] then system_octets ?ls ix else []"] writes_serialize_system [OF assms] len
    by (simp add: keymap_octets_def)
  moreover have "(of_nat (used_types ?ls) :: u64) \<noteq> 0xFFFFFFFFFFFFFFFF"
    using small_size_t used_types_le [of ?ls] len by simp
  ultimately show ?thesis
    unfolding serialize_bin_def Let_def gmk_octets_def
    by (intro generated_writes writes_andThen writes_push_bytes_n writes_push_byte_u
        writes_push_integer_uvarint) (simp_all add: GMK_def)
qed

lemma loads_load_system:
  assumes "keylists_ok ls" and "ix < 32" and "ls ! ix \<noteq> []"
  shows "loads (load_system pop_key) (system_octets ls ix) (\<lambda>old. old[ix := ls ! ix])"
proof -
  obtain c s where c: "t_crypto_system_type_to_ID ix = Inr c"
    and s: "t_crypto_system_type_from_ID c = Inr s" "enum_value s = ix"
    and ok: "fits_size_t (ls ! ix)" "list_all ok (ls ! ix)"
    using assms to_ID_from_ID by (auto simp: keylists_ok_def) blast
  have vec: "reads (pop_vector_object pop_key) (vector_octets octets (ls ! ix)) (ls ! ix)"
    using reads_pop_vector_object ok by blast
  have "pop_integer_uvarint (parser_at pre (system_octets ls ix @ post)) =
      (Inr (ucast c), parser_at (pre @ uvarint_octets (ucast c)) (vector_octets octets (ls ! ix) @ post))" for pre post
    using readsD [OF reads_pop_integer_uvarint] c by (simp add: system_octets_def)
  moreover have "pop_vector_object pop_key (parser_at pre (vector_octets octets (ls ! ix) @ post)) =
      (Inr (ls ! ix), parser_at (pre @ vector_octets octets (ls ! ix)) post)" for pre post
    by (rule readsD [OF vec])
  ultimately show ?thesis
    using s assms(2) c
    by (simp add: loads_def load_system_def andThen_def on_fst_def on_snd_def assign_system_def
        ucast_byte_u64 system_octets_def)
qed

lemma loads_systems:
  fixes ys :: "nat list"
  assumes "keylists_ok ls"
  shows "\<lbrakk>\<forall>ix \<in> set ixs. ix < 32 \<and> ls ! ix \<noteq> []; length ys = length ixs\<rbrakk> \<Longrightarrow>
    loads (forA (\<lambda>_. load_system pop_key :: (parser \<times> 'z multicryptostrings_scheme, unit) action) ys)
      (concat (map (system_octets ls) ixs)) (fold (\<lambda>ix l. l[ix := ls ! ix]) ixs)"
    (is "_ \<Longrightarrow> _ \<Longrightarrow> loads (forA ?body ys) _ _")
proof (induction ixs arbitrary: ys)
  case Nil
  then show ?case by (simp add: loads_def)
next
  case (Cons ix ixs)
  obtain y ys' where ys: "ys = y # ys'" using Cons.prems(2) by (cases ys) auto
  have one: "loads (?body y) (system_octets ls ix) (\<lambda>old. old[ix := ls ! ix])"
    by (intro loads_load_system assms) (use Cons.prems(1) in auto)
  have rest: "loads (forA ?body ys') (concat (map (system_octets ls) ixs))
      (fold (\<lambda>ix l. l[ix := ls ! ix]) ixs)"
    using Cons ys by simp
  show ?case
    using loads_andThen_forA [OF one rest] by (simp add: ys comp_def)
qed

lemma load_from_bin_eq:
  fixes mk :: "'z multicryptostrings_scheme"
  assumes "keylists_ok ls" and "length (m_cryptolists_general mk) = 32"
  shows "load_from_bin pop_key (gmk_octets (m_crypto_use mk) ls) mk =
    (Inr (), mk\<lparr>m_cryptolists_general :=
        map (\<lambda>ix. if ls ! ix \<noteq> [] then ls ! ix else m_cryptolists_general mk ! ix) [0..<32],
      m_hash_cached := []\<rparr>)"
proof -
  let ?use = "crypto_use_byte (m_crypto_use mk)" and ?n = "of_nat (used_types ls) :: u64"
  let ?ixs = "filter (\<lambda>ix. ls ! ix \<noteq> []) [0..<length ls]" and ?old = "m_cryptolists_general mk"
  have len: "length ls = 32" using assms(1) by (simp add: keylists_ok_def)
  have n: "unat ?n = used_types ls" "used_types ls \<le> 100"
    using small_size_t used_types_le [of ls] len by simp_all
  have "loads (forA (\<lambda>_. load_system pop_key :: (parser \<times> 'z multicryptostrings_scheme, unit) action) [0..<used_types ls]) (keymap_octets ls)
      (fold (\<lambda>ix l. l[ix := ls ! ix]) ?ixs)"
    unfolding keymap_octets_def using len by (intro loads_systems assms(1)) (auto simp: used_types_def)
  moreover have "fold (\<lambda>ix l. l[ix := ls ! ix]) ?ixs ?old =
      map (\<lambda>ix. if ls ! ix \<noteq> [] then ls ! ix else ?old ! ix) [0..<32]"
    using assms(2) len by (intro nth_equalityI) (simp_all add: fold_update_nth)
  ultimately have sys: "forA (\<lambda>_. load_system pop_key) [0..<used_types ls] (parser_at pre (keymap_octets ls), mk) =
      (Inr (), (parser_at (pre @ keymap_octets ls) [],
        mk\<lparr>m_cryptolists_general := map (\<lambda>ix. if ls ! ix \<noteq> [] then ls ! ix else ?old ! ix) [0..<32]\<rparr>))" for pre
    using loads_end [where mk = mk and pre = pre] assms(2) by fastforce
  have magic: "pop_bytes_n 3 (parser_at [] (GMK @ rest)) = (Inr GMK, parser_at GMK rest)" for rest
    using readsD [OF reads_pop_bytes_n [of 3 GMK], of "[]" rest] by (simp add: GMK_def)
  have byte: "pop_byte_u (parser_at pre (b # rest)) = (Inr b, parser_at (pre @ [b]) rest)" for pre b rest
    using readsD [OF reads_pop_byte_u, of pre b rest] by simp
  have int: "pop_integer_uvarint (parser_at pre (uvarint_octets ?n @ rest)) =
      (Inr ?n, parser_at (pre @ uvarint_octets ?n) rest)" for pre rest
    by (rule readsD [OF reads_pop_integer_uvarint])
  have "gmk_octets (m_crypto_use mk) ls \<noteq> []" by (simp add: gmk_octets_def GMK_def)
  then show ?thesis
    by (simp add: load_from_bin_def parser_of_string_at load_body_def gmk_octets_def andThen_def
        on_fst_def on_snd_def magic byte int n sys set_hash_dirty_def)
qed

end

interpretation pubkeys: key_codec push_varstring pop_varstring varstring_octets
  "\<lambda>s. length s \<le> SANE_MAX_SIZE_FOR_STRING"
  by unfold_locales

lemma reads_pop_locked_string:
  assumes "s \<noteq> []" and "fits_size_t s"
  shows "reads pop_locked_string (varstring_octets s) s"
  unfolding pop_locked_string_def varstring_octets_def
  by (rule reads_andThen [OF reads_pop_integer_uvarint])
    (use assms in \<open>simp add: reads_def parser_at_def remaining_def fits_size_t_word(2) [OF assms(2)]\<close>)

interpretation PRVkeys: key_codec obj_serialize_locked_string pop_locked_string varstring_octets
  "\<lambda>s. s \<noteq> [] \<and> fits_size_t s"
  by unfold_locales
    (auto intro: reads_pop_locked_string
      writes_push_varstring [unfolded push_varstring_def, folded obj_serialize_locked_string_def])

section \<open>The fingerprint: lemmas\<close>

lemma xor_bytes_swap: "xor_bytes (xor_bytes a b) c = xor_bytes (xor_bytes a c) b"
  by (rule nth_equalityI) (simp_all add: xor.left_commute xor.commute)

lemma xor_bytes_cancel: "length a = length b \<Longrightarrow> xor_bytes (xor_bytes a b) b = a"
  by (rule nth_equalityI) (simp_all add: xor.assoc)

lemma fpr_accumulate_eq:
  assumes "hash_sized lib" and "length acc = 64"
  shows "fpr_accumulate lib pks acc = Inr (fold (\<lambda>pk a. xor_bytes a (Hash1 lib pk)) pks acc)"
  using assms(2)
proof (induction pks arbitrary: acc)
  case (Cons pk pks)
  then show ?case using assms(1) by (simp add: binary_string_xor_eq)
qed simp

lemma length_fold_xor:
  assumes "hash_sized lib" and "length acc = 64"
  shows "length (fold (\<lambda>pk a. xor_bytes a (Hash1 lib pk)) pks acc) = 64"
  using assms(2) by (induction pks arbitrary: acc) (use assms(1) in auto)

lemma fpr_accumulate_mset:
  assumes "hash_sized lib" and "mset pks = mset pks'"
  shows "fpr_accumulate lib pks (replicate Hash1_size 0) = fpr_accumulate lib pks' (replicate Hash1_size 0)"
proof -
  have "fold (\<lambda>pk a. xor_bytes a (Hash1 lib pk)) pks = fold (\<lambda>pk a. xor_bytes a (Hash1 lib pk)) pks'"
    by (rule fold_multiset_equiv [OF _ assms(2)]) (auto simp: fun_eq_iff xor_bytes_swap)
  with assms(1) show ?thesis by (simp add: fpr_accumulate_eq Hash1_size_def)
qed

lemma fpr_accumulate_pair:
  assumes "hash_sized lib"
  shows "fpr_accumulate lib (pks @ [k, k]) (replicate Hash1_size 0) = fpr_accumulate lib pks (replicate Hash1_size 0)"
  using assms by (simp add: fpr_accumulate_eq Hash1_size_def length_fold_xor xor_bytes_cancel)

text \<open>The fingerprint depends on each vector only through being empty and its accumulator.\<close>

definition fpr_similar :: "('bx, 'ux) crypto_lib \<Rightarrow> bytes list list \<Rightarrow> bytes list list \<Rightarrow> bool" where
  "fpr_similar lib ls ls' \<longleftrightarrow> length ls = length ls' \<and>
     (\<forall>ix < length ls. (ls ! ix = [] \<longleftrightarrow> ls' ! ix = []) \<and>
        fpr_accumulate lib (ls ! ix) (replicate Hash1_size 0) = fpr_accumulate lib (ls' ! ix) (replicate Hash1_size 0))"

lemma forA_cong: "(\<And>x. x \<in> set xs \<Longrightarrow> f x = g x) \<Longrightarrow> forA f xs = forA g xs"
  by (induction xs) auto

lemma get_hash_similar:
  fixes mk :: "'y multicryptostrings_scheme" and mk' :: "'z multicryptostrings_scheme"
  assumes "fpr_similar lib (m_cryptolists_general mk) (m_cryptolists_general mk')"
    and "m_hash_cached mk = []" and "m_hash_cached mk' = []"
  shows "fst (get_hash lib mk) = fst (get_hash lib mk')"
proof -
  let ?ls = "m_cryptolists_general mk" and ?ls' = "m_cryptolists_general mk'"
  have sys: "forA (fingerprint_system lib ?ls) [0..<length ?ls] = forA (fingerprint_system lib ?ls') [0..<length ?ls']"
    using assms(1) by (auto simp: fpr_similar_def fingerprint_system_def intro!: forA_cong)
  have "filter (\<lambda>ix. ?ls ! ix \<noteq> []) [0..<length ?ls] = filter (\<lambda>ix. ?ls' ! ix \<noteq> []) [0..<length ?ls']"
    using assms(1) by (auto simp: fpr_similar_def intro!: filter_cong)
  then have "used_types ?ls = used_types ?ls'" by (simp add: used_types_def)
  with sys assms(2,3) show ?thesis
    by (simp add: get_hash_def update_hash_def Let_def split: sum.splits prod.splits)
qed

definition systems_known :: "bytes list list \<Rightarrow> bool" where
  "systems_known ls \<longleftrightarrow> length ls = 32 \<and>
     (\<forall>ix < 32. ls ! ix \<noteq> [] \<longrightarrow> (\<exists>c. t_crypto_system_type_to_ID ix = Inr c))"

lemma get_hash_returns:
  fixes mk :: "'z multicryptostrings_scheme"
  assumes "hash_sized lib" and "systems_known (m_cryptolists_general mk)" and "m_hash_cached mk = []"
  shows "\<exists>h. length h = 64 \<and> get_hash lib mk = (Inr h, mk\<lparr>m_hash_cached := h\<rparr>)"
proof -
  let ?ls = "m_cryptolists_general mk"
  have len: "length ?ls = 32" using assms(2) by (simp add: systems_known_def)
  have "\<exists>bs. writes (fingerprint_system lib ?ls ix) bs" if ix: "ix < 32" for ix
  proof (cases "?ls ! ix = []")
    case True
    then show ?thesis by (intro exI [of _ "[]"]) (simp add: fingerprint_system_def writes_def)
  next
    case False
    obtain acc where acc: "fpr_accumulate lib (?ls ! ix) (replicate Hash1_size 0) = Inr acc" "length acc = 64"
      using fpr_accumulate_eq [OF assms(1)] length_fold_xor [OF assms(1)] by (simp add: Hash1_size_def)
    obtain c where "t_crypto_system_type_to_ID ix = Inr c"
      using assms(2) ix False by (auto simp: systems_known_def)
    moreover have "writes (andThen (push_byte_u c) (\<lambda>_. push_varstring acc)) ([c] @ varstring_octets acc)"
      using acc(2) by (intro codec_intros) (simp add: fits_size_t_def)
    ultimately show ?thesis
      using False acc(1) by (intro exI) (simp add: fingerprint_system_def)
  qed
  then obtain octets where "\<And>ix. ix < 32 \<Longrightarrow> writes (fingerprint_system lib ?ls ix) (octets ix)" by metis
  then have "writes (forA (fingerprint_system lib ?ls) [0..<length ?ls]) (concat (map octets [0..<length ?ls]))"
    using len by (intro writes_forA) simp
  moreover have "(of_nat (used_types ?ls) :: u64) \<noteq> 0xFFFFFFFFFFFFFFFF"
    using small_size_t used_types_le [of ?ls] len by simp
  ultimately obtain bs where "writes (andThen (push_bytes_n 3 GMK) (\<lambda>_. andThen (push_byte_u 0x61) (\<lambda>_.
      andThen (push_byte_u (crypto_use_byte e_crypto_use_fingerprint)) (\<lambda>_. andThen (push_byte_u 1) (\<lambda>_.
      andThen (push_integer_uvarint (of_nat (used_types ?ls))) (\<lambda>_.
        forA (fingerprint_system lib ?ls) [0..<length ?ls])))))) bs"
    using writes_andThen writes_push_byte_u writes_push_integer_uvarint writes_push_bytes_n [of 3 GMK]
    by (metis GMK_def length_Cons list.size(3) numeral_3_eq_3 One_nat_def)
  then have "update_hash lib mk = (Inr (), mk\<lparr>m_hash_cached := Hash1 lib bs\<rparr>)"
    by (simp add: update_hash_def Let_def generated_writes)
  moreover have l64: "length (Hash1 lib bs) = 64" using assms(1) by simp
  moreover from l64 have "Hash1 lib bs \<noteq> []" by (metis list.size(3) zero_neq_numeral)
  ultimately show ?thesis using assms(3) by (auto simp: get_hash_def)
qed

lemma get_hash_cached:
  "m_hash_cached mk \<noteq> [] \<Longrightarrow> get_hash lib mk = (Inr (m_hash_cached mk), mk)"
  by (simp add: get_hash_def)

lemma get_hash_caches: "get_hash lib mk = (Inr h, mk') \<Longrightarrow> m_hash_cached mk' = h \<and> h \<noteq> []"
  by (auto simp: get_hash_def split: if_splits prod.splits sum.splits)

section \<open>Addresses: lemmas\<close>

lemma filter_hexdot_loop:
  "0x3A \<notin> set cs \<Longrightarrow> filter (\<lambda>c. c \<noteq> 0x3A) (hexdot_loop i n cs) = cs"
  by (induction i n cs rule: hexdot_loop.induct) auto

lemma hex_digits_no_colon: "list_all is_hex_digit h \<Longrightarrow> 0x3A \<notin> set h"
  by (auto simp: list_all_iff is_hex_digit_def)

lemma hex_of_bin_digits:
  assumes "length bs < 2 ^ 62"
  shows "\<exists>h. string_as_hex_of_bin bs = Inr h \<and> string_as_bin_of_hex h = Inr bs \<and> 0x3A \<notin> set h"
proof -
  obtain h where h: "hex_encode_loop bs = Inr h" "hex_decode_loop h = Inr bs"
    using hex_encode_decode by blast
  have "list_all is_hex_digit h" using hex_decode_outcome [of h] h(2) by (auto split: if_splits)
  then show ?thesis
    using h assms hex_digits_no_colon by (auto simp: string_as_hex_of_bin_def string_as_bin_of_hex_def)
qed

lemma get_ipv6_string_bin_eq:
  assumes "get_hash lib mk = (Inr hash, mk')" and "length hash = 64"
    and "string_as_bin_of_hex (m_ipv6_prefix mk') = Inr prefix" and "length prefix \<le> 16"
  shows "get_ipv6_string_bin lib mk = (Inr (prefix @ take (16 - length prefix) hash), mk')"
  using assms by (simp add: get_ipv6_string_bin_def Let_def)

section \<open>Properties\<close>

text \<open>
  C37: a collection of public keys survives \<open>serialize_bin\<close> followed by
  \<open>load_from_bin\<close> into an object without keys: the same keys of every system, and an empty
  fingerprint cache, whatever the cache held.
\<close>

theorem multikeys_roundtrip:
  fixes mk mk0 :: c_multikeys_pub
  assumes "pubkeys.keylists_ok (m_cryptolists_general mk)"
    and "m_crypto_use mk0 = m_crypto_use mk" and "m_cryptolists_general mk0 = replicate 32 []"
  shows "\<exists>bs. serialize_bin push_varstring mk = Inr bs
    \<and> load_from_bin pop_varstring bs mk0 =
        (Inr (), mk0\<lparr>m_cryptolists_general := m_cryptolists_general mk, m_hash_cached := []\<rparr>)"
proof -
  let ?ls = "m_cryptolists_general mk"
  have len: "length ?ls = 32" using assms(1) by (simp add: pubkeys.keylists_ok_def)
  have "map (\<lambda>ix. if ?ls ! ix \<noteq> [] then ?ls ! ix else m_cryptolists_general mk0 ! ix) [0..<32] = ?ls"
    using len assms(3) by (intro nth_equalityI) simp_all
  then show ?thesis
    using pubkeys.serialize_bin_eq [OF assms(1)] pubkeys.load_from_bin_eq [OF assms(1), of mk0] assms(2,3)
    by simp
qed

definition example_pub :: c_multikeys_pub where
  "example_pub = c_multikeys_pub_init\<lparr>m_cryptolists_general := (replicate 32 [])[5 := [[1, 2]], 6 := [[3], [4]]]\<rparr>"

lemma example_pub_ok: "pubkeys.keylists_ok (m_cryptolists_general example_pub)"
  unfolding pubkeys.keylists_ok_def
  by (auto simp: example_pub_def c_multikeys_pub_init_def nth_list_update
      t_crypto_system_type_to_ID_def fits_size_t_def SANE_MAX_SIZE_FOR_STRING_def)

theorem multikeys_roundtrip_witness:
  "\<exists>bs. serialize_bin push_varstring example_pub = Inr bs
    \<and> load_from_bin pop_varstring bs c_multikeys_pub_init =
        (Inr (), c_multikeys_pub_init\<lparr>m_cryptolists_general := m_cryptolists_general example_pub, m_hash_cached := []\<rparr>)"
  by (rule multikeys_roundtrip [OF example_pub_ok]) (simp_all add: example_pub_def c_multikeys_pub_init_def)

text \<open>
  Loading into an object that already has keys keeps the old keys of every system the data
  does not mention; the documentation of \<open>load_from_bin\<close> promises to delete any prior data.
\<close>

theorem load_from_bin_keeps_prior:
  fixes mk mk0 :: c_multikeys_pub
  assumes "pubkeys.keylists_ok (m_cryptolists_general mk)" and "serialize_bin push_varstring mk = Inr bs"
    and "m_crypto_use mk0 = m_crypto_use mk" and "length (m_cryptolists_general mk0) = 32"
    and "ix < 32" and "m_cryptolists_general mk ! ix = []"
  shows "fst (load_from_bin pop_varstring bs mk0) = Inr ()
    \<and> m_cryptolists_general (snd (load_from_bin pop_varstring bs mk0)) ! ix = m_cryptolists_general mk0 ! ix"
  using pubkeys.load_from_bin_eq [OF assms(1,4)] pubkeys.serialize_bin_eq [OF assms(1)] assms(2,3,5,6)
  by simp

theorem load_from_bin_keeps_prior_witness:
  "\<exists>bs. serialize_bin push_varstring c_multikeys_pub_init = Inr bs
    \<and> m_cryptolists_general (snd (load_from_bin pop_varstring bs example_pub)) ! 6 = [[3], [4]]"
proof -
  have ok: "pubkeys.keylists_ok (m_cryptolists_general c_multikeys_pub_init)"
    by (simp add: pubkeys.keylists_ok_def c_multikeys_pub_init_def)
  obtain bs where bs: "serialize_bin push_varstring c_multikeys_pub_init = Inr bs"
    using pubkeys.serialize_bin_eq [OF ok] by blast
  have "m_cryptolists_general (snd (load_from_bin pop_varstring bs example_pub)) ! 6 = m_cryptolists_general example_pub ! 6"
    using load_from_bin_keeps_prior [OF ok bs, of example_pub 6]
    by (simp add: c_multikeys_pub_init_def example_pub_def)
  with bs show ?thesis by (auto simp: example_pub_def c_multikeys_pub_init_def)
qed

text \<open>
  The fingerprint, and with it the address, does not depend on the order in which the keys
  of a system were added.
\<close>

theorem fingerprint_order_independent:
  fixes mk mk' :: c_multikeys_pub
  assumes "\<And>x. length (crypto_generichash lib x) = 64"
    and "m_hash_cached mk = []" and "m_hash_cached mk' = []"
    and "map mset (m_cryptolists_general mk) = map mset (m_cryptolists_general mk')"
  shows "fst (get_hash lib mk) = fst (get_hash lib mk')"
proof -
  let ?ls = "m_cryptolists_general mk" and ?ls' = "m_cryptolists_general mk'"
  have h: "hash_sized lib" using assms(1) by (simp add: hash_sized_def)
  have len: "length ?ls = length ?ls'" using assms(4) by (rule map_eq_imp_length_eq)
  have same: "mset (?ls ! ix) = mset (?ls' ! ix)" if "ix < length ?ls" for ix
    using arg_cong [OF assms(4), of "\<lambda>l. l ! ix"] that len by simp
  then have "?ls ! ix = [] \<longleftrightarrow> ?ls' ! ix = []" if "ix < length ?ls" for ix
    using that by (metis mset_zero_iff)
  with len fpr_accumulate_mset [OF h same] have "fpr_similar lib ?ls ?ls'"
    by (simp add: fpr_similar_def)
  then show ?thesis by (rule get_hash_similar [OF _ assms(2,3)])
qed

theorem fingerprint_order_independent_witness:
  "fst (get_hash example_lib (example_pub\<lparr>m_cryptolists_general := (replicate 32 [])[5 := [[1, 2]], 6 := [[4], [3]]]\<rparr>))
   = fst (get_hash example_lib example_pub)"
  by (rule fingerprint_order_independent)
    (use hash_sized_example in \<open>simp_all add: hash_sized_def example_pub_def c_multikeys_pub_init_def map_update add_mset_commute\<close>)

text \<open>
  The fingerprint does not bind the set of keys: adding any key twice to a system that has
  keys leaves it, and so the address, unchanged, because the hashes are combined by
  exclusive-or.
\<close>

theorem fingerprint_ignores_duplicates:
  fixes mk :: c_multikeys_pub
  assumes "\<And>x. length (crypto_generichash lib x) = 64"
    and "m_hash_cached mk = []" and "ix < length (m_cryptolists_general mk)"
    and "m_cryptolists_general mk ! ix \<noteq> []"
  shows "fst (get_hash lib (mk\<lparr>m_cryptolists_general :=
            (m_cryptolists_general mk)[ix := m_cryptolists_general mk ! ix @ [k, k]]\<rparr>))
    = fst (get_hash lib mk)"
proof (rule get_hash_similar)
  have h: "hash_sized lib" using assms(1) by (simp add: hash_sized_def)
  show "fpr_similar lib (m_cryptolists_general (mk\<lparr>m_cryptolists_general :=
      (m_cryptolists_general mk)[ix := m_cryptolists_general mk ! ix @ [k, k]]\<rparr>)) (m_cryptolists_general mk)"
    using assms(3,4) fpr_accumulate_pair [OF h] by (auto simp: fpr_similar_def nth_list_update)
qed (use assms(2) in simp_all)

theorem fingerprint_ignores_duplicates_witness:
  "fst (get_hash example_lib (example_pub\<lparr>m_cryptolists_general :=
      (m_cryptolists_general example_pub)[6 := m_cryptolists_general example_pub ! 6 @ [[9], [9]]]\<rparr>))
   = fst (get_hash example_lib example_pub)"
  by (rule fingerprint_ignores_duplicates)
    (use hash_sized_example in \<open>simp_all add: hash_sized_def example_pub_def c_multikeys_pub_init_def\<close>)

text \<open>
  \<open>add_key\<close> does not clear the fingerprint cache: once the fingerprint has been asked
  for, adding a key does not change what \<open>get_hash\<close> returns. The class documents that the
  setters clear the cache.
\<close>

theorem add_key_stale_hash:
  fixes mk :: c_multikeys_pub
  assumes "get_hash lib mk = (Inr h, mk1)" and "add_public crypto_type key mk1 = (Inr (), mk2)"
  shows "fst (get_hash lib mk2) = Inr h"
proof -
  have "m_hash_cached mk2 = h" "h \<noteq> []"
    using get_hash_caches [OF assms(1)] assms(2) by (auto simp: add_public_def add_key_def split: if_splits)
  then show ?thesis using get_hash_cached [of mk2 lib] by simp
qed

theorem add_key_stale_hash_witness:
  "\<exists>h mk1 mk2. get_hash example_lib example_pub = (Inr h, mk1)
     \<and> add_public e_crypto_system_type_Ed25519 [7] mk1 = (Inr (), mk2)
     \<and> fst (get_hash example_lib mk2) = Inr h"
proof -
  have "systems_known (m_cryptolists_general example_pub)" "m_hash_cached example_pub = []"
    using example_pub_ok by (auto simp: systems_known_def pubkeys.keylists_ok_def example_pub_def c_multikeys_pub_init_def)
  then obtain h where h: "get_hash example_lib example_pub = (Inr h, example_pub\<lparr>m_hash_cached := h\<rparr>)"
    using get_hash_returns [OF hash_sized_example] by blast
  obtain mk2 where mk2: "add_public e_crypto_system_type_Ed25519 [7] (example_pub\<lparr>m_hash_cached := h\<rparr>) = (Inr (), mk2)"
    by (simp add: add_public_def add_key_def example_pub_def c_multikeys_pub_init_def)
  show ?thesis using h mk2 add_key_stale_hash [OF h mk2] by blast
qed

text \<open>
  The address of an identity has 16 octets and starts with the network prefix, and its text
  form, with the colons removed and the hexadecimal digits decoded, is the binary form.
\<close>

theorem ipv6_address_forms:
  assumes "\<And>x. length (crypto_generichash lib x) = 64"
    and "systems_known (m_cryptolists_general mk)" and "m_hash_cached mk = []"
    and "string_as_bin_of_hex (m_ipv6_prefix mk) = Inr prefix" and "length prefix \<le> 16"
  shows "\<exists>addr text. fst (get_ipv6_string_bin lib mk) = Inr addr \<and> length addr = 16
    \<and> take (length prefix) addr = prefix
    \<and> fst (get_ipv6_string_hexdot lib mk) = Inr text
    \<and> string_as_bin_of_hex (filter (\<lambda>c. c \<noteq> 0x3A) text) = Inr addr"
proof -
  have hs: "hash_sized lib" using assms(1) by (simp add: hash_sized_def)
  obtain h where h: "length h = 64" "get_hash lib mk = (Inr h, mk\<lparr>m_hash_cached := h\<rparr>)"
    using get_hash_returns [OF hs assms(2,3)] by blast
  let ?addr = "prefix @ take (16 - length prefix) h"
  have bin: "get_ipv6_string_bin lib mk = (Inr ?addr, mk\<lparr>m_hash_cached := h\<rparr>)"
    by (rule get_ipv6_string_bin_eq [OF h(2,1)]) (use assms in simp_all)
  have len: "length ?addr = 16" using assms(5) h(1) by simp
  then obtain hex where hex: "string_as_hex_of_bin ?addr = Inr hex" "string_as_bin_of_hex hex = Inr ?addr" "0x3A \<notin> set hex"
    using hex_of_bin_digits [of ?addr] by auto
  have "fst (get_ipv6_string_hexdot lib mk) = Inr (hexdot_loop 0 (length hex) hex)"
    using bin hex(1) by (simp add: get_ipv6_string_hexdot_def get_ipv6_string_hex_def andThen_def)
  with bin len hex show ?thesis by (simp add: filter_hexdot_loop)
qed

theorem ipv6_address_forms_witness:
  "\<exists>addr text. fst (get_ipv6_string_bin example_lib example_pub) = Inr addr \<and> length addr = 16
    \<and> take (length [0xFD :: byte, 0x42]) addr = [0xFD, 0x42]
    \<and> fst (get_ipv6_string_hexdot example_lib example_pub) = Inr text
    \<and> string_as_bin_of_hex (filter (\<lambda>c. c \<noteq> 0x3A) text) = Inr addr"
proof (rule ipv6_address_forms)
  show "length (crypto_generichash example_lib x) = 64" for x
    using hash_sized_example by (simp add: hash_sized_def)
  show "systems_known (m_cryptolists_general example_pub)"
    using example_pub_ok by (auto simp: systems_known_def pubkeys.keylists_ok_def)
qed (simp_all add: example_pub_def c_multikeys_pub_init_def string_as_bin_of_hex_def hex_octet_def hexchar2int_def)

end
