(* ===== verification/Haship.thy ===== *)
theory Haship
  imports Multikeys
begin

text \<open>
  Hash-IP addresses (\<^verbatim>\<open>src/src/haship.cpp\<close>) and the wire protocol's constants and
  commands (\<^verbatim>\<open>src/src/protocol.hpp\<close>, \<^verbatim>\<open>protocol.cpp\<close>).

  \<open>c_haship_addr\<close> is a \<open>std::array\<close> of 16 octets, here the list of them: every constructor
  gives a list of that length. The conversions between text and addresses that the code takes from
  boost and from the C library are the fields of \<open>host_lib\<close>, a parameter of the definitions.
\<close>

section \<open>What the host provides\<close>

record host_lib =
  address_v6_from_string :: "bytes \<Rightarrow> bytes option"  \<comment> \<open>\<open>boost::asio::ip::address_v6\<close>, \<open>None\<close>: throws\<close>
  address_v4_from_string :: "bytes \<Rightarrow> bytes option"  \<comment> \<open>\<open>boost::asio::ip::address_v4\<close>, \<open>None\<close>: error code\<close>
  getaddrinfo_family :: "bytes \<Rightarrow> nat option"        \<comment> \<open>\<open>ai_family\<close> of a numeric host, \<open>None\<close>: failed\<close>
  inet_pton4 :: "bytes \<Rightarrow> bytes option"              \<comment> \<open>\<open>None\<close>: the destination is not written\<close>
  inet_pton6 :: "bytes \<Rightarrow> bytes option"
  inet_ntop6 :: "bytes \<Rightarrow> bytes"
  inet_ntop4 :: "bytes \<Rightarrow> bytes"
  address_from_string :: "bytes \<Rightarrow> bytes option"     \<comment> \<open>\<open>boost::asio::ip::address\<close>, 4 or 16 octets\<close>
  v4_is_class_a :: "bytes \<Rightarrow> bool"                  \<comment> \<open>tests of \<open>boost::asio::ip::address_v4\<close>\<close>
  v4_is_class_b :: "bytes \<Rightarrow> bool"
  v4_is_class_c :: "bytes \<Rightarrow> bool"
  v4_is_loopback :: "bytes \<Rightarrow> bool"
  v4_is_unspecified :: "bytes \<Rightarrow> bool"
  v4_is_multicast :: "bytes \<Rightarrow> bool"
  t_crypto_nonce_default :: bytes                    \<comment> \<open>\<open>sodiumpp::nonce64()\<close>\<close>

definition octets_of :: "string \<Rightarrow> bytes" where
  \<comment> \<open>a string literal of the source\<close>
  "octets_of s = map (\<lambda>c. word_of_nat (of_char c)) s"

section \<open>Constants of \<open>haship.hpp\<close>\<close>

definition length_of_addr :: nat where "length_of_addr = 128 div 8"

definition header_position_of_src :: nat where "header_position_of_src = 8"

definition header_length_of_src :: nat where "header_length_of_src = 128 div 8"

definition header_position_of_dst :: nat where "header_position_of_dst = 24"

definition header_length_of_dst :: nat where "header_length_of_dst = 128 div 8"

definition header_position_of_ip_protocol_type :: nat where "header_position_of_ip_protocol_type = 6"

definition header_position_of_ipv6 :: nat where "header_position_of_ipv6 = 4"

definition g_haship_addr_size :: nat where "g_haship_addr_size = 16"

lemmas haship_consts =
  length_of_addr_def header_position_of_src_def header_length_of_src_def header_position_of_dst_def
  header_length_of_dst_def header_position_of_ip_protocol_type_def header_position_of_ipv6_def
  g_haship_addr_size_def

section \<open>\<open>c_haship_addr\<close>\<close>

type_synonym c_haship_addr = bytes

definition c_haship_addr_init :: c_haship_addr where
  "c_haship_addr_init = replicate g_haship_addr_size 0"

definition c_haship_addr_by_hash_of_pubkey ::
    "('bx, 'ux) crypto_lib \<Rightarrow> (c_multikeys_pub, c_haship_addr) action" where
  \<comment> \<open>the public key is \<open>const\<close> in C++, but its cached hash is written\<close>
  "c_haship_addr_by_hash_of_pubkey lib =
     andThen (get_ipv6_string_bin lib) (\<lambda>addr. liftR (mapR (vec_at addr) [0..<16]))"

definition c_haship_addr_by_addr_dot :: "host_lib \<Rightarrow> bytes \<Rightarrow> c_haship_addr result" where
  "c_haship_addr_by_addr_dot host addr_string =
     (case address_v6_from_string host addr_string of
        None \<Rightarrow> Inl Invalid_argument
      | Some asio_addr_bytes \<Rightarrow>
          if length asio_addr_bytes \<noteq> 16 then Inl Abort
          else mapR (vec_at asio_addr_bytes) [0..<128 div 8])"

definition c_haship_addr_by_addr_bin :: "bytes \<Rightarrow> c_haship_addr result" where
  "c_haship_addr_by_addr_bin data =
     (if \<not> g_haship_addr_size = length data then Inl Runtime_error
      else mapR (vec_at data) [0..<g_haship_addr_size])"

definition c_haship_addr_by_array :: "bytes \<Rightarrow> c_haship_addr result" where
  "c_haship_addr_by_array data = (if length data = g_haship_addr_size then Inr data else Inl Abort)"

fun hip_string_loop :: "bool \<Rightarrow> nat \<Rightarrow> bytes \<Rightarrow> bytes" where
  \<comment> \<open>\<open>i\<close> is \<open>it - hip.begin()\<close>\<close>
  "hip_string_loop with_dots i [] = []"
| "hip_string_loop with_dots i (c # cs) =
     (if with_dots \<and> i \<noteq> 0 \<and> i mod 4 = 0 then [0x3A] else []) @ c # hip_string_loop with_dots (i + 1) cs"

definition get_hip_as_string :: "bool \<Rightarrow> c_haship_addr \<Rightarrow> bytes result" where
  "get_hip_as_string with_dots addr =
     bindR (string_as_hex_of_bin addr) (\<lambda>hip. Inr (hip_string_loop with_dots 0 hip))"

fun hip_is_empty :: "c_haship_addr \<Rightarrow> bool" where
  "hip_is_empty [] = True"
| "hip_is_empty (b # bs) = (if b \<noteq> 0 then False else hip_is_empty bs)"

definition hip_make_empty :: c_haship_addr where
  "hip_make_empty = replicate (length c_haship_addr_init) 0"

definition addr_is_galaxy :: "c_haship_addr \<Rightarrow> bool result" where
  "addr_is_galaxy addr = bindR (vec_at addr 0) (\<lambda>b. Inr (if b \<noteq> 0xFD then False else True))"

definition c_haship_pubkey_of_bin :: "bytes \<Rightarrow> c_multikeys_pub result" where
  "c_haship_pubkey_of_bin input =
     bindR (fst (load_from_bin pop_varstring input c_multikeys_pub_init))
       (\<lambda>_. Inr (snd (load_from_bin pop_varstring input c_multikeys_pub_init)))"

section \<open>The wire protocol\<close>

datatype t_proto_cmd =
    e_proto_cmd_test0
  | e_proto_cmd_test1
  | e_proto_cmd_tunneled_data
  | e_proto_cmd_public_hi
  | e_proto_cmd_public_ping_request
  | e_proto_cmd_public_ping_reply
  | e_proto_cmd_findhip_query
  | e_proto_cmd_findhip_reply

definition current_version :: byte where "current_version = 1"

definition ttl_max_accepted :: int where "ttl_max_accepted = 5"

fun proto_cmd_value :: "t_proto_cmd \<Rightarrow> byte" where
  "proto_cmd_value e_proto_cmd_test0 = 0"
| "proto_cmd_value e_proto_cmd_test1 = 1"
| "proto_cmd_value e_proto_cmd_tunneled_data = 2"
| "proto_cmd_value e_proto_cmd_public_hi = 3"
| "proto_cmd_value e_proto_cmd_public_ping_request = 4"
| "proto_cmd_value e_proto_cmd_public_ping_reply = 5"
| "proto_cmd_value e_proto_cmd_findhip_query = 10"
| "proto_cmd_value e_proto_cmd_findhip_reply = 11"

definition all_proto_cmds :: "t_proto_cmd list" where
  \<comment> \<open>the values for which \<open>enum_is_valid_value\<close> holds\<close>
  "all_proto_cmds =
     [e_proto_cmd_test0, e_proto_cmd_test1, e_proto_cmd_tunneled_data, e_proto_cmd_public_hi,
      e_proto_cmd_public_ping_request, e_proto_cmd_public_ping_reply, e_proto_cmd_findhip_query,
      e_proto_cmd_findhip_reply]"

definition int_to_proto_cmd :: "byte \<Rightarrow> t_proto_cmd result" where
  \<comment> \<open>the argument is a signed \<open>char\<close>, the underlying type is \<open>unsigned char\<close>\<close>
  "int_to_proto_cmd c =
     (if sint c < 0 then Inl Overflow_error
      else case find (\<lambda>cmd. proto_cmd_value cmd = c) all_proto_cmds of
             None \<Rightarrow> Inl Invalid_argument
           | Some cmd \<Rightarrow> Inr cmd)"

definition command_is_valid_from_unknown_peer :: "t_proto_cmd \<Rightarrow> bool" where
  "command_is_valid_from_unknown_peer cmd =
     (if cmd = e_proto_cmd_tunneled_data then False
      else if cmd = e_proto_cmd_public_hi then True
      else if cmd = e_proto_cmd_public_ping_request then True
      else if cmd = e_proto_cmd_public_ping_reply then True
      else False)"

section \<open>Lemmas on addresses\<close>

lemma mapR_vec_at_all: "n = length xs \<Longrightarrow> mapR (vec_at xs) [0..<n] = Inr xs"
  by (simp add: mapR_Inr_iff list_all2_conv_all_nth)

lemma c_haship_addr_by_addr_bin_eq [simp]:
  "c_haship_addr_by_addr_bin data = (if length data = 16 then Inr data else Inl Runtime_error)"
  using mapR_vec_at_all [of 16 data]
  by (auto simp: c_haship_addr_by_addr_bin_def g_haship_addr_size_def)

lemma c_haship_addr_by_addr_dot_eq:
  "c_haship_addr_by_addr_dot host s =
     (case address_v6_from_string host s of None \<Rightarrow> Inl Invalid_argument
      | Some a \<Rightarrow> if length a = 16 then Inr a else Inl Abort)"
  using mapR_vec_at_all [of 16] by (auto simp: c_haship_addr_by_addr_dot_def split: option.split)

lemma length_c_haship_addr_init [simp]: "length c_haship_addr_init = 16"
  by (simp add: c_haship_addr_init_def g_haship_addr_size_def)

lemma hip_is_empty_iff: "hip_is_empty a \<longleftrightarrow> a = replicate (length a) 0"
  by (induction a rule: hip_is_empty.induct) (auto simp: replicate_eq_replicate)

lemma addr_is_galaxy_eq: "length a = 16 \<Longrightarrow> addr_is_galaxy a = Inr (a ! 0 = 0xFD)"
  by (simp add: addr_is_galaxy_def)

lemma int_to_proto_cmd_value [simp]: "int_to_proto_cmd (proto_cmd_value cmd) = Inr cmd"
  by (cases cmd) (simp_all add: int_to_proto_cmd_def all_proto_cmds_def)

text \<open>
  Two routines print an address: \<open>get_ipv6_string_hexdot\<close> puts a colon after every fourth
  digit but the last, \<open>get_hip_as_string\<close> before every fourth digit but the first.
\<close>

lemma hip_string_loop_hexdot:
  assumes "n = i + length cs" and "n mod 4 = 0"
  shows "hip_string_loop True i cs
    = (if cs \<noteq> [] \<and> i \<noteq> 0 \<and> i mod 4 = 0 then [0x3A] else []) @ hexdot_loop i n cs"
  using assms
proof (induction cs arbitrary: i)
  case (Cons c cs)
  have ih: "hip_string_loop True (i + 1) cs
      = (if cs \<noteq> [] \<and> i + 1 \<noteq> 0 \<and> (i + 1) mod 4 = 0 then [0x3A] else []) @ hexdot_loop (i + 1) n cs"
    by (rule Cons.IH) (use Cons.prems in simp_all)
  have "i \<noteq> 0" if "(i + 1) mod 4 = 0" using that by (cases i) auto
  moreover have "i + 1 = n \<longleftrightarrow> cs = []" using Cons.prems(1) by auto
  ultimately show ?case unfolding hip_string_loop.simps hexdot_loop.simps ih by auto
qed simp

lemma hex_roundtrip_len:
  "length bs < 2 ^ 62 \<Longrightarrow> \<exists>h. string_as_hex_of_bin bs = Inr h \<and> length h = 2 * length bs"
  using hex_encode_decode [of bs] by (auto simp: string_as_hex_of_bin_def)

lemma get_hip_as_string_eq_hexdot:
  assumes "length a = 16" and "string_as_hex_of_bin a = Inr h"
  shows "get_hip_as_string True a = Inr (hexdot_loop 0 (length h) h)"
proof -
  obtain h' where "string_as_hex_of_bin a = Inr h'" "length h' = 2 * length a"
    using hex_roundtrip_len [of a] assms(1) by auto
  then have "length h mod 4 = 0" using assms by simp
  then show ?thesis
    using hip_string_loop_hexdot [of "length h" 0 h] assms(2) by (simp add: get_hip_as_string_def)
qed

lemma address_forms:
  assumes "hash_sized lib" and "systems_known (m_cryptolists_general pub)" and "m_hash_cached pub = []"
    and "string_as_bin_of_hex (m_ipv6_prefix pub) = Inr prefix" and "length prefix \<le> 16"
  shows "\<exists>hip hex pub'. length hip = 16 \<and> take (length prefix) hip = prefix
    \<and> string_as_hex_of_bin hip = Inr hex
    \<and> get_ipv6_string_bin lib pub = (Inr hip, pub')
    \<and> get_ipv6_string_hexdot lib pub = (Inr (hexdot_loop 0 (length hex) hex), pub')
    \<and> c_haship_addr_by_hash_of_pubkey lib pub = (Inr hip, pub')
    \<and> m_cryptolists_general pub' = m_cryptolists_general pub \<and> m_ipv6_prefix pub' = m_ipv6_prefix pub"
proof -
  obtain h where h: "length h = 64" "get_hash lib pub = (Inr h, pub\<lparr>m_hash_cached := h\<rparr>)"
    using get_hash_returns [OF assms(1,2,3)] by blast
  let ?hip = "prefix @ take (16 - length prefix) h"
  have bin: "get_ipv6_string_bin lib pub = (Inr ?hip, pub\<lparr>m_hash_cached := h\<rparr>)"
    by (rule get_ipv6_string_bin_eq [OF h(2,1)]) (use assms in simp_all)
  have len: "length ?hip = 16" using assms(5) h(1) by simp
  then obtain hex where hex: "string_as_hex_of_bin ?hip = Inr hex"
    using hex_of_bin_digits [of ?hip] by auto
  have "get_ipv6_string_hexdot lib pub = (Inr (hexdot_loop 0 (length hex) hex), pub\<lparr>m_hash_cached := h\<rparr>)"
    using bin hex by (simp add: get_ipv6_string_hexdot_def get_ipv6_string_hex_def andThen_def)
  moreover have "c_haship_addr_by_hash_of_pubkey lib pub = (Inr ?hip, pub\<lparr>m_hash_cached := h\<rparr>)"
    using bin mapR_vec_at_all [of 16 ?hip] len by (simp add: c_haship_addr_by_hash_of_pubkey_def andThen_def)
  ultimately show ?thesis using len hex bin 
    by (intro exI [of _ ?hip] exI [of _ hex] exI [of _ "pub\<lparr>m_hash_cached := h\<rparr>"]) simp
qed

section \<open>What the text conversions of the host promise\<close>

text \<open>
  \<open>v6_text_laws\<close>: a parsed address has 16 octets; the full form, eight groups of four
  hexadecimal digits, is parsed to the address it writes; and so is the form \<open>inet_ntop\<close>
  prints.
\<close>

definition v6_text_laws :: "host_lib \<Rightarrow> bool" where
  "v6_text_laws host \<longleftrightarrow>
     (\<forall>s a. address_v6_from_string host s = Some a \<longrightarrow> length a = 16) \<and>
     (\<forall>a h. length a = 16 \<longrightarrow> string_as_hex_of_bin a = Inr h \<longrightarrow>
        address_v6_from_string host (hexdot_loop 0 (length h) h) = Some a) \<and>
     (\<forall>a. length a = 16 \<longrightarrow> address_v6_from_string host (inet_ntop6 host a) = Some a)"

lemma by_addr_dot_length:
  "v6_text_laws host \<Longrightarrow> c_haship_addr_by_addr_dot host s = Inr a \<Longrightarrow> length a = 16"
  by (auto simp: c_haship_addr_by_addr_dot_eq split: option.splits if_splits)

lemma by_addr_dot_hexdot:
  "v6_text_laws host \<Longrightarrow> length a = 16 \<Longrightarrow> string_as_hex_of_bin a = Inr h \<Longrightarrow>
   c_haship_addr_by_addr_dot host (hexdot_loop 0 (length h) h) = Inr a"
  by (simp add: c_haship_addr_by_addr_dot_eq v6_text_laws_def)

lemma by_addr_dot_ntop:
  "v6_text_laws host \<Longrightarrow> length a = 16 \<Longrightarrow> c_haship_addr_by_addr_dot host (inet_ntop6 host a) = Inr a"
  by (simp add: c_haship_addr_by_addr_dot_eq v6_text_laws_def)

definition example_v4 :: "bytes \<Rightarrow> bytes option" where
  "example_v4 s =
     (if s = octets_of ''127.0.0.1'' then Some [127, 0, 0, 1]
      else if s = octets_of ''192.168.2.62'' then Some [192, 168, 2, 62] else None)"

definition example_v6 :: "bytes \<Rightarrow> bytes option" where
  "example_v6 s =
     (case string_as_bin_of_hex (filter (\<lambda>c. c \<noteq> 0x3A) s) of
        Inl e \<Rightarrow> None | Inr a \<Rightarrow> if length a = 16 then Some a else None)"

definition example_host :: host_lib where
  "example_host =
     \<lparr>address_v6_from_string = example_v6, address_v4_from_string = example_v4,
      getaddrinfo_family = (\<lambda>s. if example_v4 s \<noteq> None then Some 2 else if example_v6 s \<noteq> None then Some 10 else None),
      inet_pton4 = example_v4, inet_pton6 = example_v6,
      inet_ntop6 = (\<lambda>a. case string_as_hex_of_bin a of Inl e \<Rightarrow> [] | Inr h \<Rightarrow> hexdot_loop 0 (length h) h),
      inet_ntop4 = (\<lambda>a. a),
      address_from_string = (\<lambda>s. case example_v6 s of None \<Rightarrow> example_v4 s | Some a \<Rightarrow> Some a),
      v4_is_class_a = (\<lambda>a. a ! 0 < 128), v4_is_class_b = (\<lambda>a. 128 \<le> a ! 0 \<and> a ! 0 < 192),
      v4_is_class_c = (\<lambda>a. 192 \<le> a ! 0 \<and> a ! 0 < 224), v4_is_loopback = (\<lambda>a. a ! 0 = 127),
      v4_is_unspecified = (\<lambda>a. a = replicate 4 0), v4_is_multicast = (\<lambda>a. 224 \<le> a ! 0 \<and> a ! 0 < 240),
      t_crypto_nonce_default = replicate 24 0\<rparr>"

lemma example_v6_hexdot:
  assumes "length a = 16" and "string_as_hex_of_bin a = Inr h"
  shows "example_v6 (hexdot_loop 0 (length h) h) = Some a"
proof -
  have "string_as_bin_of_hex h = Inr a" "0x3A \<notin> set h" using hex_of_bin_digits [of a] assms by auto
  then show ?thesis using assms(1) by (simp add: example_v6_def filter_hexdot_loop)
qed

lemma v6_text_laws_example: "v6_text_laws example_host"
  unfolding v6_text_laws_def
proof (intro conjI allI impI)
  fix a :: bytes
  assume a: "length a = 16"
  then obtain h where "string_as_hex_of_bin a = Inr h" using hex_of_bin_digits [of a] by auto
  then show "address_v6_from_string example_host (inet_ntop6 example_host a) = Some a"
    using example_v6_hexdot [OF a] by (simp add: example_host_def)
next
  fix s a
  assume "address_v6_from_string example_host s = Some a"
  then show "length a = 16" by (auto simp: example_host_def example_v6_def split: sum.splits if_splits)
qed (simp add: example_host_def example_v6_hexdot)

section \<open>Properties\<close>

text \<open>
  The text \<open>get_hip_as_string\<close> prints for an address is the text
  \<open>get_ipv6_string_hexdot\<close> prints for the identity that has the address, and the constructor
  from text reads the address back from it.
\<close>

theorem hip_text_roundtrip:
  assumes "v6_text_laws host" and "hash_sized lib"
    and "systems_known (m_cryptolists_general pub)" and "m_hash_cached pub = []"
    and "string_as_bin_of_hex (m_ipv6_prefix pub) = Inr prefix" and "length prefix \<le> 16"
  shows "\<exists>hip text. fst (c_haship_addr_by_hash_of_pubkey lib pub) = Inr hip \<and> length hip = 16
    \<and> fst (get_ipv6_string_hexdot lib pub) = Inr text \<and> get_hip_as_string True hip = Inr text
    \<and> c_haship_addr_by_addr_dot host text = Inr hip"
proof -
  obtain hip hex pub' where f: "length hip = 16" "string_as_hex_of_bin hip = Inr hex"
      "get_ipv6_string_hexdot lib pub = (Inr (hexdot_loop 0 (length hex) hex), pub')"
      "c_haship_addr_by_hash_of_pubkey lib pub = (Inr hip, pub')"
    using address_forms [OF assms(2-)] by blast
  then show ?thesis
    using get_hip_as_string_eq_hexdot [OF f(1,2)] by_addr_dot_hexdot [OF assms(1) f(1,2)] by auto
qed

theorem hip_text_roundtrip_witness:
  "\<exists>hip text. fst (c_haship_addr_by_hash_of_pubkey example_lib example_pub) = Inr hip \<and> length hip = 16
    \<and> fst (get_ipv6_string_hexdot example_lib example_pub) = Inr text \<and> get_hip_as_string True hip = Inr text
    \<and> c_haship_addr_by_addr_dot example_host text = Inr hip"
proof (rule hip_text_roundtrip [where prefix = "[0xFD, 0x42]"])
  show "systems_known (m_cryptolists_general example_pub)"
    using example_pub_ok by (auto simp: systems_known_def pubkeys.keylists_ok_def)
qed (simp_all add: v6_text_laws_example hash_sized_example example_pub_def c_multikeys_pub_init_def
    string_as_bin_of_hex_def hex_octet_def hexchar2int_def)

end
