(* ===== verification/Ip46_Addr.thy ===== *)
theory Ip46_Addr
  imports Haship
begin

text \<open>
  Physical addresses of peers, the Linux version of \<^verbatim>\<open>src/src/c_ip46_addr.cpp\<close>. The
  tagged union \<open>m_tag\<close>, \<open>m_ip_data\<close> is a datatype; every read of the union in the code is guarded
  by the tag. A port is kept as the number \<open>ntohs\<close> gives.
\<close>

section \<open>Addresses\<close>

definition AF_INET :: nat where "AF_INET = 2"

definition AF_INET6 :: nat where "AF_INET6 = 10"

record sockaddr_in =
  sin_family :: nat
  sin_port :: "16 word"
  sin_addr :: bytes     \<comment> \<open>4 octets\<close>

record sockaddr_in6 =
  sin6_family :: nat
  sin6_port :: "16 word"
  sin6_addr :: bytes    \<comment> \<open>16 octets\<close>

datatype c_ip46_addr = tag_none | tag_ipv4 sockaddr_in | tag_ipv6 sockaddr_in6

definition set_ip4 :: "sockaddr_in \<Rightarrow> c_ip46_addr result" where
  "set_ip4 in4 = (if sin_family in4 = AF_INET then Inr (tag_ipv4 in4) else Inl Abort)"

definition set_ip6 :: "sockaddr_in6 \<Rightarrow> c_ip46_addr result" where
  "set_ip6 in6 = (if sin6_family in6 = AF_INET6 then Inr (tag_ipv6 in6) else Inl Abort)"

definition get_ip4 :: "c_ip46_addr \<Rightarrow> sockaddr_in result" where
  "get_ip4 addr = (case addr of tag_ipv4 in4 \<Rightarrow> if sin_family in4 = AF_INET then Inr in4 else Inl Abort
                   | _ \<Rightarrow> Inl Abort)"

definition get_ip6 :: "c_ip46_addr \<Rightarrow> sockaddr_in6 result" where
  "get_ip6 addr = (case addr of tag_ipv6 in6 \<Rightarrow> if sin6_family in6 = AF_INET6 then Inr in6 else Inl Abort
                   | _ \<Rightarrow> Inl Abort)"

definition any_on_port :: "int \<Rightarrow> c_ip46_addr result" where
  "any_on_port port = set_ip4 \<lparr>sin_family = AF_INET, sin_port = of_int port, sin_addr = replicate 4 0\<rparr>"

definition create_ipv4 :: "host_lib \<Rightarrow> bytes \<Rightarrow> int \<Rightarrow> c_ip46_addr result" where
  \<comment> \<open>the result of \<open>inet_pton\<close> is not checked: text it refuses leaves the zero filled address\<close>
  "create_ipv4 host ipv4_str port =
     set_ip4 \<lparr>sin_family = AF_INET, sin_port = of_int port,
              sin_addr = (case inet_pton4 host ipv4_str of None \<Rightarrow> replicate 4 0 | Some a \<Rightarrow> a)\<rparr>"

definition create_ipv6 :: "host_lib \<Rightarrow> bytes \<Rightarrow> int \<Rightarrow> c_ip46_addr result" where
  "create_ipv6 host ipv6_str port =
     set_ip6 \<lparr>sin6_family = AF_INET6, sin6_port = of_int port,
              sin6_addr = (case inet_pton6 host ipv6_str of None \<Rightarrow> replicate 16 0 | Some a \<Rightarrow> a)\<rparr>"

definition is_ipv4 :: "host_lib \<Rightarrow> bytes \<Rightarrow> bool result" where
  "is_ipv4 host ipstr =
     (case getaddrinfo_family host ipstr of
        None \<Rightarrow> Inl Invalid_argument
      | Some ai_family \<Rightarrow> if ai_family = AF_INET then Inr True
                          else if ai_family = AF_INET6 then Inr False else Inl Abort)"

definition c_ip46_addr_of_string :: "host_lib \<Rightarrow> bytes \<Rightarrow> int \<Rightarrow> c_ip46_addr result" where
  "c_ip46_addr_of_string host ip_addr port =
     bindR (is_ipv4 host ip_addr)
       (\<lambda>v4. if v4 then create_ipv4 host ip_addr port else create_ipv6 host ip_addr port)"

definition get_assigned_port :: "c_ip46_addr \<Rightarrow> nat" where
  "get_assigned_port addr =
     (case addr of tag_ipv4 in4 \<Rightarrow> unat (sin_port in4) | tag_ipv6 in6 \<Rightarrow> unat (sin6_port in6) | tag_none \<Rightarrow> 0)"

fun print_nat :: "nat \<Rightarrow> bytes" where
  \<comment> \<open>\<open>operator<<\<close> of a non-negative integer\<close>
  "print_nat n = (if n < 10 then [0x30 + of_nat n] else print_nat (n div 10) @ [0x30 + of_nat (n mod 10)])"

declare print_nat.simps [simp del]

definition print_ip46 :: "host_lib \<Rightarrow> c_ip46_addr \<Rightarrow> bytes" where
  \<comment> \<open>\<open>operator<<\<close>\<close>
  "print_ip46 host addr =
     (case addr of
        tag_ipv4 in4 \<Rightarrow> inet_ntop4 host (sin_addr in4) @ [0x3A] @ print_nat (get_assigned_port addr)
      | tag_ipv6 in6 \<Rightarrow> [0x5B] @ inet_ntop6 host (sin6_addr in6) @ [0x5D, 0x3A] @ print_nat (get_assigned_port addr)
      | tag_none \<Rightarrow> octets_of ''none'')"

definition ip46_equal :: "c_ip46_addr \<Rightarrow> c_ip46_addr \<Rightarrow> bool result" where
  "ip46_equal lhs rhs =
     (if lhs = tag_none then Inl Invalid_argument
      else if rhs = tag_none then Inl Invalid_argument
      else case (lhs, rhs) of
             (tag_ipv4 a, tag_ipv4 b) \<Rightarrow>
               Inr (sin_addr a = sin_addr b \<and> get_assigned_port lhs = get_assigned_port rhs)
           | (tag_ipv6 a, tag_ipv6 b) \<Rightarrow>
               Inr (sin6_addr a = sin6_addr b \<and> get_assigned_port lhs = get_assigned_port rhs)
           | _ \<Rightarrow> Inr False)"

definition ip46_less :: "c_ip46_addr \<Rightarrow> c_ip46_addr \<Rightarrow> bool result" where
  \<comment> \<open>\<open>memcmp\<close> is the lexicographic order of octets; both branches compare \<open>sizeof(in_addr)\<close> of them\<close>
  "ip46_less lhs rhs =
     (if lhs = tag_none then Inl Invalid_argument
      else if rhs = tag_none then Inl Invalid_argument
      else case (lhs, rhs) of
             (tag_ipv4 a, tag_ipv6 b) \<Rightarrow> Inr True
           | (tag_ipv6 a, tag_ipv4 b) \<Rightarrow> Inr False
           | (tag_ipv4 a, tag_ipv4 b) \<Rightarrow>
               Inr (if take 4 (sin_addr a) < take 4 (sin_addr b) then True
                    else if take 4 (sin_addr a) > take 4 (sin_addr b) then False
                    else get_assigned_port lhs < get_assigned_port rhs)
           | (tag_ipv6 a, tag_ipv6 b) \<Rightarrow>
               Inr (if take 4 (sin6_addr a) < take 4 (sin6_addr b) then True
                    else if take 4 (sin6_addr a) > take 4 (sin6_addr b) then False
                    else get_assigned_port lhs < get_assigned_port rhs)
           | _ \<Rightarrow> Inr False)"

section \<open>Well-formed addresses\<close>

definition ip46_wf :: "c_ip46_addr \<Rightarrow> bool" where
  "ip46_wf addr = (case addr of
     tag_none \<Rightarrow> True
   | tag_ipv4 a \<Rightarrow> sin_family a = AF_INET \<and> length (sin_addr a) = 4
   | tag_ipv6 a \<Rightarrow> sin6_family a = AF_INET6 \<and> length (sin6_addr a) = 16)"

lemma sockaddr_in_ext:
  "sin_addr x = sin_addr y \<Longrightarrow> unat (sin_port x) = unat (sin_port y) \<Longrightarrow> sin_family x = AF_INET \<Longrightarrow>
   sin_family y = AF_INET \<Longrightarrow> x = (y :: sockaddr_in)"
  by (cases x; cases y) (simp add: word_unat_eq_iff)

lemma sockaddr_in6_ext:
  "sin6_addr x = sin6_addr y \<Longrightarrow> unat (sin6_port x) = unat (sin6_port y) \<Longrightarrow> sin6_family x = AF_INET6 \<Longrightarrow>
   sin6_family y = AF_INET6 \<Longrightarrow> x = (y :: sockaddr_in6)"
  by (cases x; cases y) (simp add: word_unat_eq_iff)

lemma ip46_equal_refl: "a \<noteq> tag_none \<Longrightarrow> ip46_equal a a = Inr True"
  by (cases a) (simp_all add: ip46_equal_def)

lemma ip46_equal_iff:
  "a \<noteq> tag_none \<Longrightarrow> b \<noteq> tag_none \<Longrightarrow> ip46_wf a \<Longrightarrow> ip46_wf b \<Longrightarrow> ip46_equal a b = Inr (a = b)"
  by (cases a; cases b)
    (auto simp: ip46_equal_def ip46_wf_def get_assigned_port_def dest: sockaddr_in_ext sockaddr_in6_ext)

section \<open>Properties\<close>

text \<open>
  Comparing addresses never throws once both have a tag; \<open>operator==\<close> is equality; of two
  IPv4 addresses exactly one of "less", "equal", "greater" holds. For IPv6 this fails: addresses
  that share their first four octets and their port are not ordered although they differ, so an
  ordered container keeps only one of them.
\<close>

theorem ip46_comparison:
  assumes "a \<noteq> tag_none" and "b \<noteq> tag_none" and "ip46_wf a" and "ip46_wf b"
  shows "ip46_equal a b = Inr (a = b)
    \<and> (\<exists>l g. ip46_less a b = Inr l \<and> ip46_less b a = Inr g \<and> \<not> (l \<and> g)
         \<and> (a = b \<longrightarrow> \<not> l \<and> \<not> g)
         \<and> (\<forall>x y. a = tag_ipv4 x \<and> b = tag_ipv4 y \<and> a \<noteq> b \<longrightarrow> l \<or> g)
         \<and> (\<forall>x y. a = tag_ipv6 x \<and> b = tag_ipv6 y \<and> take 4 (sin6_addr x) = take 4 (sin6_addr y)
              \<and> sin6_port x = sin6_port y \<longrightarrow> \<not> l \<and> \<not> g))"
  using assms
  by (cases a; cases b)
    (auto simp: ip46_equal_iff ip46_less_def ip46_wf_def get_assigned_port_def
      dest: order_less_asym intro: sockaddr_in_ext linorder_neqE_nat)

definition example_in6 :: "byte \<Rightarrow> c_ip46_addr" where
  "example_in6 c = tag_ipv6 \<lparr>sin6_family = AF_INET6, sin6_port = 9042,
     sin6_addr = [0x20, 1, 0x0D, 0xB8] @ replicate 11 0 @ [c]\<rparr>"

theorem ip46_comparison_witness:
  "ip46_equal (example_in6 1) (example_in6 2) = Inr False
     \<and> ip46_less (example_in6 1) (example_in6 2) = Inr False
     \<and> ip46_less (example_in6 2) (example_in6 1) = Inr False"
  using ip46_comparison [of "example_in6 1" "example_in6 2"]
  by (simp add: example_in6_def ip46_wf_def ip46_less_def)

end
