(* ===== verification/Peering.thy ===== *)
theory Peering
  imports Ip46_Addr
begin

text \<open>
  Connections to direct peers: \<^verbatim>\<open>src/src/c_peering.cpp\<close>, with the transmission statistics
  of \<^verbatim>\<open>src/src/httpdbg/peering_stats.cpp\<close> that each peering owns, and sending through the
  UDP socket (\<^verbatim>\<open>c_udp_wrapper.cpp\<close>, Linux). The unused socket argument of the send
  methods is dropped.

  \<open>world\<close> is what the code touches outside its own objects: the readings of
  \<open>std::chrono::steady_clock\<close> in nanoseconds (the n-th reading by the modelled code gives
  \<open>w_clock n\<close>), the datagrams handed to \<open>sendto\<close>, the packets written to the
  TUN device, the generator of random keys, and the debug level, on which one log statement makes
  the control flow depend.
\<close>

section \<open>The world\<close>

record world =
  w_clock :: "nat \<Rightarrow> int"
  w_clock_reads :: nat
  m_disabled :: bool                        \<comment> \<open>of \<open>c_udp_wrapper_linux\<close>\<close>
  w_sent :: "(c_ip46_addr \<times> bytes) list"   \<comment> \<open>oldest first\<close>
  w_tun :: "bytes list"                     \<comment> \<open>oldest first\<close>
  w_tun_write :: "bytes \<Rightarrow> nat option"     \<comment> \<open>octets of a packet the TUN device takes, \<open>None\<close>: error\<close>
  w_rng :: nat
  g_dbg_level :: nat

definition steady_now :: "(world, int) action" where
  "steady_now w = (Inr (w_clock w (w_clock_reads w)), w\<lparr>w_clock_reads := w_clock_reads w + 1\<rparr>)"

definition udp_send_data :: "c_ip46_addr \<Rightarrow> bytes \<Rightarrow> (world, unit) action" where
  \<comment> \<open>the result of \<open>sendto\<close> is not looked at\<close>
  "udp_send_data dst_address data w =
     (if m_disabled w then (Inr (), w)
      else case get_ip4 dst_address of
             Inl e \<Rightarrow> (Inl e, w)
           | Inr dst_ip4 \<Rightarrow> (Inr (), w\<lparr>w_sent := w_sent w @ [(tag_ipv4 dst_ip4, data)]\<rparr>))"

section \<open>Statistics\<close>

record c_data_transmission_buffer =
  m_data_sent_buffer :: "u64 list"
  m_data_read_buffer :: "u64 list"
  m_packets_sent_buffer :: "u64 list"
  m_packets_read_buffer :: "u64 list"
  m_last_sent :: int
  m_last_read :: int
  m_interval :: int
  m_reference_time :: int

text \<open>
  The two counters of packets are of type \<open>long\<close>; they count up from 0 by one for each packet, so they are kept as
  integers: no run is long enough for \<open>2\<^sup>6\<^sup>3\<close> packets.
\<close>

record c_transmission_stats =
  m_size_of_sent_data :: u64
  m_size_of_read_data :: u64
  m_number_of_sent_packets :: int
  m_number_of_read_packets :: int
  m_connection_time :: int
  m_data_buffer :: c_data_transmission_buffer

definition c_data_transmission_buffer_new :: "nat \<Rightarrow> int \<Rightarrow> (world, c_data_transmission_buffer) action" where
  "c_data_transmission_buffer_new buffer_size interval_in_milisec =
     andThen steady_now (\<lambda>now. ret
       \<lparr>m_data_sent_buffer = replicate buffer_size 0, m_data_read_buffer = replicate buffer_size 0,
        m_packets_sent_buffer = replicate buffer_size 0, m_packets_read_buffer = replicate buffer_size 0,
        m_last_sent = 0, m_last_read = 0, m_interval = interval_in_milisec, m_reference_time = now\<rparr>)"

definition circular_push_back :: "'a \<Rightarrow> 'a list \<Rightarrow> 'a list" where
  \<comment> \<open>\<open>boost::circular_buffer::push_back\<close> on a buffer filled to its capacity\<close>
  "circular_push_back x buf = (if buf = [] then [] else tl buf @ [x])"

definition add_to_back :: "u64 \<Rightarrow> u64 list \<Rightarrow> u64 list" where
  "add_to_back d buf = butlast buf @ [last buf + d]"

definition stat_units :: "int \<Rightarrow> c_data_transmission_buffer \<Rightarrow> int" where
  \<comment> \<open>the code divides as \<open>double\<close> and truncates; here the quotient is exact\<close>
  "stat_units now b = (now - m_reference_time b) div (1000000 * m_interval b)"

definition update_sent_buffer :: "u64 \<Rightarrow> (c_data_transmission_buffer \<times> world, unit) action" where
  "update_sent_buffer data_size =
     andThen (on_snd steady_now) (\<lambda>now (b, w).
       let units = stat_units now b; distance = units - m_last_sent b;
           shift = (circular_push_back 0) ^^ nat distance;
           sent = shift (m_data_sent_buffer b); packets = shift (m_packets_sent_buffer b)
       in (Inr (), (b\<lparr>m_last_sent := units,
             m_data_sent_buffer := (if data_size \<noteq> 0 then add_to_back data_size sent else sent),
             m_packets_sent_buffer := (if data_size \<noteq> 0 then add_to_back 1 packets else packets)\<rparr>, w)))"

definition update_read_buffer :: "u64 \<Rightarrow> (c_data_transmission_buffer \<times> world, unit) action" where
  "update_read_buffer data_size =
     andThen (on_snd steady_now) (\<lambda>now (b, w).
       let units = stat_units now b; distance = units - m_last_read b;
           shift = (circular_push_back 0) ^^ nat distance;
           read = shift (m_data_read_buffer b); packets = shift (m_packets_read_buffer b)
       in (Inr (), (b\<lparr>m_last_read := units,
             m_data_read_buffer := (if data_size \<noteq> 0 then add_to_back data_size read else read),
             m_packets_read_buffer := (if data_size \<noteq> 0 then add_to_back 1 packets else packets)\<rparr>, w)))"

definition c_transmission_stats_new :: "(world, c_transmission_stats) action" where
  "c_transmission_stats_new =
     andThen steady_now (\<lambda>now. andThen (c_data_transmission_buffer_new 120 1000) (\<lambda>buf. ret
       \<lparr>m_size_of_sent_data = 0, m_size_of_read_data = 0, m_number_of_sent_packets = 0,
        m_number_of_read_packets = 0, m_connection_time = now, m_data_buffer = buf\<rparr>))"

definition update_sent_stats :: "nat \<Rightarrow> (c_transmission_stats \<times> world, unit) action" where
  "update_sent_stats size_of_sent_data = (\<lambda>(st, w).
     case update_sent_buffer (of_nat size_of_sent_data) (m_data_buffer st, w) of (r, (buf, w')) \<Rightarrow>
       (r, (st\<lparr>m_data_buffer := buf,
               m_size_of_sent_data := m_size_of_sent_data st + of_nat size_of_sent_data,
               m_number_of_sent_packets := m_number_of_sent_packets st + 1\<rparr>, w')))"

definition update_read_stats :: "nat \<Rightarrow> (c_transmission_stats \<times> world, unit) action" where
  "update_read_stats size_of_read_data = (\<lambda>(st, w).
     case update_read_buffer (of_nat size_of_read_data) (m_data_buffer st, w) of (r, (buf, w')) \<Rightarrow>
       (r, (st\<lparr>m_data_buffer := buf,
               m_size_of_read_data := m_size_of_read_data st + of_nat size_of_read_data,
               m_number_of_read_packets := m_number_of_read_packets st + 1\<rparr>, w')))"

section \<open>Peering\<close>

record t_peering_reference =
  peering_addr :: c_ip46_addr
  haship_addr :: c_haship_addr

definition t_peering_reference_of_addr ::
    "host_lib \<Rightarrow> c_ip46_addr \<Rightarrow> bytes \<Rightarrow> t_peering_reference result" where
  "t_peering_reference_of_addr host addr peering_hip =
     bindR (c_haship_addr_by_addr_dot host peering_hip)
       (\<lambda>hip. Inr \<lparr>peering_addr = addr, haship_addr = hip\<rparr>)"

definition t_peering_reference_of_text ::
    "host_lib \<Rightarrow> bytes \<Rightarrow> int \<Rightarrow> bytes \<Rightarrow> t_peering_reference result" where
  "t_peering_reference_of_text host addr port peering_hip =
     bindR (c_ip46_addr_of_string host addr port)
       (\<lambda>a. t_peering_reference_of_addr host a peering_hip)"

record c_peering =
  m_peering_addr :: c_ip46_addr
  m_haship_addr :: c_haship_addr
  m_pubkey :: "c_multikeys_pub option"
  m_limit_points :: int
  m_peering_stats :: c_transmission_stats
  m_last_ping_time :: int

definition c_peering_new :: "t_peering_reference \<Rightarrow> (world, c_peering) action" where
  "c_peering_new ref =
     andThen c_transmission_stats_new (\<lambda>stats. andThen steady_now (\<lambda>now. ret
       \<lparr>m_peering_addr = peering_addr ref, m_haship_addr = haship_addr ref, m_pubkey = None,
        m_limit_points = 100, m_peering_stats = stats, m_last_ping_time = now\<rparr>))"

definition set_pip :: "c_ip46_addr \<Rightarrow> c_peering \<Rightarrow> c_peering" where
  "set_pip addr p = p\<lparr>m_peering_addr := addr\<rparr>"

definition set_pubkey :: "c_multikeys_pub \<Rightarrow> c_peering \<Rightarrow> c_peering" where
  "set_pubkey pubkey p = p\<lparr>m_pubkey := Some pubkey\<rparr>"

definition is_pubkey :: "c_peering \<Rightarrow> bool" where
  "is_pubkey p \<longleftrightarrow> m_pubkey p \<noteq> None"

definition atomic_long :: "int \<Rightarrow> int" where
  \<comment> \<open>arithmetic on \<open>std::atomic<long>\<close> wraps around\<close>
  "atomic_long i = sint (of_int i :: 64 word)"

definition add_limit_points :: "int \<Rightarrow> c_peering \<Rightarrow> c_peering" where
  "add_limit_points points p = p\<lparr>m_limit_points := atomic_long (m_limit_points p + points)\<rparr>"

definition decrement_limit_points :: "c_peering \<Rightarrow> c_peering" where
  "decrement_limit_points p = p\<lparr>m_limit_points := atomic_long (m_limit_points p - 1)\<rparr>"

definition update_last_ping_time :: "(c_peering \<times> world, unit) action" where
  "update_last_ping_time =
     andThen (on_snd steady_now) (\<lambda>now (p, w). (Inr (), (p\<lparr>m_last_ping_time := now\<rparr>, w)))"

definition on_stats :: "(c_transmission_stats \<times> world, 'a) action \<Rightarrow> (c_peering \<times> world, 'a) action" where
  \<comment> \<open>a call on \<open>get_stats()\<close>\<close>
  "on_stats m = (\<lambda>(p, w). case m (m_peering_stats p, w) of (r, (st, w')) \<Rightarrow> (r, (p\<lparr>m_peering_stats := st\<rparr>, w')))"

definition send_data_RAW_udp :: "bytes \<Rightarrow> (c_peering \<times> world, unit) action" where
  "send_data_RAW_udp data = (\<lambda>(p, w).
     (case m_peering_addr p of
        tag_ipv4 a \<Rightarrow> on_snd (udp_send_data (m_peering_addr p) data)
      | tag_ipv6 a \<Rightarrow> on_snd (udp_send_data (m_peering_addr p) data)
      | tag_none \<Rightarrow> raise Runtime_error) (p, w))"

definition tunneled_data_packet ::
    "bytes \<Rightarrow> c_haship_addr \<Rightarrow> c_haship_addr \<Rightarrow> int \<Rightarrow> bytes \<Rightarrow> (generator, unit) action" where
  "tunneled_data_packet data src_hip dst_hip ttl nonce_used =
     andThen (push_byte_u current_version) (\<lambda>_.
     andThen (push_byte_u (proto_cmd_value e_proto_cmd_tunneled_data)) (\<lambda>_.
     andThen (push_bytes_n length_of_addr src_hip) (\<lambda>_.
     andThen (push_bytes_n length_of_addr dst_hip) (\<lambda>_.
     andThen (push_byte_u (of_int ttl)) (\<lambda>_.
     andThen (push_bytes_n 24 nonce_used) (\<lambda>_.
     push_varstring data))))))"

definition send_data_udp ::
    "bytes \<Rightarrow> c_haship_addr \<Rightarrow> c_haship_addr \<Rightarrow> int \<Rightarrow> bytes \<Rightarrow> (c_peering \<times> world, unit) action" where
  "send_data_udp data src_hip dst_hip ttl nonce_used =
     andThen (liftR (generated (tunneled_data_packet data src_hip dst_hip ttl nonce_used))) (\<lambda>protomsg.
     andThen (on_stats (update_sent_stats (length data))) (\<lambda>_.
     send_data_RAW_udp protomsg))"

definition send_data_udp_cmd :: "t_proto_cmd \<Rightarrow> bytes \<Rightarrow> (c_peering \<times> world, unit) action" where
  "send_data_udp_cmd cmd bin =
     send_data_RAW_udp ([current_version] @ [proto_cmd_value cmd] @ bin)"

end
