(* ===== verification/Routing.thy ===== *)
theory Routing
  imports Std_Map Peering
begin

text \<open>
  \<open>c_routing_manager\<close> of \<^verbatim>\<open>src/src/tunserver.cpp\<close>: the known routes, the searches
  that run, and the operation that answers from the first or starts the second. The node is seen
  through the abstract class \<open>c_galaxy_node\<close>, here a record of operations on a state \<open>'w\<close>.
\<close>

section \<open>The interface of the node\<close>

record 'w c_galaxy_node =
  nodep2p_foreach_cmd :: "t_proto_cmd \<Rightarrow> bytes \<Rightarrow> ('w, unit) action"
  get_peer_with_hip :: "c_haship_addr \<Rightarrow> bool \<Rightarrow> ('w, c_peering) action"
  node_now :: "('w, int) action"   \<comment> \<open>\<open>std::chrono::steady_clock::now\<close>\<close>

section \<open>Data\<close>

datatype t_route_state = e_route_state_found | e_route_state_dead

datatype t_search_mode =
    e_search_mode_route_own_packet
  | e_search_mode_route_other_packet
  | e_search_mode_help_find

fun search_mode_value :: "t_search_mode \<Rightarrow> nat" where
  "search_mode_value e_search_mode_route_own_packet = 0"
| "search_mode_value e_search_mode_route_other_packet = 1"
| "search_mode_value e_search_mode_help_find = 2"

record c_route_info =
  ri_state :: t_route_state
  m_nexthop :: c_haship_addr
  ri_pubkey :: c_multikeys_pub
  m_cost :: int
  m_time :: int

record c_route_reason =
  m_his_addr :: c_haship_addr
  m_search_mode :: t_search_mode

record c_route_reason_detail =
  m_when :: int
  m_ttl :: int

record c_route_search =
  m_addr :: c_haship_addr
  m_ever :: bool
  m_ask_time :: int
  m_ttl_used :: int
  m_ttl_should_use :: int
  m_request :: "(c_route_reason \<times> c_route_reason_detail) list"

record c_routing_manager =
  m_search :: "(c_haship_addr \<times> c_route_search) list"
  m_route_nexthop :: "(c_haship_addr \<times> c_route_info) list"

definition c_routing_manager_init :: c_routing_manager where
  "c_routing_manager_init = \<lparr>m_search = [], m_route_nexthop = []\<rparr>"

section \<open>Operations\<close>

definition c_route_info_new ::
    "'w c_galaxy_node \<Rightarrow> c_haship_addr \<Rightarrow> int \<Rightarrow> c_multikeys_pub \<Rightarrow> ('w, c_route_info) action" where
  "c_route_info_new node nexthop cost pubkey =
     andThen (node_now node) (\<lambda>now. ret
       \<lparr>ri_state = e_route_state_found, m_nexthop = nexthop, ri_pubkey = pubkey, m_cost = cost, m_time = now\<rparr>)"

definition route_reason_less :: "c_route_reason \<Rightarrow> c_route_reason \<Rightarrow> bool" where
  "route_reason_less a b =
     (if m_his_addr a < m_his_addr b then True
      else if search_mode_value (m_search_mode a) < search_mode_value (m_search_mode b) then True
      else False)"

definition route_reason_equal :: "c_route_reason \<Rightarrow> c_route_reason \<Rightarrow> bool" where
  "route_reason_equal a b \<longleftrightarrow> m_his_addr a = m_his_addr b \<and> m_search_mode a = m_search_mode b"

definition c_route_search_new :: "c_haship_addr \<Rightarrow> int \<Rightarrow> c_route_search" where
  \<comment> \<open>\<open>basic_ttl\<close> is not used\<close>
  "c_route_search_new addr basic_ttl =
     \<lparr>m_addr = addr, m_ever = False, m_ask_time = 0, m_ttl_used = 0, m_ttl_should_use = 5, m_request = []\<rparr>"

definition add_request ::
    "'w c_galaxy_node \<Rightarrow> c_route_reason \<Rightarrow> int \<Rightarrow> (c_route_search \<times> 'w, unit) action" where
  "add_request node reason ttl =
     andThen (on_snd (node_now node)) (\<lambda>now (search, w).
       let request = (case map_find route_reason_less reason (m_request search) of
             None \<Rightarrow> map_emplace route_reason_less reason \<lparr>m_when = now, m_ttl = ttl\<rparr> (m_request search)
           | Some detail \<Rightarrow>
               map_modify reason (\<lambda>d. d\<lparr>m_when := now, m_ttl := max (m_ttl d) ttl\<rparr>) (m_request search))
       in (Inr (), (search\<lparr>m_request := request,
                           m_ttl_should_use := max (m_ttl_should_use search) ttl\<rparr>, w)))"

definition findhip_query_data :: "c_haship_addr \<Rightarrow> byte \<Rightarrow> bytes" where
  \<comment> \<open>\<^verbatim>\<open>HIP_BINARY;TTL_BINARY;\<close>\<close>
  "findhip_query_data addr byte_highest_ttl = addr @ [0x3B] @ [byte_highest_ttl] @ [0x3B]"

definition search_execute :: "'w c_galaxy_node \<Rightarrow> (c_route_search \<times> 'w, unit) action" where
  "search_execute node = (\<lambda>(search, w).
     let byte_highest_ttl = of_int (m_ttl_should_use search) :: byte in
     andThen (assertA (m_ttl_should_use search = uint byte_highest_ttl)) (\<lambda>_.
     andThen (on_snd (nodep2p_foreach_cmd node e_proto_cmd_findhip_query
                        (findhip_query_data (m_addr search) byte_highest_ttl))) (\<lambda>_.
     andThen (on_snd (node_now node)) (\<lambda>now (search, w).
       (Inr (), (search\<lparr>m_ttl_used := uint byte_highest_ttl, m_ask_time := now\<rparr>, w))))) (search, w))"

definition add_route_info_and_return ::
    "c_haship_addr \<Rightarrow> c_route_info \<Rightarrow> (c_routing_manager, c_route_info) action" where
  "add_route_info_and_return target route_info rm =
     (case find_key target (m_route_nexthop rm) of
        None \<Rightarrow> (Inr route_info, rm\<lparr>m_route_nexthop := emplace_key target route_info (m_route_nexthop rm)\<rparr>)
      | Some old \<Rightarrow> (Inr old, rm))"

definition on_search ::
    "c_haship_addr \<Rightarrow> (c_route_search \<times> 'w, unit) action \<Rightarrow> (c_routing_manager \<times> 'w, unit) action" where
  \<comment> \<open>a method of the search that \<open>search_iter\<close> points to\<close>
  "on_search dst m = (\<lambda>(rm, w).
     case find_key dst (m_search rm) of
       None \<Rightarrow> (Inl Abort, (rm, w))
     | Some search \<Rightarrow>
         (case m (search, w) of (r, (search', w')) \<Rightarrow>
            (r, (rm\<lparr>m_search := map_modify dst (\<lambda>_. search') (m_search rm)\<rparr>, w'))))"

definition search_for ::
    "'w c_galaxy_node \<Rightarrow> c_haship_addr \<Rightarrow> c_route_reason \<Rightarrow> int \<Rightarrow> (c_routing_manager \<times> 'w, unit) action" where
  "search_for node dst reason search_ttl = (\<lambda>(rm, w).
     case find_key dst (m_search rm) of
       None \<Rightarrow>
         (case add_request node reason search_ttl (c_route_search_new dst search_ttl, w) of
            (Inl e, (_, w')) \<Rightarrow> (Inl e, (rm, w'))
          | (Inr _, (new_search, w')) \<Rightarrow>
              on_search dst (search_execute node)
                (rm\<lparr>m_search := emplace_key dst new_search (m_search rm)\<rparr>, w'))
     | Some _ \<Rightarrow> on_search dst (add_request node reason search_ttl) (rm, w))"

definition get_route_direct ::
    "'w c_galaxy_node \<Rightarrow> c_haship_addr \<Rightarrow> (c_routing_manager \<times> 'w, c_route_info) action" where
  \<comment> \<open>the body of the \<open>try\<close>\<close>
  "get_route_direct node dst =
     andThen (on_snd (get_peer_with_hip node dst False)) (\<lambda>peer.
       case m_pubkey peer of
         None \<Rightarrow> raise Runtime_error
       | Some peer_pub \<Rightarrow>
           andThen (on_snd (c_route_info_new node (m_haship_addr peer) 1 peer_pub)) (\<lambda>route_info.
           on_fst (add_route_info_and_return dst route_info)))"

definition get_route_known_or_search ::
    "'w c_galaxy_node \<Rightarrow> c_haship_addr \<Rightarrow> c_route_reason \<Rightarrow> bool \<Rightarrow> int
     \<Rightarrow> (c_routing_manager \<times> 'w, c_route_info) action" where
  "get_route_known_or_search node dst reason start_search search_ttl = (\<lambda>(rm, w).
     case find_key dst (m_route_nexthop rm) of
       Some route \<Rightarrow> (Inr route, (rm, w))
     | None \<Rightarrow>
         if \<not> start_search then (Inl Runtime_error, (rm, w))
         else andThen (search_for node dst reason search_ttl) (\<lambda>_. raise Runtime_error) (rm, w))"

definition get_route_or_maybe_search ::
    "'w c_galaxy_node \<Rightarrow> c_haship_addr \<Rightarrow> c_route_reason \<Rightarrow> bool \<Rightarrow> int
     \<Rightarrow> (c_routing_manager \<times> 'w, c_route_info) action" where
  "get_route_or_maybe_search node dst reason start_search search_ttl s =
     (case get_route_direct node dst s of
        (Inr route, s') \<Rightarrow> (Inr route, s')
      | (Inl e, s') \<Rightarrow>
          if e = Expected_not_found_missing_pubkey \<or> e = Expected_not_found
          then get_route_known_or_search node dst reason start_search search_ttl s'
          else (Inl e, s'))"

section \<open>The order of reasons\<close>

text \<open>
  \<open>std::map\<close> asks for a strict weak order. Comparing the search mode without first comparing the
  addresses for equality gives two reasons that are each less than the other.
\<close>

lemma route_reason_less_cycle:
  fixes a b :: c_haship_addr
  assumes "a < b"
  shows "route_reason_less \<lparr>m_his_addr = a, m_search_mode = e_search_mode_help_find\<rparr>
           \<lparr>m_his_addr = b, m_search_mode = e_search_mode_route_own_packet\<rparr>"
    and "route_reason_less \<lparr>m_his_addr = b, m_search_mode = e_search_mode_route_own_packet\<rparr>
           \<lparr>m_his_addr = a, m_search_mode = e_search_mode_help_find\<rparr>"
  using assms by (simp_all add: route_reason_less_def)

lemma search_mode_value_inj: "search_mode_value a = search_mode_value b \<Longrightarrow> a = b"
  by (cases a; cases b) simp_all

lemma route_reason_unordered_equal:
  "\<not> route_reason_less a b \<Longrightarrow> \<not> route_reason_less b a \<Longrightarrow> route_reason_equal a b"
  by (auto simp: route_reason_less_def route_reason_equal_def not_less dest: order_antisym
      intro: search_mode_value_inj split: if_splits)

section \<open>The invariant of the routing manager\<close>

definition search_ok :: "c_haship_addr \<Rightarrow> c_route_search \<Rightarrow> bool" where
  "search_ok dst s \<longleftrightarrow> m_addr s = dst \<and> 5 \<le> m_ttl_should_use s \<and> m_ttl_should_use s \<le> 255"

definition routing_wf :: "c_routing_manager \<Rightarrow> bool" where
  "routing_wf rm \<longleftrightarrow> map_sorted (m_search rm) \<and> map_sorted (m_route_nexthop rm)
     \<and> (\<forall>dst s. find_key dst (m_search rm) = Some s \<longrightarrow> search_ok dst s)"

lemma routing_wf_init: "routing_wf c_routing_manager_init"
  by (simp add: routing_wf_def c_routing_manager_init_def map_sorted_def)

lemma routing_wfD:
  assumes "routing_wf rm"
  shows "map_sorted (m_search rm)" "map_sorted (m_route_nexthop rm)"
    and "find_key dst (m_search rm) = Some s \<Longrightarrow> search_ok dst s"
  using assms by (auto simp: routing_wf_def)

lemma routing_wf_modify:
  "routing_wf rm \<Longrightarrow> search_ok dst s \<Longrightarrow> routing_wf (rm\<lparr>m_search := map_modify dst (\<lambda>_. s) (m_search rm)\<rparr>)"
  by (auto simp: routing_wf_def map_sorted_modify dest!: smap.find_modifyD)

lemma routing_wf_emplace:
  "routing_wf rm \<Longrightarrow> search_ok dst s \<Longrightarrow> routing_wf (rm\<lparr>m_search := emplace_key dst s (m_search rm)\<rparr>)"
  by (auto simp: routing_wf_def map_sorted_emplace_key dest!: smap.find_emplaceD)

lemma routing_wf_route:
  "routing_wf rm \<Longrightarrow> routing_wf (snd (add_route_info_and_return target info rm))"
  by (auto simp: routing_wf_def add_route_info_and_return_def map_sorted_emplace_key split: option.split)

lemma add_route_info_outcome:
  assumes "map_sorted (m_route_nexthop rm)"
  shows "\<exists>route rm'. add_route_info_and_return target info rm = (Inr route, rm')
    \<and> find_key target (m_route_nexthop rm') = Some route
    \<and> (find_key target (m_route_nexthop rm) = Some route
       \<or> find_key target (m_route_nexthop rm) = None \<and> route = info)"
  using assms by (auto simp: add_route_info_and_return_def smap.find_emplace split: option.split)

section \<open>What the routing manager relies on, and what it promises\<close>

text \<open>
  The laws of \<open>c_galaxy_node\<close>: asking for a peer changes nothing, gives a peer with the address
  asked for, and fails only as "not found"; reading the clock sends nothing; \<open>inv\<close> is kept.
\<close>

locale galaxy_node =
  fixes node :: "'w c_galaxy_node"
    and inv :: "'w \<Rightarrow> bool"
    and sent :: "'w \<Rightarrow> (c_ip46_addr \<times> bytes) list"
  assumes peer_state: "snd (get_peer_with_hip node a b w) = w"
    and peer_hip: "inv w \<Longrightarrow> fst (get_peer_with_hip node a b w) = Inr p \<Longrightarrow> m_haship_addr p = a"
    and peer_error: "fst (get_peer_with_hip node a False w) = Inl e \<Longrightarrow> e = Expected_not_found"
    and now_returns: "\<exists>t. fst (node_now node w) = Inr t"
    and now_inv: "inv w \<Longrightarrow> inv (snd (node_now node w))"
    and now_sent: "sent (snd (node_now node w)) = sent w"
    and foreach_inv: "inv w \<Longrightarrow> inv (snd (nodep2p_foreach_cmd node cmd data w))"
begin

lemma now_eq: "\<exists>t. node_now node w = (Inr t, snd (node_now node w))"
  using now_returns [of w] by (metis prod.collapse)

lemma add_request_run:
  "\<exists>request. add_request node reason ttl (s, w)
    = (Inr (), (s\<lparr>m_request := request, m_ttl_should_use := max (m_ttl_should_use s) ttl\<rparr>, snd (node_now node w)))"
proof -
  obtain t where "node_now node w = (Inr t, snd (node_now node w))" using now_eq by blast
  then have "on_snd (node_now node) (s, w) = (Inr t, (s, snd (node_now node w)))"
    by (rule on_snd_run)
  then show ?thesis by (auto simp: add_request_def Let_def)
qed

lemma search_execute_run:
  assumes "0 \<le> m_ttl_should_use s" and "m_ttl_should_use s \<le> 255"
    and "nodep2p_foreach_cmd node e_proto_cmd_findhip_query
           (findhip_query_data (m_addr s) (of_int (m_ttl_should_use s))) w = (r, w')"
  shows "search_execute node (s, w) = (case r of Inl e \<Rightarrow> (Inl e, (s, w'))
    | Inr _ \<Rightarrow> (Inr (), (s\<lparr>m_ttl_used := m_ttl_should_use s, m_ask_time := projr (fst (node_now node w'))\<rparr>,
                         snd (node_now node w'))))"
proof -
  have u: "uint (of_int (m_ttl_should_use s) :: byte) = m_ttl_should_use s"
    using assms(1,2) by (simp add: uint_word_of_int)
  have f: "on_snd (nodep2p_foreach_cmd node e_proto_cmd_findhip_query
      (findhip_query_data (m_addr s) (of_int (m_ttl_should_use s)))) (s, w) = (r, (s, w'))"
    by (rule on_snd_run) (rule assms(3))
  obtain t where t: "node_now node w' = (Inr t, snd (node_now node w'))" using now_eq by blast
  have n: "on_snd (node_now node) (s, w') = (Inr t, (s, snd (node_now node w')))"
    by (rule on_snd_run) (rule t)
  have "projr (fst (node_now node w')) = t" by (subst t) simp
  then show ?thesis
    using u f n by (cases r) (simp_all add: search_execute_def Let_def)
qed

lemma on_search_present:
  "find_key dst (m_search rm) = Some s \<Longrightarrow> m (s, w) = (r, (s', w')) \<Longrightarrow>
   on_search dst m (rm, w) = (r, (rm\<lparr>m_search := map_modify dst (\<lambda>_. s') (m_search rm)\<rparr>, w'))"
  by (simp add: on_search_def)

lemma search_for_again:
  assumes "find_key dst (m_search rm) = Some s"
  shows "\<exists>s'. search_for node dst reason ttl (rm, w)
      = (Inr (), (rm\<lparr>m_search := map_modify dst (\<lambda>_. s') (m_search rm)\<rparr>, snd (node_now node w)))
    \<and> m_addr s' = m_addr s \<and> m_ttl_should_use s' = max (m_ttl_should_use s) ttl"
proof -
  obtain request where "add_request node reason ttl (s, w)
      = (Inr (), (s\<lparr>m_request := request, m_ttl_should_use := max (m_ttl_should_use s) ttl\<rparr>, snd (node_now node w)))"
    using add_request_run by blast
  from on_search_present [where m = "add_request node reason ttl", OF assms this] show ?thesis
    using assms by (auto simp: search_for_def)
qed

lemma search_for_new:
  assumes "find_key dst (m_search rm) = None" and "map_sorted (m_search rm)" and "ttl \<le> 255"
  shows "\<exists>s r w1 w2. search_for node dst reason ttl (rm, w)
      = (r, (rm\<lparr>m_search := map_modify dst (\<lambda>_. s) (emplace_key dst s (m_search rm))\<rparr>, w2))
    \<and> search_ok dst s \<and> m_ttl_should_use s = max 5 ttl
    \<and> nodep2p_foreach_cmd node e_proto_cmd_findhip_query
        (findhip_query_data dst (of_int (max 5 ttl))) (snd (node_now node w)) = (r, w1)
    \<and> (w2 = w1 \<or> w2 = snd (node_now node w1))"
proof -
  obtain request where req: "add_request node reason ttl (c_route_search_new dst ttl, w)
      = (Inr (), ((c_route_search_new dst ttl)\<lparr>m_request := request,
          m_ttl_should_use := max 5 ttl\<rparr>, snd (node_now node w)))"
    using add_request_run [of reason ttl "c_route_search_new dst ttl" w] by (auto simp: c_route_search_new_def)
  let ?s = "(c_route_search_new dst ttl)\<lparr>m_request := request, m_ttl_should_use := max 5 ttl\<rparr>"
  obtain r w1 where cmd: "nodep2p_foreach_cmd node e_proto_cmd_findhip_query
      (findhip_query_data dst (of_int (max 5 ttl))) (snd (node_now node w)) = (r, w1)"
    by force
  have a: "m_addr ?s = dst" "m_ttl_should_use ?s = max 5 ttl" by (simp_all add: c_route_search_new_def)
  let ?rm = "rm\<lparr>m_search := emplace_key dst ?s (m_search rm)\<rparr>"
  have found: "find_key dst (m_search ?rm) = Some ?s"
    using assms(1,2) by (simp add: smap.find_emplace_new)
  obtain s' w2 where ex: "search_execute node (?s, snd (node_now node w)) = (r, (s', w2))"
      and s': "m_addr s' = dst" "m_ttl_should_use s' = max 5 ttl" and w2: "w2 = w1 \<or> w2 = snd (node_now node w1)"
    using search_execute_run [of ?s "snd (node_now node w)" r w1] assms(3) cmd a
    by (cases r) (auto simp: max_def)
  have run: "search_for node dst reason ttl (rm, w)
      = (r, (rm\<lparr>m_search := map_modify dst (\<lambda>_. s') (emplace_key dst ?s (m_search rm))\<rparr>, w2))"
    using on_search_present [where m = "search_execute node", OF found ex] assms(1) req by (simp add: search_for_def)
  have same: "map_modify dst (\<lambda>_. s') (emplace_key dst ?s (m_search rm))
      = map_modify dst (\<lambda>_. s') (emplace_key dst s' (m_search rm))"
    by (rule map_modify_emplace_const)
  have "search_ok dst s'" using s' assms(3) by (simp add: search_ok_def)
  then show ?thesis
    using run cmd w2 s' unfolding same by (intro exI [of _ s'] exI [of _ r] exI [of _ w1] exI [of _ w2]) simp
qed

lemma get_route_direct_cases:
  "(fst (get_peer_with_hip node dst False w) = Inl Expected_not_found
      \<and> get_route_direct node dst (rm, w) = (Inl Expected_not_found, (rm, w)))
   \<or> (\<exists>p. fst (get_peer_with_hip node dst False w) = Inr p \<and> m_pubkey p = None
      \<and> get_route_direct node dst (rm, w) = (Inl Runtime_error, (rm, w)))
   \<or> (\<exists>p pub t. fst (get_peer_with_hip node dst False w) = Inr p \<and> m_pubkey p = Some pub
      \<and> get_route_direct node dst (rm, w)
         = (case add_route_info_and_return dst
                  \<lparr>ri_state = e_route_state_found, m_nexthop = m_haship_addr p, ri_pubkey = pub, m_cost = 1, m_time = t\<rparr> rm
            of (r, rm') \<Rightarrow> (r, (rm', snd (node_now node w)))))"
proof -
  obtain r where r: "get_peer_with_hip node dst False w = (r, w)" using peer_state by (metis prod.collapse)
  have g: "on_snd (get_peer_with_hip node dst False) (rm, w) = (r, (rm, w))" by (rule on_snd_run) (rule r)
  obtain t where t: "node_now node w = (Inr t, snd (node_now node w))" using now_eq by blast
  have i: "on_snd (c_route_info_new node h 1 pub) (rm, w) = (Inr \<lparr>ri_state = e_route_state_found,
      m_nexthop = h, ri_pubkey = pub, m_cost = 1, m_time = t\<rparr>, (rm, snd (node_now node w)))" for h pub
    by (rule on_snd_run) (use t in \<open>simp add: c_route_info_new_def\<close>)
  show ?thesis
  proof (cases r)
    case (Inl e)
    then show ?thesis using r g peer_error [of dst w e] by (simp add: get_route_direct_def)
  next
    case (Inr p)
    then show ?thesis
      using r g i by (cases "m_pubkey p") (simp_all add: get_route_direct_def on_fst_def, blast)
  qed
qed

lemma get_route_cases:
  assumes "get_route_or_maybe_search node dst reason start ttl (rm, w) = (r, (rm', w'))"
  obtains (direct) p pub t where "fst (get_peer_with_hip node dst False w) = Inr p" "m_pubkey p = Some pub"
      "add_route_info_and_return dst \<lparr>ri_state = e_route_state_found, m_nexthop = m_haship_addr p,
         ri_pubkey = pub, m_cost = 1, m_time = t\<rparr> rm = (r, rm')" "w' = snd (node_now node w)"
    | (no_key) "r = Inl Runtime_error" "rm' = rm" "w' = w"
    | (not_a_peer) "get_route_known_or_search node dst reason start ttl (rm, w) = (r, (rm', w'))"
  using get_route_direct_cases [of dst w rm]
proof (elim disjE exE conjE)
  fix p :: c_peering and pub t
  let ?info = "\<lparr>ri_state = e_route_state_found, m_nexthop = m_haship_addr p, ri_pubkey = pub, m_cost = 1, m_time = t\<rparr>"
  assume p: "fst (get_peer_with_hip node dst False w) = Inr p" "m_pubkey p = Some pub"
    and d: "get_route_direct node dst (rm, w)
      = (case add_route_info_and_return dst ?info rm of (r, rm') \<Rightarrow> (r, (rm', snd (node_now node w))))"
  then have "add_route_info_and_return dst ?info rm = (r, rm') \<and> w' = snd (node_now node w)"
    using assms by (auto simp: get_route_or_maybe_search_def add_route_info_and_return_def split: option.splits)
  then show thesis using p direct by blast
qed (use assms no_key not_a_peer in \<open>auto simp: get_route_or_maybe_search_def\<close>)

lemma get_route_keeps:
  assumes "routing_wf rm" and "inv w" and "ttl \<le> 255"
    and "get_route_or_maybe_search node dst reason start ttl (rm, w) = (r, (rm', w'))"
  shows "routing_wf rm' \<and> inv w'"
  using assms(4)
proof (cases rule: get_route_cases)
  case (direct p pub t)
  then show ?thesis using routing_wf_route [OF assms(1)] now_inv [OF assms(2)] by (metis snd_conv)
next
  case not_a_peer
  consider "rm' = rm" "w' = w" | r' where "search_for node dst reason ttl (rm, w) = (r', (rm', w'))"
    using not_a_peer
    by (auto simp: get_route_known_or_search_def andThen_def split: option.splits if_splits prod.splits sum.splits)
  then show ?thesis
  proof cases
    case 2
    show ?thesis
    proof (cases "find_key dst (m_search rm)")
      case None
      obtain s w1 where s: "search_ok dst s"
          "rm' = rm\<lparr>m_search := map_modify dst (\<lambda>_. s) (emplace_key dst s (m_search rm))\<rparr>"
          "nodep2p_foreach_cmd node e_proto_cmd_findhip_query
             (findhip_query_data dst (of_int (max 5 ttl))) (snd (node_now node w)) = (r', w1)"
          "w' = w1 \<or> w' = snd (node_now node w1)"
        using search_for_new [OF None routing_wfD(1) [OF assms(1)] assms(3), of reason w] 2 by auto
      have "inv w1" using foreach_inv [OF now_inv [OF assms(2)]] s(3) by (metis snd_conv)
      moreover have "routing_wf (rm\<lparr>m_search := emplace_key dst s (m_search rm)\<rparr>)"
        using assms(1) s(1) by (rule routing_wf_emplace)
      from routing_wf_modify [OF this s(1)] have "routing_wf rm'" by (simp add: s(2))
      ultimately show ?thesis using s(4) now_inv by auto
    next
      case (Some s)
      then show ?thesis
        using search_for_again [OF Some, of reason ttl w] 2 routing_wfD(3) [OF assms(1) Some]
          assms(3) now_inv [OF assms(2)]
        by (auto intro!: routing_wf_modify assms(1) simp: search_ok_def)
    qed
  qed (use assms in simp)
qed (use assms in simp)

lemma get_route_world:
  assumes "routing_wf rm" and "ttl \<le> 255"
    and "get_route_or_maybe_search node dst reason start ttl (rm, w) = (r, (rm', w'))"
  shows "w' = w \<or> w' = snd (node_now node w)
    \<or> (find_key dst (m_search rm) = None
       \<and> (\<exists>r0 w1. nodep2p_foreach_cmd node e_proto_cmd_findhip_query
              (findhip_query_data dst (of_int (max 5 ttl))) (snd (node_now node w)) = (r0, w1)
            \<and> (w' = w1 \<or> w' = snd (node_now node w1))))"
  using assms(3)
proof (cases rule: get_route_cases)
  case not_a_peer
  consider "w' = w" | r' where "search_for node dst reason ttl (rm, w) = (r', (rm', w'))"
    using not_a_peer
    by (auto simp: get_route_known_or_search_def andThen_def split: option.splits if_splits prod.splits sum.splits)
  then show ?thesis
  proof cases
    case 2
    show ?thesis
    proof (cases "find_key dst (m_search rm)")
      case None
      obtain r0 w1 where "nodep2p_foreach_cmd node e_proto_cmd_findhip_query
          (findhip_query_data dst (of_int (max 5 ttl))) (snd (node_now node w)) = (r0, w1)"
          "w' = w1 \<or> w' = snd (node_now node w1)"
        using search_for_new [OF None routing_wfD(1) [OF assms(1)] assms(2), of reason w] 2 by auto
      then show ?thesis using None by blast
    next
      case (Some s)
      then show ?thesis using search_for_again [OF Some, of reason ttl w] 2 by auto
    qed
  qed simp
qed simp_all

lemma get_route_search_once:
  assumes "routing_wf rm" and "ttl \<le> 255" and "find_key dst (m_search rm) = Some s"
    and "get_route_or_maybe_search node dst reason start ttl (rm, w) = (r, (rm', w'))"
  shows "sent w' = sent w"
  using get_route_world [OF assms(1,2,4)] assms(3) now_sent by auto

lemma get_route_returns:
  assumes "routing_wf rm" and "inv w"
    and "get_route_or_maybe_search node dst reason start ttl (rm, w) = (Inr route, (rm', w'))"
  shows "find_key dst (m_route_nexthop rm') = Some route
    \<and> (find_key dst (m_route_nexthop rm) = Some route
       \<or> find_key dst (m_route_nexthop rm) = None \<and> m_nexthop route = dst \<and> m_cost route = 1
         \<and> (\<exists>p. fst (get_peer_with_hip node dst False w) = Inr p \<and> m_pubkey p = Some (ri_pubkey route)))"
  using assms(3)
proof (cases rule: get_route_cases)
  case (direct p pub t)
  then show ?thesis
    using peer_hip [OF assms(2) direct(1)] add_route_info_outcome [OF routing_wfD(2) [OF assms(1)]]
    by (metis (no_types, lifting) c_route_info.select_convs(2,3,4) prod.inject sum.inject(2))
next
  case not_a_peer
  then show ?thesis
    by (auto simp: get_route_known_or_search_def andThen_def split: option.splits if_splits prod.splits sum.splits)
qed simp

end

end
