(* ===== verification/Peer_Reference.thy ===== *)
theory Peer_Reference
  imports Peering
begin

text \<open>
  References to peers as text: \<open>parse_ip_string\<close> of \<^verbatim>\<open>src/src/galaxy42_utils.cpp\<close>, cable
  addresses (\<^verbatim>\<open>src/src/cable/base/cable_base_addr.cpp\<close>, \<^verbatim>\<open>cable/udp\<close>,
  \<^verbatim>\<open>cable/shm\<close>), the peer list of \<^verbatim>\<open>src/src/galaxysrv_peers.cpp\<close> with the format
  \<^verbatim>\<open>VIRTUAL@(CABLE)@(CABLE)\<close>, and the older \<^verbatim>\<open>IP:PORT-HIP\<close> of
  \<^verbatim>\<open>src/src/tunserver.cpp\<close>. Text is a list of octets.
\<close>

section \<open>Functions of the standard library\<close>

fun find_index :: "byte \<Rightarrow> bytes \<Rightarrow> nat option" where
  "find_index c [] = None"
| "find_index c (x # xs) = (if x = c then Some 0 else map_option Suc (find_index c xs))"

definition str_find :: "byte \<Rightarrow> nat \<Rightarrow> bytes \<Rightarrow> nat option" where
  \<comment> \<open>\<open>str.find(c, pos)\<close>, \<open>None\<close> is \<open>npos\<close>\<close>
  "str_find c pos str = map_option ((+) pos) (find_index c (drop pos str))"

definition substr_from :: "nat \<Rightarrow> bytes \<Rightarrow> bytes result" where
  \<comment> \<open>\<open>str.substr(pos)\<close>\<close>
  "substr_from pos str = (if pos > length str then Inl Out_of_range else Inr (drop pos str))"

definition check_input :: "bool \<Rightarrow> unit result" where
  "check_input b = (if b then Inr () else Inl Err_check_input)"

definition is_space :: "byte \<Rightarrow> bool" where
  "is_space c \<longleftrightarrow> c = 0x20 \<or> (0x09 \<le> c \<and> c \<le> 0x0D)"

definition is_digit :: "byte \<Rightarrow> bool" where
  "is_digit c \<longleftrightarrow> 0x30 \<le> c \<and> c \<le> 0x39"

definition is_alnum :: "byte \<Rightarrow> bool" where
  "is_alnum c \<longleftrightarrow> is_digit c \<or> (0x41 \<le> c \<and> c \<le> 0x5A) \<or> (0x61 \<le> c \<and> c \<le> 0x7A)"

fun digits_value :: "int \<Rightarrow> bytes \<Rightarrow> int" where
  "digits_value acc [] = acc"
| "digits_value acc (c # cs) = digits_value (acc * 10 + (uint c - 0x30)) cs"

definition stoi :: "bytes \<Rightarrow> int result" where
  \<comment> \<open>white space, a sign, digits; what follows the digits is ignored\<close>
  "stoi s =
     (let s1 = dropWhile is_space s;
          neg = (s1 \<noteq> [] \<and> hd s1 = 0x2D);
          s2 = (if s1 \<noteq> [] \<and> (hd s1 = 0x2D \<or> hd s1 = 0x2B) then tl s1 else s1);
          ds = takeWhile is_digit s2;
          v = (if neg then - digits_value 0 ds else digits_value 0 ds)
      in if ds = [] then Inl Invalid_argument
         else if v < - (2 ^ 31) \<or> v > 2 ^ 31 - 1 then Inl Out_of_range else Inr v)"

section \<open>\<open>parse_ip_string\<close>\<close>

definition parse_ip_body :: "host_lib \<Rightarrow> bytes \<Rightarrow> (bytes \<times> int) result" where
  "parse_ip_body host ip_string =
     (if length ip_string < (1 + 1) * 4 then Inl Runtime_error
      else if length ip_string > 4 * 4 + 1 + 4 then Inl Runtime_error
      else case str_find 0x3A 0 ip_string of
        None \<Rightarrow> Inl Runtime_error
      | Some pos \<Rightarrow>
          let ip = take pos ip_string; port = drop (pos + 1) ip_string in
          if length ip < (1 + 1) * 4 then Inl Runtime_error
          else if length ip < 1 then Inl Runtime_error
          else bindR (stoi port) (\<lambda>port_int.
            if port_int \<le> 0 then Inl Runtime_error
            else if port_int > 65535 then Inl Runtime_error
            else case address_v4_from_string host ip of
              None \<Rightarrow> Inl Runtime_error
            | Some ip_boost \<Rightarrow>
                let is_good_class = v4_is_class_a host ip_boost \<or> v4_is_class_b host ip_boost
                                    \<or> v4_is_class_c host ip_boost \<or> v4_is_loopback host ip_boost;
                    is_bad_class = v4_is_unspecified host ip_boost \<or> v4_is_multicast host ip_boost
                in if \<not> (is_good_class \<and> \<not> is_bad_class) then Inl Runtime_error
                   else Inr (ip, port_int)))"

definition parse_ip_string :: "host_lib \<Rightarrow> bytes \<Rightarrow> (bytes \<times> int) result" where
  "parse_ip_string host ip_string =
     (case parse_ip_body host ip_string of Inl e \<Rightarrow> Inl Invalid_argument | Inr r \<Rightarrow> Inr r)"

section \<open>Cable addresses\<close>

datatype c_cable_base_addr =
    c_cable_udp_addr bytes "16 word"   \<comment> \<open>\<open>boost::asio::ip::udp::endpoint\<close>\<close>
  | cable_shm_addr bytes

definition c_cable_udp_addr_of_string :: "host_lib \<Rightarrow> bytes \<Rightarrow> c_cable_base_addr result" where
  \<comment> \<open>the second \<open>catch\<close> names \<open>error_code\<close>; boost throws \<open>system_error\<close>, which it does not catch\<close>
  "c_cable_udp_addr_of_string host ip_string =
     (case parse_ip_string host ip_string of
        Inl e \<Rightarrow> Inl Err_check_input
      | Inr (ip, port) \<Rightarrow>
          case address_from_string host ip of
            None \<Rightarrow> Inl Runtime_error
          | Some a \<Rightarrow> Inr (c_cable_udp_addr a (of_int port)))"

definition cable_make_addr_body :: "host_lib \<Rightarrow> bytes \<Rightarrow> c_cable_base_addr result" where
  "cable_make_addr_body host str =
     (case str_find 0x3A 0 str of
        None \<Rightarrow> c_cable_udp_addr_of_string host (str @ octets_of '':9042'')
      | Some pos1 \<Rightarrow>
          if \<not> pos1 > 0 then Inl Runtime_error
          else let part1 = take pos1 str; part2 = drop (pos1 + 1) str in
            if part1 = octets_of ''auto'' \<or> part1 = octets_of ''udp'' then c_cable_udp_addr_of_string host part2
            else if part1 = octets_of ''tcp'' then Inl Invalid_argument
            else if part1 = octets_of ''shm'' then
              (if list_all is_alnum part2 then Inr (cable_shm_addr part2) else Inl Invalid_argument)
            else c_cable_udp_addr_of_string host str)"

definition cable_make_addr :: "host_lib \<Rightarrow> bytes \<Rightarrow> c_cable_base_addr result" where
  "cable_make_addr host str =
     (case cable_make_addr_body host str of Inl e \<Rightarrow> Inl Err_check_input | Inr a \<Rightarrow> Inr a)"

section \<open>\<open>VIRTUAL@(CABLE)@(CABLE)\<close>\<close>

definition reasonable_size :: "bytes \<Rightarrow> unit result" where
  "reasonable_size obj = check_input (length obj \<le> 4 * 1000 * 1000 div 4)"

text \<open>
  One pass of the loop over the groups: the group at \<open>posB\<close>, and where the next one begins, or
  \<open>None\<close> at the \<open>break\<close>.
\<close>

definition parse_group :: "bytes \<Rightarrow> nat \<Rightarrow> (bytes \<times> nat option) result" where
  "parse_group simple posB =
     (let size_before = length simple - 1;
          posX = (case str_find 0x29 posB simple of None \<Rightarrow> size_before | Some x \<Rightarrow> x);
          partX = take (posX - posB) (drop posB simple) in
      bindR (check_input (find_index 0x28 partX = None)) (\<lambda>_.
      bindR (check_input (find_index 0x29 partX = None)) (\<lambda>_.
      bindR (check_input (length partX > 0)) (\<lambda>_.
      bindR (vec_at simple posX) (\<lambda>c. bindR (check_input (c = 0x29)) (\<lambda>_.
      if \<not> posX + 1 < length simple then Inr (partX, None)
      else
        bindR (vec_at simple (posX + 1)) (\<lambda>c. bindR (check_input (c = 0x40)) (\<lambda>_.
        bindR (vec_at simple (posX + 2)) (\<lambda>c. bindR (check_input (c = 0x28)) (\<lambda>_.
        Inr (partX, Some (posX + 3))))))))))))"

lemma parse_group_advances:
  assumes "parse_group simple posB = Inr (part, Some posB')" and "posB < length simple - 1"
  shows "posB < posB'"
proof -
  define posX where "posX = (case str_find 0x29 posB simple of None \<Rightarrow> length simple - 1 | Some x \<Rightarrow> x)"
  have "posB \<le> posX" using assms(2) by (auto simp: posX_def str_find_def split: option.split)
  then show ?thesis
    using assms(1) unfolding parse_group_def Let_def posX_def [symmetric]
    by (auto simp: bindR_eq_Inr_conv split: if_splits)
qed

function parse_groups :: "bytes \<Rightarrow> nat \<Rightarrow> bytes list result" where
  "parse_groups simple posB =
     (if posB < length simple - 1 then
        (case parse_group simple posB of
           Inl e \<Rightarrow> Inl e
         | Inr (partX, None) \<Rightarrow> Inr [partX]
         | Inr (partX, Some posB') \<Rightarrow>
             (case parse_groups simple posB' of Inl e \<Rightarrow> Inl e | Inr rest \<Rightarrow> Inr (partX # rest)))
      else Inr [])"
  by pat_completeness auto
termination
  by (relation "measure (\<lambda>(simple, posB). length simple - posB)") (auto dest: parse_group_advances)

declare parse_groups.simps [simp del]

definition parse_peer_reference :: "bytes \<Rightarrow> (bytes list \<times> bytes list) result" where
  "parse_peer_reference simple =
     bindR (reasonable_size simple) (\<lambda>_.
     bindR (check_input (length simple \<ge> 3)) (\<lambda>_.
     case str_find 0x40 0 simple of
       None \<Rightarrow>
         bindR (check_input (find_index 0x28 simple = None)) (\<lambda>_.
         bindR (check_input (find_index 0x29 simple = None)) (\<lambda>_.
         bindR (check_input (length simple > 0)) (\<lambda>_.
         Inr ([simple], []))))
     | Some pos1 \<Rightarrow>
         let part1 = take pos1 simple in
         bindR (check_input (find_index 0x28 part1 = None)) (\<lambda>_.
         bindR (check_input (find_index 0x29 part1 = None)) (\<lambda>_.
         bindR (check_input (length part1 > 0)) (\<lambda>_.
         let ret_id = (if part1 \<noteq> octets_of ''anyone'' then [part1] else []) in
         bindR (check_input (pos1 + 2 < length simple)) (\<lambda>_.
         bindR (vec_at simple (pos1 + 0)) (\<lambda>c. bindR (check_input (c = 0x40)) (\<lambda>_.
         bindR (vec_at simple (pos1 + 1)) (\<lambda>c. bindR (check_input (c = 0x28)) (\<lambda>_.
         bindR (parse_groups simple (pos1 + 2)) (\<lambda>ret_cable.
         Inr (ret_id, ret_cable))))))))))))"

section \<open>The peer list of \<open>c_galaxysrv_peers\<close>\<close>

record t_peer_reference_newloop =
  ref_hip :: c_haship_addr
  ref_cable_addr :: "c_cable_base_addr list"

definition parse_peer_simplestring_newloop :: "host_lib \<Rightarrow> bytes \<Rightarrow> t_peer_reference_newloop result" where
  "parse_peer_simplestring_newloop host simple =
     bindR (parse_peer_reference simple) (\<lambda>(ids, cables).
     bindR (if length ids = 1 then
              bindR (vec_at ids 0) (\<lambda>id_text.
                case c_haship_addr_by_addr_dot host id_text of
                  Inl e \<Rightarrow> Inl (if e = Invalid_argument then Err_check_input else e)
                | Inr hip \<Rightarrow> Inr hip)
            else if length ids = 0 then Inr hip_make_empty else Inl Err_check_prog) (\<lambda>hip.
     bindR (mapR (cable_make_addr host) cables) (\<lambda>cable_addr.
     Inr \<lparr>ref_hip = hip, ref_cable_addr = cable_addr\<rparr>)))"

type_synonym c_galaxysrv_peers = "t_peer_reference_newloop list"

definition add_peer_newloop :: "t_peer_reference_newloop option \<Rightarrow> (c_galaxysrv_peers, unit) action" where
  "add_peer_newloop ref m_peer =
     (case ref of None \<Rightarrow> (Inl Err_check_prog, m_peer) | Some r \<Rightarrow> (Inr (), m_peer @ [r]))"

definition add_peer_simplestring_newloop :: "host_lib \<Rightarrow> bytes \<Rightarrow> (c_galaxysrv_peers, unit) action" where
  "add_peer_simplestring_newloop host simple =
     andThen (liftR (parse_peer_simplestring_newloop host simple)) (\<lambda>reference. add_peer_newloop (Some reference))"

section \<open>\<open>IP:PORT-HIP\<close>\<close>

definition parse_peer_simplestring :: "host_lib \<Rightarrow> bytes \<Rightarrow> t_peering_reference result" where
  "parse_peer_simplestring host simple =
     (case str_find 0x2D 0 simple of
        None \<Rightarrow> Inl Out_of_range
      | Some pos1 \<Rightarrow>
          let part_pip = take pos1 simple in
          bindR (substr_from (pos1 + 1) simple) (\<lambda>part_hip.
          bindR (parse_ip_string host part_pip) (\<lambda>(ip, port).
          t_peering_reference_of_text host ip port part_hip)))"

section \<open>Lemmas\<close>

lemma find_index_None [simp]: "find_index c xs = None \<longleftrightarrow> c \<notin> set xs"
  by (induction xs) auto

lemma find_index_first: "c \<notin> set xs \<Longrightarrow> find_index c (xs @ c # ys) = Some (length xs)"
  by (induction xs) auto

lemma check_input_simps [simp]: "check_input True = Inr ()" "check_input False = Inl Err_check_input"
  by (simp_all add: check_input_def)

definition group_ok :: "bytes \<Rightarrow> bool" where
  "group_ok g \<longleftrightarrow> g \<noteq> [] \<and> 0x28 \<notin> set g \<and> 0x29 \<notin> set g"

definition print_groups :: "bytes list \<Rightarrow> bytes" where
  "print_groups cables = concat (map (\<lambda>g. [0x40, 0x28] @ g @ [0x29]) cables)"

lemma parse_group_printed:
  assumes "group_ok g" and "rest = [] \<or> (\<exists>r. rest = 0x40 # 0x28 # r)"
  shows "parse_group (pre @ g @ 0x29 # rest) (length pre)
    = Inr (g, if rest = [] then None else Some (length pre + length g + 3))"
proof -
  have g: "g \<noteq> []" "0x28 \<notin> set g" "0x29 \<notin> set g" using assms(1) by (simp_all add: group_ok_def)
  have f: "str_find 0x29 (length pre) (pre @ g @ 0x29 # rest) = Some (length pre + length g)"
    using find_index_first [OF g(3), of rest] by (simp add: str_find_def)
  have n: "(pre @ g @ 0x29 # rest) ! (length pre + length g + k) = (0x29 # rest) ! k" for k
    by (metis append.assoc length_append nth_append_length_plus)
  show ?thesis
    using g assms(2) n [of 0] n [of 1] n [of 2] unfolding parse_group_def f Let_def by auto
qed

lemma parse_groups_printed:
  assumes "group_ok g" and "list_all group_ok gs"
  shows "parse_groups (pre @ g @ 0x29 # print_groups gs) (length pre) = Inr (g # gs)"
  using assms
proof (induction gs arbitrary: pre g)
  case Nil
  then have "g \<noteq> []" by (simp add: group_ok_def)
  with Nil show ?case
    using parse_group_printed [OF Nil.prems(1), of "[]" pre] by (simp add: parse_groups.simps print_groups_def)
next
  case (Cons h gs)
  let ?pre = "pre @ g @ [0x29, 0x40, 0x28]"
  have s: "pre @ g @ 0x29 # print_groups (h # gs) = ?pre @ h @ 0x29 # print_groups gs"
    by (simp add: print_groups_def)
  have ih: "parse_groups (?pre @ h @ 0x29 # print_groups gs) (length ?pre) = Inr (h # gs)"
    by (rule Cons.IH) (use Cons.prems in simp_all)
  have "parse_group (pre @ g @ 0x29 # print_groups (h # gs)) (length pre)
      = Inr (g, Some (length ?pre))"
    by (subst parse_group_printed) (use Cons.prems in \<open>simp_all add: print_groups_def\<close>)
  then show ?case
    using ih Cons.prems(1) unfolding s by (subst parse_groups.simps) (simp add: group_ok_def)
qed

section \<open>Properties\<close>

definition print_reference :: "bytes \<Rightarrow> bytes list \<Rightarrow> bytes" where
  "print_reference virtual_part cables = virtual_part @ print_groups cables"

text \<open>
  C40: a reference written in the documented format, the identity followed by any number of
  \<^verbatim>\<open>@(CABLE)\<close> groups, is split into exactly the identity and the groups; the identity
  \<open>anyone\<close> in front of cables is read as no identity.
\<close>

theorem peer_reference_roundtrip:
  assumes "virtual_part \<noteq> []" and "{0x28, 0x29, 0x40} \<inter> set virtual_part = {}"
    and "list_all group_ok cables"
    and "3 \<le> length (print_reference virtual_part cables)"
    and "length (print_reference virtual_part cables) \<le> 1000000"
  shows "parse_peer_reference (print_reference virtual_part cables)
    = Inr (if virtual_part = octets_of ''anyone'' \<and> cables \<noteq> [] then [] else [virtual_part], cables)"
proof (cases cables)
  case Nil
  have v: "0x28 \<notin> set virtual_part" "0x29 \<notin> set virtual_part" "0x40 \<notin> set virtual_part"
    using assms(2) by auto
  then have "str_find 0x40 0 virtual_part = None" by (simp add: str_find_def)
  then show ?thesis
    using assms v Nil
    by (simp add: parse_peer_reference_def print_reference_def print_groups_def reasonable_size_def)
next
  case (Cons g gs)
  have v: "0x28 \<notin> set virtual_part" "0x29 \<notin> set virtual_part" "0x40 \<notin> set virtual_part"
    using assms(2) by auto
  let ?s = "print_reference virtual_part cables"
  have s: "?s = virtual_part @ 0x40 # 0x28 # g @ 0x29 # print_groups gs"
    by (simp add: Cons print_reference_def print_groups_def)
  have f: "str_find 0x40 0 ?s = Some (length virtual_part)"
    using find_index_first [OF v(3)] by (simp add: str_find_def s)
  have g: "group_ok g" "list_all group_ok gs" using assms(3) Cons by simp_all
  then have "g \<noteq> []" by (simp add: group_ok_def)
  have p: "parse_groups ?s (length virtual_part + 2) = Inr cables"
    using parse_groups_printed [OF g, of "virtual_part @ [0x40, 0x28]"] unfolding s by (simp add: Cons)
  have "length virtual_part + 2 < length ?s" "?s ! length virtual_part = 0x40"
       "?s ! (length virtual_part + 1) = 0x28" "take (length virtual_part) ?s = virtual_part"
    using \<open>g \<noteq> []\<close> by (simp_all add: s nth_append)
  moreover have "cables \<noteq> []" by (simp add: Cons)
  ultimately show ?thesis
    using assms(1,4,5) v p
    by (simp add: parse_peer_reference_def f reasonable_size_def)
qed

theorem peer_reference_roundtrip_witness:
  "parse_peer_reference (octets_of ''fd42::1234@(udp:127.0.0.1:9042)@(shm:test)'')
    = Inr ([octets_of ''fd42::1234''], [octets_of ''udp:127.0.0.1:9042'', octets_of ''shm:test''])"
  using peer_reference_roundtrip
    [of "octets_of ''fd42::1234''" "[octets_of ''udp:127.0.0.1:9042'', octets_of ''shm:test'']"]
  by (simp add: print_reference_def print_groups_def group_ok_def octets_of_def)

text \<open>
  The last group is not always looked at: with one octet after its opening bracket the loop ends
  before it, and the octet is dropped.
\<close>

lemma parse_peer_reference_truncated:
  "parse_peer_reference (octets_of ''fd42::1@(x'') = Inr ([octets_of ''fd42::1''], [])"
  by (simp add: parse_peer_reference_def octets_of_def reasonable_size_def str_find_def parse_groups.simps)

text \<open>
  a cable \<open>udp:ADDRESS\<close> or \<open>auto:ADDRESS\<close> without a port is refused, whatever the address: the
  default port 9042 that the built-in help promises is only added to a cable without any colon.
\<close>

theorem cable_udp_needs_port:
  assumes "0x3A \<notin> set addr" and "kind \<in> {octets_of ''udp'', octets_of ''auto''}"
  shows "cable_make_addr host (kind @ 0x3A # addr) = Inl Err_check_input"
proof -
  have k: "0x3A \<notin> set kind" "kind \<noteq> []" using assms(2) by (auto simp: octets_of_def)
  then have "str_find 0x3A 0 (kind @ 0x3A # addr) = Some (length kind)"
    using find_index_first [OF k(1)] by (simp add: str_find_def)
  moreover have "str_find 0x3A 0 addr = None" using assms(1) by (simp add: str_find_def)
  then have "c_cable_udp_addr_of_string host addr = Inl Err_check_input"
    by (simp add: c_cable_udp_addr_of_string_def parse_ip_string_def parse_ip_body_def)
  ultimately show ?thesis
    using assms(2) k by (auto simp: cable_make_addr_def cable_make_addr_body_def)
qed

theorem cable_udp_needs_port_witness:
  "cable_make_addr example_host (octets_of ''udp'' @ 0x3A # octets_of ''127.0.0.1'') = Inl Err_check_input
   \<and> cable_make_addr example_host (octets_of ''udp:127.0.0.1:9042'')
      = Inr (c_cable_udp_addr [127, 0, 0, 1] 9042)"
proof (intro conjI)
  show "cable_make_addr example_host (octets_of ''udp'' @ 0x3A # octets_of ''127.0.0.1'') = Inl Err_check_input"
    by (rule cable_udp_needs_port) (simp_all add: octets_of_def)
  show "cable_make_addr example_host (octets_of ''udp:127.0.0.1:9042'')
      = Inr (c_cable_udp_addr [127, 0, 0, 1] 9042)"
    by (simp add: cable_make_addr_def cable_make_addr_body_def c_cable_udp_addr_of_string_def
        parse_ip_string_def parse_ip_body_def octets_of_def str_find_def stoi_def is_space_def is_digit_def
        example_host_def example_v4_def example_v6_def string_as_bin_of_hex_def hex_octet_def hexchar2int_def replicate_numeral)
qed

text \<open>What follows the digits of a port is ignored.\<close>

lemma parse_ip_string_trailing:
  "parse_ip_string example_host (octets_of ''127.0.0.1:80x'') = Inr (octets_of ''127.0.0.1'', 80)"
  by (simp add: parse_ip_string_def parse_ip_body_def octets_of_def str_find_def stoi_def is_space_def
      is_digit_def example_host_def example_v4_def replicate_numeral)

end
