(* ===== verification/Multisign.thy ===== *)
theory Multisign
  imports Multikeys
begin

text \<open>
  Signatures and key pairs of \<^verbatim>\<open>src/src/crypto/multikeys.cpp\<close>: \<open>c_multisign\<close>, the
  verification of \<open>c_multikeys_pub\<close>, the signing of \<open>c_multikeys_PRV\<close>, and
  \<open>c_multikeys_PAIR\<close> with the generation of keys. Code that draws randomness acts on the pair
  of its object and the number of draws made so far.
\<close>

section \<open>Signatures\<close>

type_synonym c_multisign = multicryptostrings
type_synonym c_multikeys_PRV = multicryptostrings

definition c_multisign_init :: c_multisign where
  "c_multisign_init = multicryptostrings_init e_crypto_use_signature"

definition add_signature :: "t_crypto_system_type \<Rightarrow> bytes \<Rightarrow> (c_multisign, unit) action" where
  "add_signature crypto_type signature = add_key crypto_type signature"

definition add_signature_vec :: "bytes list \<Rightarrow> t_crypto_system_type \<Rightarrow> (c_multisign, unit) action" where
  "add_signature_vec signatures_vec crypto_type = forA (add_signature crypto_type) signatures_vec"

definition get_signature :: "c_multisign \<Rightarrow> t_crypto_system_type \<Rightarrow> nat \<Rightarrow> bytes result" where
  "get_signature ms crypto_type number_of_key = get_key ms crypto_type number_of_key"

definition get_signature_vec :: "c_multisign \<Rightarrow> t_crypto_system_type \<Rightarrow> bytes list result" where
  "get_signature_vec ms crypto_type =
     bindR (get_count_keys_in_system ms crypto_type) (\<lambda>n. mapR (get_signature ms crypto_type) [0..<n])"

definition cryptosystem_sign_allowed :: "t_crypto_system_type \<Rightarrow> bool" where
  "cryptosystem_sign_allowed crypto_system \<longleftrightarrow>
     crypto_system = e_crypto_system_type_Ed25519 \<or> crypto_system = e_crypto_system_type_NTRU_sign"

definition multisign_serialize_bin :: "c_multisign \<Rightarrow> bytes result" where
  "multisign_serialize_bin ms =
     generated
       (andThen (push_byte_u 6) (\<lambda>_.
        andThen (liftR (get_signature_vec ms e_crypto_system_type_Ed25519)) (\<lambda>ed.
        andThen (push_vector_string ed) (\<lambda>_.
        andThen (push_byte_u 11) (\<lambda>_.
        andThen (liftR (get_signature_vec ms e_crypto_system_type_NTRU_sign)) push_vector_string)))))"

definition multisign_load_part :: "t_crypto_system_type \<Rightarrow> (parser \<times> c_multisign, unit) action" where
  "multisign_load_part sys =
     andThen (on_fst pop_byte_u) (\<lambda>type.
     andThen (assertA (unat type = enum_value sys)) (\<lambda>_.
     andThen (on_fst pop_vector_string) (\<lambda>keys. on_snd (add_signature_vec keys sys))))"

definition multisign_load_from_bin :: "bytes \<Rightarrow> (c_multisign, unit) action" where
  "multisign_load_from_bin data ms =
     (case parser_of_string data of
        Inl e \<Rightarrow> (Inl e, ms)
      | Inr p \<Rightarrow>
          (case andThen (multisign_load_part e_crypto_system_type_Ed25519)
                  (\<lambda>_. multisign_load_part e_crypto_system_type_NTRU_sign) (p, ms)
           of (r, (p', ms')) \<Rightarrow> (r, ms')))"

section \<open>Verification\<close>

definition multi_sign_verify_vec ::
    "('bx, 'ux) crypto_lib \<Rightarrow> bytes list \<Rightarrow> bytes \<Rightarrow> c_multikeys_pub \<Rightarrow> t_crypto_system_type \<Rightarrow> unit result" where
  "multi_sign_verify_vec lib signs msg pubs sign_type =
     bindR (get_count_keys_in_system pubs sign_type) (\<lambda>amount_of_pubkeys.
     if amount_of_pubkeys \<noteq> length signs then Inl Abort
     else if amount_of_pubkeys = 0 then Inr ()
     else if sign_type = e_crypto_system_type_Ed25519 then
       forR (\<lambda>i. bindR (get_public pubs sign_type i) (\<lambda>pubkey.
                 bindR (vec_at signs i) (\<lambda>sign.
                   if crypto_sign_verify_detached lib sign msg pubkey then Inr ()
                   else Inl Invalid_argument))) [0..<amount_of_pubkeys]
     else if sign_type = e_crypto_system_type_NTRU_sign then
       (if enable_ntru lib then
          forR (\<lambda>i. bindR (get_public pubs sign_type i) (\<lambda>pubkey.
                    bindR (vec_at signs i) (\<lambda>sign.
                    bindR (ntru_verify lib sign msg pubkey) (\<lambda>good.
                      if good then Inr () else Inl Invalid_argument)))) [0..<amount_of_pubkeys]
        else Inl Invalid_argument_in_version)
     else Inl Invalid_argument)"

definition multi_sign_verify_system ::
    "('bx, 'ux) crypto_lib \<Rightarrow> c_multisign \<Rightarrow> bytes \<Rightarrow> c_multikeys_pub \<Rightarrow> nat \<Rightarrow> unit result" where
  "multi_sign_verify_system lib all_signatures msg pubs sys =
     (case int_to_enum sys of
        None \<Rightarrow> Inr ()
      | Some sys_enum \<Rightarrow>
          bindR (get_count_keys_in_system all_signatures sys_enum) (\<lambda>n_sig.
          bindR (get_count_keys_in_system pubs sys_enum) (\<lambda>n_pub.
          if n_sig \<noteq> n_pub then Inl Invalid_argument
          else if \<not> cryptosystem_sign_allowed sys_enum then Inr ()
          else bindR (get_signature_vec all_signatures sys_enum) (\<lambda>signs.
                 multi_sign_verify_vec lib signs msg pubs sys_enum))))"

definition multi_sign_verify ::
    "('bx, 'ux) crypto_lib \<Rightarrow> c_multisign \<Rightarrow> bytes \<Rightarrow> c_multikeys_pub \<Rightarrow> unit result" where
  "multi_sign_verify lib all_signatures msg pubs =
     (if get_count_of_systems all_signatures \<noteq> get_count_of_systems pubs then Inl Invalid_argument
      else forR (multi_sign_verify_system lib all_signatures msg pubs)
             [0..<get_count_of_systems all_signatures])"

section \<open>Signing\<close>

definition c_multikeys_PRV_init :: c_multikeys_PRV where
  "c_multikeys_PRV_init = multicryptostrings_init e_crypto_use_secret"

definition add_PRIVATE :: "t_crypto_system_type \<Rightarrow> bytes \<Rightarrow> (c_multikeys_PRV, unit) action" where
  "add_PRIVATE crypto_type key = add_key crypto_type key"

definition get_PRIVATE :: "c_multikeys_PRV \<Rightarrow> t_crypto_system_type \<Rightarrow> nat \<Rightarrow> bytes result" where
  "get_PRIVATE mk crypto_type number_of_key = get_key mk crypto_type number_of_key"

definition multi_sign_vec ::
    "('bx, 'ux) crypto_lib \<Rightarrow> c_multikeys_PRV \<Rightarrow> bytes \<Rightarrow> t_crypto_system_type \<Rightarrow> bytes list result" where
  "multi_sign_vec lib prv msg sign_type =
     bindR (get_count_keys_in_system prv sign_type) (\<lambda>keys_count.
     if \<not> keys_count > 0 then Inl Abort
     else if sign_type = e_crypto_system_type_Ed25519 then
       mapR (\<lambda>i. bindR (get_PRIVATE prv sign_type i) (crypto_sign_detached lib msg)) [0..<keys_count]
     else if sign_type = e_crypto_system_type_NTRU_sign then
       (if enable_ntru lib then
          mapR (\<lambda>i. bindR (get_PRIVATE prv sign_type i) (ntru_sign lib msg)) [0..<keys_count]
        else Inl Invalid_argument_in_version)
     else Inl Runtime_error)"

definition multi_sign_system ::
    "('bx, 'ux) crypto_lib \<Rightarrow> c_multikeys_PRV \<Rightarrow> bytes \<Rightarrow> nat \<Rightarrow> (c_multisign, unit) action" where
  "multi_sign_system lib prv msg sys =
     (case int_to_enum sys of
        None \<Rightarrow> ret ()
      | Some sys_enum \<Rightarrow>
          if \<not> cryptosystem_sign_allowed sys_enum then ret ()
          else andThen (liftR (get_count_keys_in_system prv sys_enum)) (\<lambda>n.
                 if n = 0 then ret ()
                 else andThen (liftR (multi_sign_vec lib prv msg sys_enum)) (\<lambda>signatures.
                        add_signature_vec signatures sys_enum)))"

definition multi_sign :: "('bx, 'ux) crypto_lib \<Rightarrow> c_multikeys_PRV \<Rightarrow> bytes \<Rightarrow> c_multisign result" where
  "multi_sign lib prv msg =
     (case forA (multi_sign_system lib prv msg) [0..<get_count_of_systems prv] c_multisign_init of
        (Inl e, ms) \<Rightarrow> Inl e | (Inr _, ms) \<Rightarrow> Inr ms)"

section \<open>Key pairs\<close>

record c_multikeys_PAIR =
  m_pub :: c_multikeys_pub
  m_PRV :: c_multikeys_PRV

definition c_multikeys_PAIR_init :: c_multikeys_PAIR where
  "c_multikeys_PAIR_init = \<lparr>m_pub = c_multikeys_pub_init, m_PRV = c_multikeys_PRV_init\<rparr>"

definition on_pub :: "(c_multikeys_pub, 'a) action \<Rightarrow> (c_multikeys_PAIR, 'a) action" where
  "on_pub m pair = (case m (m_pub pair) of (r, pub') \<Rightarrow> (r, pair\<lparr>m_pub := pub'\<rparr>))"

definition on_PRV :: "(c_multikeys_PRV, 'a) action \<Rightarrow> (c_multikeys_PAIR, 'a) action" where
  "on_PRV m pair = (case m (m_PRV pair) of (r, prv') \<Rightarrow> (r, pair\<lparr>m_PRV := prv'\<rparr>))"

definition add_public_and_PRIVATE ::
    "t_crypto_system_type \<Rightarrow> bytes \<Rightarrow> bytes \<Rightarrow> (c_multikeys_PAIR, unit) action" where
  "add_public_and_PRIVATE crypto_type pubkey PRVkey =
     andThen (on_pub (add_public crypto_type pubkey)) (\<lambda>_. on_PRV (add_PRIVATE crypto_type PRVkey))"

definition PAIR_multi_sign :: "('bx, 'ux) crypto_lib \<Rightarrow> c_multikeys_PAIR \<Rightarrow> bytes \<Rightarrow> c_multisign result" where
  "PAIR_multi_sign lib pair msg = multi_sign lib (m_PRV pair) msg"

definition PAIR_multi_sign_verify ::
    "('bx, 'ux) crypto_lib \<Rightarrow> c_multikeys_PAIR \<Rightarrow> c_multisign \<Rightarrow> bytes \<Rightarrow> unit result" where
  "PAIR_multi_sign_verify lib pair all_signatures msg = multi_sign_verify lib all_signatures msg (m_pub pair)"

definition get_serialize_bin_pubkey :: "c_multikeys_PAIR \<Rightarrow> bytes result" where
  "get_serialize_bin_pubkey pair = serialize_bin push_varstring (m_pub pair)"

section \<open>Key generation\<close>

text \<open>The state is the number of draws; each result is the private and the public key.\<close>

definition generate_x25519_key_pair :: "('bx, 'ux) crypto_lib \<Rightarrow> (nat, bytes \<times> bytes) action" where
  \<comment> \<open>the first draw is thrown away\<close>
  "generate_x25519_key_pair lib n =
     (let key_PRV = randombytes lib (n + 1) 32
      in (Inr (key_PRV, generate_pubkey_from_privkey lib key_PRV), n + 2))"

definition generate_ed25519_key_pair :: "('bx, 'ux) crypto_lib \<Rightarrow> (nat, bytes \<times> bytes) action" where
  "generate_ed25519_key_pair lib n = (Inr (crypto_sign_keypair lib n), n + 1)"

definition generate_nrtu_encrypt_key_pair :: "('bx, 'ux) crypto_lib \<Rightarrow> (nat, bytes \<times> bytes) action" where
  "generate_nrtu_encrypt_key_pair lib n =
     (if enable_ntru lib then
        (bindR (ntru_generate_encrypt_keypair lib n) (\<lambda>(prv, pub).
           if length prv \<noteq> 659 then Inl Abort else if length pub \<noteq> 609 then Inl Abort else Inr (prv, pub)), n + 1)
      else (Inl Invalid_argument_in_version, n))"

definition generate_nrtu_sign_key_pair :: "('bx, 'ux) crypto_lib \<Rightarrow> (nat, bytes \<times> bytes) action" where
  "generate_nrtu_sign_key_pair lib n =
     (if enable_ntru lib then
        (bindR (ntru_generate_sign_keypair lib n) (\<lambda>(prv, pub).
           if length prv \<noteq> 6152 then Inl Abort else if length pub \<noteq> 6158 then Inl Abort else Inr (prv, pub)), n + 1)
      else (Inl Invalid_argument_in_version, n))"

definition generate_sidh_key_pair :: "('bx, 'ux) crypto_lib \<Rightarrow> (nat, bytes \<times> bytes) action" where
  "generate_sidh_key_pair lib n =
     (if enable_sidh lib then (sidh_generate_keypair lib n, n + 1)
      else (Inl Invalid_argument_in_version, n))"

definition key_pair_generator ::
    "('bx, 'ux) crypto_lib \<Rightarrow> t_crypto_system_type \<Rightarrow> (nat, bytes \<times> bytes) action option" where
  \<comment> \<open>the cases of the \<open>switch\<close> in \<open>generate\<close>\<close>
  "key_pair_generator lib sys =
     (case sys of
        e_crypto_system_type_X25519 \<Rightarrow> Some (generate_x25519_key_pair lib)
      | e_crypto_system_type_Ed25519 \<Rightarrow> Some (generate_ed25519_key_pair lib)
      | e_crypto_system_type_NTRU_EES439EP1 \<Rightarrow> Some (generate_nrtu_encrypt_key_pair lib)
      | e_crypto_system_type_NTRU_sign \<Rightarrow> Some (generate_nrtu_sign_key_pair lib)
      | e_crypto_system_type_SIDH \<Rightarrow> Some (generate_sidh_key_pair lib)
      | _ \<Rightarrow> None)"

definition generate_one ::
    "(nat, bytes \<times> bytes) action \<Rightarrow> t_crypto_system_type \<Rightarrow> (c_multikeys_PAIR \<times> nat, unit) action" where
  "generate_one gen sys =
     andThen (on_snd gen) (\<lambda>(prv, pub). on_fst (add_public_and_PRIVATE sys pub prv))"

definition generate_system ::
    "('bx, 'ux) crypto_lib \<Rightarrow> t_crypto_system_type \<Rightarrow> int \<Rightarrow> (c_multikeys_PAIR \<times> nat, unit) action" where
  \<comment> \<open>with the option off, NTRU_sign and SIDH throw before the loop, NTRU_EES439EP1 inside it\<close>
  "generate_system lib sys how_many =
     (if how_many = 0 then ret ()
      else if sys = e_crypto_system_type_NTRU_sign \<and> \<not> enable_ntru lib then raise Invalid_argument_in_version
      else if sys = e_crypto_system_type_SIDH \<and> \<not> enable_sidh lib then raise Invalid_argument_in_version
      else case key_pair_generator lib sys of
             None \<Rightarrow> raise Runtime_error
           | Some gen \<Rightarrow>
               andThen (forA (\<lambda>_. generate_one gen sys) [0..<nat how_many]) (\<lambda>_.
               andThen (on_fst (on_pub (\<lambda>pub. (Inr (), set_hash_dirty pub)))) (\<lambda>_ s.
                 case get_serialize_bin_pubkey (fst s) of Inl e \<Rightarrow> (Inl e, s) | Inr _ \<Rightarrow> (Inr (), s))))"

definition generate_count_system ::
    "('bx, 'ux) crypto_lib \<Rightarrow> int list \<Rightarrow> bool \<Rightarrow> nat \<Rightarrow> (c_multikeys_PAIR \<times> nat, unit) action" where
  "generate_count_system lib cryptolists_count will_asymkex sys =
     (case int_to_enum sys of
        None \<Rightarrow> ret ()
      | Some sys_enum \<Rightarrow>
          andThen (liftR (vec_at cryptolists_count sys)) (\<lambda>how_many.
          if how_many > 0 then
            andThen (liftR (if will_asymkex then Inr True
                            else bindR (t_crypto_system_type_is_asymkex sys_enum) (\<lambda>b. Inr (\<not> b))))
              (\<lambda>go. if go then generate_system lib sys_enum how_many else ret ())
          else ret ()))"

definition generate_count ::
    "('bx, 'ux) crypto_lib \<Rightarrow> int list \<Rightarrow> bool \<Rightarrow> (c_multikeys_PAIR \<times> nat, unit) action" where
  "generate_count lib cryptolists_count will_asymkex =
     forA (generate_count_system lib cryptolists_count will_asymkex) [0..<length cryptolists_count]"

definition generate_default :: "('bx, 'ux) crypto_lib \<Rightarrow> (c_multikeys_PAIR \<times> nat, unit) action" where
  "generate_default lib =
     andThen (generate_system lib e_crypto_system_type_X25519 1) (\<lambda>_.
     andThen (generate_system lib e_crypto_system_type_NTRU_EES439EP1 1) (\<lambda>_.
     andThen (generate_system lib e_crypto_system_type_SIDH 1) (\<lambda>_.
       on_fst (on_pub (\<lambda>pub. (Inr (), set_hash_dirty pub))))))"

definition datastore_save_PRV_and_pub ::
    "(t_datastore \<Rightarrow> string \<Rightarrow> bytes \<Rightarrow> bool \<Rightarrow> ('fs, unit) action) \<Rightarrow> string \<Rightarrow> c_multikeys_PAIR \<Rightarrow> ('fs, unit) action" where
  "datastore_save_PRV_and_pub save_string fname_base pair =
     andThen (datastore_save save_string obj_serialize_locked_string fname_base False (m_PRV pair)) (\<lambda>_.
       datastore_save save_string push_varstring fname_base False (m_pub pair))"

definition datastore_load_PRV_and_pub ::
    "(t_datastore \<Rightarrow> string \<Rightarrow> bytes result) \<Rightarrow> string \<Rightarrow> (c_multikeys_PAIR, unit) action" where
  "datastore_load_PRV_and_pub load_string fname_base =
     andThen (on_PRV (datastore_load load_string pop_locked_string fname_base)) (\<lambda>_.
       on_pub (datastore_load load_string pop_varstring fname_base))"

section \<open>Lemmas: vectors of signatures\<close>

lemma get_count_eq [simp]:
  "enum_value s < length (m_cryptolists_general mk) \<Longrightarrow>
   get_count_keys_in_system mk s = Inr (length (m_cryptolists_general mk ! enum_value s))"
  by (simp add: get_count_keys_in_system_def)

lemma get_key_eq:
  "enum_value s < length (m_cryptolists_general mk) \<Longrightarrow>
   get_key mk s i = vec_at (m_cryptolists_general mk ! enum_value s) i"
  by (simp add: get_key_def)

lemma mapR_nth: "n \<le> length xs \<Longrightarrow> mapR (vec_at xs) [0..<n] = Inr (take n xs)"
  by (auto simp: mapR_Inr_iff list_all2_conv_all_nth)

lemma get_signature_vec_eq:
  assumes "enum_value s < length (m_cryptolists_general ms)"
  shows "get_signature_vec ms s = Inr (m_cryptolists_general ms ! enum_value s)"
proof -
  have "get_signature ms s = vec_at (m_cryptolists_general ms ! enum_value s)"
    using assms by (simp add: fun_eq_iff get_signature_def get_key_eq)
  then show ?thesis
    using assms mapR_nth [of "length (m_cryptolists_general ms ! enum_value s)" "m_cryptolists_general ms ! enum_value s"]
    by (simp add: get_signature_vec_def)
qed

lemma add_signature_vec_eq:
  assumes "enum_value s < length (m_cryptolists_general ms)"
  shows "add_signature_vec sigs s ms =
    (Inr (), ms\<lparr>m_cryptolists_general := (m_cryptolists_general ms)[enum_value s :=
        m_cryptolists_general ms ! enum_value s @ sigs]\<rparr>)"
  using assms
proof (induction sigs arbitrary: ms)
  case Nil
  then show ?case by (simp add: add_signature_vec_def)
next
  case (Cons x xs)
  then show ?case
    by (simp add: add_signature_vec_def andThen_def add_signature_def add_key_def)
qed

lemma systems_bounded: "int_to_enum sys = Some s \<Longrightarrow> enum_value s = sys"
  by (rule int_to_enum_Some)

lemma verify_loop:
  assumes "enum_value s < length (m_cryptolists_general pubs)"
    and "length signs = length (m_cryptolists_general pubs ! enum_value s)"
  shows "forR (\<lambda>i. bindR (get_public pubs s i) (\<lambda>pk. bindR (vec_at signs i) (\<lambda>sig. check sig pk))) [0..<length signs] = Inr ()
    \<longleftrightarrow> list_all2 (\<lambda>sig pk. check sig pk = Inr ()) signs (m_cryptolists_general pubs ! enum_value s)"
  using assms by (auto simp: forR_Inr_iff get_public_def get_key_eq list_all2_conv_all_nth)

lemma multi_sign_verify_vec_Ed25519:
  assumes "length (m_cryptolists_general pubs) = 32"
  shows "multi_sign_verify_vec lib signs msg pubs e_crypto_system_type_Ed25519 = Inr () \<longleftrightarrow>
    list_all2 (\<lambda>sig pk. crypto_sign_verify_detached lib sig msg pk) signs (m_cryptolists_general pubs ! 6)"
proof (cases "length signs = length (m_cryptolists_general pubs ! 6)")
  case True
  then show ?thesis
    using verify_loop [of e_crypto_system_type_Ed25519 pubs signs
        "\<lambda>sig pk. if crypto_sign_verify_detached lib sig msg pk then Inr () else Inl Invalid_argument"] assms
    by (auto simp: multi_sign_verify_vec_def)
next
  case False
  then show ?thesis using assms by (auto simp: multi_sign_verify_vec_def dest: list_all2_lengthD)
qed

lemma multi_sign_verify_vec_NTRU:
  assumes "length (m_cryptolists_general pubs) = 32"
  shows "multi_sign_verify_vec lib signs msg pubs e_crypto_system_type_NTRU_sign = Inr () \<longleftrightarrow>
    list_all2 (\<lambda>sig pk. enable_ntru lib \<and> ntru_verify lib sig msg pk = Inr True) signs (m_cryptolists_general pubs ! 11)"
proof (cases "length signs = length (m_cryptolists_general pubs ! 11)")
  case True
  have good: "bindR (ntru_verify lib sig msg pk) (\<lambda>good. if good then Inr () else Inl Invalid_argument) = Inr ()
      \<longleftrightarrow> ntru_verify lib sig msg pk = Inr True" for sig pk
    by (auto simp: bindR_eq_Inr_conv split: if_splits)
  show ?thesis
  proof (cases "enable_ntru lib \<or> signs = []")
    case False
    with True assms show ?thesis by (cases signs) (auto simp: multi_sign_verify_vec_def list_all2_Cons1)
  next
    case on: True
    then show ?thesis
      using verify_loop [of e_crypto_system_type_NTRU_sign pubs signs
          "\<lambda>sig pk. bindR (ntru_verify lib sig msg pk) (\<lambda>good. if good then Inr () else Inl Invalid_argument)"] assms True
      by (auto simp: multi_sign_verify_vec_def good)
  qed
next
  case False
  then show ?thesis using assms by (auto simp: multi_sign_verify_vec_def dest: list_all2_lengthD)
qed

text \<open>When a verification succeeds, system by system.\<close>

lemma multi_sign_verify_iff:
  assumes "length (m_cryptolists_general ms) = 32" and "length (m_cryptolists_general pubs) = 32"
  shows "multi_sign_verify lib ms msg pubs = Inr () \<longleftrightarrow>
    (\<forall>s. enum_value s < 32 \<longrightarrow>
       length (m_cryptolists_general ms ! enum_value s) = length (m_cryptolists_general pubs ! enum_value s))
    \<and> list_all2 (\<lambda>sig pk. crypto_sign_verify_detached lib sig msg pk)
        (m_cryptolists_general ms ! 6) (m_cryptolists_general pubs ! 6)
    \<and> list_all2 (\<lambda>sig pk. enable_ntru lib \<and> ntru_verify lib sig msg pk = Inr True)
        (m_cryptolists_general ms ! 11) (m_cryptolists_general pubs ! 11)"
proof -
  have one: "multi_sign_verify_system lib ms msg pubs (enum_value s) = Inr () \<longleftrightarrow>
      length (m_cryptolists_general ms ! enum_value s) = length (m_cryptolists_general pubs ! enum_value s)
      \<and> (cryptosystem_sign_allowed s \<longrightarrow>
          multi_sign_verify_vec lib (m_cryptolists_general ms ! enum_value s) msg pubs s = Inr ())"
    if "enum_value s < 32" for s
    using that assms by (simp add: multi_sign_verify_system_def int_to_enum_value get_signature_vec_eq)
  have allowed: "cryptosystem_sign_allowed s \<Longrightarrow> enum_value s < 32" for s
    by (auto simp: cryptosystem_sign_allowed_def)
  have none: "multi_sign_verify_system lib ms msg pubs n = Inr ()" if "int_to_enum n = None" for n
    using that by (simp add: multi_sign_verify_system_def)
  have "multi_sign_verify lib ms msg pubs = Inr () \<longleftrightarrow>
      (\<forall>n < 32. multi_sign_verify_system lib ms msg pubs n = Inr ())"
    using assms by (auto simp: multi_sign_verify_def get_count_of_systems_def forR_Inr_iff)
  also have "\<dots> \<longleftrightarrow> (\<forall>s. enum_value s < 32 \<longrightarrow> multi_sign_verify_system lib ms msg pubs (enum_value s) = Inr ())"
    using none systems_bounded by (metis not_None_eq)
  also have "\<dots> \<longleftrightarrow> (\<forall>s. enum_value s < 32 \<longrightarrow>
        length (m_cryptolists_general ms ! enum_value s) = length (m_cryptolists_general pubs ! enum_value s))
      \<and> (\<forall>s. cryptosystem_sign_allowed s \<longrightarrow>
          multi_sign_verify_vec lib (m_cryptolists_general ms ! enum_value s) msg pubs s = Inr ())"
    using one allowed by blast
  also have "(\<forall>s. cryptosystem_sign_allowed s \<longrightarrow>
          multi_sign_verify_vec lib (m_cryptolists_general ms ! enum_value s) msg pubs s = Inr ()) \<longleftrightarrow>
      multi_sign_verify_vec lib (m_cryptolists_general ms ! 6) msg pubs e_crypto_system_type_Ed25519 = Inr ()
      \<and> multi_sign_verify_vec lib (m_cryptolists_general ms ! 11) msg pubs e_crypto_system_type_NTRU_sign = Inr ()"
    by (auto simp: cryptosystem_sign_allowed_def)
  finally show ?thesis
    using multi_sign_verify_vec_Ed25519 [OF assms(2), of lib] multi_sign_verify_vec_NTRU [OF assms(2), of lib]
    by simp
qed

lemma multi_sign_verify_other_system:
  assumes "length (m_cryptolists_general ms) = 32" and "length (m_cryptolists_general pubs) = 32"
    and "m_cryptolists_general ms ! 5 = []" and "m_cryptolists_general pubs ! 5 \<noteq> []"
  shows "multi_sign_verify lib ms msg pubs = Inl Invalid_argument"
proof -
  let ?v = "multi_sign_verify_system lib ms msg pubs"
  have "?v n = Inr () \<or> ?v n = Inl Invalid_argument" if "n \<in> set [0..<5]" for n
  proof -
    have "int_to_enum n = None \<or> n = 0"
      using that by (auto simp: int_to_enum_def all_systems_def)
    then show ?thesis
    proof
      assume "int_to_enum n = None"
      then show ?thesis by (simp add: multi_sign_verify_system_def)
    next
      assume "n = 0"
      moreover have "int_to_enum 0 = Some e_crypto_system_type_invalid"
        using int_to_enum_value [of e_crypto_system_type_invalid] by simp
      ultimately show ?thesis
        using assms(1,2) by (simp add: multi_sign_verify_system_def cryptosystem_sign_allowed_def)
    qed
  qed
  then have "forR ?v [0..<5] = Inr () \<or> forR ?v [0..<5] = Inl Invalid_argument"
    by (rule forR_single_error)
  moreover have "?v 5 = Inl Invalid_argument"
    using assms by (simp add: multi_sign_verify_system_def int_to_enum_def all_systems_def)
  moreover have "multi_sign_verify lib ms msg pubs =
      bindR (forR ?v [0..<5]) (\<lambda>_. bindR (?v 5) (\<lambda>_. forR ?v [Suc 5..<32]))"
    using assms(1,2) forR_split_at [of 0 5 32 ?v] by (simp add: multi_sign_verify_def get_count_of_systems_def)
  ultimately show ?thesis by (elim disjE) simp_all
qed

section \<open>Lemmas: signing\<close>

text \<open>Signing fills the two signature systems and nothing else.\<close>

definition sign_one :: "('bx, 'ux) crypto_lib \<Rightarrow> t_crypto_system_type \<Rightarrow> bytes \<Rightarrow> bytes \<Rightarrow> bytes result" where
  "sign_one lib sys msg prv =
     (if sys = e_crypto_system_type_Ed25519 then crypto_sign_detached lib msg prv
      else if enable_ntru lib then ntru_sign lib msg prv else Inl Invalid_argument_in_version)"

lemma multi_sign_vec_eq:
  assumes "length (m_cryptolists_general prv) = 32" and "cryptosystem_sign_allowed s"
    and "m_cryptolists_general prv ! enum_value s \<noteq> []"
  shows "multi_sign_vec lib prv msg s = mapR (sign_one lib s msg) (m_cryptolists_general prv ! enum_value s)"
proof -
  let ?ks = "m_cryptolists_general prv ! enum_value s"
  have s32: "enum_value s < 32" using assms(2) by (auto simp: cryptosystem_sign_allowed_def)
  have loop: "mapR (\<lambda>i. bindR (get_PRIVATE prv s i) f) [0..<n] = mapR f (take n ?ks)" if "n \<le> length ?ks" for n f
    using that
  proof (induction n)
    case (Suc n)
    show ?case
      using Suc s32 assms(1) by (simp add: take_Suc_conv_app_nth mapR_snoc get_PRIVATE_def get_key_eq)
  qed simp
  have other: "mapR (\<lambda>_. Inl e :: bytes result) xs = Inl e" if "xs \<noteq> []" for e and xs :: "bytes list"
    using that by (cases xs) auto
  have allowed: "s = e_crypto_system_type_Ed25519 \<or> s = e_crypto_system_type_NTRU_sign"
    using assms(2) by (simp add: cryptosystem_sign_allowed_def)
  show ?thesis
    using allowed assms(1,3) s32 loop [of "length ?ks" "sign_one lib s msg"] other [OF assms(3)]
    by (auto simp: multi_sign_vec_def sign_one_def [abs_def])
qed

lemma multi_sign_system_other:
  "\<not> (sys = 6 \<or> sys = 11) \<Longrightarrow> multi_sign_system lib prv msg sys ms = (Inr (), ms)"
  by (auto simp: multi_sign_system_def cryptosystem_sign_allowed_def dest: int_to_enum_Some split: option.splits)

lemma multi_sign_system_sign:
  assumes "length (m_cryptolists_general prv) = 32" and "length (m_cryptolists_general ms) = 32"
    and "cryptosystem_sign_allowed s" and "mapR (sign_one lib s msg) (m_cryptolists_general prv ! enum_value s) = Inr sigs"
  shows "multi_sign_system lib prv msg (enum_value s) ms =
    (Inr (), ms\<lparr>m_cryptolists_general := (m_cryptolists_general ms)[enum_value s := m_cryptolists_general ms ! enum_value s @ sigs]\<rparr>)"
proof -
  have s32: "enum_value s < 32" using assms(3) by (auto simp: cryptosystem_sign_allowed_def)
  show ?thesis
  proof (cases "m_cryptolists_general prv ! enum_value s = []")
    case True
    with assms s32 show ?thesis by (simp add: multi_sign_system_def int_to_enum_value)
  next
    case False
    with assms s32 show ?thesis
      by (simp add: multi_sign_system_def int_to_enum_value multi_sign_vec_eq add_signature_vec_eq)
  qed
qed

lemma multi_sign_eq:
  assumes "length (m_cryptolists_general prv) = 32"
    and ed: "mapR (sign_one lib e_crypto_system_type_Ed25519 msg) (m_cryptolists_general prv ! 6) = Inr sigs_ed"
    and nt: "mapR (sign_one lib e_crypto_system_type_NTRU_sign msg) (m_cryptolists_general prv ! 11) = Inr sigs_nt"
  shows "multi_sign lib prv msg = Inr (c_multisign_init\<lparr>m_cryptolists_general :=
    (replicate 32 [])[6 := sigs_ed, 11 := sigs_nt]\<rparr>)"
proof -
  let ?f = "multi_sign_system lib prv msg"
  have skip: "?f x ms = (Inr (), ms)" if "x \<noteq> 6" "x \<noteq> 11" for x ms
    using that by (intro multi_sign_system_other) auto
  have "?f 6 c_multisign_init = (Inr (), c_multisign_init\<lparr>m_cryptolists_general := (replicate 32 [])[6 := sigs_ed]\<rparr>)"
    using multi_sign_system_sign [of prv c_multisign_init e_crypto_system_type_Ed25519] assms
    by (simp add: c_multisign_init_def multicryptostrings_init_def cryptosystem_sign_allowed_def)
  moreover have "?f 11 (c_multisign_init\<lparr>m_cryptolists_general := (replicate 32 [])[6 := sigs_ed]\<rparr>) =
      (Inr (), c_multisign_init\<lparr>m_cryptolists_general := (replicate 32 [])[6 := sigs_ed, 11 := sigs_nt]\<rparr>)"
    using multi_sign_system_sign [of prv "c_multisign_init\<lparr>m_cryptolists_general := (replicate 32 [])[6 := sigs_ed]\<rparr>"
        e_crypto_system_type_NTRU_sign] assms
    by (simp add: cryptosystem_sign_allowed_def)
  moreover have "forA ?f [0..<11] ms = ?f 6 ms" "forA ?f [Suc 11..<32] ms = (Inr (), ms)" for ms
    by (rule forA_single; simp add: skip) (rule forA_skip, rule skip; simp only: set_upt atLeastLessThan_iff; arith)
  ultimately have "forA ?f [0..<32] c_multisign_init =
      (Inr (), c_multisign_init\<lparr>m_cryptolists_general := (replicate 32 [])[6 := sigs_ed, 11 := sigs_nt]\<rparr>)"
    by (simp add: forA_split_at [of 0 11 32] andThen_def)
  then show ?thesis using assms(1) by (simp add: multi_sign_def get_count_of_systems_def)
qed

definition keeps_X25519 :: "c_multisign \<Rightarrow> c_multisign \<Rightarrow> bool" where
  "keeps_X25519 ms ms' \<longleftrightarrow> length (m_cryptolists_general ms') = length (m_cryptolists_general ms)
     \<and> m_cryptolists_general ms' ! 5 = m_cryptolists_general ms ! 5"

lemma keeps_X25519_order: "reflp keeps_X25519" "transp keeps_X25519"
  by (auto simp: keeps_X25519_def reflp_def transp_def)

lemmas keeps_X25519_steps = keeps_andThen [OF keeps_X25519_order(2)] keeps_ret [OF keeps_X25519_order(1)]
  keeps_raise [OF keeps_X25519_order(1)] keeps_forA [OF keeps_X25519_order]

lemma keeps_X25519_add:
  assumes "cryptosystem_sign_allowed s"
  shows "keeps keeps_X25519 (add_signature_vec sigs s)"
proof -
  have "keeps keeps_X25519 (add_signature s sig)" for sig
    using assms by (intro keepsI) (auto simp: add_signature_def add_key_def keeps_X25519_def cryptosystem_sign_allowed_def)
  then show ?thesis unfolding add_signature_vec_def by (intro keeps_X25519_steps)
qed

lemma keeps_X25519_sign: "keeps keeps_X25519 (multi_sign_system lib prv msg sys)"
  unfolding multi_sign_system_def
  by (auto split: option.split intro!: keeps_X25519_steps keeps_X25519_add keeps_liftR keeps_X25519_order
      simp del: andThen_liftR ret_run)

lemma multi_sign_no_X25519:
  assumes "multi_sign lib prv msg = Inr ms"
  shows "length (m_cryptolists_general ms) = 32 \<and> m_cryptolists_general ms ! 5 = []"
proof -
  have "keeps keeps_X25519 (forA (multi_sign_system lib prv msg) [0..<get_count_of_systems prv])"
    by (intro keeps_X25519_steps keeps_X25519_sign)
  from keepsD [OF this, of c_multisign_init] assms show ?thesis
    by (auto simp: multi_sign_def keeps_X25519_def c_multisign_init_def multicryptostrings_init_def split: prod.splits sum.splits)
qed

section \<open>Properties: signatures\<close>

text \<open>
  C35: what a pair signs, it verifies: when every signing key of the pair makes a signature that
  its public key accepts, and the pair has only signing keys, \<open>multi_sign\<close> returns and
  \<open>multi_sign_verify\<close> accepts the result.
\<close>

theorem multi_sign_complete:
  assumes "length (m_cryptolists_general (m_PRV pair)) = 32" and "length (m_cryptolists_general (m_pub pair)) = 32"
    and "\<And>ix. ix < 32 \<Longrightarrow> ix \<noteq> 6 \<Longrightarrow> ix \<noteq> 11 \<Longrightarrow> m_cryptolists_general (m_pub pair) ! ix = []"
    and "list_all2 (\<lambda>prv pub. \<exists>sig. crypto_sign_detached lib msg prv = Inr sig \<and> crypto_sign_verify_detached lib sig msg pub)
           (m_cryptolists_general (m_PRV pair) ! 6) (m_cryptolists_general (m_pub pair) ! 6)"
    and "list_all2 (\<lambda>prv pub. enable_ntru lib \<and> (\<exists>sig. ntru_sign lib msg prv = Inr sig \<and> ntru_verify lib sig msg pub = Inr True))
           (m_cryptolists_general (m_PRV pair) ! 11) (m_cryptolists_general (m_pub pair) ! 11)"
  shows "\<exists>ms. PAIR_multi_sign lib pair msg = Inr ms \<and> PAIR_multi_sign_verify lib pair ms msg = Inr ()"
proof -
  have ex: "\<exists>sigs. mapR f prvs = Inr sigs \<and> list_all2 V sigs pubs"
    if "list_all2 (\<lambda>prv pub. \<exists>sig. f prv = Inr sig \<and> V sig pub) prvs pubs"
    for f :: "bytes \<Rightarrow> bytes result" and V and prvs pubs :: "bytes list"
    using that by (induction prvs pubs rule: list_all2_induct) auto
  obtain ed where ed: "mapR (sign_one lib e_crypto_system_type_Ed25519 msg) (m_cryptolists_general (m_PRV pair) ! 6) = Inr ed"
    "list_all2 (\<lambda>sig pk. crypto_sign_verify_detached lib sig msg pk) ed (m_cryptolists_general (m_pub pair) ! 6)"
    using ex [OF assms(4)] by (auto simp: sign_one_def [abs_def])
  have "list_all2 (\<lambda>prv pub. \<exists>sig. sign_one lib e_crypto_system_type_NTRU_sign msg prv = Inr sig
      \<and> (enable_ntru lib \<and> ntru_verify lib sig msg pub = Inr True))
      (m_cryptolists_general (m_PRV pair) ! 11) (m_cryptolists_general (m_pub pair) ! 11)"
    by (rule list_all2_mono [OF assms(5)]) (auto simp: sign_one_def)
  from ex [OF this] obtain nt where nt: "mapR (sign_one lib e_crypto_system_type_NTRU_sign msg) (m_cryptolists_general (m_PRV pair) ! 11) = Inr nt"
    "list_all2 (\<lambda>sig pk. enable_ntru lib \<and> ntru_verify lib sig msg pk = Inr True) nt (m_cryptolists_general (m_pub pair) ! 11)"
    by blast
  let ?ms = "c_multisign_init\<lparr>m_cryptolists_general := (replicate 32 [])[6 := ed, 11 := nt]\<rparr>"
  have "multi_sign_verify lib ?ms msg (m_pub pair) = Inr ()"
    using ed(2) nt(2) assms(2,3) by (auto simp: multi_sign_verify_iff nth_list_update dest: list_all2_lengthD)
  then show ?thesis
    using multi_sign_eq [OF assms(1) ed(1) nt(1)] by (auto simp: PAIR_multi_sign_def PAIR_multi_sign_verify_def)
qed

definition example_sign_pair :: c_multikeys_PAIR where
  "example_sign_pair = c_multikeys_PAIR_init
     \<lparr>m_pub := c_multikeys_pub_init\<lparr>m_cryptolists_general := (replicate 32 [])[6 := [[7], [8]]]\<rparr>,
      m_PRV := c_multikeys_PRV_init\<lparr>m_cryptolists_general := (replicate 32 [])[6 := [[7], [8]]]\<rparr>\<rparr>"

lemma example_sign [simp]:
  "crypto_sign_detached example_lib = (\<lambda>msg prv. Inr (prv @ msg))"
  "crypto_sign_verify_detached example_lib = (\<lambda>sig msg pub. sig = pub @ msg)"
  unfolding example_lib_def by (simp_all only: crypto_lib.select_convs)

theorem multi_sign_complete_witness:
  "\<exists>ms. PAIR_multi_sign example_lib example_sign_pair [1, 2] = Inr ms
      \<and> PAIR_multi_sign_verify example_lib example_sign_pair ms [1, 2] = Inr ()"
  by (rule multi_sign_complete)
    (simp_all add: example_sign_pair_def c_multikeys_PAIR_init_def nth_list_update)

text \<open>
  C36: what \<open>multi_sign_verify\<close> accepts is signed by every signing key of the identity: each
  Ed25519 and each NTRU key has, at its own position, a signature of the message that the
  primitive accepts.
\<close>

theorem multi_sign_verify_sound:
  assumes "length (m_cryptolists_general ms) = 32" and "length (m_cryptolists_general pubs) = 32"
    and "multi_sign_verify lib ms msg pubs = Inr ()"
  shows "list_all2 (\<lambda>sig pk. crypto_sign_verify_detached lib sig msg pk)
      (m_cryptolists_general ms ! 6) (m_cryptolists_general pubs ! 6)
    \<and> list_all2 (\<lambda>sig pk. ntru_verify lib sig msg pk = Inr True)
      (m_cryptolists_general ms ! 11) (m_cryptolists_general pubs ! 11)"
  using assms multi_sign_verify_iff [OF assms(1,2), of lib msg] by (auto elim: list_all2_mono)

theorem multi_sign_verify_sound_witness:
  "\<exists>ms. multi_sign example_lib (m_PRV example_sign_pair) [1] = Inr ms
     \<and> list_all2 (\<lambda>sig pk. crypto_sign_verify_detached example_lib sig [1] pk)
         (m_cryptolists_general ms ! 6) [[7], [8]]"
proof -
  let ?ms = "c_multisign_init\<lparr>m_cryptolists_general := (replicate 32 [])[6 := [[7, 1], [8, 1]], 11 := []]\<rparr>"
  have sign: "multi_sign example_lib (m_PRV example_sign_pair) [1] = Inr ?ms"
    by (rule multi_sign_eq) (simp_all add: example_sign_pair_def sign_one_def)
  have len: "length (m_cryptolists_general ?ms) = 32" "length (m_cryptolists_general (m_pub example_sign_pair)) = 32"
    by (simp_all add: example_sign_pair_def)
  have "multi_sign_verify example_lib ?ms [1] (m_pub example_sign_pair) = Inr ()"
    unfolding multi_sign_verify_iff [OF len] by (auto simp: example_sign_pair_def nth_list_update)
  from multi_sign_verify_sound [OF len this] sign show ?thesis
    by (simp add: example_sign_pair_def)
qed

text \<open>
  An identity that also has an X25519 key can never be verified: signing leaves that system
  empty, and verification compares the number of keys of every system before it asks whether
  the system signs at all.
\<close>

theorem multi_sign_never_verifies_with_X25519:
  assumes "multi_sign lib prv msg = Inr ms" and "length (m_cryptolists_general pubs) = 32"
    and "m_cryptolists_general pubs ! 5 \<noteq> []"
  shows "multi_sign_verify lib ms msg' pubs = Inl Invalid_argument"
  using multi_sign_no_X25519 [OF assms(1)] assms(2,3) by (intro multi_sign_verify_other_system) auto

theorem multi_sign_never_verifies_with_X25519_witness:
  "\<exists>ms. multi_sign example_lib (m_PRV example_sign_pair) [1] = Inr ms
     \<and> multi_sign_verify example_lib ms [1]
         (c_multikeys_pub_init\<lparr>m_cryptolists_general := (replicate 32 [])[5 := [[9]], 6 := [[7], [8]]]\<rparr>) = Inl Invalid_argument"
proof -
  have sign: "multi_sign example_lib (m_PRV example_sign_pair) [1] =
      Inr (c_multisign_init\<lparr>m_cryptolists_general := (replicate 32 [])[6 := [[7, 1], [8, 1]], 11 := []]\<rparr>)"
    by (rule multi_sign_eq) (simp_all add: example_sign_pair_def sign_one_def)
  show ?thesis
    using sign multi_sign_never_verifies_with_X25519 [OF sign, of
        "c_multikeys_pub_init\<lparr>m_cryptolists_general := (replicate 32 [])[5 := [[9]], 6 := [[7], [8]]]\<rparr>"] by simp
qed

lemma multisign_load_part_eq:
  assumes "enum_value s < 32" and "length (m_cryptolists_general ms) = 32"
    and "fits_size_t sigs" and "list_all (\<lambda>x. length x \<le> SANE_MAX_SIZE_FOR_STRING) sigs"
  shows "multisign_load_part s (parser_at pre (of_nat (enum_value s) # vector_octets varstring_octets sigs @ post), ms) =
    (Inr (), (parser_at (pre @ of_nat (enum_value s) # vector_octets varstring_octets sigs) post,
      ms\<lparr>m_cryptolists_general := (m_cryptolists_general ms)[enum_value s := m_cryptolists_general ms ! enum_value s @ sigs]\<rparr>))"
proof -
  have vec: "reads pop_vector_string (vector_octets varstring_octets sigs) sigs"
    unfolding pop_vector_string_eq by (rule str.reads_pop_vector_object [OF assms(3,4)])
  have byte: "pop_byte_u (parser_at pre (b # rest)) = (Inr b, parser_at (pre @ [b]) rest)" for pre b rest
    using readsD [OF reads_pop_byte_u, of pre b rest] by simp
  have "unat (of_nat (enum_value s) :: byte) = enum_value s"
    using assms(1) by (simp add: unat_of_nat take_bit_nat_eq_self)
  then show ?thesis
    using assms(1,2) readsD [OF vec, of "pre @ [of_nat (enum_value s)]" post]
    by (simp add: multisign_load_part_def andThen_def on_fst_def on_snd_def byte add_signature_vec_eq)
qed

lemma multisign_bin_back:
  assumes "length (m_cryptolists_general ms) = 32"
    and "\<And>ix. ix = 6 \<or> ix = 11 \<Longrightarrow> length (m_cryptolists_general ms ! ix) < 2 ^ 63"
    and "\<And>ix. ix = 6 \<or> ix = 11 \<Longrightarrow> list_all (\<lambda>x. length x \<le> SANE_MAX_SIZE_FOR_STRING) (m_cryptolists_general ms ! ix)"
  shows "\<exists>bs. multisign_serialize_bin ms = Inr bs
    \<and> multisign_load_from_bin bs c_multisign_init = (Inr (), c_multisign_init\<lparr>m_cryptolists_general :=
        (replicate 32 [])[6 := m_cryptolists_general ms ! 6, 11 := m_cryptolists_general ms ! 11]\<rparr>)"
proof -
  let ?ed = "m_cryptolists_general ms ! 6" and ?nt = "m_cryptolists_general ms ! 11"
  let ?bs = "[6] @ vector_octets varstring_octets ?ed @ [11] @ vector_octets varstring_octets ?nt"
  have fits: "fits_size_t ?ed" "fits_size_t ?nt" using assms(2) by (simp_all add: fits_size_t_def)
  have "writes (push_vector_string xs) (vector_octets varstring_octets xs)" if "xs = ?ed \<or> xs = ?nt" for xs
    unfolding push_vector_string_eq using that fits assms(3) by (intro str.writes_push_vector_object) auto
  then have "writes (andThen (push_byte_u 6) (\<lambda>_. andThen (push_vector_string ?ed) (\<lambda>_.
      andThen (push_byte_u 11) (\<lambda>_. push_vector_string ?nt)))) ?bs"
    by (intro writes_andThen writes_push_byte_u) simp_all
  then have ser: "multisign_serialize_bin ms = Inr ?bs"
    using assms(1) by (simp add: multisign_serialize_bin_def get_signature_vec_eq generated_writes)
  have "multisign_load_part e_crypto_system_type_Ed25519 (parser_at [] ?bs, c_multisign_init) =
      (Inr (), (parser_at (6 # vector_octets varstring_octets ?ed) (11 # vector_octets varstring_octets ?nt),
        c_multisign_init\<lparr>m_cryptolists_general := (replicate 32 [])[6 := ?ed]\<rparr>))"
    using multisign_load_part_eq [of e_crypto_system_type_Ed25519 c_multisign_init ?ed "[]"
        "11 # vector_octets varstring_octets ?nt"] fits assms(3)
    by (simp add: c_multisign_init_def multicryptostrings_init_def)
  moreover have "multisign_load_part e_crypto_system_type_NTRU_sign
      (parser_at (6 # vector_octets varstring_octets ?ed) (11 # vector_octets varstring_octets ?nt),
        c_multisign_init\<lparr>m_cryptolists_general := (replicate 32 [])[6 := ?ed]\<rparr>) =
      (Inr (), (parser_at (6 # vector_octets varstring_octets ?ed @ 11 # vector_octets varstring_octets ?nt) [],
        c_multisign_init\<lparr>m_cryptolists_general := (replicate 32 [])[6 := ?ed, 11 := ?nt]\<rparr>))"
    using multisign_load_part_eq [of e_crypto_system_type_NTRU_sign
        "c_multisign_init\<lparr>m_cryptolists_general := (replicate 32 [])[6 := ?ed]\<rparr>" ?nt
        "6 # vector_octets varstring_octets ?ed" "[]"] fits assms(3) by simp
  ultimately show ?thesis
    using ser by (intro exI [of _ ?bs] conjI) (simp_all add: multisign_load_from_bin_def parser_of_string_at andThen_def)
qed

text \<open>
  A multi-signature survives \<open>serialize_bin\<close> followed by \<open>load_from_bin\<close> into a new
  object, for the two systems the format carries.
\<close>

theorem multisign_bin_roundtrip:
  assumes "length (m_cryptolists_general ms) = 32"
    and "\<And>ix. ix = 6 \<or> ix = 11 \<Longrightarrow> length (m_cryptolists_general ms ! ix) < 2 ^ 63"
    and "\<And>ix. ix = 6 \<or> ix = 11 \<Longrightarrow> list_all (\<lambda>x. length x \<le> SANE_MAX_SIZE_FOR_STRING) (m_cryptolists_general ms ! ix)"
  shows "\<exists>bs. multisign_serialize_bin ms = Inr bs
    \<and> multisign_load_from_bin bs c_multisign_init = (Inr (), c_multisign_init\<lparr>m_cryptolists_general :=
        (replicate 32 [])[6 := m_cryptolists_general ms ! 6, 11 := m_cryptolists_general ms ! 11]\<rparr>)"
  by (rule multisign_bin_back) (use assms in simp_all)

theorem multisign_bin_roundtrip_witness:
  "\<exists>bs. multisign_serialize_bin (c_multisign_init\<lparr>m_cryptolists_general := (replicate 32 [])[6 := [[1]], 11 := [[2]]]\<rparr>) = Inr bs
    \<and> multisign_load_from_bin bs c_multisign_init =
        (Inr (), c_multisign_init\<lparr>m_cryptolists_general := (replicate 32 [])[6 := [[1]], 11 := [[2]]]\<rparr>)"
proof -
  let ?ms = "c_multisign_init\<lparr>m_cryptolists_general := (replicate 32 [])[6 := [[1]], 11 := [[2]]]\<rparr>"
  show ?thesis
    using multisign_bin_roundtrip [of ?ms] by (fastforce simp: SANE_MAX_SIZE_FOR_STRING_def)
qed

section \<open>Key generation\<close>

text \<open>A pair is matched: as many private as public keys of each system, X25519 keys belonging together.\<close>

definition pair_matched :: "('bx, 'ux) crypto_lib \<Rightarrow> c_multikeys_PAIR \<Rightarrow> bool" where
  "pair_matched lib pair \<longleftrightarrow>
     length (m_cryptolists_general (m_pub pair)) = 32 \<and> length (m_cryptolists_general (m_PRV pair)) = 32
     \<and> list_all2 (\<lambda>ps ss. length ps = length ss) (m_cryptolists_general (m_pub pair)) (m_cryptolists_general (m_PRV pair))
     \<and> m_cryptolists_general (m_pub pair) ! 5 = map (generate_pubkey_from_privkey lib) (m_cryptolists_general (m_PRV pair) ! 5)"

definition keeps_matched :: "('bx, 'ux) crypto_lib \<Rightarrow> c_multikeys_PAIR \<times> nat \<Rightarrow> c_multikeys_PAIR \<times> nat \<Rightarrow> bool" where
  "keeps_matched lib s s' \<longleftrightarrow> (pair_matched lib (fst s) \<longrightarrow> pair_matched lib (fst s'))"

lemma keeps_matched_order: "reflp (keeps_matched lib)" "transp (keeps_matched lib)"
  by (auto simp: keeps_matched_def reflp_def transp_def)

lemma keeps_matched_snd: "keeps (keeps_matched lib) (on_snd m)"
  by (rule keepsI) (auto simp: on_snd_def keeps_matched_def split: prod.splits)

lemma pair_matched_add:
  assumes "pair_matched lib pair" and "enum_value s < 32"
    and "s = e_crypto_system_type_X25519 \<longrightarrow> pub = generate_pubkey_from_privkey lib prv"
  shows "pair_matched lib (snd (add_public_and_PRIVATE s pub prv pair))"
proof -
  have "enum_value s \<noteq> 5" if "s \<noteq> e_crypto_system_type_X25519" using that by (cases s) auto
  then show ?thesis
    using assms
    by (auto simp: pair_matched_def add_public_and_PRIVATE_def andThen_def on_pub_def on_PRV_def add_public_def
        add_PRIVATE_def add_key_def list_all2_conv_all_nth nth_list_update map_update)
qed

lemma keeps_matched_generate_one:
  assumes "key_pair_generator lib s = Some gen"
  shows "keeps (keeps_matched lib) (generate_one gen s)"
proof (rule keepsI)
  fix st :: "c_multikeys_PAIR \<times> nat"
  obtain pair n where st: "st = (pair, n)" by force
  have s32: "enum_value s < 32" using assms by (cases s) (auto simp: key_pair_generator_def)
  show "keeps_matched lib st (snd (generate_one gen s st))"
  proof (cases "gen n")
    case (Pair r n')
    show ?thesis
    proof (cases r)
      case (Inl e)
      with Pair st show ?thesis by (simp add: generate_one_def andThen_def on_snd_def keeps_matched_def)
    next
      case (Inr k)
      obtain prv pub where k: "k = (prv, pub)" by force
      have "s = e_crypto_system_type_X25519 \<longrightarrow> pub = generate_pubkey_from_privkey lib prv"
        using assms Pair Inr k by (auto simp: key_pair_generator_def generate_x25519_key_pair_def Let_def)
      then have "pair_matched lib (snd (add_public_and_PRIVATE s pub prv pair))" if "pair_matched lib pair"
        using pair_matched_add [OF that s32] by blast
      then show ?thesis
        using Pair Inr k st
        by (cases "add_public_and_PRIVATE s pub prv pair")
          (simp add: generate_one_def andThen_def on_snd_def on_fst_def keeps_matched_def)
    qed
  qed
qed

lemma keeps_matched_pub_dirty: "keeps (keeps_matched lib) (on_fst (on_pub (\<lambda>pub. (Inr (), set_hash_dirty pub))))"
  by (rule keepsI) (auto simp: on_fst_def on_pub_def set_hash_dirty_def keeps_matched_def pair_matched_def)

lemmas keeps_matched_steps = keeps_andThen [OF keeps_matched_order(2)] keeps_ret [OF keeps_matched_order(1)]
  keeps_raise [OF keeps_matched_order(1)] keeps_liftR [OF keeps_matched_order(1)] keeps_forA [OF keeps_matched_order]
  safe_if keeps_matched_pub_dirty keeps_matched_generate_one

lemma keeps_matched_generate_system: "keeps (keeps_matched lib) (generate_system lib s n)"
proof -
  have last: "keeps (keeps_matched lib)
      (\<lambda>s. case get_serialize_bin_pubkey (fst s) of Inl e \<Rightarrow> (Inl e, s) | Inr _ \<Rightarrow> (Inr (), s))"
    by (rule keepsI) (auto simp: keeps_matched_def split: sum.split)
  show ?thesis
    unfolding generate_system_def
    by (cases "key_pair_generator lib s") (auto intro!: keeps_matched_steps last simp del: ret_run raise_run)
qed

text \<open>
  Generating keys by a list of counts, completing or throwing anywhere on the way, keeps a
  pair matched: as many private as public keys of every system, and each X25519 public key the
  one of the private key at its position.
\<close>

theorem generate_keeps_pair_matched:
  assumes "pair_matched lib pair"
  shows "pair_matched lib (fst (snd (generate_count lib counts will_asymkex (pair, n))))"
proof -
  have "keeps (keeps_matched lib) (generate_count_system lib counts will_asymkex sys)" for sys
    unfolding generate_count_system_def
    by (auto split: option.split intro!: keeps_matched_steps keeps_matched_generate_system simp del: ret_run andThen_liftR)
  then have "keeps (keeps_matched lib) (generate_count lib counts will_asymkex)"
    unfolding generate_count_def by (intro keeps_matched_steps)
  from keepsD [OF this, of "(pair, n)"] assms show ?thesis by (simp add: keeps_matched_def)
qed

theorem generate_keeps_pair_matched_witness:
  "pair_matched example_lib (fst (snd (generate_count example_lib ((replicate 32 0)[5 := 2]) True (c_multikeys_PAIR_init, 0))))"
  by (rule generate_keeps_pair_matched)
    (simp add: pair_matched_def c_multikeys_PAIR_init_def c_multikeys_pub_init_def c_multikeys_PRV_init_def
      multicryptostrings_init_def list_all2_conv_all_nth)

end
