(* ===== verification/Crypto_Stream.thy ===== *)
theory Crypto_Stream
  imports Multisign
begin

text \<open>
  The encrypted streams of \<^verbatim>\<open>src/src/crypto/crypto.cpp\<close>: the key agreement
  \<open>calculate_KCT\<close> over every crypto system two identities have in common, \<open>c_stream\<close> and
  \<open>c_crypto_tunnel\<close> with its handshake. Code that draws randomness acts on its object and
  the number of draws; \<open>m_boxer\<close> and \<open>m_unboxer\<close> are states of the boxers of sodiumpp.
\<close>

section \<open>Streams\<close>

record ('bx, 'ux) c_stream =
  m_KCT :: bytes
  m_nonce_odd :: bool
  stream_side_initiator :: bool
  m_packetstart_kexasym :: bytes
  m_packetstart_IDe :: bytes
  m_cryptolists_count :: "int list"
  m_boxer :: "'bx option"
  m_unboxer :: "'ux option"

definition return_empty_K :: bytes where
  "return_empty_K = replicate Hash1_size 0"

definition c_stream_init :: "bool \<Rightarrow> ('bx, 'ux) c_stream" where
  "c_stream_init side_initiator =
     \<lparr>m_KCT = return_empty_K, m_nonce_odd = False, stream_side_initiator = side_initiator,
      m_packetstart_kexasym = [], m_packetstart_IDe = [], m_cryptolists_count = replicate 32 0,
      m_boxer = None, m_unboxer = None\<rparr>"

definition is_K_not_empty :: "('bx, 'ux) c_stream \<Rightarrow> bool" where
  "is_K_not_empty st \<longleftrightarrow> m_KCT st \<noteq> return_empty_K"

definition stream_box :: "('bx, 'ux) crypto_lib \<Rightarrow> bytes \<Rightarrow> (('bx, 'ux) c_stream, bytes \<times> bytes) action" where
  \<comment> \<open>the message boxed, and the nonce that was used\<close>
  "stream_box lib msg st =
     (case m_boxer st of
        None \<Rightarrow> (Inl Abort, st)
      | Some cb \<Rightarrow>
          (case boxer_box lib cb msg of
             (Inl e, cb') \<Rightarrow> (Inl e, st\<lparr>m_boxer := Some cb'\<rparr>)
           | (Inr c, cb') \<Rightarrow> (Inr (c, boxer_nonce lib cb), st\<lparr>m_boxer := Some cb'\<rparr>)))"

definition stream_unbox_nonce ::
    "('bx, 'ux) crypto_lib \<Rightarrow> bytes \<Rightarrow> bytes \<Rightarrow> bool \<Rightarrow> (('bx, 'ux) c_stream, bytes) action" where
  "stream_unbox_nonce lib msg nonce force_nonce st =
     (case m_unboxer st of
        None \<Rightarrow> (Inl Abort, st)
      | Some cb \<Rightarrow>
          (case unboxer_unbox_nonce lib cb msg (if force_nonce then nonce else unboxer_nonce lib cb) of
             (r, cb') \<Rightarrow> (r, st\<lparr>m_unboxer := Some cb'\<rparr>)))"

definition stream_unbox :: "('bx, 'ux) crypto_lib \<Rightarrow> bytes \<Rightarrow> (('bx, 'ux) c_stream, bytes) action" where
  "stream_unbox lib msg = stream_unbox_nonce lib msg [] False"

definition create_boxer_with_K :: "('bx, 'ux) crypto_lib \<Rightarrow> ('bx, 'ux) c_stream \<Rightarrow> ('bx, 'ux) c_stream" where
  "create_boxer_with_K lib st =
     st\<lparr>m_boxer := Some (boxer_new lib (m_nonce_odd st) (m_KCT st)),
        m_unboxer := Some (unboxer_new lib (\<not> m_nonce_odd st) (m_KCT st))\<rparr>"

section \<open>Key agreement\<close>

text \<open>
  What the loop over the systems changes: the accumulator, the passwords to send (a
  \<open>std::map<char, std::vector<std::string>>\<close>), the counts and the number of draws.
\<close>

record kct_loop =
  KCT_accum :: bytes
  kexasym_passencr_tosend :: "(byte \<times> bytes list) list"
  kct_count :: "int list"
  kct_draws :: nat

fun map_push_back :: "byte \<Rightarrow> bytes \<Rightarrow> (byte \<times> bytes list) list \<Rightarrow> (byte \<times> bytes list) list" where
  \<comment> \<open>\<open>m[key].push_back(x)\<close>\<close>
  "map_push_back key x m =
     (case map_find char_less key m of
        None \<Rightarrow> map_emplace char_less key [x] m
      | Some _ \<Rightarrow> map (\<lambda>(k, v). if k = key then (k, v @ [x]) else (k, v)) m)"

definition kex_keys ::
    "c_multikeys_PAIR \<Rightarrow> c_multikeys_pub \<Rightarrow> t_crypto_system_type \<Rightarrow> nat \<Rightarrow> (bytes \<times> bytes \<times> bytes) result" where
  \<comment> \<open>our public and private key and their public key for round \<open>keynr_i\<close>, wrapping around\<close>
  "kex_keys self them sys keynr_i =
     bindR (get_count_keys_in_system (m_pub self) sys) (\<lambda>key_count_a.
     bindR (get_count_keys_in_system them sys) (\<lambda>key_count_b.
     bindR (get_public (m_pub self) sys (keynr_i mod key_count_a)) (\<lambda>key_A_pub.
     bindR (get_PRIVATE (m_PRV self) sys (keynr_i mod key_count_a)) (\<lambda>key_A_PRV.
     bindR (get_public them sys (keynr_i mod key_count_b)) (\<lambda>key_B_pub.
       Inr (key_A_pub, key_A_PRV, key_B_pub))))))"

definition kct_join :: "('bx, 'ux) crypto_lib \<Rightarrow> bytes \<Rightarrow> bytes \<Rightarrow> bytes \<Rightarrow> bytes \<Rightarrow> bytes result" where
  \<comment> \<open>join the agreed key made of \<open>secret\<close> and both public keys into the accumulator\<close>
  "kct_join lib secret key_A_pub key_B_pub accum =
     bindR (binary_string_xor (Hash1_PRV lib secret) (Hash1 lib key_A_pub)) (\<lambda>x.
     bindR (binary_string_xor x (Hash1 lib key_B_pub)) (\<lambda>y.
       binary_string_xor accum (Hash1_PRV lib y)))"

definition kct_X25519_key ::
    "('bx, 'ux) crypto_lib \<Rightarrow> c_multikeys_PAIR \<Rightarrow> c_multikeys_pub \<Rightarrow> nat \<Rightarrow> bytes \<Rightarrow> bytes result" where
  "kct_X25519_key lib self them keynr_i accum =
     bindR (kex_keys self them e_crypto_system_type_X25519 keynr_i) (\<lambda>(key_A_pub, key_A_PRV, key_B_pub).
     bindR (key_agreement lib key_A_PRV key_B_pub) (\<lambda>k_dh_raw.
       kct_join lib k_dh_raw key_A_pub key_B_pub accum))"

definition kct_SIDH_key ::
    "('bx, 'ux) crypto_lib \<Rightarrow> c_multikeys_PAIR \<Rightarrow> c_multikeys_pub \<Rightarrow> nat \<Rightarrow> bytes \<Rightarrow> bytes result" where
  "kct_SIDH_key lib self them keynr_i accum =
     bindR (kex_keys self them e_crypto_system_type_SIDH keynr_i) (\<lambda>(key_self_pub, key_self_PRV, key_them_pub).
     bindR (sidh_secret_agreement lib key_self_PRV key_self_pub key_them_pub) (\<lambda>dh_secret.
       kct_join lib dh_secret key_self_pub key_them_pub accum))"

definition kct_NTRU_send_key ::
    "('bx, 'ux) crypto_lib \<Rightarrow> c_multikeys_PAIR \<Rightarrow> c_multikeys_pub \<Rightarrow> byte \<Rightarrow> nat \<Rightarrow> (kct_loop, unit) action" where
  \<comment> \<open>the initiator draws a password and encrypts it for the other side\<close>
  "kct_NTRU_send_key lib self them sys_id keynr_i s =
     (case kex_keys self them e_crypto_system_type_NTRU_EES439EP1 keynr_i of
        Inl e \<Rightarrow> (Inl e, s)
      | Inr (key_A_pub, key_A_PRV, key_B_pub) \<Rightarrow>
          (let password_cleartext = randombytes lib (kct_draws s) 65;
               s1 = s\<lparr>kct_draws := kct_draws s + 2\<rparr>
           in case ntru_encrypt lib (kct_draws s + 1) password_cleartext key_B_pub of
                Inl e \<Rightarrow> (Inl e, s1)
              | Inr password_encrypted \<Rightarrow>
                  (let s2 = s1\<lparr>kexasym_passencr_tosend :=
                              map_push_back sys_id password_encrypted (kexasym_passencr_tosend s)\<rparr>
                   in case kct_join lib password_cleartext key_A_pub key_B_pub (KCT_accum s) of
                        Inl e \<Rightarrow> (Inl e, s2)
                      | Inr accum \<Rightarrow> (Inr (), s2\<lparr>KCT_accum := accum\<rparr>))))"

definition map_at :: "(byte \<times> bytes list) list \<Rightarrow> byte \<Rightarrow> bytes list result" where
  "map_at m key = (case map_find char_less key m of None \<Rightarrow> Inl Out_of_range | Some v \<Rightarrow> Inr v)"

definition kct_NTRU_open_key ::
    "('bx, 'ux) crypto_lib \<Rightarrow> (byte \<times> bytes list) list \<Rightarrow> c_multikeys_PAIR \<Rightarrow> c_multikeys_pub \<Rightarrow> byte \<Rightarrow>
     nat \<Rightarrow> bytes \<Rightarrow> bytes result" where
  \<comment> \<open>the respondent opens the password it was sent\<close>
  "kct_NTRU_open_key lib received self them sys_id keynr_i accum =
     bindR (kex_keys self them e_crypto_system_type_NTRU_EES439EP1 keynr_i) (\<lambda>(key_A_pub, key_A_PRV, key_B_pub).
     bindR (map_at received sys_id) (\<lambda>passwords.
     bindR (vec_at passwords keynr_i) (\<lambda>encrypted.
     bindR (ntru_decrypt lib encrypted key_A_PRV) (\<lambda>decrypted.
       kct_join lib decrypted key_A_pub key_B_pub accum))))"

definition on_accum :: "(bytes \<Rightarrow> bytes result) \<Rightarrow> (kct_loop, unit) action" where
  "on_accum f s = (case f (KCT_accum s) of Inl e \<Rightarrow> (Inl e, s) | Inr a \<Rightarrow> (Inr (), s\<lparr>KCT_accum := a\<rparr>))"

definition kct_system ::
    "('bx, 'ux) crypto_lib \<Rightarrow> bool \<Rightarrow> (byte \<times> bytes list) list \<Rightarrow> bool \<Rightarrow> c_multikeys_PAIR \<Rightarrow>
     c_multikeys_pub \<Rightarrow> nat \<Rightarrow> (kct_loop, unit) action" where
  "kct_system lib initiator received should_count self them sys =
     (case int_to_enum sys of
        None \<Rightarrow> ret ()
      | Some sys_enum \<Rightarrow>
          andThen (liftR (get_count_keys_in_system (m_pub self) sys_enum)) (\<lambda>key_count_a.
          andThen (liftR (get_count_keys_in_system them sys_enum)) (\<lambda>key_count_b.
          let key_count_bigger = max key_count_a key_count_b
          in if key_count_bigger < 1 then ret ()
             else if \<not> (key_count_a > 0 \<and> key_count_b > 0) then ret ()
             else
               andThen (liftR (t_crypto_system_type_to_ID (enum_value sys_enum))) (\<lambda>sys_id.
               andThen (\<lambda>s. if should_count
                            then (if sys < length (kct_count s) then (Inr (), s\<lparr>kct_count := (kct_count s)[sys := 1]\<rparr>)
                                  else (Inl Out_of_range, s))
                            else (Inr (), s)) (\<lambda>_.
               if sys = 5 then on_accum (foldR (kct_X25519_key lib self them) [0..<key_count_bigger])
               else if sys = 7 then
                 (if enable_ntru lib then
                    (if initiator then forA (kct_NTRU_send_key lib self them sys_id) [0..<key_count_bigger]
                     else on_accum (foldR (kct_NTRU_open_key lib received self them sys_id) [0..<key_count_bigger]))
                  else ret ())
               else if sys = 8 then
                 (if enable_sidh lib then on_accum (foldR (kct_SIDH_key lib self them) [0..<key_count_bigger])
                  else ret ())
               else ret ())))))"

definition parse_packetstart_kexasym :: "bytes \<Rightarrow> bytes result" where
  "parse_packetstart_kexasym data = bindR (parser_of_string data) (\<lambda>p. fst (pop_varstring p))"

definition kct_received :: "bool \<Rightarrow> bytes \<Rightarrow> (byte \<times> bytes list) list result" where
  \<comment> \<open>the checks of the roles, and the passwords in the packet start of the initiator\<close>
  "kct_received initiator packetstart =
     (if initiator then (if packetstart \<noteq> [] then Inl Invalid_argument else Inr [])
      else if packetstart = [] then Inl Invalid_argument
      else bindR (parse_packetstart_kexasym packetstart) (\<lambda>packetstart_kexasym.
           bindR (parser_of_string packetstart_kexasym) (\<lambda>p.
             fst (pop_map_object char_less pop_byte_u pop_vector_string p))))"

definition kct_finish :: "('bx, 'ux) crypto_lib \<Rightarrow> kct_loop \<Rightarrow> (bytes \<times> bytes) result" where
  \<comment> \<open>the key, and the packet start with the passwords\<close>
  "kct_finish lib s =
     (let KCT_ready_full = Hash1_PRV lib (KCT_accum s)
      in if \<not> length KCT_ready_full \<ge> 32 then Inl Abort
         else bindR (substr_locked KCT_ready_full 32) (\<lambda>KCT_ready.
              bindR (generated (push_map_object push_byte_u push_vector_string (kexasym_passencr_tosend s)))
                (\<lambda>packetstart. Inr (KCT_ready, packetstart))))"

definition kct_start :: "int list \<Rightarrow> bool \<Rightarrow> nat \<Rightarrow> kct_loop" where
  "kct_start counts should_count n =
     \<lparr>KCT_accum = replicate Hash1_size 0, kexasym_passencr_tosend = [],
      kct_count = (if should_count then map (\<lambda>_. 0) counts else counts), kct_draws = n\<rparr>"

definition calculate_KCT ::
    "('bx, 'ux) crypto_lib \<Rightarrow> c_multikeys_PAIR \<Rightarrow> c_multikeys_pub \<Rightarrow> bool \<Rightarrow> bytes \<Rightarrow>
     (('bx, 'ux) c_stream \<times> nat, bytes) action" where
  "calculate_KCT lib self them will_new_id packetstart = (\<lambda>(st, n).
     if get_count_of_systems (m_PRV self) \<noteq> get_count_of_systems them then (Inl Abort, (st, n))
     else if get_count_of_systems (m_PRV self) \<noteq> get_count_of_systems (m_pub self) then (Inl Abort, (st, n))
     else case kct_received (stream_side_initiator st) packetstart of
            Inl e \<Rightarrow> (Inl e, (st, n))
          | Inr received \<Rightarrow>
              (case forA (kct_system lib (stream_side_initiator st) received will_new_id self them)
                      [0..<get_count_of_systems (m_pub self)] (kct_start (m_cryptolists_count st) will_new_id n) of
                    (Inl e, s) \<Rightarrow> (Inl e, (st\<lparr>m_cryptolists_count := kct_count s\<rparr>, kct_draws s))
                  | (Inr _, s) \<Rightarrow>
                      (let st1 = st\<lparr>m_cryptolists_count := kct_count s\<rparr>
                       in case kct_finish lib s of
                            Inl e \<Rightarrow> (Inl e, (st1, kct_draws s))
                          | Inr (KCT_ready, packetstart_out) \<Rightarrow>
                              (Inr KCT_ready, (st1\<lparr>m_packetstart_kexasym := packetstart_out\<rparr>, kct_draws s)))))"

definition calculate_nonce_odd ::
    "('bx, 'ux) crypto_lib \<Rightarrow> c_multikeys_PAIR \<Rightarrow> c_multikeys_pub \<Rightarrow> bool result" where
  \<comment> \<open>the comparison also fills the cached hashes of the two objects (\<open>get_hash\<close>), which is left out: a cached hash only
     differs from a fresh one when keys are added later, and no key is added to either object after the exchange\<close>
  "calculate_nonce_odd lib self them = operator_greater lib (m_pub self) them"

definition exchange ::
    "('bx, 'ux) crypto_lib \<Rightarrow> c_multikeys_PAIR \<Rightarrow> c_multikeys_pub \<Rightarrow> bool \<Rightarrow> bytes \<Rightarrow>
     (('bx, 'ux) c_stream \<times> nat, unit) action" where
  \<comment> \<open>the common body of \<open>exchange_start\<close> and \<open>exchange_done\<close>\<close>
  "exchange lib ID_self ID_them will_new_id packetstart =
     andThen (calculate_KCT lib ID_self ID_them will_new_id packetstart) (\<lambda>KCT (st, n).
       let st1 = st\<lparr>m_KCT := KCT\<rparr>
       in case calculate_nonce_odd lib ID_self ID_them of
            Inl e \<Rightarrow> (Inl e, (st1, n))
          | Inr is_odd \<Rightarrow> (Inr (), (create_boxer_with_K lib (st1\<lparr>m_nonce_odd := is_odd\<rparr>), n)))"

definition exchange_start ::
    "('bx, 'ux) crypto_lib \<Rightarrow> c_multikeys_PAIR \<Rightarrow> c_multikeys_pub \<Rightarrow> bool \<Rightarrow>
     (('bx, 'ux) c_stream \<times> nat, unit) action" where
  "exchange_start lib ID_self ID_them will_new_id = exchange lib ID_self ID_them will_new_id []"

definition exchange_done ::
    "('bx, 'ux) crypto_lib \<Rightarrow> c_multikeys_PAIR \<Rightarrow> c_multikeys_pub \<Rightarrow> bytes \<Rightarrow>
     (('bx, 'ux) c_stream \<times> nat, unit) action" where
  "exchange_done lib ID_self ID_them packetstart = exchange lib ID_self ID_them True packetstart"

section \<open>The packet start\<close>

definition generate_packetstart ::
    "('bx, 'ux) crypto_lib \<Rightarrow> ('bx, 'ux) c_stream \<Rightarrow> (('bx, 'ux) c_stream, bytes) action" where
  \<comment> \<open>\<open>this\<close> is the first stream, the state is \<open>stream_to_encrypt_with\<close>\<close>
  "generate_packetstart lib this =
     andThen (liftR (generated (push_varstring (m_packetstart_kexasym this)))) (\<lambda>part1.
     andThen (stream_box lib (m_packetstart_IDe this)) (\<lambda>(packetstart_IDe_via_CT, nonce_used).
       liftR (generated (andThen (push_varstring (m_packetstart_kexasym this)) (\<lambda>_.
                           push_varstring packetstart_IDe_via_CT)))))"

definition parse_packetstart_IDe ::
    "('bx, 'ux) crypto_lib \<Rightarrow> bytes \<Rightarrow> (('bx, 'ux) c_stream, bytes) action" where
  \<comment> \<open>a null \<open>m_unboxer\<close> is dereferenced without a check: the process ends\<close>
  "parse_packetstart_IDe lib data st =
     (case bindR (parser_of_string data) (\<lambda>p. fst (andThen skip_varstring (\<lambda>_. pop_varstring) p)) of
        Inl e \<Rightarrow> (Inl e, st)
      | Inr data_encr \<Rightarrow>
          (case m_unboxer st of
             None \<Rightarrow> (Inl Abort, st)
           | Some cb \<Rightarrow> (case unboxer_unbox lib cb data_encr of (r, cb') \<Rightarrow> (r, st\<lparr>m_unboxer := Some cb'\<rparr>))))"

definition stream_create_IDe ::
    "('bx, 'ux) crypto_lib \<Rightarrow> bool \<Rightarrow> (('bx, 'ux) c_stream \<times> nat, c_multikeys_PAIR) action" where
  "stream_create_IDe lib will_asymkex = (\<lambda>(st, n).
     case generate_count lib (m_cryptolists_count st) will_asymkex (c_multikeys_PAIR_init, n) of
       (Inl e, (IDe, n')) \<Rightarrow> (Inl e, (st, n'))
     | (Inr _, (IDe, n')) \<Rightarrow>
         (case serialize_bin push_varstring (m_pub IDe) of
            Inl e \<Rightarrow> (Inl e, (st, n'))
          | Inr bin \<Rightarrow> (Inr IDe, (st\<lparr>m_packetstart_IDe := bin\<rparr>, n'))))"

definition set_packetstart_IDe_from :: "c_multikeys_PAIR \<Rightarrow> (('bx, 'ux) c_stream, unit) action" where
  "set_packetstart_IDe_from keypair st =
     (case serialize_bin push_varstring (m_pub keypair) of
        Inl e \<Rightarrow> (Inl e, st) | Inr bin \<Rightarrow> (Inr (), st\<lparr>m_packetstart_IDe := bin\<rparr>))"

section \<open>Tunnels\<close>

record ('bx, 'ux) c_crypto_tunnel =
  tunnel_side_initiator :: bool
  m_IDe :: "c_multikeys_PAIR option"
  m_stream_crypto_ab :: "('bx, 'ux) c_stream option"
  m_stream_crypto_final :: "('bx, 'ux) c_stream option"

definition on_ab :: "(('bx, 'ux) c_stream \<times> nat, 'a) action \<Rightarrow> (('bx, 'ux) c_crypto_tunnel \<times> nat, 'a) action" where
  "on_ab m = (\<lambda>(ct, n).
     case m_stream_crypto_ab ct of
       None \<Rightarrow> (Inl Abort, (ct, n))
     | Some st \<Rightarrow> (case m (st, n) of (r, (st', n')) \<Rightarrow> (r, (ct\<lparr>m_stream_crypto_ab := Some st'\<rparr>, n'))))"

definition on_final :: "(('bx, 'ux) c_stream \<times> nat, 'a) action \<Rightarrow> (('bx, 'ux) c_crypto_tunnel \<times> nat, 'a) action" where
  "on_final m = (\<lambda>(ct, n).
     case m_stream_crypto_final ct of
       None \<Rightarrow> (Inl Abort, (ct, n))
     | Some st \<Rightarrow> (case m (st, n) of (r, (st', n')) \<Rightarrow> (r, (ct\<lparr>m_stream_crypto_final := Some st'\<rparr>, n'))))"

definition tunnel_new :: "bool \<Rightarrow> ('bx, 'ux) c_crypto_tunnel" where
  "tunnel_new side_initiator =
     \<lparr>tunnel_side_initiator = side_initiator, m_IDe = None, m_stream_crypto_ab = None, m_stream_crypto_final = None\<rparr>"

definition tunnel_create_IDe :: "('bx, 'ux) crypto_lib \<Rightarrow> (('bx, 'ux) c_crypto_tunnel \<times> nat, unit) action" where
  "tunnel_create_IDe lib =
     andThen (\<lambda>(ct, n). (if m_IDe ct \<noteq> None then Inl Runtime_error else Inr (), (ct, n))) (\<lambda>_.
     andThen (on_ab (stream_create_IDe lib True)) (\<lambda>IDe (ct, n).
       (Inr (), (ct\<lparr>m_IDe := Some IDe\<rparr>, n))))"

definition c_crypto_tunnel_initiator ::
    "('bx, 'ux) crypto_lib \<Rightarrow> c_multikeys_PAIR \<Rightarrow> c_multikeys_pub \<Rightarrow> (('bx, 'ux) c_crypto_tunnel \<times> nat, unit) action" where
  \<comment> \<open>the constructor for the side that starts, run on \<open>tunnel_new True\<close>\<close>
  "c_crypto_tunnel_initiator lib self them =
     andThen (\<lambda>(ct, n). (Inr (), (ct\<lparr>m_stream_crypto_ab := Some (c_stream_init (tunnel_side_initiator ct))\<rparr>, n))) (\<lambda>_.
       on_ab (exchange_start lib self them True))"

definition load_them_IDe :: "bytes \<Rightarrow> c_multikeys_pub result" where
  "load_them_IDe data =
     (case load_from_bin pop_varstring data c_multikeys_pub_init of (Inl e, mk) \<Rightarrow> Inl e | (Inr _, mk) \<Rightarrow> Inr mk)"

definition tunnel_IDe :: "(('bx, 'ux) c_crypto_tunnel \<times> nat, c_multikeys_PAIR) action" where
  "tunnel_IDe = (\<lambda>(ct, n). (use_ptr (m_IDe ct), (ct, n)))"

definition c_crypto_tunnel_responder ::
    "('bx, 'ux) crypto_lib \<Rightarrow> c_multikeys_PAIR \<Rightarrow> c_multikeys_pub \<Rightarrow> bytes \<Rightarrow>
     (('bx, 'ux) c_crypto_tunnel \<times> nat, unit) action" where
  \<comment> \<open>the constructor for the side that answers, run on \<open>tunnel_new False\<close>\<close>
  "c_crypto_tunnel_responder lib self them packetstart =
     andThen (\<lambda>(ct, n). (Inr (), (ct\<lparr>m_stream_crypto_ab := Some (c_stream_init False)\<rparr>, n))) (\<lambda>_.
     andThen (on_ab (exchange_done lib self them packetstart)) (\<lambda>_.
     andThen (tunnel_create_IDe lib) (\<lambda>_.
     andThen (\<lambda>(ct, n). (Inr (), (ct\<lparr>m_stream_crypto_final := Some (c_stream_init True)\<rparr>, n))) (\<lambda>_.
     andThen (on_ab (on_fst (parse_packetstart_IDe lib packetstart))) (\<lambda>IDe_bin.
     andThen (liftR (load_them_IDe IDe_bin)) (\<lambda>them_IDe.
     andThen tunnel_IDe (\<lambda>IDe.
     andThen (on_final (exchange_start lib IDe them_IDe True)) (\<lambda>_.
       on_final (on_fst (set_packetstart_IDe_from IDe))))))))))"

definition create_CTf :: "('bx, 'ux) crypto_lib \<Rightarrow> bytes \<Rightarrow> (('bx, 'ux) c_crypto_tunnel \<times> nat, unit) action" where
  "create_CTf lib packetstart =
     andThen (on_ab (on_fst (parse_packetstart_IDe lib packetstart))) (\<lambda>IDe_bin.
     andThen (liftR (load_them_IDe IDe_bin)) (\<lambda>them_IDe.
     andThen (\<lambda>(ct, n). (Inr (), (ct\<lparr>m_stream_crypto_final := Some (c_stream_init False)\<rparr>, n))) (\<lambda>_.
     andThen tunnel_IDe (\<lambda>IDe.
       on_final (exchange_done lib IDe them_IDe packetstart)))))"

definition get_packetstart_ab :: "('bx, 'ux) crypto_lib \<Rightarrow> (('bx, 'ux) c_crypto_tunnel \<times> nat, bytes) action" where
  "get_packetstart_ab lib = on_ab (on_fst (\<lambda>st. generate_packetstart lib st st))"

definition get_packetstart_final :: "('bx, 'ux) crypto_lib \<Rightarrow> (('bx, 'ux) c_crypto_tunnel \<times> nat, bytes) action" where
  "get_packetstart_final lib =
     andThen (\<lambda>(ct, n). (use_ptr (m_stream_crypto_final ct), (ct, n))) (\<lambda>final.
       on_ab (on_fst (generate_packetstart lib final)))"

definition tunnel_box :: "('bx, 'ux) crypto_lib \<Rightarrow> bytes \<Rightarrow> (('bx, 'ux) c_crypto_tunnel \<times> nat, bytes \<times> bytes) action" where
  "tunnel_box lib msg = on_final (on_fst (stream_box lib msg))"

definition tunnel_unbox :: "('bx, 'ux) crypto_lib \<Rightarrow> bytes \<Rightarrow> bytes \<Rightarrow> (('bx, 'ux) c_crypto_tunnel \<times> nat, bytes) action" where
  "tunnel_unbox lib msg nonce = on_final (on_fst (stream_unbox_nonce lib msg nonce True))"

definition box_ab :: "('bx, 'ux) crypto_lib \<Rightarrow> bytes \<Rightarrow> (('bx, 'ux) c_crypto_tunnel \<times> nat, bytes \<times> bytes) action" where
  "box_ab lib msg = on_ab (on_fst (stream_box lib msg))"

definition unbox_ab :: "('bx, 'ux) crypto_lib \<Rightarrow> bytes \<Rightarrow> bytes \<Rightarrow> (('bx, 'ux) c_crypto_tunnel \<times> nat, bytes) action" where
  "unbox_ab lib msg nonce = on_ab (on_fst (stream_unbox_nonce lib msg nonce True))"

end
