(* ===== verification/Key_Agreement.thy ===== *)
theory Key_Agreement
  imports Crypto_Stream
begin

text \<open>
  Correctness of the key agreement of \<^verbatim>\<open>src/src/crypto/crypto.cpp\<close>: both ends of a stream
  compute the same key. The loop over the systems of the initiator and that of the respondent
  are run side by side; in every system but NTRU they join the same secrets, and in NTRU the
  respondent opens the passwords the initiator packed.
\<close>

section \<open>The two parties\<close>

definition pair_sized :: "c_multikeys_PAIR \<Rightarrow> bool" where
  "pair_sized pair \<longleftrightarrow>
     systems_known (m_cryptolists_general (m_pub pair)) \<and> length (m_cryptolists_general (m_PRV pair)) = 32
     \<and> (\<forall>ix < 32. length (m_cryptolists_general (m_PRV pair) ! ix) = length (m_cryptolists_general (m_pub pair) ! ix)
                 \<and> fits_size_t (m_cryptolists_general (m_pub pair) ! ix))"

abbreviation pubs_of :: "c_multikeys_PAIR \<Rightarrow> nat \<Rightarrow> bytes list" where
  "pubs_of pair ix \<equiv> m_cryptolists_general (m_pub pair) ! ix"

abbreviation prvs_of :: "c_multikeys_PAIR \<Rightarrow> nat \<Rightarrow> bytes list" where
  "prvs_of pair ix \<equiv> m_cryptolists_general (m_PRV pair) ! ix"

text \<open>
  What the documentation of the primitives promises for the keys of the two parties: both
  sides of a Diffie-Hellman exchange, X25519 or SIDH, get the same secret, and what was
  encrypted for an NTRU key is opened by its private key.
\<close>

definition kex_laws :: "('bx, 'ux) crypto_lib \<Rightarrow> c_multikeys_PAIR \<Rightarrow> c_multikeys_PAIR \<Rightarrow> bool" where
  "kex_laws lib A B \<longleftrightarrow>
     hash_sized lib \<and> pair_sized A \<and> pair_sized B
     \<and> (\<forall>i < length (pubs_of A 5). \<forall>j < length (pubs_of B 5). \<exists>k.
          key_agreement lib (prvs_of A 5 ! i) (pubs_of B 5 ! j) = Inr k
          \<and> key_agreement lib (prvs_of B 5 ! j) (pubs_of A 5 ! i) = Inr k)
     \<and> (\<forall>i < length (pubs_of A 8). \<forall>j < length (pubs_of B 8). \<exists>k.
          sidh_secret_agreement lib (prvs_of A 8 ! i) (pubs_of A 8 ! i) (pubs_of B 8 ! j) = Inr k
          \<and> sidh_secret_agreement lib (prvs_of B 8 ! j) (pubs_of B 8 ! j) (pubs_of A 8 ! i) = Inr k)
     \<and> (\<forall>j < length (pubs_of B 7). \<forall>n m. length m = 65 \<longrightarrow> (\<exists>c.
          ntru_encrypt lib n m (pubs_of B 7 ! j) = Inr c \<and> ntru_decrypt lib c (prvs_of B 7 ! j) = Inr m
          \<and> length c \<le> SANE_MAX_SIZE_FOR_STRING))
     \<and> (\<forall>n len. length (randombytes lib n len) = len)"

definition agreed :: "('bx, 'ux) crypto_lib \<Rightarrow> bytes \<Rightarrow> bytes \<Rightarrow> bytes \<Rightarrow> bytes" where
  "agreed lib secret P Q = Hash1_PRV lib (xor_bytes (xor_bytes (Hash1_PRV lib secret) (Hash1 lib P)) (Hash1 lib Q))"

lemma kct_join_eq:
  assumes "hash_sized lib" and "length acc = 64"
  shows "kct_join lib secret P Q acc = Inr (xor_bytes acc (agreed lib secret P Q))"
  using assms by (simp add: kct_join_def binary_string_xor_eq agreed_def)

lemma agreed_commute: "agreed lib secret P Q = agreed lib secret Q P"
  by (simp add: agreed_def xor_bytes_swap)

lemma length_agreed [simp]: "hash_sized lib \<Longrightarrow> length (agreed lib secret P Q) = 64"
  by (simp add: agreed_def)

lemma kex_keys_eq:
  assumes "pair_sized A" and "length (m_cryptolists_general them) = 32" and "enum_value s < 32"
    and "pubs_of A (enum_value s) \<noteq> []" and "m_cryptolists_general them ! enum_value s \<noteq> []"
  shows "kex_keys A them s i =
    (let ia = i mod length (pubs_of A (enum_value s)); ib = i mod length (m_cryptolists_general them ! enum_value s)
     in Inr (pubs_of A (enum_value s) ! ia, prvs_of A (enum_value s) ! ia, m_cryptolists_general them ! enum_value s ! ib))"
proof -
  have "length (m_cryptolists_general (m_pub A)) = 32" "length (m_cryptolists_general (m_PRV A)) = 32"
    "length (prvs_of A (enum_value s)) = length (pubs_of A (enum_value s))"
    using assms(1,3) by (auto simp: pair_sized_def systems_known_def)
  moreover have "i mod length (pubs_of A (enum_value s)) < length (pubs_of A (enum_value s))"
    "i mod length (m_cryptolists_general them ! enum_value s) < length (m_cryptolists_general them ! enum_value s)"
    using assms(4,5) by simp_all
  ultimately show ?thesis
    using assms(2,3) by (simp add: kex_keys_def get_public_def get_PRIVATE_def get_key_eq Let_def)
qed

lemma kex_laws_sized:
  assumes "kex_laws lib A B"
  shows "pair_sized A" "pair_sized B" "hash_sized lib"
    "length (m_cryptolists_general (m_pub A)) = 32" "length (m_cryptolists_general (m_pub B)) = 32"
  using assms by (auto simp: kex_laws_def pair_sized_def systems_known_def)

section \<open>Diffie-Hellman systems\<close>

lemma X25519_key_agree:
  assumes "kex_laws lib A B" and "pubs_of A 5 \<noteq> []" and "pubs_of B 5 \<noteq> []" and "length acc = 64"
  shows "\<exists>a. length a = 64 \<and> kct_X25519_key lib A (m_pub B) i acc = Inr a \<and> kct_X25519_key lib B (m_pub A) i acc = Inr a"
proof -
  note sized = kex_laws_sized [OF assms(1)]
  let ?i = "i mod length (pubs_of A 5)" and ?j = "i mod length (pubs_of B 5)"
  obtain k where k: "key_agreement lib (prvs_of A 5 ! ?i) (pubs_of B 5 ! ?j) = Inr k"
      "key_agreement lib (prvs_of B 5 ! ?j) (pubs_of A 5 ! ?i) = Inr k"
    using assms(1) mod_less_divisor [of "length (pubs_of A 5)" i] mod_less_divisor [of "length (pubs_of B 5)" i] assms(2,3)
    unfolding kex_laws_def by blast
  have "kct_X25519_key lib A (m_pub B) i acc = Inr (xor_bytes acc (agreed lib k (pubs_of A 5 ! ?i) (pubs_of B 5 ! ?j)))"
    using k(1) assms(2,3) kex_keys_eq [OF sized(1,5), of e_crypto_system_type_X25519 i]
    by (simp add: kct_X25519_key_def kct_join_eq [OF sized(3) assms(4)] Let_def)
  moreover have "kct_X25519_key lib B (m_pub A) i acc = Inr (xor_bytes acc (agreed lib k (pubs_of B 5 ! ?j) (pubs_of A 5 ! ?i)))"
    using k(2) assms(2,3) kex_keys_eq [OF sized(2,4), of e_crypto_system_type_X25519 i]
    by (simp add: kct_X25519_key_def kct_join_eq [OF sized(3) assms(4)] Let_def)
  ultimately show ?thesis
    using agreed_commute [of lib k "pubs_of A 5 ! ?i" "pubs_of B 5 ! ?j"] sized(3) assms(4)
    by (intro exI conjI) simp_all
qed

lemma SIDH_key_agree:
  assumes "kex_laws lib A B" and "pubs_of A 8 \<noteq> []" and "pubs_of B 8 \<noteq> []" and "length acc = 64"
  shows "\<exists>a. length a = 64 \<and> kct_SIDH_key lib A (m_pub B) i acc = Inr a \<and> kct_SIDH_key lib B (m_pub A) i acc = Inr a"
proof -
  note sized = kex_laws_sized [OF assms(1)]
  let ?i = "i mod length (pubs_of A 8)" and ?j = "i mod length (pubs_of B 8)"
  obtain k where k: "sidh_secret_agreement lib (prvs_of A 8 ! ?i) (pubs_of A 8 ! ?i) (pubs_of B 8 ! ?j) = Inr k"
      "sidh_secret_agreement lib (prvs_of B 8 ! ?j) (pubs_of B 8 ! ?j) (pubs_of A 8 ! ?i) = Inr k"
    using assms(1) mod_less_divisor [of "length (pubs_of A 8)" i] mod_less_divisor [of "length (pubs_of B 8)" i] assms(2,3)
    unfolding kex_laws_def by blast
  have "kct_SIDH_key lib A (m_pub B) i acc = Inr (xor_bytes acc (agreed lib k (pubs_of A 8 ! ?i) (pubs_of B 8 ! ?j)))"
    using k(1) assms(2,3) kex_keys_eq [OF sized(1,5), of e_crypto_system_type_SIDH i]
    by (simp add: kct_SIDH_key_def kct_join_eq [OF sized(3) assms(4)] Let_def)
  moreover have "kct_SIDH_key lib B (m_pub A) i acc = Inr (xor_bytes acc (agreed lib k (pubs_of B 8 ! ?j) (pubs_of A 8 ! ?i)))"
    using k(2) assms(2,3) kex_keys_eq [OF sized(2,4), of e_crypto_system_type_SIDH i]
    by (simp add: kct_SIDH_key_def kct_join_eq [OF sized(3) assms(4)] Let_def)
  ultimately show ?thesis
    using agreed_commute [of lib k "pubs_of A 8 ! ?i" "pubs_of B 8 ! ?j"] sized(3) assms(4)
    by (intro exI conjI) simp_all
qed

lemma foldR_agree:
  assumes "\<And>i acc. length acc = 64 \<Longrightarrow> \<exists>a. length a = 64 \<and> f i acc = Inr a \<and> g i acc = Inr a"
  shows "length acc = 64 \<Longrightarrow> \<exists>a. length a = 64 \<and> foldR f is acc = Inr a \<and> foldR g is acc = Inr a"
proof (induction "is" arbitrary: acc)
  case (Cons i "is")
  obtain a where "length a = 64" "f i acc = Inr a" "g i acc = Inr a" using assms [OF Cons.prems] by blast
  with Cons.IH [of a] show ?case by simp
qed simp

section \<open>Every system but NTRU\<close>

definition common_system :: "c_multikeys_PAIR \<Rightarrow> c_multikeys_PAIR \<Rightarrow> nat \<Rightarrow> bool" where
  "common_system A B sys \<longleftrightarrow> int_to_enum sys \<noteq> None \<and> pubs_of A sys \<noteq> [] \<and> pubs_of B sys \<noteq> []"

definition mark_count :: "bool \<Rightarrow> bool \<Rightarrow> nat \<Rightarrow> int list \<Rightarrow> int list" where
  "mark_count should_count is_common sys cnt = (if should_count \<and> is_common then cnt[sys := 1] else cnt)"

lemma length_mark_count [simp]: "length (mark_count sc c sys cnt) = length cnt"
  by (simp add: mark_count_def)

lemma kct_system_skip:
  assumes "pair_sized A" and "pair_sized B" and "sys < 32" and "\<not> common_system A B sys"
  shows "kct_system lib ini received sc A (m_pub B) sys s = (Inr (), s)"
proof (cases "int_to_enum sys")
  case None
  then show ?thesis by (simp add: kct_system_def)
next
  case (Some e)
  then have "enum_value e = sys" by (rule int_to_enum_Some)
  then show ?thesis
    using Some assms by (auto simp: kct_system_def Let_def common_system_def pair_sized_def systems_known_def)
qed

text \<open>The body of the loop for a system both sides have keys of.\<close>

definition kct_dispatch ::
    "('bx, 'ux) crypto_lib \<Rightarrow> bool \<Rightarrow> (byte \<times> bytes list) list \<Rightarrow> c_multikeys_PAIR \<Rightarrow> c_multikeys_PAIR \<Rightarrow> nat \<Rightarrow> (kct_loop, unit) action" where
  "kct_dispatch lib ini received A B sys =
     (let n = max (length (pubs_of A sys)) (length (pubs_of B sys))
      in if sys = 5 then on_accum (foldR (kct_X25519_key lib A (m_pub B)) [0..<n])
         else if sys = 7 then
           (if enable_ntru lib then
              (if ini then forA (kct_NTRU_send_key lib A (m_pub B) 0x74) [0..<n]
               else on_accum (foldR (kct_NTRU_open_key lib received A (m_pub B) 0x74) [0..<n]))
            else ret ())
         else if sys = 8 then (if enable_sidh lib then on_accum (foldR (kct_SIDH_key lib A (m_pub B)) [0..<n]) else ret ())
         else ret ())"

lemma kct_system_common:
  assumes "pair_sized A" and "pair_sized B" and "sys < 32" and "common_system A B sys" and "length (kct_count s) = 32"
  shows "kct_system lib ini received sc A (m_pub B) sys s =
    kct_dispatch lib ini received A B sys (s\<lparr>kct_count := mark_count sc True sys (kct_count s)\<rparr>)"
proof -
  obtain e where e: "int_to_enum sys = Some e" "enum_value e = sys"
    using assms(4) int_to_enum_Some by (auto simp: common_system_def)
  obtain c where c: "t_crypto_system_type_to_ID sys = Inr c"
    using assms(1,3,4) by (auto simp: pair_sized_def systems_known_def common_system_def)
  then have c7: "sys = 7 \<longrightarrow> c = 0x74" by (auto simp: t_crypto_system_type_to_ID_def)
  have "length (m_cryptolists_general (m_pub A)) = 32" "length (m_cryptolists_general (m_pub B)) = 32"
    using assms(1,2) by (auto simp: pair_sized_def systems_known_def)
  then show ?thesis
    using e c c7 assms(3,4,5)
    by (auto simp: kct_system_def kct_dispatch_def common_system_def Let_def andThen_def mark_count_def)
qed

lemma kct_dispatch_agree:
  assumes "kex_laws lib A B" and "sys \<noteq> 7" and "pubs_of A sys \<noteq> []" and "pubs_of B sys \<noteq> []" and "length acc = 64"
  shows "\<exists>a. length a = 64 \<and> (\<forall>ini received s. KCT_accum s = acc \<longrightarrow>
      kct_dispatch lib ini received A B sys s = (Inr (), s\<lparr>KCT_accum := a\<rparr>)
      \<and> kct_dispatch lib ini received B A sys s = (Inr (), s\<lparr>KCT_accum := a\<rparr>))"
proof -
  let ?n = "max (length (pubs_of A sys)) (length (pubs_of B sys))"
  have same: "s\<lparr>KCT_accum := KCT_accum s\<rparr> = s" for s :: kct_loop by simp
  show ?thesis
  proof (cases "sys = 5 \<or> sys = 8 \<and> enable_sidh lib")
    case False
    with assms(2,5) show ?thesis by (intro exI [of _ acc]) (auto simp: kct_dispatch_def same)
  next
    case True
    then show ?thesis
    proof
      assume 5: "sys = 5"
      obtain a where "length a = 64" "foldR (kct_X25519_key lib A (m_pub B)) [0..<?n] acc = Inr a"
          "foldR (kct_X25519_key lib B (m_pub A)) [0..<?n] acc = Inr a"
        using foldR_agree [where f = "kct_X25519_key lib A (m_pub B)" and g = "kct_X25519_key lib B (m_pub A)", OF _ assms(5)]
          X25519_key_agree [OF assms(1)] assms(3,4) 5 by blast
      then show ?thesis by (intro exI [of _ a]) (simp add: kct_dispatch_def Let_def 5 on_accum_def
            max.commute [of "length (pubs_of B 5)" "length (pubs_of A 5)"])
    next
      assume 8: "sys = 8 \<and> enable_sidh lib"
      obtain a where "length a = 64" "foldR (kct_SIDH_key lib A (m_pub B)) [0..<?n] acc = Inr a"
          "foldR (kct_SIDH_key lib B (m_pub A)) [0..<?n] acc = Inr a"
        using foldR_agree [where f = "kct_SIDH_key lib A (m_pub B)" and g = "kct_SIDH_key lib B (m_pub A)", OF _ assms(5)]
          SIDH_key_agree [OF assms(1)] assms(3,4) 8 by blast
      then show ?thesis by (intro exI [of _ a]) (simp add: kct_dispatch_def Let_def 8 on_accum_def
            max.commute [of "length (pubs_of B 8)" "length (pubs_of A 8)"])
    qed
  qed
qed

text \<open>\<open>runs_alike xs acc a\<close>: over the systems \<open>xs\<close> both parties go from \<open>acc\<close> to \<open>a\<close>.\<close>

definition runs_alike ::
    "('bx, 'ux) crypto_lib \<Rightarrow> c_multikeys_PAIR \<Rightarrow> c_multikeys_PAIR \<Rightarrow> nat list \<Rightarrow> bytes \<Rightarrow> bytes \<Rightarrow> bool" where
  "runs_alike lib A B xs acc a \<longleftrightarrow>
     (\<forall>ini received sc s. KCT_accum s = acc \<and> length (kct_count s) = 32 \<longrightarrow>
        (\<exists>cnt. length cnt = 32
          \<and> forA (kct_system lib ini received sc A (m_pub B)) xs s = (Inr (), s\<lparr>KCT_accum := a, kct_count := cnt\<rparr>)
          \<and> forA (kct_system lib ini received sc B (m_pub A)) xs s = (Inr (), s\<lparr>KCT_accum := a, kct_count := cnt\<rparr>)))"

lemma common_system_commute: "common_system A B sys = common_system B A sys"
  by (auto simp: common_system_def)

lemma kct_system_agree:
  assumes "kex_laws lib A B" and "sys < 32" and "sys \<noteq> 7" and "length acc = 64"
  shows "\<exists>a. length a = 64 \<and> (\<forall>ini received sc s. KCT_accum s = acc \<and> length (kct_count s) = 32 \<longrightarrow>
      (\<exists>cnt. length cnt = 32
        \<and> kct_system lib ini received sc A (m_pub B) sys s = (Inr (), s\<lparr>KCT_accum := a, kct_count := cnt\<rparr>)
        \<and> kct_system lib ini received sc B (m_pub A) sys s = (Inr (), s\<lparr>KCT_accum := a, kct_count := cnt\<rparr>)))"
proof (cases "common_system A B sys")
  case False
  note sized = kex_laws_sized [OF assms(1)]
  have "kct_system lib ini received sc A (m_pub B) sys s = (Inr (), s)"
    "kct_system lib ini received sc B (m_pub A) sys s = (Inr (), s)" for ini received sc s
    using False common_system_commute [of A B] by (auto intro!: kct_system_skip sized assms(2))
  moreover have "s\<lparr>KCT_accum := acc, kct_count := kct_count s\<rparr> = s" if "KCT_accum s = acc" for s :: kct_loop
    using that by auto
  ultimately show ?thesis using assms(4) by (intro exI [of _ acc]) metis
next
  case True
  note sized = kex_laws_sized [OF assms(1)]
  have True': "common_system B A sys" using True common_system_commute by blast
  obtain a where a: "length a = 64"
    "\<And>ini received s. KCT_accum s = acc \<Longrightarrow> kct_dispatch lib ini received A B sys s = (Inr (), s\<lparr>KCT_accum := a\<rparr>)"
    "\<And>ini received s. KCT_accum s = acc \<Longrightarrow> kct_dispatch lib ini received B A sys s = (Inr (), s\<lparr>KCT_accum := a\<rparr>)"
    using kct_dispatch_agree [OF assms(1,3)] True assms(4) by (metis common_system_def)
  show ?thesis
  proof (intro exI [of _ a] conjI allI impI a(1))
    fix ini received sc and s :: kct_loop
    assume s: "KCT_accum s = acc \<and> length (kct_count s) = 32"
    show "\<exists>cnt. length cnt = 32
        \<and> kct_system lib ini received sc A (m_pub B) sys s = (Inr (), s\<lparr>KCT_accum := a, kct_count := cnt\<rparr>)
        \<and> kct_system lib ini received sc B (m_pub A) sys s = (Inr (), s\<lparr>KCT_accum := a, kct_count := cnt\<rparr>)"
      using s a kct_system_common [OF sized(1,2) assms(2) True, where lib = lib and s = s]
        kct_system_common [OF sized(2,1) assms(2) True', where lib = lib and s = s]
      by (intro exI [of _ "mark_count sc True sys (kct_count s)"]) simp
  qed
qed

lemma runs_alike_systems:
  assumes "kex_laws lib A B"
  shows "\<lbrakk>length acc = 64; \<forall>x \<in> set xs. x < 32 \<and> x \<noteq> 7\<rbrakk> \<Longrightarrow> \<exists>a. length a = 64 \<and> runs_alike lib A B xs acc a"
proof (induction xs arbitrary: acc)
  case Nil
  have "s\<lparr>KCT_accum := acc, kct_count := kct_count s\<rparr> = s" if "KCT_accum s = acc" for s :: kct_loop
    using that by auto
  with Nil show ?case by (intro exI [of _ acc]) (auto simp: runs_alike_def intro!: exI [of _ "kct_count _"])
next
  case (Cons x xs)
  obtain a1 where a1: "length a1 = 64" "\<And>ini received sc s. KCT_accum s = acc \<Longrightarrow> length (kct_count s) = 32 \<Longrightarrow>
      (\<exists>cnt. length cnt = 32
        \<and> kct_system lib ini received sc A (m_pub B) x s = (Inr (), s\<lparr>KCT_accum := a1, kct_count := cnt\<rparr>)
        \<and> kct_system lib ini received sc B (m_pub A) x s = (Inr (), s\<lparr>KCT_accum := a1, kct_count := cnt\<rparr>))"
    using kct_system_agree [OF assms _ _ Cons.prems(1), of x] Cons.prems(2) by auto
  obtain a where a: "length a = 64" "runs_alike lib A B xs a1 a"
    using Cons.IH [OF a1(1)] Cons.prems(2) by auto
  have "runs_alike lib A B (x # xs) acc a"
    unfolding runs_alike_def
  proof (intro allI impI)
    fix ini received sc and s :: kct_loop
    assume s: "KCT_accum s = acc \<and> length (kct_count s) = 32"
    obtain c1 where c1: "length c1 = 32"
      "kct_system lib ini received sc A (m_pub B) x s = (Inr (), s\<lparr>KCT_accum := a1, kct_count := c1\<rparr>)"
      "kct_system lib ini received sc B (m_pub A) x s = (Inr (), s\<lparr>KCT_accum := a1, kct_count := c1\<rparr>)"
      using a1(2) s by blast
    let ?s1 = "s\<lparr>KCT_accum := a1, kct_count := c1\<rparr>"
    obtain c2 where "length c2 = 32"
      "forA (kct_system lib ini received sc A (m_pub B)) xs ?s1 = (Inr (), ?s1\<lparr>KCT_accum := a, kct_count := c2\<rparr>)"
      "forA (kct_system lib ini received sc B (m_pub A)) xs ?s1 = (Inr (), ?s1\<lparr>KCT_accum := a, kct_count := c2\<rparr>)"
      using a(2) [unfolded runs_alike_def, THEN spec, of ini, THEN spec, of received, THEN spec, of sc, THEN spec, of ?s1] c1(1)
      by auto
    with c1 show "\<exists>cnt. length cnt = 32
        \<and> forA (kct_system lib ini received sc A (m_pub B)) (x # xs) s = (Inr (), s\<lparr>KCT_accum := a, kct_count := cnt\<rparr>)
        \<and> forA (kct_system lib ini received sc B (m_pub A)) (x # xs) s = (Inr (), s\<lparr>KCT_accum := a, kct_count := cnt\<rparr>)"
      by (intro exI [of _ c2]) (simp add: andThen_def)
  qed
  with a(1) show ?case by blast
qed

section \<open>NTRU\<close>

lemma NTRU_key_agree:
  assumes "kex_laws lib A B" and "pubs_of A 7 \<noteq> []" and "pubs_of B 7 \<noteq> []"
    and "length (KCT_accum s) = 64"
    and "kexasym_passencr_tosend s = (if encs = [] then [] else [(0x74, encs)])"
    and "length encs = i"
  shows "\<exists>c a. length a = 64 \<and> length c \<le> SANE_MAX_SIZE_FOR_STRING
    \<and> kct_NTRU_send_key lib A (m_pub B) 0x74 i s =
        (Inr (), s\<lparr>KCT_accum := a, kexasym_passencr_tosend := [(0x74, encs @ [c])], kct_draws := kct_draws s + 2\<rparr>)
    \<and> (\<forall>more. kct_NTRU_open_key lib [(0x74, encs @ c # more)] B (m_pub A) 0x74 i (KCT_accum s) = Inr a)"
proof -
  note sized = kex_laws_sized [OF assms(1)]
  let ?i = "i mod length (pubs_of A 7)" and ?j = "i mod length (pubs_of B 7)"
  let ?m = "randombytes lib (kct_draws s) 65" and ?P = "pubs_of A 7 ! ?i" and ?Q = "pubs_of B 7 ! ?j"
  have j: "?j < length (pubs_of B 7)" using assms(3) by simp
  have m: "length ?m = 65" using assms(1) by (simp add: kex_laws_def)
  obtain c where c: "ntru_encrypt lib (kct_draws s + 1) ?m ?Q = Inr c" "ntru_decrypt lib c (prvs_of B 7 ! ?j) = Inr ?m"
    "length c \<le> SANE_MAX_SIZE_FOR_STRING"
    using assms(1) j m unfolding kex_laws_def by blast
  let ?a = "xor_bytes (KCT_accum s) (agreed lib ?m ?P ?Q)"
  have push: "map_push_back 0x74 c (kexasym_passencr_tosend s) = [(0x74, encs @ [c])]"
    using assms(5) by (auto simp: char_less_def)
  have "kct_NTRU_send_key lib A (m_pub B) 0x74 i s =
      (Inr (), s\<lparr>KCT_accum := ?a, kexasym_passencr_tosend := [(0x74, encs @ [c])], kct_draws := kct_draws s + 2\<rparr>)"
    using c(1) assms(2,3) kex_keys_eq [OF sized(1,5), of e_crypto_system_type_NTRU_EES439EP1 i]
    by (simp add: kct_NTRU_send_key_def push kct_join_eq [OF sized(3) assms(4)] Let_def del: map_push_back.simps)
  moreover have "kct_NTRU_open_key lib [(0x74, encs @ c # more)] B (m_pub A) 0x74 i (KCT_accum s) = Inr ?a" for more
    using c(2) assms(2,3,6) kex_keys_eq [OF sized(2,4), of e_crypto_system_type_NTRU_EES439EP1 i]
      agreed_commute [of lib ?m ?P ?Q]
    by (simp add: kct_NTRU_open_key_def map_at_def char_less_def kct_join_eq [OF sized(3) assms(4)] Let_def nth_append)
  ultimately show ?thesis using c(3) sized(3) assms(4) by (intro exI conjI allI) auto
qed

lemma NTRU_loop_agree:
  assumes "kex_laws lib A B" and "pubs_of A 7 \<noteq> []" and "pubs_of B 7 \<noteq> []"
    and "length (KCT_accum s) = 64" and "kexasym_passencr_tosend s = []"
  shows "\<exists>encs a. length encs = n \<and> length a = 64 \<and> list_all (\<lambda>c. length c \<le> SANE_MAX_SIZE_FOR_STRING) encs
    \<and> forA (kct_NTRU_send_key lib A (m_pub B) 0x74) [0..<n] s =
        (Inr (), s\<lparr>KCT_accum := a, kexasym_passencr_tosend := (if encs = [] then [] else [(0x74, encs)]),
                   kct_draws := kct_draws s + 2 * n\<rparr>)
    \<and> (\<forall>more. foldR (kct_NTRU_open_key lib [(0x74, encs @ more)] B (m_pub A) 0x74) [0..<n] (KCT_accum s) = Inr a)"
proof (induction n)
  case 0
  have "s\<lparr>KCT_accum := KCT_accum s, kexasym_passencr_tosend := [], kct_draws := kct_draws s\<rparr> = s"
    using assms(5) by (cases s) simp
  then show ?case using assms(4) by (intro exI [of _ "[]"] exI [of _ "KCT_accum s"]) simp
next
  case (Suc n)
  then obtain encs a where IH: "length encs = n" "length a = 64" "list_all (\<lambda>c. length c \<le> SANE_MAX_SIZE_FOR_STRING) encs"
    "forA (kct_NTRU_send_key lib A (m_pub B) 0x74) [0..<n] s =
        (Inr (), s\<lparr>KCT_accum := a, kexasym_passencr_tosend := (if encs = [] then [] else [(0x74, encs)]),
                   kct_draws := kct_draws s + 2 * n\<rparr>)"
    "\<And>more. foldR (kct_NTRU_open_key lib [(0x74, encs @ more)] B (m_pub A) 0x74) [0..<n] (KCT_accum s) = Inr a"
    by blast
  let ?s = "s\<lparr>KCT_accum := a, kexasym_passencr_tosend := (if encs = [] then [] else [(0x74, encs)]),
               kct_draws := kct_draws s + 2 * n\<rparr>"
  have "length (KCT_accum ?s) = 64" "kexasym_passencr_tosend ?s = (if encs = [] then [] else [(0x74, encs)])"
    using IH(2) by simp_all
  from NTRU_key_agree [OF assms(1-3) this IH(1)]
  obtain c a' where step: "length a' = 64" "length c \<le> SANE_MAX_SIZE_FOR_STRING"
    "kct_NTRU_send_key lib A (m_pub B) 0x74 n ?s =
        (Inr (), ?s\<lparr>KCT_accum := a', kexasym_passencr_tosend := [(0x74, encs @ [c])], kct_draws := kct_draws ?s + 2\<rparr>)"
    "\<And>more. kct_NTRU_open_key lib [(0x74, encs @ c # more)] B (m_pub A) 0x74 n (KCT_accum ?s) = Inr a'"
    by blast
  have "forA (kct_NTRU_send_key lib A (m_pub B) 0x74) [0..<Suc n] s =
      (Inr (), s\<lparr>KCT_accum := a', kexasym_passencr_tosend := [(0x74, encs @ [c])], kct_draws := kct_draws s + 2 * Suc n\<rparr>)"
    using IH(4) step(3) by (simp add: forA_append andThen_def)
  moreover have "foldR (kct_NTRU_open_key lib [(0x74, (encs @ [c]) @ more)] B (m_pub A) 0x74) [0..<Suc n] (KCT_accum s) = Inr a'" for more
    using IH(5) [of "c # more"] step(4) [of more] by (simp add: foldR_append)
  ultimately show ?case
    using IH(1,3) step(1,2) by (intro exI [of _ "encs @ [c]"] exI [of _ a']) simp
qed

lemma NTRU_system_agree:
  assumes "kex_laws lib A B" and "length (KCT_accum s) = 64" and "kexasym_passencr_tosend s = []" and "length (kct_count s) = 32"
  shows "\<exists>a tosend d cnt. length a = 64 \<and> kexmap.map_ok tosend \<and> length cnt = 32
    \<and> (\<not> common_system A B 7 \<longrightarrow> tosend = [])
    \<and> kct_system lib True received sc A (m_pub B) 7 s =
        (Inr (), s\<lparr>KCT_accum := a, kexasym_passencr_tosend := tosend, kct_draws := d, kct_count := cnt\<rparr>)
    \<and> (\<forall>sc' s'. KCT_accum s' = KCT_accum s \<and> length (kct_count s') = 32 \<longrightarrow>
          (\<exists>cnt'. length cnt' = 32 \<and> kct_system lib False tosend sc' B (m_pub A) 7 s' =
             (Inr (), s'\<lparr>KCT_accum := a, kct_count := cnt'\<rparr>)))"
proof -
  note sized = kex_laws_sized [OF assms(1)]
  have idle: "s\<lparr>KCT_accum := KCT_accum s, kexasym_passencr_tosend := [], kct_draws := kct_draws s, kct_count := cnt\<rparr>
      = s\<lparr>kct_count := cnt\<rparr>" for cnt
    using assms(3) by (cases s) simp
  have empty_ok: "kexmap.map_ok []" unfolding kexmap.map_ok_def by (simp add: fits_size_t_def)
  show ?thesis
  proof (cases "common_system A B 7")
    case False
    then have "kct_system lib True received sc A (m_pub B) 7 s = (Inr (), s\<lparr>kct_count := kct_count s\<rparr>)"
      "kct_system lib False [] sc' B (m_pub A) 7 s' = (Inr (), s'\<lparr>KCT_accum := KCT_accum s', kct_count := kct_count s'\<rparr>)" for sc' s'
      using common_system_commute [of A B] kct_system_skip [OF sized(1,2), where lib = lib]
        kct_system_skip [OF sized(2,1), where lib = lib] by auto
    then show ?thesis
      using assms(2,4) empty_ok idle [of "kct_count s"]
      by (intro exI [of _ "KCT_accum s"] exI [of _ "[] :: (byte \<times> bytes list) list"] exI [of _ "kct_draws s"] exI [of _ "kct_count s"]) auto
  next
    case True
    then have True': "common_system B A 7" using common_system_commute by blast
    let ?n = "max (length (pubs_of A 7)) (length (pubs_of B 7))"
    let ?s = "s\<lparr>kct_count := mark_count sc True 7 (kct_count s)\<rparr>"
    have keys: "pubs_of A 7 \<noteq> []" "pubs_of B 7 \<noteq> []" using True by (auto simp: common_system_def)
    have A: "kct_system lib True received sc A (m_pub B) 7 s = kct_dispatch lib True received A B 7 ?s"
      by (rule kct_system_common [OF sized(1,2) _ True assms(4)]) simp
    have B: "kct_system lib False tosend sc' B (m_pub A) 7 s' =
        kct_dispatch lib False tosend B A 7 (s'\<lparr>kct_count := mark_count sc' True 7 (kct_count s')\<rparr>)"
      if "length (kct_count s') = 32" for tosend sc' s'
      by (rule kct_system_common [OF sized(2,1) _ True' that]) simp
    show ?thesis
    proof (cases "enable_ntru lib")
      case False
      have "\<exists>cnt'. length cnt' = 32 \<and> kct_system lib False [] sc' B (m_pub A) 7 s' =
          (Inr (), s'\<lparr>KCT_accum := KCT_accum s, kct_count := cnt'\<rparr>)"
        if s': "KCT_accum s' = KCT_accum s" "length (kct_count s') = 32" for sc' s'
        using B [OF s'(2)] s'(2) False unfolding s'(1) [symmetric]
        by (intro exI [of _ "mark_count sc' True 7 (kct_count s')"]) (simp add: kct_dispatch_def)
      moreover have "kct_system lib True received sc A (m_pub B) 7 s = (Inr (), ?s)"
        using A False by (simp add: kct_dispatch_def)
      ultimately show ?thesis
        using assms(2,4) empty_ok idle [of "mark_count sc True 7 (kct_count s)"]
        by (intro exI [of _ "KCT_accum s"] exI [of _ "[] :: (byte \<times> bytes list) list"] exI [of _ "kct_draws s"]
            exI [of _ "mark_count sc True 7 (kct_count s)"]) auto
    next
      case on: True
      obtain encs a where loop: "length encs = ?n" "length a = 64" "list_all (\<lambda>c. length c \<le> SANE_MAX_SIZE_FOR_STRING) encs"
        "forA (kct_NTRU_send_key lib A (m_pub B) 0x74) [0..<?n] ?s =
          (Inr (), ?s\<lparr>KCT_accum := a, kexasym_passencr_tosend := (if encs = [] then [] else [(0x74, encs)]),
                      kct_draws := kct_draws ?s + 2 * ?n\<rparr>)"
        "\<And>more. foldR (kct_NTRU_open_key lib [(0x74, encs @ more)] B (m_pub A) 0x74) [0..<?n] (KCT_accum ?s) = Inr a"
        using NTRU_loop_agree [OF assms(1) keys, of ?s ?n] assms(2,3) by auto
      have ne: "encs \<noteq> []" using loop(1) keys by auto
      have "fits_size_t encs" using loop(1) sized(1,2) by (auto simp: fits_size_t_def pair_sized_def max_def)
      then have "kexmap.map_ok [(0x74, encs)]"
        using loop(3) unfolding kexmap.map_ok_def by (simp add: fits_size_t_def [of "[_]"])
      moreover have "kct_system lib True received sc A (m_pub B) 7 s =
          (Inr (), s\<lparr>KCT_accum := a, kexasym_passencr_tosend := [(0x74, encs)], kct_draws := kct_draws s + 2 * ?n,
                     kct_count := mark_count sc True 7 (kct_count s)\<rparr>)"
        using A loop(4) ne on by (simp add: kct_dispatch_def Let_def)
      moreover have "\<exists>cnt'. length cnt' = 32 \<and> kct_system lib False [(0x74, encs)] sc' B (m_pub A) 7 s' =
          (Inr (), s'\<lparr>KCT_accum := a, kct_count := cnt'\<rparr>)"
        if "KCT_accum s' = KCT_accum s" "length (kct_count s') = 32" for sc' s'
        using B [OF that(2)] loop(5) [of "[]"] on that max.commute [of "length (pubs_of B 7)" "length (pubs_of A 7)"]
        by (intro exI [of _ "mark_count sc' True 7 (kct_count s')"]) (simp add: kct_dispatch_def Let_def on_accum_def)
      ultimately show ?thesis
        using loop(2) assms(4) True
        by (intro exI [of _ a] exI [of _ "[(0x74, encs)]"] exI [of _ "kct_draws s + 2 * ?n"]
            exI [of _ "mark_count sc True 7 (kct_count s)"]) auto
    qed
  qed
qed

section \<open>The whole loop\<close>

lemma runs_alikeD:
  assumes "runs_alike lib A B xs acc a" and "KCT_accum s = acc" and "length (kct_count s) = 32"
  shows "\<exists>cnt. length cnt = 32
      \<and> forA (kct_system lib ini received sc A (m_pub B)) xs s = (Inr (), s\<lparr>KCT_accum := a, kct_count := cnt\<rparr>)"
    and "\<exists>cnt. length cnt = 32
      \<and> forA (kct_system lib ini received sc B (m_pub A)) xs s = (Inr (), s\<lparr>KCT_accum := a, kct_count := cnt\<rparr>)"
  using assms unfolding runs_alike_def by blast+

lemma kct_loop_agree:
  assumes "kex_laws lib A B" and "length (KCT_accum s) = 64" and "kexasym_passencr_tosend s = []" and "length (kct_count s) = 32"
  shows "\<exists>a tosend d cnt. length a = 64 \<and> kexmap.map_ok tosend \<and> length cnt = 32
    \<and> (\<not> common_system A B 7 \<longrightarrow> tosend = [])
    \<and> forA (kct_system lib True received sc A (m_pub B)) [0..<32] s =
        (Inr (), s\<lparr>KCT_accum := a, kexasym_passencr_tosend := tosend, kct_draws := d, kct_count := cnt\<rparr>)
    \<and> (\<forall>sc' s'. KCT_accum s' = KCT_accum s \<and> length (kct_count s') = 32 \<longrightarrow>
          (\<exists>cnt'. length cnt' = 32 \<and> forA (kct_system lib False tosend sc' B (m_pub A)) [0..<32] s' =
             (Inr (), s'\<lparr>KCT_accum := a, kct_count := cnt'\<rparr>)))"
proof -
  obtain a1 where a1: "length a1 = 64" "runs_alike lib A B [0..<7] (KCT_accum s) a1"
    using runs_alike_systems [OF assms(1,2), of "[0..<7]"] by auto
  obtain c1 where c1: "length c1 = 32" "forA (kct_system lib True received sc A (m_pub B)) [0..<7] s =
      (Inr (), s\<lparr>KCT_accum := a1, kct_count := c1\<rparr>)"
    using runs_alikeD(1) [OF a1(2) refl assms(4)] by blast
  let ?s1 = "s\<lparr>KCT_accum := a1, kct_count := c1\<rparr>"
  have "length (KCT_accum ?s1) = 64" "kexasym_passencr_tosend ?s1 = []" "length (kct_count ?s1) = 32" "KCT_accum ?s1 = a1"
    using a1(1) c1(1) assms(3) by simp_all
  from NTRU_system_agree [OF assms(1) this(1-3), of received sc, unfolded this(4)]
  obtain a2 tosend d c2 where a2: "length a2 = 64" "kexmap.map_ok tosend" "length c2 = 32"
    and none: "\<not> common_system A B 7 \<longrightarrow> tosend = []"
    and sys7: "kct_system lib True received sc A (m_pub B) 7 ?s1 =
        (Inr (), ?s1\<lparr>KCT_accum := a2, kexasym_passencr_tosend := tosend, kct_draws := d, kct_count := c2\<rparr>)"
    and sys7': "\<And>sc' s'. KCT_accum s' = a1 \<Longrightarrow> length (kct_count s') = 32 \<Longrightarrow>
          (\<exists>cnt'. length cnt' = 32 \<and> kct_system lib False tosend sc' B (m_pub A) 7 s' =
             (Inr (), s'\<lparr>KCT_accum := a2, kct_count := cnt'\<rparr>))"
    by blast
  let ?s2 = "?s1\<lparr>KCT_accum := a2, kexasym_passencr_tosend := tosend, kct_draws := d, kct_count := c2\<rparr>"
  have late: "\<forall>x \<in> set [Suc 7..<32]. x < 32 \<and> x \<noteq> 7" by simp
  obtain a where a: "length a = 64" "runs_alike lib A B [Suc 7..<32] a2 a"
    using runs_alike_systems [OF assms(1) a2(1) late] by blast
  obtain c3 where c3: "length c3 = 32" "forA (kct_system lib True received sc A (m_pub B)) [Suc 7..<32] ?s2 =
      (Inr (), ?s2\<lparr>KCT_accum := a, kct_count := c3\<rparr>)"
    using runs_alikeD(1) [OF a(2), of ?s2 True received sc] a2(3) by auto
  have "forA (kct_system lib True received sc A (m_pub B)) [0..<32] s =
      (Inr (), s\<lparr>KCT_accum := a, kexasym_passencr_tosend := tosend, kct_draws := d, kct_count := c3\<rparr>)"
    using c1(2) sys7 c3(2) by (simp add: forA_split_at [of 0 7 32] andThen_def)
  moreover have "\<exists>cnt'. length cnt' = 32 \<and> forA (kct_system lib False tosend sc' B (m_pub A)) [0..<32] s' =
      (Inr (), s'\<lparr>KCT_accum := a, kct_count := cnt'\<rparr>)"
    if s': "KCT_accum s' = KCT_accum s" "length (kct_count s') = 32" for sc' s'
  proof -
    obtain d1 where d1: "length d1 = 32" "forA (kct_system lib False tosend sc' B (m_pub A)) [0..<7] s' =
        (Inr (), s'\<lparr>KCT_accum := a1, kct_count := d1\<rparr>)"
      using runs_alikeD(2) [OF a1(2) s'] by blast
    let ?t1 = "s'\<lparr>KCT_accum := a1, kct_count := d1\<rparr>"
    obtain d2 where d2: "length d2 = 32" "kct_system lib False tosend sc' B (m_pub A) 7 ?t1 =
        (Inr (), ?t1\<lparr>KCT_accum := a2, kct_count := d2\<rparr>)"
      using sys7' [of ?t1 sc'] d1(1) by auto
    let ?t2 = "?t1\<lparr>KCT_accum := a2, kct_count := d2\<rparr>"
    obtain d3 where "length d3 = 32" "forA (kct_system lib False tosend sc' B (m_pub A)) [Suc 7..<32] ?t2 =
        (Inr (), ?t2\<lparr>KCT_accum := a, kct_count := d3\<rparr>)"
      using runs_alikeD(2) [OF a(2), of ?t2 False tosend sc'] d2(1) by auto
    with d1(2) d2(2) show ?thesis by (intro exI [of _ d3]) (simp add: forA_split_at [of 0 7 32] andThen_def)
  qed
  ultimately show ?thesis using a(1) a2(2) c3(1) none by blast
qed

lemma kct_received_packed:
  assumes "kexmap.map_ok tosend" and "parse_packetstart_kexasym packetstart = Inr (kexmap.map_octets tosend)"
  shows "kct_received False packetstart = Inr tosend"
proof -
  have "packetstart \<noteq> []" using assms(2) by (auto simp: parse_packetstart_kexasym_def parser_of_string_def)
  moreover have "kexmap.map_octets tosend \<noteq> []"
    using length_uvarint_octets [of "of_nat (length tosend)"] by (auto simp: kexmap.map_octets_def)
  moreover have "pop_map_object char_less pop_byte_u pop_vector_string (parser_at [] (kexmap.map_octets tosend)) =
      (Inr tosend, parser_at (kexmap.map_octets tosend) [])"
    using readsD [OF kexmap.reads_pop_map_object [OF assms(1)], of "[]" "[]"] by simp
  ultimately show ?thesis using assms(2) by (simp add: kct_received_def parser_of_string_at)
qed

lemma kct_finish_eq:
  assumes "hash_sized lib" and "kexmap.map_ok (kexasym_passencr_tosend s)"
  shows "kct_finish lib s = Inr (take 32 (Hash1 lib (KCT_accum s)), kexmap.map_octets (kexasym_passencr_tosend s))"
  using assms generated_writes [OF kexmap.writes_push_map_object [OF assms(2)]]
  by (simp add: kct_finish_def substr_locked_def Let_def Hash1_PRV_def Hash1_def hash_sized_def)

lemma get_hash_total:
  fixes mk :: "'z multicryptostrings_scheme"
  assumes "hash_sized lib" and "systems_known (m_cryptolists_general mk)"
  shows "\<exists>h. fst (get_hash lib mk) = Inr h"
proof (cases "m_hash_cached mk = []")
  case True
  then show ?thesis using get_hash_returns [OF assms] by force
qed (simp add: get_hash_cached)

lemma nonce_odd_complementary:
  assumes "hash_sized lib" and "pair_sized A" and "pair_sized B"
  shows "\<exists>oa ob. calculate_nonce_odd lib A (m_pub B) = Inr oa \<and> calculate_nonce_odd lib B (m_pub A) = Inr ob
    \<and> (fst (get_hash lib (m_pub A)) \<noteq> fst (get_hash lib (m_pub B)) \<longrightarrow> oa = (\<not> ob))"
proof -
  obtain ha hb where "fst (get_hash lib (m_pub A)) = Inr ha" "fst (get_hash lib (m_pub B)) = Inr hb"
    using get_hash_total [OF assms(1), of "m_pub A"] get_hash_total [OF assms(1), of "m_pub B"] assms(2,3)
    by (auto simp: pair_sized_def)
  then show ?thesis by (auto simp: calculate_nonce_odd_def operator_greater_def)
qed

text \<open>Both ends run to completion and hold the same key.\<close>

lemma exchange_agree:
  fixes sa sb :: "('bx, 'ux) c_stream"
  assumes "kex_laws lib A B" and "stream_side_initiator sa" and "\<not> stream_side_initiator sb"
    and "length (m_cryptolists_count sa) = 32" and "length (m_cryptolists_count sb) = 32"
  shows "\<exists>sa' n'. exchange_start lib A (m_pub B) will_new_id (sa, n) = (Inr (), (sa', n'))
    \<and> (\<not> common_system A B 7 \<longrightarrow> m_packetstart_kexasym sa' = [0])
    \<and> length (m_KCT sa') = 32 \<and> m_boxer sa' = Some (boxer_new lib (m_nonce_odd sa') (m_KCT sa'))
    \<and> m_unboxer sa' = Some (unboxer_new lib (\<not> m_nonce_odd sa') (m_KCT sa'))
    \<and> (\<forall>packetstart k. parse_packetstart_kexasym packetstart = Inr (m_packetstart_kexasym sa') \<longrightarrow>
        (\<exists>sb'. exchange_done lib B (m_pub A) packetstart (sb, k) = (Inr (), (sb', k)) \<and> m_KCT sb' = m_KCT sa'
          \<and> m_boxer sb' = Some (boxer_new lib (m_nonce_odd sb') (m_KCT sb'))
          \<and> m_unboxer sb' = Some (unboxer_new lib (\<not> m_nonce_odd sb') (m_KCT sb'))
          \<and> (fst (get_hash lib (m_pub A)) \<noteq> fst (get_hash lib (m_pub B)) \<longrightarrow> m_nonce_odd sb' = (\<not> m_nonce_odd sa'))))"
proof -
  note sized = kex_laws_sized [OF assms(1)]
  have lens: "get_count_of_systems (m_pub A) = 32" "get_count_of_systems (m_pub B) = 32"
    "get_count_of_systems (m_PRV A) = 32" "get_count_of_systems (m_PRV B) = 32"
    using sized(1,2) by (auto simp: get_count_of_systems_def pair_sized_def systems_known_def)
  have start: "length (KCT_accum (kct_start c w n)) = 64" "kexasym_passencr_tosend (kct_start c w n) = []"
      "KCT_accum (kct_start c w n) = replicate 64 0" "length (kct_count (kct_start c w n)) = length c" "kct_draws (kct_start c w n) = n" for c w n
    by (simp_all add: Hash1_size_def kct_start_def)
  let ?za = "kct_start (m_cryptolists_count sa) will_new_id n" and ?zb = "kct_start (m_cryptolists_count sb) True"
  have "length (kct_count ?za) = 32" using start(4) assms(4) by simp
  from kct_loop_agree [OF assms(1) start(1,2) this, of "[]" will_new_id]
  obtain a tosend d cnt where none: "\<not> common_system A B 7 \<longrightarrow> tosend = []" and
    loop: "length a = 64" "kexmap.map_ok tosend" "length cnt = 32"
    "forA (kct_system lib True [] will_new_id A (m_pub B)) [0..<32] ?za =
        (Inr (), ?za\<lparr>KCT_accum := a, kexasym_passencr_tosend := tosend, kct_draws := d, kct_count := cnt\<rparr>)"
    "\<And>sc' s'. KCT_accum s' = KCT_accum ?za \<Longrightarrow> length (kct_count s') = 32 \<Longrightarrow>
          (\<exists>cnt'. length cnt' = 32 \<and> forA (kct_system lib False tosend sc' B (m_pub A)) [0..<32] s' =
             (Inr (), s'\<lparr>KCT_accum := a, kct_count := cnt'\<rparr>))"
    by blast
  let ?K = "take 32 (Hash1 lib a)" and ?ps = "kexmap.map_octets tosend"
  obtain oa ob where odd: "calculate_nonce_odd lib A (m_pub B) = Inr oa" "calculate_nonce_odd lib B (m_pub A) = Inr ob"
    "fst (get_hash lib (m_pub A)) \<noteq> fst (get_hash lib (m_pub B)) \<longrightarrow> oa = (\<not> ob)"
    using nonce_odd_complementary [OF sized(3,1,2)] by blast
  have Kfin: "kct_finish lib s = Inr (?K, kexmap.map_octets (kexasym_passencr_tosend s))"
    if "KCT_accum s = a" "kexmap.map_ok (kexasym_passencr_tosend s)" for s
    using kct_finish_eq [OF sized(3) that(2)] that(1) by simp
  have empty_ok: "kexmap.map_ok []" unfolding kexmap.map_ok_def by (simp add: fits_size_t_def)
  let ?sa = "sa\<lparr>m_cryptolists_count := cnt, m_packetstart_kexasym := ?ps\<rparr>"
  have KA: "calculate_KCT lib A (m_pub B) will_new_id [] (sa, n) = (Inr ?K, (?sa, d))"
    using loop(2,4) assms(2) lens by (simp add: calculate_KCT_def kct_received_def Let_def Kfin)
  let ?sa' = "create_boxer_with_K lib (?sa\<lparr>m_KCT := ?K, m_nonce_odd := oa\<rparr>)"
  have "exchange_start lib A (m_pub B) will_new_id (sa, n) = (Inr (), (?sa', d))"
    using KA odd(1) by (simp add: exchange_start_def exchange_def)
  moreover have "\<exists>sb'. exchange_done lib B (m_pub A) packetstart (sb, k) = (Inr (), (sb', k)) \<and> m_KCT sb' = ?K
      \<and> m_boxer sb' = Some (boxer_new lib (m_nonce_odd sb') (m_KCT sb'))
      \<and> m_unboxer sb' = Some (unboxer_new lib (\<not> m_nonce_odd sb') (m_KCT sb')) \<and> m_nonce_odd sb' = ob"
    if ps: "parse_packetstart_kexasym packetstart = Inr ?ps" for packetstart k
  proof -
    obtain cnt' where cnt': "forA (kct_system lib False tosend True B (m_pub A)) [0..<32] (?zb k) =
        (Inr (), (?zb k)\<lparr>KCT_accum := a, kct_count := cnt'\<rparr>)"
      using loop(5) [of "?zb k" True] start assms(5) by auto
    have "calculate_KCT lib B (m_pub A) True packetstart (sb, k) =
        (Inr ?K, (sb\<lparr>m_cryptolists_count := cnt', m_packetstart_kexasym := kexmap.map_octets []\<rparr>, k))"
      using cnt' assms(3) lens kct_received_packed [OF loop(2) ps] empty_ok
      by (simp add: calculate_KCT_def Let_def Kfin start)
    then show ?thesis
      using odd(2) by (simp add: exchange_done_def exchange_def create_boxer_with_K_def)
  qed
  moreover have "length ?K = 32" using sized(3) by simp
  moreover have no_passwords: "\<not> common_system A B 7 \<longrightarrow> ?ps = [0]"
    using none by (simp add: kexmap.map_octets_def uvarint_octets_def)
  ultimately show ?thesis
    using odd(3) no_passwords by (intro exI [of _ ?sa'] exI [of _ d]) (auto simp: create_boxer_with_K_def)
qed

lemmas exchange_agree_init =
  exchange_agree [where sa = "c_stream_init True" and sb = "c_stream_init False",
    simplified c_stream_init_def c_stream.select_convs length_replicate simp_thms, folded c_stream_init_def]

section \<open>Packet starts: lemmas\<close>

lemma generate_packetstart_eq:
  assumes "length (m_packetstart_kexasym this) \<le> SANE_MAX_SIZE_FOR_STRING" and "length c \<le> SANE_MAX_SIZE_FOR_STRING"
    and "m_boxer st = Some b" and "boxer_box lib b (m_packetstart_IDe this) = (Inr c, b')"
  shows "generate_packetstart lib this st =
    (Inr (varstring_octets (m_packetstart_kexasym this) @ varstring_octets c), st\<lparr>m_boxer := Some b'\<rparr>)"
proof -
  have w: "writes (push_varstring x) (varstring_octets x)" if "length x \<le> SANE_MAX_SIZE_FOR_STRING" for x
    using that by (intro writes_push_varstring) (simp add: fits_size_t_def SANE_MAX_SIZE_FOR_STRING_def)
  show ?thesis
    using assms(3,4) generated_writes [OF w [OF assms(1)]]
      generated_writes [OF writes_andThen [OF w [OF assms(1)] w [OF assms(2)]]]
    by (simp add: generate_packetstart_def stream_box_def andThen_def)
qed

lemma varstring_octets_nonempty: "varstring_octets x \<noteq> []"
  using length_uvarint_octets [of "of_nat (length x)"] by (auto simp: varstring_octets_def)

lemma parse_packetstart_eq:
  assumes "length x \<le> SANE_MAX_SIZE_FOR_STRING" and "length c \<le> SANE_MAX_SIZE_FOR_STRING"
  shows "parse_packetstart_kexasym (varstring_octets x @ varstring_octets c) = Inr x"
    and "m_unboxer st = Some u \<Longrightarrow> unboxer_unbox lib u c = (Inr y, u') \<Longrightarrow>
      parse_packetstart_IDe lib (varstring_octets x @ varstring_octets c) st = (Inr y, st\<lparr>m_unboxer := Some u'\<rparr>)"
proof -
  let ?bs = "varstring_octets x @ varstring_octets c"
  have p: "parser_of_string ?bs = Inr (parser_at [] ?bs)"
    using varstring_octets_nonempty by (simp add: parser_of_string_at)
  show "parse_packetstart_kexasym ?bs = Inr x"
    using p readsD [OF reads_pop_varstring [OF assms(1)], of "[]" "varstring_octets c"]
    by (simp add: parse_packetstart_kexasym_def)
  have "reads (andThen skip_varstring (\<lambda>_. pop_varstring)) ?bs c"
    using reads_andThen [OF reads_skip_varstring [OF assms(1)], of "\<lambda>_. pop_varstring"]
      reads_pop_varstring [OF assms(2)] by blast
  from readsD [OF this, of "[]" "[]"] p
  show "m_unboxer st = Some u \<Longrightarrow> unboxer_unbox lib u c = (Inr y, u') \<Longrightarrow>
      parse_packetstart_IDe lib ?bs st = (Inr y, st\<lparr>m_unboxer := Some u'\<rparr>)"
    by (simp add: parse_packetstart_IDe_def)
qed

section \<open>Properties\<close>

definition example_kex_pair :: "byte \<Rightarrow> c_multikeys_PAIR" where
  "example_kex_pair b =
     \<lparr>m_pub = c_multikeys_pub_init\<lparr>m_cryptolists_general := (replicate 32 [])[5 := [[b], [b, 1]], 7 := [[b]], 8 := [[b]]]\<rparr>,
      m_PRV = c_multikeys_PRV_init\<lparr>m_cryptolists_general := (replicate 32 [])[5 := [[b], [b, 1]], 7 := [[b]], 8 := [[b]]]\<rparr>\<rparr>"

lemma example_kex [simp]:
  "key_agreement example_lib = (\<lambda>prv pub. Inr (map2 (XOR) prv pub))"
  "sidh_secret_agreement example_lib = (\<lambda>prv own them. Inr (map2 (XOR) prv them))"
  "ntru_encrypt example_lib = (\<lambda>n msg pub. Inr msg)"
  "ntru_decrypt example_lib = (\<lambda>c prv. Inr c)"
  "randombytes example_lib = (\<lambda>n len. replicate len (of_nat n))"
  unfolding example_lib_def by (simp_all only: crypto_lib.select_convs)

lemma example_pair_sized: "pair_sized (example_kex_pair b)"
  by (auto simp: pair_sized_def systems_known_def example_kex_pair_def nth_list_update
      t_crypto_system_type_to_ID_def fits_size_t_def)

lemma map2_xor_commute: "map2 (XOR) a b = map2 (XOR) b (a :: bytes)"
  by (rule nth_equalityI) (auto simp: xor.commute)

lemma example_kex_laws: "kex_laws example_lib (example_kex_pair a) (example_kex_pair b)"
  unfolding kex_laws_def
  by (intro conjI hash_sized_example example_pair_sized)
    (auto simp: example_kex_pair_def SANE_MAX_SIZE_FOR_STRING_def xor.commute intro: map2_xor_commute)

text \<open>
  C1: key agreement. The exchange of the initiator completes, and when the respondent gets a
  packet start that carries what the initiator packed, its exchange completes as well and both
  streams hold the same 32-octet key, for every combination of X25519, NTRU and SIDH keys,
  however many each side has.
\<close>

theorem stream_key_agreement:
  fixes lib :: "('bx, 'ux) crypto_lib"
  assumes "kex_laws lib A B"
  shows "\<exists>sa n'. exchange_start lib A (m_pub B) will_new_id (c_stream_init True, n) = (Inr (), (sa, n'))
    \<and> length (m_KCT sa) = 32
    \<and> (\<forall>packetstart k. parse_packetstart_kexasym packetstart = Inr (m_packetstart_kexasym sa) \<longrightarrow>
        (\<exists>sb. exchange_done lib B (m_pub A) packetstart (c_stream_init False, k) = (Inr (), (sb, k))
          \<and> m_KCT sb = m_KCT sa))"
  using exchange_agree_init [OF assms, of will_new_id n] by blast

theorem stream_key_agreement_witness:
  "\<exists>sa n'. exchange_start example_lib (example_kex_pair 1) (m_pub (example_kex_pair 2)) True (c_stream_init True, 0) = (Inr (), (sa, n'))
    \<and> length (m_KCT sa) = 32
    \<and> (\<forall>packetstart k. parse_packetstart_kexasym packetstart = Inr (m_packetstart_kexasym sa) \<longrightarrow>
        (\<exists>sb. exchange_done example_lib (example_kex_pair 2) (m_pub (example_kex_pair 1)) packetstart (c_stream_init False, k)
            = (Inr (), (sb, k)) \<and> m_KCT sb = m_KCT sa))"
  by (rule stream_key_agreement [OF example_kex_laws])

text \<open>
  C2: what one end boxes after the exchange, the other end unboxes with the nonce that was used,
  given that sodiumpp opens a box made with the same key and nonce.
\<close>

theorem stream_box_unbox:
  fixes lib :: "('bx, 'ux) crypto_lib"
  assumes "kex_laws lib A B"
    and "\<And>is_odd K. boxer_key lib (boxer_new lib is_odd K) = K" and "\<And>is_odd K. unboxer_key lib (unboxer_new lib is_odd K) = K"
    and "\<And>b u m. boxer_key lib b = unboxer_key lib u \<Longrightarrow>
          \<exists>c. fst (boxer_box lib b m) = Inr c \<and> fst (unboxer_unbox_nonce lib u c (boxer_nonce lib b)) = Inr m"
    and "exchange_start lib A (m_pub B) will_new_id (c_stream_init True, n) = (Inr (), (sa, n'))"
    and "parse_packetstart_kexasym packetstart = Inr (m_packetstart_kexasym sa)"
    and "exchange_done lib B (m_pub A) packetstart (c_stream_init False, k) = (Inr (), (sb, k'))"
  shows "\<exists>c nonce. fst (stream_box lib m sa) = Inr (c, nonce) \<and> fst (stream_unbox_nonce lib c nonce True sb) = Inr m
    \<and> (\<exists>c nonce. fst (stream_box lib m sb) = Inr (c, nonce) \<and> fst (stream_unbox_nonce lib c nonce True sa) = Inr m)"
proof -
  obtain sa' n'' where sa': "exchange_start lib A (m_pub B) will_new_id (c_stream_init True, n) = (Inr (), (sa', n''))"
    "m_boxer sa' = Some (boxer_new lib (m_nonce_odd sa') (m_KCT sa'))"
    "m_unboxer sa' = Some (unboxer_new lib (\<not> m_nonce_odd sa') (m_KCT sa'))"
    and respond: "\<And>packetstart k. parse_packetstart_kexasym packetstart = Inr (m_packetstart_kexasym sa') \<Longrightarrow>
        (\<exists>sb'. exchange_done lib B (m_pub A) packetstart (c_stream_init False, k) = (Inr (), (sb', k)) \<and> m_KCT sb' = m_KCT sa'
          \<and> m_boxer sb' = Some (boxer_new lib (m_nonce_odd sb') (m_KCT sb'))
          \<and> m_unboxer sb' = Some (unboxer_new lib (\<not> m_nonce_odd sb') (m_KCT sb')))"
    using exchange_agree_init [OF assms(1), of will_new_id n] by blast
  have sa: "sa' = sa" using sa'(1) assms(5) by simp
  obtain sb' where "exchange_done lib B (m_pub A) packetstart (c_stream_init False, k) = (Inr (), (sb', k))"
      "m_KCT sb' = m_KCT sa" "m_boxer sb' = Some (boxer_new lib (m_nonce_odd sb') (m_KCT sb'))"
      "m_unboxer sb' = Some (unboxer_new lib (\<not> m_nonce_odd sb') (m_KCT sb'))"
    using respond [of packetstart k] assms(6) sa by blast
  with assms(7) sa' sa have streams: "m_boxer sa = Some (boxer_new lib (m_nonce_odd sa) (m_KCT sa))"
    "m_unboxer sa = Some (unboxer_new lib (\<not> m_nonce_odd sa) (m_KCT sa))"
    "m_boxer sb = Some (boxer_new lib (m_nonce_odd sb) (m_KCT sa))"
    "m_unboxer sb = Some (unboxer_new lib (\<not> m_nonce_odd sb) (m_KCT sa))"
    by simp_all
  have pass: "\<exists>c nonce. fst (stream_box lib m s) = Inr (c, nonce) \<and> fst (stream_unbox_nonce lib c nonce True t) = Inr m"
    if st: "m_boxer s = Some b" "m_unboxer t = Some u" "boxer_key lib b = unboxer_key lib u"
    for s t :: "('bx, 'ux) c_stream" and b u
  proof -
    obtain c b' where "boxer_box lib b m = (Inr c, b')" "fst (unboxer_unbox_nonce lib u c (boxer_nonce lib b)) = Inr m"
      using assms(4) [OF st(3), of m] by (metis prod.collapse)
    then have "fst (stream_box lib m s) = Inr (c, boxer_nonce lib b)
        \<and> fst (stream_unbox_nonce lib c (boxer_nonce lib b) True t) = Inr m"
      using st(1,2) by (cases "unboxer_unbox_nonce lib u c (boxer_nonce lib b)")
        (simp add: stream_box_def stream_unbox_nonce_def)
    then show ?thesis by blast
  qed
  have "\<exists>c nonce. fst (stream_box lib m sa) = Inr (c, nonce) \<and> fst (stream_unbox_nonce lib c nonce True sb) = Inr m"
    by (rule pass [OF streams(1,4)]) (simp add: assms(2,3))
  moreover have "\<exists>c nonce. fst (stream_box lib m sb) = Inr (c, nonce) \<and> fst (stream_unbox_nonce lib c nonce True sa) = Inr m"
    by (rule pass [OF streams(3,2)]) (simp add: assms(2,3))
  ultimately show ?thesis by blast
qed

definition example_X25519_pair :: "byte \<Rightarrow> c_multikeys_PAIR" where
  "example_X25519_pair b =
     \<lparr>m_pub = c_multikeys_pub_init\<lparr>m_cryptolists_general := (replicate 32 [])[5 := [[b]]]\<rparr>,
      m_PRV = c_multikeys_PRV_init\<lparr>m_cryptolists_general := (replicate 32 [])[5 := [[b]]]\<rparr>\<rparr>"

lemma example_X25519_laws: "kex_laws example_lib (example_X25519_pair a) (example_X25519_pair b)"
proof -
  have "pair_sized (example_X25519_pair c)" for c
    by (auto simp: pair_sized_def systems_known_def example_X25519_pair_def nth_list_update
        t_crypto_system_type_to_ID_def fits_size_t_def)
  then show ?thesis
    unfolding kex_laws_def
    by (intro conjI hash_sized_example) (auto simp: example_X25519_pair_def xor.commute)
qed

lemma example_boxes:
  "boxer_new example_lib = (\<lambda>is_odd k. (k, if is_odd then 1 else 0))"
  "boxer_key example_lib = fst"
  "boxer_nonce example_lib = (\<lambda>b. [of_nat (snd b)])"
  "boxer_box example_lib = (\<lambda>(k, n) m. (Inr (of_nat n # m), (k, n + 2)))"
  "unboxer_new example_lib = (\<lambda>is_odd k. (k, if is_odd then 1 else 0))"
  "unboxer_key example_lib = fst"
  "unboxer_unbox_nonce example_lib = (\<lambda>(k, n) c nonce. (open_example (unat (hd nonce)) c, (k, n)))"
  unfolding example_lib_def by (simp_all only: crypto_lib.select_convs)

theorem stream_box_unbox_witness:
  "\<exists>sa sb. fst (exchange_start example_lib (example_X25519_pair 1) (m_pub (example_X25519_pair 2)) True (c_stream_init True, 0)) = Inr ()
     \<and> (\<exists>c nonce. fst (stream_box example_lib [5, 6] sa) = Inr (c, nonce)
          \<and> fst (stream_unbox_nonce example_lib c nonce True sb) = Inr [5, 6])"
proof -
  let ?A = "example_X25519_pair 1" and ?B = "example_X25519_pair 2"
  have nc: "\<not> common_system ?A ?B 7" by (simp add: common_system_def example_X25519_pair_def)
  obtain sa n' where sa: "exchange_start example_lib ?A (m_pub ?B) True (c_stream_init True, 0) = (Inr (), (sa, n'))"
      "m_packetstart_kexasym sa = [0]"
    and respond: "\<And>packetstart k. parse_packetstart_kexasym packetstart = Inr (m_packetstart_kexasym sa) \<Longrightarrow>
        (\<exists>sb. exchange_done example_lib ?B (m_pub ?A) packetstart (c_stream_init False, k) = (Inr (), (sb, k)))"
    using exchange_agree_init [OF example_X25519_laws, of 1 2 True 0] nc by blast
  have ps: "parse_packetstart_kexasym (varstring_octets [0] @ varstring_octets []) = Inr (m_packetstart_kexasym sa)"
    using parse_packetstart_eq(1) [of "[0]" "[]"] sa(2) by (simp add: SANE_MAX_SIZE_FOR_STRING_def)
  obtain sb where sb: "exchange_done example_lib ?B (m_pub ?A) (varstring_octets [0] @ varstring_octets []) (c_stream_init False, 0) = (Inr (), (sb, 0))"
    using respond [OF ps] by blast
  have "\<exists>c nonce. fst (stream_box example_lib [5, 6] sa) = Inr (c, nonce) \<and> fst (stream_unbox_nonce example_lib c nonce True sb) = Inr [5, 6]
    \<and> (\<exists>c nonce. fst (stream_box example_lib [5, 6] sb) = Inr (c, nonce) \<and> fst (stream_unbox_nonce example_lib c nonce True sa) = Inr [5, 6])"
    by (rule stream_box_unbox [OF example_X25519_laws _ _ _ sa(1) ps sb])
      (auto simp: example_boxes open_example_def split: prod.splits)
  with sa(1) show ?thesis by auto
qed

text \<open>
  Two identities whose fingerprints differ use nonces of opposite parity: exactly one of the
  two ends of the stream is the odd one.
\<close>

theorem nonce_parity_opposite:
  assumes "\<And>x. length (crypto_generichash lib x) = 64" and "pair_sized A" and "pair_sized B"
    and "fst (get_hash lib (m_pub A)) \<noteq> fst (get_hash lib (m_pub B))"
  shows "\<exists>is_odd. calculate_nonce_odd lib A (m_pub B) = Inr is_odd \<and> calculate_nonce_odd lib B (m_pub A) = Inr (\<not> is_odd)"
proof -
  have "hash_sized lib" using assms(1) by (simp add: hash_sized_def)
  from nonce_odd_complementary [OF this assms(2,3)] assms(4) show ?thesis by auto
qed

theorem nonce_parity_opposite_witness:
  "\<exists>is_odd. calculate_nonce_odd example_lib
       (c_multikeys_PAIR_init\<lparr>m_pub := c_multikeys_pub_init\<lparr>m_hash_cached := [1]\<rparr>\<rparr>) (c_multikeys_pub_init\<lparr>m_hash_cached := [2]\<rparr>) = Inr is_odd
     \<and> calculate_nonce_odd example_lib
       (c_multikeys_PAIR_init\<lparr>m_pub := c_multikeys_pub_init\<lparr>m_hash_cached := [2]\<rparr>\<rparr>) (c_multikeys_pub_init\<lparr>m_hash_cached := [1]\<rparr>) = Inr (\<not> is_odd)"
proof -
  have "pair_sized (c_multikeys_PAIR_init\<lparr>m_pub := c_multikeys_pub_init\<lparr>m_hash_cached := h\<rparr>\<rparr>)" for h
    by (simp add: pair_sized_def systems_known_def c_multikeys_PAIR_init_def c_multikeys_pub_init_def
        c_multikeys_PRV_init_def multicryptostrings_init_def fits_size_t_def)
  then show ?thesis
    using nonce_parity_opposite [of example_lib "c_multikeys_PAIR_init\<lparr>m_pub := c_multikeys_pub_init\<lparr>m_hash_cached := [1]\<rparr>\<rparr>"
        "c_multikeys_PAIR_init\<lparr>m_pub := c_multikeys_pub_init\<lparr>m_hash_cached := [2]\<rparr>\<rparr>"] hash_sized_example
    by (simp add: hash_sized_def get_hash_cached)
qed

lemma exchange_without_common_system:
  assumes "\<And>x. length (crypto_generichash lib x) = 64" and "pair_sized A" and "pair_sized B"
    and "\<And>sys. sys < 32 \<Longrightarrow> \<not> common_system A B sys"
  shows "\<exists>sa. exchange_start lib A (m_pub B) will_new_id (c_stream_init True, n) = (Inr (), (sa, n))
    \<and> m_KCT sa = take 32 (Hash1 lib (replicate 64 0))"
proof -
  have hs: "hash_sized lib" using assms(1) by (simp add: hash_sized_def)
  obtain is_odd where is_odd: "calculate_nonce_odd lib A (m_pub B) = Inr is_odd"
    using nonce_odd_complementary [OF hs assms(2,3)] by blast
  have "forA (kct_system lib True [] will_new_id A (m_pub B)) [0..<32] s = (Inr (), s)" for s
    using assms(4) by (intro forA_skip kct_system_skip assms(2,3)) auto
  moreover have "get_count_of_systems (m_pub A) = 32" "get_count_of_systems (m_pub B) = 32" "get_count_of_systems (m_PRV A) = 32"
    using assms(2,3) by (auto simp: get_count_of_systems_def pair_sized_def systems_known_def)
  moreover have "kexmap.map_ok []" unfolding kexmap.map_ok_def by (simp add: fits_size_t_def)
  ultimately show ?thesis
    using is_odd
    by (simp add: exchange_start_def exchange_def calculate_KCT_def kct_received_def c_stream_init_def kct_start_def
        kct_finish_eq [OF hs] Let_def Hash1_size_def create_boxer_with_K_def andThen_def)
qed

text \<open>
  Identities without a common crypto system get a key all the same, and it is the same
  constant for everyone: no private key enters it.
\<close>

theorem no_common_system_constant_key:
  assumes "\<And>x. length (crypto_generichash lib x) = 64" and "pair_sized A" and "pair_sized B"
    and "\<And>sys. sys < 32 \<Longrightarrow> \<not> common_system A B sys"
  shows "\<exists>sa. exchange_start lib A (m_pub B) will_new_id (c_stream_init True, n) = (Inr (), (sa, n))
    \<and> m_KCT sa = take 32 (Hash1 lib (replicate 64 0))"
  by (rule exchange_without_common_system) (use assms in auto)

theorem no_common_system_constant_key_witness:
  "\<exists>sa. exchange_start example_lib (example_X25519_pair 1) (m_pub example_sign_pair) True (c_stream_init True, 0) = (Inr (), (sa, 0))
    \<and> m_KCT sa = take 32 (Hash1 example_lib (replicate 64 0))"
proof (rule no_common_system_constant_key)
  show "length (crypto_generichash example_lib x) = 64" for x using hash_sized_example by (simp add: hash_sized_def)
  show "pair_sized (example_X25519_pair 1)" using example_X25519_laws by (rule kex_laws_sized(1))
  show "pair_sized example_sign_pair"
    by (auto simp: pair_sized_def systems_known_def example_sign_pair_def nth_list_update
        t_crypto_system_type_to_ID_def fits_size_t_def)
  show "\<not> common_system (example_X25519_pair 1) example_sign_pair sys" if "sys < 32" for sys
    using that by (auto simp: common_system_def example_X25519_pair_def example_sign_pair_def nth_list_update)
qed

end
