(* ===== verification/Tunserver.thy ===== *)
theory Tunserver
  imports Routing Peer_Reference Key_Agreement
begin

text \<open>
  The node itself, \<open>c_tunserver\<close> of \<^verbatim>\<open>src/src/tunserver.cpp\<close>: its state, the list of
  peers and the black list, tunnels, the routing of tunnelled data, and the packet checks. The
  handlers of the event loop follow in \<open>Event_Loop\<close> and the remote control in \<open>Rpc\<close>.

  The definitions say what the methods do when no other thread comes in between; the theory
  \<open>Node_Programs\<close> cuts them where \<open>m_peer_etc_mutex\<close> is taken and released. Peers are kept by value in the map;
  a pointer to a peer is its key.
\<close>

section \<open>State\<close>

record ('bx, 'ux) c_tunserver =
  m_world :: world
  m_peer :: "(c_haship_addr \<times> c_peering) list"
  m_peer_black_list :: "c_haship_addr set"
  m_my_IDC :: c_multikeys_PAIR
  m_my_IDI_pub :: c_multikeys_pub
  m_IDI_IDC_sig :: c_multisign
  m_my_hip :: c_haship_addr
  m_tunnel :: "(c_haship_addr \<times> ('bx, 'ux) c_crypto_tunnel) list"
  m_routing_manager :: c_routing_manager
  m_tun_header_offset_ipv6 :: nat
  m_node_ipv6_prefix :: bytes   \<comment> \<open>\<open>m_ipv6_prefix\<close>\<close>
  m_prefix_len :: int
  enable_remove :: bool
  is_exiting :: bool
  peer_timeout :: int           \<comment> \<open>seconds\<close>
  m_port :: int
  m_unban_if_banned :: bool
  m_supported_ip_protocols :: "int list"
  m_my_name :: bytes

type_synonym ('bx, 'ux, 'a) tun_action = "(('bx, 'ux) c_tunserver, 'a) action"

definition c_tunserver_new :: "world \<Rightarrow> int \<Rightarrow> int \<Rightarrow> ('bx, 'ux) c_tunserver" where
  \<comment> \<open>\<open>peer_timeout0\<close>: the constructor leaves \<open>peer_timeout\<close> as it is in memory; it also leaves
     \<open>m_prefix_len\<close>, which only the set-up of the TUN device reads\<close>
  "c_tunserver_new w port peer_timeout0 =
     \<lparr>m_world = w, m_peer = [], m_peer_black_list = {}, m_my_IDC = c_multikeys_PAIR_init,
      m_my_IDI_pub = c_multikeys_pub_init, m_IDI_IDC_sig = c_multisign_init, m_my_hip = c_haship_addr_init,
      m_tunnel = [], m_routing_manager = c_routing_manager_init, m_tun_header_offset_ipv6 = 0,
      m_node_ipv6_prefix = [], m_prefix_len = 0, enable_remove = False, is_exiting = False,
      peer_timeout = peer_timeout0, m_port = port, m_unban_if_banned = True,
      m_supported_ip_protocols = [6, 17, 58], m_my_name = octets_of ''unnamed-tunserver''\<rparr>"

definition on_world :: "(world, 'a) action \<Rightarrow> ('bx, 'ux, 'a) tun_action" where
  "on_world m s = (case m (m_world s) of (r, w) \<Rightarrow> (r, s\<lparr>m_world := w\<rparr>))"

definition on_peer :: "c_haship_addr \<Rightarrow> (c_peering \<times> world, 'a) action \<Rightarrow> ('bx, 'ux, 'a) tun_action" where
  \<comment> \<open>a method of the peer that an iterator or a pointer refers to\<close>
  "on_peer hip m s =
     (case find_key hip (m_peer s) of
        None \<Rightarrow> (Inl Abort, s)
      | Some p \<Rightarrow> (case m (p, m_world s) of (r, (p', w)) \<Rightarrow>
          (r, s\<lparr>m_peer := map_modify hip (\<lambda>_. p') (m_peer s), m_world := w\<rparr>)))"

definition on_tunnel ::
    "c_haship_addr \<Rightarrow> (('bx, 'ux) c_crypto_tunnel \<times> nat, 'a) action \<Rightarrow> ('bx, 'ux, 'a) tun_action" where
  "on_tunnel hip m s =
     (case find_key hip (m_tunnel s) of
        None \<Rightarrow> (Inl Abort, s)
      | Some ct \<Rightarrow> (case m (ct, w_rng (m_world s)) of (r, (ct', n)) \<Rightarrow>
          (r, s\<lparr>m_tunnel := map_modify hip (\<lambda>_. ct') (m_tunnel s), m_world := (m_world s)\<lparr>w_rng := n\<rparr>\<rparr>)))"

definition set_my_name :: "bytes \<Rightarrow> ('bx, 'ux) c_tunserver \<Rightarrow> ('bx, 'ux) c_tunserver" where
  "set_my_name name s = s\<lparr>m_my_name := name\<rparr>"

definition exit_tunserver :: "('bx, 'ux) c_tunserver \<Rightarrow> ('bx, 'ux) c_tunserver" where
  "exit_tunserver s = s\<lparr>is_exiting := True\<rparr>"

definition enable_remove_peers :: "('bx, 'ux) c_tunserver \<Rightarrow> ('bx, 'ux) c_tunserver" where
  "enable_remove_peers s = s\<lparr>enable_remove := True\<rparr>"

definition set_remove_peer_tometout :: "nat \<Rightarrow> ('bx, 'ux) c_tunserver \<Rightarrow> ('bx, 'ux) c_tunserver" where
  "set_remove_peer_tometout timeout_seconds s = s\<lparr>peer_timeout := int timeout_seconds\<rparr>"

definition set_prefix_len :: "int \<Rightarrow> ('bx, 'ux) c_tunserver \<Rightarrow> ('bx, 'ux) c_tunserver" where
  "set_prefix_len prefix s = s\<lparr>m_prefix_len := prefix\<rparr>"

definition set_prefix :: "bytes \<Rightarrow> ('bx, 'ux) c_tunserver \<Rightarrow> ('bx, 'ux) c_tunserver" where
  "set_prefix prefix s = s\<lparr>m_node_ipv6_prefix := prefix\<rparr>"

definition prepare_socket :: "(c_haship_addr \<Rightarrow> int \<Rightarrow> bool) \<Rightarrow> ('bx, 'ux, unit) tun_action" where
  \<comment> \<open>\<open>device_ready\<close>: the TUN device and the event manager took this address and prefix length without throwing;
     the last assertion, that there is a socket, is one that the constructor of the socket has made before\<close>
  "prepare_socket device_ready s =
     (let s1 = s\<lparr>m_tun_header_offset_ipv6 := header_position_of_ipv6\<rparr> in
      if \<not> length (m_my_hip s1) = 16 then (Inl Abort, s1)
      else if \<not> m_my_hip s1 ! 0 = 0xFD then (Inl Abort, s1)
      else if \<not> device_ready (m_my_hip s1) (m_prefix_len s1) then (Inl Exception_error_exit, s1)
      else (Inr (), s1))"

section \<open>Peers and the black list\<close>

definition peer_on_black_list :: "c_haship_addr \<Rightarrow> ('bx, 'ux) c_tunserver \<Rightarrow> bool" where
  "peer_on_black_list hip s \<longleftrightarrow> hip \<in> m_peer_black_list s"

definition add_peer :: "t_peering_reference \<Rightarrow> ('bx, 'ux, bool) tun_action" where
  "add_peer peer_ref =
     andThen (on_world (c_peering_new peer_ref)) (\<lambda>peering_ptr s.
       (Inr (find_key (haship_addr peer_ref) (m_peer s) = None),
        s\<lparr>m_peer := emplace_key (haship_addr peer_ref) peering_ptr (m_peer s)\<rparr>))"

definition add_peer_to_black_list :: "c_haship_addr \<Rightarrow> ('bx, 'ux, unit) tun_action" where
  "add_peer_to_black_list hip s = (Inr (), s\<lparr>m_peer_black_list := insert hip (m_peer_black_list s)\<rparr>)"

definition delete_peer :: "c_haship_addr \<Rightarrow> ('bx, 'ux, bool) tun_action" where
  "delete_peer hip s =
     (if find_key hip (m_peer s) \<noteq> None then (Inr True, s\<lparr>m_peer := map_erase hip (m_peer s)\<rparr>)
      else (Inr False, s))"

definition delete_peer_from_black_list :: "c_haship_addr \<Rightarrow> ('bx, 'ux, unit) tun_action" where
  "delete_peer_from_black_list hip s = (Inr (), s\<lparr>m_peer_black_list := m_peer_black_list s - {hip}\<rparr>)"

definition delete_all_peers :: "bool \<Rightarrow> ('bx, 'ux, unit) tun_action" where
  "delete_all_peers is_banned s =
     (Inr (), s\<lparr>m_peer_black_list := (if is_banned then m_peer_black_list s \<union> fst ` set (m_peer s)
                                     else m_peer_black_list s),
               m_peer := []\<rparr>)"

definition catch_exception :: "cpp_error \<Rightarrow> ('s, 'a) action \<Rightarrow> ('s, 'a) action" where
  \<comment> \<open>\<open>catch (const std::exception &) { throw e'; }\<close>: an abort is not an exception\<close>
  "catch_exception e' m s =
     (case m s of (Inl e, s') \<Rightarrow> (Inl (if e = Abort then Abort else e'), s') | (Inr a, s') \<Rightarrow> (Inr a, s'))"

definition add_peer_simplestring :: "host_lib \<Rightarrow> bytes \<Rightarrow> ('bx, 'ux, unit) tun_action" where
  "add_peer_simplestring host simple = catch_exception Invalid_argument
     (andThen (liftR (parse_peer_simplestring host simple)) (\<lambda>peering_ref.
      andThen (add_peer peering_ref) (\<lambda>_.
      delete_peer_from_black_list (haship_addr peering_ref))))"

definition new_format_reference :: "host_lib \<Rightarrow> bytes \<Rightarrow> t_peering_reference result" where
  \<comment> \<open>the address text is converted by \<open>c_ip46_addr(const std::string &, int port = 9042)\<close>\<close>
  "new_format_reference host simple =
     bindR (parse_peer_reference simple) (\<lambda>(ids, cables).
     bindR (check_input (length ids > 0)) (\<lambda>_.
     bindR (check_input (length cables > 0)) (\<lambda>_.
     let cable = cables ! 0 in
     case str_find 0x3A 0 cable of
       None \<Rightarrow> Inl Err_check_input
     | Some begin_pos \<Rightarrow>
         bindR (substr_from (begin_pos + 1) cable) (\<lambda>ipv4_with_port.
         case str_find 0x3A 0 ipv4_with_port of
           None \<Rightarrow> Inl Err_check_input
         | Some end_pos \<Rightarrow>
             let ipv4 = take end_pos ipv4_with_port in
             bindR (c_ip46_addr_of_string host ipv4 9042) (\<lambda>addr.
             t_peering_reference_of_addr host addr (ids ! 0))))))"

definition add_peer_simplestring_new_format :: "host_lib \<Rightarrow> bytes \<Rightarrow> ('bx, 'ux, unit) tun_action" where
  "add_peer_simplestring_new_format host simple = catch_exception Err_check_input
     (andThen (liftR (new_format_reference host simple)) (\<lambda>peering_ref.
      andThen (add_peer peering_ref) (\<lambda>_.
      delete_peer_from_black_list (haship_addr peering_ref))))"

definition delete_peer_simplestring :: "host_lib \<Rightarrow> bytes \<Rightarrow> bool \<Rightarrow> ('bx, 'ux, bool) tun_action" where
  "delete_peer_simplestring host simple is_banned = catch_exception Invalid_argument
     (andThen (liftR (c_haship_addr_by_addr_dot host simple)) (\<lambda>hip.
      andThen (delete_peer hip) (\<lambda>peer_deleted.
      andThen (if is_banned then add_peer_to_black_list hip else ret ()) (\<lambda>_.
      ret peer_deleted))))"

definition dbg2_evaluated :: "world \<Rightarrow> bool" where
  \<comment> \<open>\<open>_dbg2(X)\<close> evaluates \<open>X\<close> only at a low enough \<open>g_dbg_level\<close>\<close>
  "dbg2_evaluated w \<longleftrightarrow> 20 \<ge> g_dbg_level w"

definition append_new_peer :: "t_peering_reference \<Rightarrow> c_multikeys_pub \<Rightarrow> ('bx, 'ux, unit) tun_action" where
  "append_new_peer peer_ref pubkey s =
     (if haship_addr peer_ref \<notin> m_peer_black_list s then
        andThen (on_world (c_peering_new peer_ref)) (\<lambda>peering_ptr s.
          (Inr (), s\<lparr>m_peer := emplace_key (haship_addr peer_ref) (set_pubkey pubkey peering_ptr) (m_peer s)\<rparr>)) s
      else (Inr (), s))"

definition update_existing_peer :: "t_peering_reference \<Rightarrow> c_multikeys_pub \<Rightarrow> (c_peering \<times> world, unit) action" where
  "update_existing_peer peer_ref pubkey =
     andThen update_last_ping_time (\<lambda>_ (p, w).
       let old_pip = m_peering_addr p; new_pip = peering_addr peer_ref; p1 = set_pubkey pubkey p in
       case ip46_equal old_pip new_pip of
         Inl e \<Rightarrow> (Inl e, (p1, w))
       | Inr same \<Rightarrow> (Inr (), (if same then p1 else set_pip new_pip p1, w)))"

definition add_peer_append_pubkey ::
    "('bx, 'ux) crypto_lib \<Rightarrow> t_peering_reference \<Rightarrow> c_multikeys_pub \<Rightarrow> ('bx, 'ux, unit) tun_action" where
  \<comment> \<open>the last log statement looks the peer up with \<open>at()\<close> and rethrows what that throws\<close>
  "add_peer_append_pubkey lib peer_ref pubkey s =
     (let peer_hip = haship_addr peer_ref in
      case c_haship_addr_by_hash_of_pubkey lib pubkey of
        (Inl e, _) \<Rightarrow> (Inl e, s)
      | (Inr hip_from_pubkey, pubkey') \<Rightarrow>
          if hip_from_pubkey \<noteq> haship_addr peer_ref then (Inl Runtime_error, s)
          else andThen
            (if find_key peer_hip (m_peer s) = None then append_new_peer peer_ref pubkey'
             else on_peer peer_hip (update_existing_peer peer_ref pubkey'))
            (\<lambda>_ s. if dbg2_evaluated (m_world s) \<and> find_key peer_hip (m_peer s) = None
                   then (Inl Out_of_range, s) else (Inr (), s)) s)"

section \<open>Tunnels\<close>

definition add_tunnel_to_pubkey :: "('bx, 'ux) crypto_lib \<Rightarrow> c_multikeys_pub \<Rightarrow> ('bx, 'ux, unit) tun_action" where
  "add_tunnel_to_pubkey lib pubkey s =
     (case get_ipv6_string_bin lib pubkey of
        (Inl e, _) \<Rightarrow> (Inl e, s)
      | (Inr bin, pubkey') \<Rightarrow>
          (case c_haship_addr_by_addr_bin bin of
             Inl e \<Rightarrow> (Inl e, s)
           | Inr hip \<Rightarrow>
               (case find_key hip (m_tunnel s) of
                  Some _ \<Rightarrow> (Inr (), s)
                | None \<Rightarrow>
                    (case c_crypto_tunnel_initiator lib (m_my_IDC s) pubkey' (tunnel_new True, w_rng (m_world s)) of
                       (Inl e, (_, n)) \<Rightarrow> (Inl e, s\<lparr>m_world := (m_world s)\<lparr>w_rng := n\<rparr>\<rparr>)
                     | (Inr _, (ct, n)) \<Rightarrow>
                         (Inr (), s\<lparr>m_tunnel := emplace_key hip ct (m_tunnel s),
                                    m_world := (m_world s)\<lparr>w_rng := n\<rparr>\<rparr>)))))"

section \<open>The node as the routing manager sees it\<close>

definition tun_nodep2p_foreach_cmd :: "t_proto_cmd \<Rightarrow> bytes \<Rightarrow> ('bx, 'ux, unit) tun_action" where
  "tun_nodep2p_foreach_cmd cmd data s =
     forA (\<lambda>hip. on_peer hip (send_data_udp_cmd cmd data)) (map fst (m_peer s)) s"

definition tun_get_peer_with_hip :: "c_haship_addr \<Rightarrow> bool \<Rightarrow> ('bx, 'ux, c_peering) tun_action" where
  "tun_get_peer_with_hip addr require_pubkey s =
     (case find_key addr (m_peer s) of
        None \<Rightarrow> (Inl Expected_not_found, s)
      | Some peer \<Rightarrow>
          if require_pubkey \<and> \<not> is_pubkey peer then (Inl Expected_not_found_missing_pubkey, s)
          else (Inr peer, s))"

definition tun_node :: "('bx, 'ux) c_tunserver c_galaxy_node" where
  "tun_node = \<lparr>nodep2p_foreach_cmd = tun_nodep2p_foreach_cmd, get_peer_with_hip = tun_get_peer_with_hip,
               node_now = on_world steady_now\<rparr>"

definition on_routing ::
    "(c_routing_manager \<times> ('bx, 'ux) c_tunserver, 'a) action \<Rightarrow> ('bx, 'ux, 'a) tun_action" where
  \<comment> \<open>a call \<open>m_routing_manager.f(*this, ...)\<close>; the node's operations do not touch \<open>m_routing_manager\<close>\<close>
  "on_routing m s =
     (case m (m_routing_manager s, s) of (r, (rm, s')) \<Rightarrow> (r, s'\<lparr>m_routing_manager := rm\<rparr>))"

section \<open>Greeting the peers\<close>

definition seconds_between :: "int \<Rightarrow> int \<Rightarrow> int" where
  \<comment> \<open>\<open>duration_cast<seconds>(now - last)\<close> truncates towards zero\<close>
  "seconds_between now earlier =
     (if now \<ge> earlier then (now - earlier) div 1000000000 else - ((earlier - now) div 1000000000))"

definition hello_data :: "('bx, 'ux) c_tunserver \<Rightarrow> bytes result" where
  "hello_data s =
     bindR (get_serialize_bin_pubkey (m_my_IDC s)) (\<lambda>IDC.
     bindR (serialize_bin push_varstring (m_my_IDI_pub s)) (\<lambda>IDI.
     bindR (multisign_serialize_bin (m_IDI_IDC_sig s)) (\<lambda>sig.
     generated (andThen (push_varstring IDC) (\<lambda>_. andThen (push_varstring IDI) (\<lambda>_. push_varstring sig))))))"

definition remove_inactive_peers :: "int \<Rightarrow> ('bx, 'ux) c_tunserver \<Rightarrow> ('bx, 'ux) c_tunserver" where
  "remove_inactive_peers now s =
     (if enable_remove s
      then s\<lparr>m_peer := filter (\<lambda>(hip, p). \<not> seconds_between now (m_last_ping_time p) > peer_timeout s) (m_peer s)\<rparr>
      else s)"

definition peering_ping_all_peers :: "('bx, 'ux, unit) tun_action" where
  "peering_ping_all_peers =
     andThen (on_world steady_now) (\<lambda>now s.
       let s1 = remove_inactive_peers now s in
       forA (\<lambda>hip s. andThen (liftR (hello_data s))
                       (\<lambda>cmd_data. on_peer hip (send_data_udp_cmd e_proto_cmd_public_hi cmd_data)) s)
         (map fst (m_peer s1)) s1)"

section \<open>Routing of tunnelled data\<close>

datatype t_route_method = e_route_method_from_me | e_route_method_if_direct_peer | e_route_method_default

definition find_via ::
    "c_haship_addr \<Rightarrow> c_route_reason \<Rightarrow> ('bx, 'ux, c_haship_addr option) tun_action" where
  \<comment> \<open>the \<open>try\<close> around the routing manager: \<open>None\<close> after any exception\<close>
  "find_via next_hip reason s =
     (case on_routing (get_route_or_maybe_search tun_node next_hip reason True ttl_max_accepted) s of
        (Inr route, s') \<Rightarrow> (Inr (Some (m_nexthop route)), s')
      | (Inl e, s') \<Rightarrow> if e = Abort then (Inl Abort, s') else (Inr None, s'))"

function route_tun_data_to_its_destination_detail ::
    "t_route_method \<Rightarrow> bytes \<Rightarrow> c_haship_addr \<Rightarrow> c_haship_addr \<Rightarrow> c_haship_addr \<Rightarrow> c_route_reason \<Rightarrow> nat \<Rightarrow> int
     \<Rightarrow> bytes \<Rightarrow> ('bx, 'ux, bool) tun_action" where
  "route_tun_data_to_its_destination_detail method data src_hip dst_hip next_hip reason recurse_level
       data_route_ttl nonce_used s =
     (if data_route_ttl \<le> 0 then (Inr False, s)
      else if m_peer s = [] then (Inr False, s)
      else if find_key next_hip (m_peer s) = None then
        (if recurse_level > 1 then (Inr False, s)
         else case find_via next_hip reason s of
             (Inl e, s') \<Rightarrow> (Inl e, s')
           | (Inr None, s') \<Rightarrow> (Inr False, s')
           | (Inr (Some via_hip), s') \<Rightarrow>
               route_tun_data_to_its_destination_detail method data src_hip dst_hip via_hip reason
                 (recurse_level + 1) data_route_ttl nonce_used s')
      else
        andThen (on_peer next_hip (send_data_udp data src_hip dst_hip data_route_ttl nonce_used))
          (\<lambda>_. ret True) s)"
  by pat_completeness auto
termination
  by (relation "measure (\<lambda>(method, data, src, dst, nxt, reason, level, ttl, nonce, s). 2 - level)") auto

declare route_tun_data_to_its_destination_detail.simps [simp del]

definition route_tun_data_to_its_destination_top ::
    "t_route_method \<Rightarrow> bytes \<Rightarrow> c_haship_addr \<Rightarrow> c_haship_addr \<Rightarrow> c_route_reason \<Rightarrow> int \<Rightarrow> bytes
     \<Rightarrow> ('bx, 'ux, bool) tun_action" where
  \<comment> \<open>an exception is logged, and then the function returns true\<close>
  "route_tun_data_to_its_destination_top method data src_hip dst_hip reason data_route_ttl nonce_used s =
     (if data_route_ttl \<le> 0 then (Inr False, s)
      else case route_tun_data_to_its_destination_detail method data src_hip dst_hip dst_hip reason 0
                  data_route_ttl nonce_used s of
             (Inr ok, s') \<Rightarrow> (Inr ok, s')
           | (Inl e, s') \<Rightarrow> if e = Abort then (Inl Abort, s') else (Inr True, s'))"

section \<open>Recognising senders and packets\<close>

fun find_pip :: "c_ip46_addr \<Rightarrow> (c_haship_addr \<times> c_peering) list \<Rightarrow> c_haship_addr result" where
  "find_pip ip [] = Inl Runtime_error"
| "find_pip ip ((hip, p) # m) =
     bindR (ip46_equal (m_peering_addr p) ip) (\<lambda>same.
       if same \<and> get_assigned_port (m_peering_addr p) = get_assigned_port ip then Inr hip else find_pip ip m)"

definition find_peer_by_sender_peering_addr :: "c_ip46_addr \<Rightarrow> ('bx, 'ux, c_haship_addr) tun_action" where
  "find_peer_by_sender_peering_addr ip s = (find_pip ip (m_peer s), s)"

definition check_packet_address :: "c_haship_addr \<Rightarrow> bytes \<Rightarrow> nat \<Rightarrow> bool result" where
  "check_packet_address address_expected packet offset =
     (if length packet < 40 then Inl Invalid_argument
      else if offset > length packet - 16 then Inl Invalid_argument
      else let packet_address = take 16 (drop offset packet) in
        if \<not> length address_expected = length packet_address then Inl Abort
        else if \<not> length packet_address = 16 then Inl Abort
        else Inr (list_all (\<lambda>i. address_expected ! i = packet_address ! i) [0..<16]))"

definition check_packet_destination_address :: "c_haship_addr \<Rightarrow> bytes \<Rightarrow> bool result" where
  "check_packet_destination_address address_expected packet =
     check_packet_address address_expected packet header_position_of_dst"

definition check_packet_source_address :: "c_haship_addr \<Rightarrow> bytes \<Rightarrow> bool result" where
  "check_packet_source_address address_expected packet =
     check_packet_address address_expected packet header_position_of_src"

definition get_ip_protocol_number :: "bytes \<Rightarrow> int result" where
  \<comment> \<open>a signed \<open>char\<close>\<close>
  "get_ip_protocol_number data = bindR (vec_at data header_position_of_ip_protocol_type) (\<lambda>c. Inr (sint c))"

definition check_ip_protocol :: "bytes \<Rightarrow> ('bx, 'ux) c_tunserver \<Rightarrow> bool result" where
  "check_ip_protocol data s =
     bindR (get_ip_protocol_number data) (\<lambda>protocol. Inr (protocol \<in> set (m_supported_ip_protocols s)))"

definition parse_tun_ip_src_dst :: "host_lib \<Rightarrow> bytes \<Rightarrow> nat \<Rightarrow> (c_haship_addr \<times> c_haship_addr) result" where
  "parse_tun_ip_src_dst host buff ipv6_offset =
     (let pos_src = ipv6_offset + header_position_of_src; len_src = header_length_of_src;
          pos_dst = ipv6_offset + header_position_of_dst; len_dst = header_length_of_dst in
      if length buff < pos_src + len_src then Inl Runtime_error
      else if length buff < pos_dst + len_dst then Inl Runtime_error
      else
        bindR (c_haship_addr_by_addr_dot host (inet_ntop6 host (take 16 (drop pos_src buff)))) (\<lambda>ret_src.
        bindR (c_haship_addr_by_addr_dot host (inet_ntop6 host (take 16 (drop pos_dst buff)))) (\<lambda>ret_dst.
        Inr (ret_src, ret_dst))))"

definition get_my_ipv6_nice :: "('bx, 'ux) crypto_lib \<Rightarrow> ('bx, 'ux, bytes) tun_action" where
  "get_my_ipv6_nice lib s =
     (case get_ipv6_string_hexdot lib (m_my_IDI_pub s) of (r, pub) \<Rightarrow> (r, s\<lparr>m_my_IDI_pub := pub\<rparr>))"

section \<open>My keys\<close>

definition starts_fd :: "bytes \<Rightarrow> unit result" where
  "starts_fd hexdot =
     bindR (vec_at hexdot 0) (\<lambda>c. if c \<noteq> 0x66 then Inl Runtime_error
       else bindR (vec_at hexdot 1) (\<lambda>d. if d \<noteq> 0x64 then Inl Runtime_error else Inr ()))"

definition configure_load_IDI ::
    "('bx, 'ux) crypto_lib \<Rightarrow> host_lib \<Rightarrow> (t_datastore \<Rightarrow> string \<Rightarrow> bytes result) \<Rightarrow> bytes
     \<Rightarrow> (c_multikeys_PAIR \<times> c_haship_addr) result" where
  \<comment> \<open>load the permanent identity and compute its address\<close>
  "configure_load_IDI lib host load_string prefix =
     (case load_string e_datastore_galaxy_instalation_key_conf ''IDI'' of
        Inl e \<Rightarrow> Inl (if e = Invalid_argument then Runtime_error else e)
      | Inr IDI_name \<Rightarrow>
          let pair0 = c_multikeys_PAIR_init\<lparr>m_pub := set_ipv6_prefix prefix c_multikeys_pub_init\<rparr> in
          (case andThen (datastore_load_PRV_and_pub load_string (map (\<lambda>c. char_of (unat c)) IDI_name)) (\<lambda>_.
                andThen (on_pub (get_ipv6_string_bin lib)) (\<lambda>IDI_ip_bin.
                andThen (on_pub (get_ipv6_string_hexdot lib)) (\<lambda>IDI_ip_hexdot.
                andThen (liftR (bindR (vec_at IDI_ip_bin 0) (\<lambda>c. if c \<noteq> 0xFD then Inl Runtime_error else Inr ()))) (\<lambda>_.
                andThen (liftR (starts_fd IDI_ip_hexdot)) (\<lambda>_.
                liftR (c_haship_addr_by_addr_dot host IDI_ip_hexdot)))))) pair0 of
             (Inl e, _) \<Rightarrow> Inl e
           | (Inr IDI_hip, my_IDI) \<Rightarrow> Inr (my_IDI, IDI_hip)))"

definition configure_mykey ::
    "('bx, 'ux) crypto_lib \<Rightarrow> host_lib \<Rightarrow> (t_datastore \<Rightarrow> string \<Rightarrow> bytes result) \<Rightarrow> ('bx, 'ux, unit) tun_action" where
  "configure_mykey lib host load_string s =
     (case configure_load_IDI lib host load_string (m_node_ipv6_prefix s) of
        Inl e \<Rightarrow> (Inl e, s)
      | Inr (my_IDI, IDI_hip) \<Rightarrow>
          (case generate_system lib e_crypto_system_type_X25519 1 (c_multikeys_PAIR_init, w_rng (m_world s)) of
             (Inl e, (_, n)) \<Rightarrow> (Inl e, s\<lparr>m_world := (m_world s)\<lparr>w_rng := n\<rparr>\<rparr>)
           | (Inr _, (my_IDC, n)) \<Rightarrow>
               let s1 = s\<lparr>m_world := (m_world s)\<lparr>w_rng := n\<rparr>\<rparr> in
               (case bindR (serialize_bin push_varstring (m_pub my_IDC)) (\<lambda>IDC_pub_to_sign.
                     bindR (PAIR_multi_sign lib my_IDI IDC_pub_to_sign) (\<lambda>IDC_IDI_signature.
                     bindR (multi_sign_verify lib IDC_IDI_signature IDC_pub_to_sign (m_pub my_IDI)) (\<lambda>_.
                     Inr IDC_IDI_signature))) of
                  Inl e \<Rightarrow> (Inl e, s1)
                | Inr IDC_IDI_signature \<Rightarrow>
                    let s2 = s1\<lparr>m_my_IDI_pub := set_ipv6_prefix (m_node_ipv6_prefix s) (m_pub my_IDI),
                               m_IDI_IDC_sig := IDC_IDI_signature\<rparr> in
                    (case andThen (get_ipv6_string_hexdot lib) (\<lambda>IDC_ip_hexdot.
                          andThen (liftR (starts_fd IDC_ip_hexdot)) (\<lambda>_.
                          liftR (c_haship_addr_by_addr_dot host IDC_ip_hexdot))) (m_pub my_IDC) of
                       (Inl e, _) \<Rightarrow> (Inl e, s2)
                     | (Inr _, IDC_pub) \<Rightarrow>
                         (Inr (), s2\<lparr>m_my_hip := IDI_hip,
                            m_my_IDC := my_IDC\<lparr>m_pub := set_ipv6_prefix (m_node_ipv6_prefix s) IDC_pub\<rparr>\<rparr>)))))"

end
