(* ===== verification/Event_Loop.thy ===== *)
theory Event_Loop
  imports Tunserver
begin

text \<open>
  The event loop of \<open>c_tunserver\<close> (\<^verbatim>\<open>src/src/tunserver.cpp\<close>, \<open>event_loop\<close>): one
  definition per command of the protocol, the dispatch, and one pass of the loop with its
  exception handlers. What the TUN device and the socket deliver is an \<open>event\<close>. Messages to the
  user, the periodic status line and the flags that only they read are not modelled.
\<close>

section \<open>Data from the TUN device\<close>

definition own_reason :: c_route_reason where
  "own_reason = \<lparr>m_his_addr = c_haship_addr_init, m_search_mode = e_search_mode_route_own_packet\<rparr>"

definition string_erase :: "nat \<Rightarrow> nat \<Rightarrow> bytes \<Rightarrow> bytes result" where
  \<comment> \<open>\<open>str.erase(pos, n)\<close>\<close>
  "string_erase pos n str = (if pos > length str then Inl Out_of_range else Inr (take pos str @ drop (pos + n) str))"

definition string_insert :: "nat \<Rightarrow> bytes \<Rightarrow> bytes \<Rightarrow> bytes result" where
  \<comment> \<open>\<open>str.insert(pos, data, size)\<close>\<close>
  "string_insert pos data str = (if pos > length str then Inl Out_of_range else Inr (take pos str @ data @ drop pos str))"

definition send_own_data ::
    "('bx, 'ux) crypto_lib \<Rightarrow> bytes \<Rightarrow> c_haship_addr \<Rightarrow> c_haship_addr \<Rightarrow> ('bx, 'ux, unit) tun_action" where
  \<comment> \<open>through the tunnel to \<open>dst_hip\<close>\<close>
  "send_own_data lib buff src_hip dst_hip =
     andThen (assertA (length buff \<le> 65536 \<and> length buff \<ge> header_position_of_ipv6)) (\<lambda>_.
     andThen (liftR (string_erase header_position_of_dst g_haship_addr_size (drop header_position_of_ipv6 buff))) (\<lambda>data_cleartext.
     andThen (on_tunnel dst_hip (box_ab lib data_cleartext)) (\<lambda>(data_encrypted, nonce_used).
     andThen (route_tun_data_to_its_destination_top e_route_method_from_me data_encrypted src_hip dst_hip
                own_reason 5 nonce_used) (\<lambda>_.
     ret ()))))"

definition handle_tun_packet ::
    "('bx, 'ux) crypto_lib \<Rightarrow> host_lib \<Rightarrow> bytes \<Rightarrow> ('bx, 'ux, unit) tun_action" where
  "handle_tun_packet lib host buff s =
     (case parse_tun_ip_src_dst host buff (m_tun_header_offset_ipv6 s) of
        Inl e \<Rightarrow> (Inl e, s)
      | Inr (src_hip, dst_hip) \<Rightarrow>
          (case addr_is_galaxy dst_hip of
             Inl e \<Rightarrow> (Inl e, s)
           | Inr is_galaxy \<Rightarrow>
               if \<not> is_galaxy then (Inr (), s)
               else if find_key dst_hip (m_tunnel s) = None then
                 andThen (route_tun_data_to_its_destination_top e_route_method_from_me [] src_hip dst_hip
                            own_reason 5 (t_crypto_nonce_default host)) (\<lambda>_. ret ()) s
               else send_own_data lib buff src_hip dst_hip s))"

section \<open>Tunnelled data from a peer\<close>

definition pop_haship_addr :: "(parser, c_haship_addr) action" where
  "pop_haship_addr = andThen (pop_bytes_n length_of_addr) (\<lambda>bin. liftR (c_haship_addr_by_addr_bin bin))"

definition parse_tunneled_data ::
    "(parser, c_haship_addr \<times> c_haship_addr \<times> int \<times> bytes \<times> bytes) action" where
  "parse_tunneled_data =
     andThen (skip_bytes_n 2) (\<lambda>_.
     andThen pop_haship_addr (\<lambda>src_hip.
     andThen pop_haship_addr (\<lambda>dst_hip.
     andThen pop_byte_u (\<lambda>requested_ttl.
     andThen (pop_bytes_n 24) (\<lambda>nonce_used.
     andThen pop_varstring (\<lambda>blob.
     ret (src_hip, dst_hip, uint requested_ttl, nonce_used, blob)))))))"

definition write_to_tun :: "bytes \<Rightarrow> (world, nat) action" where
  "write_to_tun packet w =
     (case w_tun_write w packet of
        None \<Rightarrow> (Inl Runtime_error, w)
      | Some n \<Rightarrow> (Inr n, w\<lparr>w_tun := w_tun w @ [take n packet]\<rparr>))"

definition tun_header :: bytes where
  "tun_header = [0x00, 0x00, 0x86, 0xDD]"

definition deliver_to_tun ::
    "('bx, 'ux) crypto_lib \<Rightarrow> c_haship_addr \<Rightarrow> c_haship_addr \<Rightarrow> bytes \<Rightarrow> bytes \<Rightarrow> ('bx, 'ux, unit) tun_action" where
  "deliver_to_tun lib src_hip dst_hip blob nonce_used =
     andThen (on_tunnel src_hip (unbox_ab lib blob nonce_used)) (\<lambda>tundata s.
     andThen (liftR (check_ip_protocol tundata s)) (\<lambda>supported.
       if supported then
         andThen (liftR (string_insert header_position_of_dst dst_hip tundata)) (\<lambda>tundata1.
         andThen (liftR (check_packet_source_address src_hip tundata1)) (\<lambda>source_ok.
           if \<not> source_ok then raise Runtime_error
           else
             andThen (liftR (string_insert 0 tun_header tundata1)) (\<lambda>tundata2.
             andThen (on_world (write_to_tun tundata2)) (\<lambda>write_bytes.
             if write_bytes = length tundata2 then ret () else raise Runtime_error))))
       else andThen (liftR (get_ip_protocol_number tundata)) (\<lambda>_. ret ())) s)"

definition reduce_ttl :: "int \<Rightarrow> int" where
  "reduce_ttl requested_ttl =
     (let data_route_ttl = requested_ttl - 1
      in if data_route_ttl > ttl_max_accepted then ttl_max_accepted else data_route_ttl)"

definition sender_drained :: "c_haship_addr option \<Rightarrow> ('bx, 'ux) c_tunserver \<Rightarrow> bool" where
  \<comment> \<open>\<open>sender_as_peering_ptr != nullptr && get_limit_points() < 0\<close>\<close>
  "sender_drained sender s =
     (case sender of None \<Rightarrow> False
      | Some hip \<Rightarrow> (case find_key hip (m_peer s) of None \<Rightarrow> False | Some p \<Rightarrow> m_limit_points p < 0))"

definition handle_tunneled_data ::
    "('bx, 'ux) crypto_lib \<Rightarrow> host_lib \<Rightarrow> c_haship_addr option \<Rightarrow> bytes \<Rightarrow> ('bx, 'ux, unit) tun_action" where
  "handle_tunneled_data lib host sender buf =
     andThen (liftR (fst (parse_tunneled_data (parser_of_buffer buf)))) (\<lambda>(src_hip, dst_hip, requested_ttl, nonce_used, blob) s.
       if dst_hip = m_my_hip s then
         if find_key src_hip (m_tunnel s) = None then
           andThen (route_tun_data_to_its_destination_top e_route_method_from_me [] dst_hip src_hip
                      own_reason requested_ttl (t_crypto_nonce_default host)) (\<lambda>_. ret ()) s
         else deliver_to_tun lib src_hip dst_hip blob nonce_used s
       else if sender_drained sender s then (Inr (), s)
       else
         andThen (route_tun_data_to_its_destination_top e_route_method_default blob src_hip dst_hip
                    \<lparr>m_his_addr = src_hip, m_search_mode = e_search_mode_route_other_packet\<rparr>
                    (reduce_ttl requested_ttl) nonce_used) (\<lambda>_. ret ()) s)"

section \<open>The greeting\<close>

definition parse_hello :: "(parser, bytes \<times> bytes \<times> bytes) action" where
  "parse_hello =
     andThen pop_varstring (\<lambda>bin_his_IDC_pub.
     andThen pop_varstring (\<lambda>bin_his_IDI_pub.
     andThen pop_varstring (\<lambda>bin_his_IDI_IDC_sig.
     ret (bin_his_IDC_pub, bin_his_IDI_pub, bin_his_IDI_IDC_sig))))"

definition load_pubkey :: "bytes \<Rightarrow> bytes \<Rightarrow> c_multikeys_pub result" where
  "load_pubkey prefix bin =
     (case load_from_bin pop_varstring bin c_multikeys_pub_init of
        (Inl e, _) \<Rightarrow> Inl e | (Inr _, pub) \<Rightarrow> Inr (set_ipv6_prefix prefix pub))"

definition load_signature :: "bytes \<Rightarrow> c_multisign result" where
  "load_signature bin =
     (case multisign_load_from_bin bin c_multisign_init of (Inl e, _) \<Rightarrow> Inl e | (Inr _, sig) \<Rightarrow> Inr sig)"

definition hello_reference ::
    "('bx, 'ux) crypto_lib \<Rightarrow> host_lib \<Rightarrow> c_ip46_addr \<Rightarrow> c_multikeys_pub
     \<Rightarrow> (t_peering_reference \<times> c_multikeys_pub) result" where
  \<comment> \<open>the reference of the sender, and his key with its hash now cached\<close>
  "hello_reference lib host sender_pip his_pubkey =
     (case get_ipv6_string_hexdot lib his_pubkey of
        (Inl e, _) \<Rightarrow> Inl e
      | (Inr text, his_pubkey') \<Rightarrow>
          bindR (t_peering_reference_of_addr host sender_pip text) (\<lambda>his_ref. Inr (his_ref, his_pubkey')))"

definition hello_body ::
    "('bx, 'ux) crypto_lib \<Rightarrow> host_lib \<Rightarrow> c_ip46_addr \<Rightarrow> bytes \<times> bytes \<times> bytes \<Rightarrow> ('bx, 'ux, unit) tun_action" where
  "hello_body lib host sender_pip = (\<lambda>(bin_his_IDC_pub, bin_his_IDI_pub, bin_his_IDI_IDC_sig) s.
     andThen (liftR (load_pubkey (m_node_ipv6_prefix s) bin_his_IDI_pub)) (\<lambda>his_IDI.
     andThen (liftR (load_signature bin_his_IDI_IDC_sig)) (\<lambda>his_IDI_IDC_sig.
     andThen (liftR (multi_sign_verify lib his_IDI_IDC_sig bin_his_IDC_pub his_IDI)) (\<lambda>_.
     andThen (liftR (load_pubkey (m_node_ipv6_prefix s) bin_his_IDI_pub)) (\<lambda>his_pubkey.
     andThen (liftR (hello_reference lib host sender_pip his_pubkey)) (\<lambda>(his_ref, his_pubkey').
     andThen (add_peer_append_pubkey lib his_ref his_pubkey') (\<lambda>_.
     andThen (liftR (load_pubkey (m_node_ipv6_prefix s) bin_his_IDI_pub)) (\<lambda>node_pubkey.
     add_tunnel_to_pubkey lib node_pubkey))))))) s)"

definition is_invalid_argument :: "cpp_error \<Rightarrow> bool" where
  \<comment> \<open>\<open>std::invalid_argument\<close> and its subclass\<close>
  "is_invalid_argument e \<longleftrightarrow> e = Invalid_argument \<or> e = Invalid_argument_in_version"

definition handle_public_hi ::
    "('bx, 'ux) crypto_lib \<Rightarrow> host_lib \<Rightarrow> c_ip46_addr \<Rightarrow> bytes \<Rightarrow> ('bx, 'ux, unit) tun_action" where
  "handle_public_hi lib host sender_pip buf =
     andThen (assertA (length buf \<ge> 2)) (\<lambda>_.
     andThen (liftR (fst (parse_hello (parser_of_buffer (drop 2 buf))))) (\<lambda>hello s.
       case hello_body lib host sender_pip hello s of
         (Inl e, s') \<Rightarrow> if is_invalid_argument e then (Inr (), s') else (Inl e, s')
       | (Inr _, s') \<Rightarrow> (Inr (), s')))"

section \<open>Searching for an address\<close>

definition parse_findhip_query :: "bytes \<Rightarrow> (c_haship_addr \<times> int) result" where
  \<comment> \<open>the search for the separator starts at octet 2 of the data, not of the datagram; the TTL is a
     signed \<open>char\<close>\<close>
  "parse_findhip_query cmd_data =
     (case str_find 0x3B 2 cmd_data of
        None \<Rightarrow> Inl Runtime_error
      | Some pos1 \<Rightarrow>
          if pos1 \<noteq> g_haship_addr_size then Inl Runtime_error
          else bindR (c_haship_addr_by_addr_bin (take pos1 cmd_data)) (\<lambda>requested_hip.
               bindR (substr_from (pos1 + 1) cmd_data) (\<lambda>rest.
               bindR (vec_at (take 1 rest) 0) (\<lambda>c. Inr (requested_hip, sint c)))))"

definition findhip_reply_data :: "int \<Rightarrow> c_haship_addr \<Rightarrow> c_route_info \<Rightarrow> bytes result" where
  "findhip_reply_data reply_ttl requested_hip route =
     bindR (serialize_bin push_varstring (ri_pubkey route)) (\<lambda>pubkey.
     generated
       (andThen (push_byte_u (of_int reply_ttl)) (\<lambda>_.
        andThen (push_byte_u 0x3B) (\<lambda>_.
        andThen (push_byte_u (of_int (m_cost route))) (\<lambda>_.
        andThen (push_byte_u 0x3B) (\<lambda>_.
        andThen (push_bytes_n g_haship_addr_size requested_hip) (\<lambda>_.
        andThen (push_byte_u 0x3B) (\<lambda>_.
        andThen (push_varstring pubkey) (\<lambda>_.
        push_byte_u 0x3B)))))))))"

definition answer_query ::
    "c_ip46_addr \<Rightarrow> c_haship_addr \<Rightarrow> c_haship_addr \<Rightarrow> c_haship_addr \<Rightarrow> int \<Rightarrow> ('bx, 'ux, unit) tun_action" where
  \<comment> \<open>the body of the \<open>try\<close>; \<open>sender\<close> is the key of \<open>sender_as_peering_ptr\<close>\<close>
  "answer_query sender_pip sender sender_hip requested_hip requested_ttl =
     andThen (on_routing (get_route_or_maybe_search tun_node requested_hip
                \<lparr>m_his_addr = sender_hip, m_search_mode = e_search_mode_help_find\<rparr> True (requested_ttl - 1))) (\<lambda>route.
     andThen (liftR (findhip_reply_data requested_ttl requested_hip route)) (\<lambda>data.
     andThen (on_peer sender (send_data_udp_cmd e_proto_cmd_findhip_reply data)) (\<lambda>_.
     andThen (find_peer_by_sender_peering_addr sender_pip) (\<lambda>_.
     ret ()))))"

definition catch_all :: "('s, unit) action \<Rightarrow> ('s, unit) action" where
  \<comment> \<open>\<open>catch(...)\<close>\<close>
  "catch_all m s =
     (case m s of (Inl e, s') \<Rightarrow> if e = Abort then (Inl Abort, s') else (Inr (), s') | (Inr _, s') \<Rightarrow> (Inr (), s'))"

definition handle_findhip_query ::
    "c_ip46_addr \<Rightarrow> c_haship_addr option \<Rightarrow> c_haship_addr \<Rightarrow> bytes \<Rightarrow> ('bx, 'ux, unit) tun_action" where
  \<comment> \<open>the reduced TTL is computed and then not used; the pointer to the sender is never null here,
     since the command is not one that an unknown peer may send\<close>
  "handle_findhip_query sender_pip sender sender_hip buf =
     andThen (assertA (length buf \<ge> 2)) (\<lambda>_.
     andThen (liftR (parse_findhip_query (drop 2 buf))) (\<lambda>(requested_hip, requested_ttl).
       if requested_ttl < 1 then ret ()
       else case sender of
              None \<Rightarrow> raise Abort
            | Some key \<Rightarrow> catch_all (answer_query sender_pip key sender_hip requested_hip requested_ttl)))"

definition parse_findhip_reply :: "(parser, int \<times> int \<times> c_haship_addr \<times> c_multikeys_pub) action" where
  "parse_findhip_reply =
     andThen pop_byte_u (\<lambda>given_ttl.
     andThen (pop_byte_skip 0x3B) (\<lambda>_.
     andThen pop_byte_u (\<lambda>given_cost.
     andThen (pop_byte_skip 0x3B) (\<lambda>_.
     andThen (andThen (pop_bytes_n g_haship_addr_size) (\<lambda>bin. liftR (c_haship_addr_by_addr_bin bin))) (\<lambda>given_goal_hip.
     andThen (pop_byte_skip 0x3B) (\<lambda>_.
     andThen pop_varstring (\<lambda>bin.
     andThen (liftR (c_haship_pubkey_of_bin bin)) (\<lambda>pubkey.
     andThen (pop_byte_skip 0x3B) (\<lambda>_.
     ret (uint given_ttl, uint given_cost, given_goal_hip, pubkey))))))))))"

definition handle_findhip_reply ::
    "('bx, 'ux) crypto_lib \<Rightarrow> c_haship_addr \<Rightarrow> bytes \<Rightarrow> ('bx, 'ux, unit) tun_action" where
  \<comment> \<open>\<open>add_tunnel_to_pubkey\<close> computes the address on this key, which caches its hash, before the
     key is copied into the route\<close>
  "handle_findhip_reply lib sender_hip buf =
     andThen (liftR (fst (parse_findhip_reply (parser_of_buffer (drop 2 buf))))) (\<lambda>(given_ttl, given_cost, given_goal_hip, pubkey) s.
       if given_ttl < 1 then (Inr (), s)
       else
         let pubkey1 = set_ipv6_prefix (m_node_ipv6_prefix s) pubkey;
             pubkey2 = snd (get_ipv6_string_bin lib pubkey1) in
         andThen (add_tunnel_to_pubkey lib pubkey1) (\<lambda>_.
         andThen (c_route_info_new tun_node sender_hip given_cost pubkey2) (\<lambda>route_info.
         andThen (on_routing (on_fst (add_route_info_and_return given_goal_hip route_info))) (\<lambda>_.
         ret ()))) s)"

section \<open>Dispatch and the loop\<close>

definition recognise_sender ::
    "t_proto_cmd \<Rightarrow> c_ip46_addr \<Rightarrow> nat \<Rightarrow> ('bx, 'ux, c_haship_addr option \<times> c_haship_addr) tun_action" where
  \<comment> \<open>\<open>sender_as_peering_ptr\<close> and \<open>sender_hip\<close>\<close>
  "recognise_sender cmd sender_pip size_read =
     (if \<not> command_is_valid_from_unknown_peer cmd then
        andThen (find_peer_by_sender_peering_addr sender_pip) (\<lambda>hip.
        andThen (on_peer hip (on_stats (update_read_stats size_read))) (\<lambda>_ s.
          (Inr (Some hip, case find_key hip (m_peer s) of None \<Rightarrow> hip | Some p \<Rightarrow> m_haship_addr p), s)))
      else ret (None, c_haship_addr_init))"

definition handle_udp_packet ::
    "('bx, 'ux) crypto_lib \<Rightarrow> host_lib \<Rightarrow> c_ip46_addr \<Rightarrow> bytes \<Rightarrow> ('bx, 'ux, unit) tun_action" where
  "handle_udp_packet lib host sender_pip buf =
     (if length buf = 0 then ret ()
      else if \<not> length buf \<ge> 2 then ret ()
      else if current_version < buf ! 0 then raise Runtime_error
      else
        andThen (liftR (int_to_proto_cmd (buf ! 1))) (\<lambda>cmd.
        andThen (recognise_sender cmd sender_pip (length buf)) (\<lambda>(sender, sender_hip).
          if cmd = e_proto_cmd_tunneled_data then handle_tunneled_data lib host sender buf
          else if cmd = e_proto_cmd_public_hi then handle_public_hi lib host sender_pip buf
          else if cmd = e_proto_cmd_findhip_query then handle_findhip_query sender_pip sender sender_hip buf
          else if cmd = e_proto_cmd_findhip_reply then handle_findhip_reply lib sender_hip buf
          else ret ())))"

datatype event =
    Ev_tun bytes                  \<comment> \<open>\<open>get_tun_packet()\<close>\<close>
  | Ev_udp c_ip46_addr bytes      \<comment> \<open>\<open>receive_udp_paket()\<close>\<close>
  | Ev_idle
  | Ev_device_lost "c_haship_addr \<Rightarrow> int \<Rightarrow> bool"
      \<comment> \<open>waiting throws \<open>tuntap_error_devtun\<close>, as the driver of Windows does; and whether the device can be set up again\<close>

record loop_locals =
  ping_all_time_last :: int
  ping_all_count :: int

definition maybe_ping :: "int \<Rightarrow> (loop_locals \<times> ('bx, 'ux) c_tunserver, unit) action" where
  \<comment> \<open>\<open>hello_interval\<close>: the option \<open>net-hello-interval\<close>, in seconds\<close>
  "maybe_ping hello_interval =
     andThen (on_snd (on_world steady_now)) (\<lambda>time_now (l, s).
       let freq = (if ping_all_count l < 2 then 1 else hello_interval) in
       if time_now > ping_all_time_last l + freq * 1000000000 then
         andThen (on_snd peering_ping_all_peers) (\<lambda>_.
         andThen (on_snd (on_world steady_now)) (\<lambda>now (l, s).
           (Inr (), (l\<lparr>ping_all_time_last := now, ping_all_count := ping_all_count l + 1\<rparr>, s)))) (l, s)
       else (Inr (), (l, s)))"

definition handle_event ::
    "('bx, 'ux) crypto_lib \<Rightarrow> host_lib \<Rightarrow> event \<Rightarrow> ('bx, 'ux, unit) tun_action" where
  "handle_event lib host ev =
     (case ev of
        Ev_tun buff \<Rightarrow> handle_tun_packet lib host buff
      | Ev_udp sender_pip buf \<Rightarrow> handle_udp_packet lib host sender_pip buf
      | Ev_idle \<Rightarrow> ret ()
      | Ev_device_lost device_ready \<Rightarrow> prepare_socket device_ready)"

definition event_loop_pass ::
    "('bx, 'ux) crypto_lib \<Rightarrow> host_lib \<Rightarrow> int \<Rightarrow> event \<Rightarrow> (loop_locals \<times> ('bx, 'ux) c_tunserver, unit) action" where
  \<comment> \<open>one pass: every exception is caught and logged, an abort ends the process; the handler of
     \<open>tuntap_error_devtun\<close> runs \<open>prepare_socket\<close> and drops the \<open>exception_error_exit\<close> it may throw\<close>
  "event_loop_pass lib host hello_interval ev =
     catch_all (andThen (maybe_ping hello_interval) (\<lambda>_. on_snd (handle_event lib host ev)))"

fun event_loop_run ::
    "('bx, 'ux) crypto_lib \<Rightarrow> host_lib \<Rightarrow> int \<Rightarrow> event list \<Rightarrow> (loop_locals \<times> ('bx, 'ux) c_tunserver, unit) action" where
  "event_loop_run lib host hello_interval [] = ret ()"
| "event_loop_run lib host hello_interval (ev # evs) = (\<lambda>(l, s).
     if is_exiting s then (Inr (), (l, s))
     else andThen (event_loop_pass lib host hello_interval ev)
            (\<lambda>_. event_loop_run lib host hello_interval evs) (l, s))"

definition event_loop ::
    "('bx, 'ux) crypto_lib \<Rightarrow> host_lib \<Rightarrow> int \<Rightarrow> event list \<Rightarrow> ('bx, 'ux, unit) tun_action" where
  "event_loop lib host hello_interval evs =
     andThen peering_ping_all_peers (\<lambda>_.
     andThen (on_world steady_now) (\<lambda>now s.
       case event_loop_run lib host hello_interval evs (\<lparr>ping_all_time_last = now, ping_all_count = 0\<rparr>, s) of
         (r, (l, s')) \<Rightarrow> (r, s')))"

definition run :: "('bx, 'ux) crypto_lib \<Rightarrow> host_lib \<Rightarrow> (c_haship_addr \<Rightarrow> int \<Rightarrow> bool) \<Rightarrow> int \<Rightarrow> event list \<Rightarrow> ('bx, 'ux, unit) tun_action" where
  \<comment> \<open>dropping the privileges of the process is not modelled\<close>
  "run lib host device_ready hello_interval evs =
     andThen (prepare_socket device_ready) (\<lambda>_. event_loop lib host hello_interval evs)"

end
