(* ===== verification/Rpc.thy ===== *)
theory Rpc
  imports Tunserver
begin

text \<open>
  The remote control of the node: the \<open>rpc_\<close> methods of \<open>c_tunserver\<close> in
  \<^verbatim>\<open>src/src/tunserver.cpp\<close>. The arguments are the fields the methods read from the JSON
  request, the result holds the fields of the answer that depend on what happened. Parsing and
  printing JSON is left to its library; a request without the fields throws before any of this.
\<close>

record rpc_answer =
  rpc_cmd :: string
  rpc_msg :: string
  rpc_state :: string

definition rpc_ping :: "('bx, 'ux, rpc_answer) tun_action" where
  "rpc_ping = ret \<lparr>rpc_cmd = ''ping'', rpc_msg = ''pong'', rpc_state = ''ok''\<rparr>"

definition can_i_add_peer :: "c_haship_addr \<Rightarrow> ('bx, 'ux) c_tunserver \<Rightarrow> bool" where
  "can_i_add_peer hip s =
     (if m_unban_if_banned s then True
      else let is_peer_on_black_list = peer_on_black_list hip s
           in if is_peer_on_black_list then False else False)"

definition add_peer_hip :: "host_lib \<Rightarrow> bytes \<Rightarrow> bytes \<Rightarrow> c_haship_addr result" where
  "add_peer_hip host peer format =
     (if format = octets_of ''0.1'' then
        bindR (parse_peer_simplestring host peer) (\<lambda>ref. Inr (haship_addr ref))
      else if format = octets_of ''1.0'' then
        (case str_find 0x40 0 peer of
           None \<Rightarrow> Inl Invalid_argument
         | Some at_position \<Rightarrow> c_haship_addr_by_addr_dot host (take at_position peer))
      else Inl Invalid_argument)"

definition rpc_add_peer_body :: "host_lib \<Rightarrow> bytes \<Rightarrow> bytes \<Rightarrow> ('bx, 'ux, rpc_answer) tun_action" where
  \<comment> \<open>the body of the \<open>try\<close>\<close>
  "rpc_add_peer_body host peer format =
     andThen (liftR (add_peer_hip host peer format)) (\<lambda>hip s.
       if can_i_add_peer hip s then
         andThen (if format = octets_of ''0.1'' then add_peer_simplestring host peer
                  else if format = octets_of ''1.0'' then add_peer_simplestring_new_format host peer
                  else ret ())
           (\<lambda>_. ret \<lparr>rpc_cmd = ''add_peer'', rpc_msg = ''ok: Peer added'', rpc_state = ''ok''\<rparr>) s
       else (Inr \<lparr>rpc_cmd = ''add_peer'', rpc_msg = ''failed: peer is banned and you said to not unban him'',
                  rpc_state = ''blocked''\<rparr>, s))"

definition rpc_add_peer :: "host_lib \<Rightarrow> bytes \<Rightarrow> bytes \<Rightarrow> ('bx, 'ux, rpc_answer) tun_action" where
  "rpc_add_peer host peer format s =
     (case rpc_add_peer_body host peer format s of
        (Inr ans, s') \<Rightarrow> (Inr ans, s')
      | (Inl e, s') \<Rightarrow>
          if e = Abort then (Inl Abort, s')
          else (Inr \<lparr>rpc_cmd = ''add_peer'', rpc_msg = ''fail: Bad peer format'', rpc_state = ''error''\<rparr>, s'))"

definition catch_bad_peer :: "string \<Rightarrow> ('bx, 'ux, rpc_answer) tun_action \<Rightarrow> ('bx, 'ux, rpc_answer) tun_action" where
  \<comment> \<open>\<open>catch(const std::invalid_argument &)\<close>\<close>
  "catch_bad_peer cmd m s =
     (case m s of
        (Inr ans, s') \<Rightarrow> (Inr ans, s')
      | (Inl e, s') \<Rightarrow>
          if e = Invalid_argument \<or> e = Invalid_argument_in_version
          then (Inr \<lparr>rpc_cmd = cmd, rpc_msg = ''fail: Bad peer format'', rpc_state = ''error''\<rparr>, s')
          else (Inl e, s'))"

definition rpc_delete_peer :: "host_lib \<Rightarrow> bytes \<Rightarrow> ('bx, 'ux, rpc_answer) tun_action" where
  "rpc_delete_peer host peer = catch_bad_peer ''delete_peer''
     (andThen (delete_peer_simplestring host peer False) (\<lambda>peer_deleted.
        ret (if peer_deleted
             then \<lparr>rpc_cmd = ''delete_peer'', rpc_msg = ''ok: Peer deleted'', rpc_state = ''ok''\<rparr>
             else \<lparr>rpc_cmd = ''delete_peer'', rpc_msg = ''ok: Peer not found'', rpc_state = ''nothing_done''\<rparr>)))"

definition rpc_delete_all_peers :: "('bx, 'ux, rpc_answer) tun_action" where
  "rpc_delete_all_peers = andThen (delete_all_peers False)
     (\<lambda>_. ret \<lparr>rpc_cmd = ''delete_all_peers'', rpc_msg = ''ok: All peers deleted'', rpc_state = ''ok''\<rparr>)"

definition rpc_ban_peer :: "host_lib \<Rightarrow> bytes \<Rightarrow> ('bx, 'ux, rpc_answer) tun_action" where
  \<comment> \<open>the address is parsed before the \<open>try\<close>\<close>
  "rpc_ban_peer host peer =
     andThen (liftR (c_haship_addr_by_addr_dot host peer)) (\<lambda>hip.
     catch_bad_peer ''ban_peer'' (\<lambda>s.
       if peer_on_black_list hip s
       then (Inr \<lparr>rpc_cmd = ''ban_peer'', rpc_msg = ''nothing done, peer is banned'', rpc_state = ''nothing_done''\<rparr>, s)
       else andThen (delete_peer_simplestring host peer True)
              (\<lambda>_. ret \<lparr>rpc_cmd = ''ban_peer'', rpc_msg = ''ok: Peer banned'', rpc_state = ''ok''\<rparr>) s))"

definition rpc_ban_list :: "('bx, 'ux, c_haship_addr set) tun_action" where
  "rpc_ban_list s = (Inr (m_peer_black_list s), s)"

definition rpc_ban_all_peers :: "('bx, 'ux, rpc_answer) tun_action" where
  "rpc_ban_all_peers = andThen (delete_all_peers True)
     (\<lambda>_. ret \<lparr>rpc_cmd = ''ban_all_peers'', rpc_msg = ''ok: All peers banned'', rpc_state = ''ok''\<rparr>)"

definition rpc_get_galaxy_ipv6 :: "('bx, 'ux) crypto_lib \<Rightarrow> ('bx, 'ux, bytes) tun_action" where
  "rpc_get_galaxy_ipv6 lib = get_my_ipv6_nice lib"

definition print_int :: "int \<Rightarrow> bytes" where
  "print_int i = (if i < 0 then 0x2D # print_nat (nat (- i)) else print_nat (nat i))"

definition rpc_get_galaxy_invitation ::
    "('bx, 'ux) crypto_lib \<Rightarrow> bytes list \<Rightarrow> ('bx, 'ux, bytes) tun_action" where
  "rpc_get_galaxy_invitation lib ipv4_list =
     andThen (get_my_ipv6_nice lib) (\<lambda>nice s.
       (Inr (nice @ concat (map (\<lambda>ipv4. octets_of ''@(udp:'' @ ipv4 @ [0x3A] @ print_int (m_port s) @ [0x29]) ipv4_list)), s))"

definition get_my_reference :: "('bx, 'ux) crypto_lib \<Rightarrow> ('bx, 'ux, bytes) tun_action" where
  "get_my_reference lib s =
     andThen (get_my_ipv6_nice lib) (\<lambda>nice.
       ret (octets_of ''./tunserver.elf --peer YOURIP:'' @ print_int (m_port s) @ [0x2D] @ nice)) s"

definition rpc_hello :: "('bx, 'ux, rpc_answer) tun_action" where
  "rpc_hello = ret \<lparr>rpc_cmd = ''hello'', rpc_msg = [], rpc_state = ''ok''\<rparr>"

definition rpc_exit :: "('bx, 'ux, rpc_answer) tun_action" where
  "rpc_exit s = (Inr \<lparr>rpc_cmd = ''exit'', rpc_msg = [], rpc_state = ''ok''\<rparr>, exit_tunserver s)"

fun print_hex :: "nat \<Rightarrow> bytes" where
  \<comment> \<open>\<open>operator<<\<close> after \<open>std::hex\<close>\<close>
  "print_hex n =
     (let digit = (\<lambda>d. if d < 10 then 0x30 + of_nat d else 0x57 + of_nat d)
      in if n < 16 then [digit n] else print_hex (n div 16) @ [digit (n mod 16)])"

declare print_hex.simps [simp del]

fun hip_blocks :: "bytes \<Rightarrow> bytes" where
  \<comment> \<open>the loop over pairs of octets\<close>
  "hip_blocks (a # b # rest) = print_hex (unat a * 256 + unat b) @ [0x3A] @ hip_blocks rest"
| "hip_blocks _ = []"

definition rpc_peer_list :: "host_lib \<Rightarrow> ('bx, 'ux, bytes list) tun_action" where
  \<comment> \<open>the last character, a colon, is removed\<close>
  "rpc_peer_list host s =
     (Inr (map (\<lambda>(_, peer). butlast (print_ip46 host (m_peering_addr peer) @ [0x2D] @ hip_blocks (m_haship_addr peer))) (m_peer s)), s)"

definition rpc_sending_test :: "host_lib \<Rightarrow> nat \<Rightarrow> nat \<Rightarrow> ('bx, 'ux, int) tun_action" where
  \<comment> \<open>returns the milliseconds it took; a vector has fewer than \<open>2\<^sup>6\<^sup>3\<close> elements\<close>
  "rpc_sending_test host packet_size packet_count s =
     andThen (liftR (bindR (get_hip_as_string True (m_my_hip s))
                      (t_peering_reference_of_text host (octets_of ''127.0.0.1'') (m_port s)))) (\<lambda>peer_ref.
     andThen (on_world (c_peering_new peer_ref)) (\<lambda>my_peer.
     andThen (liftR (if packet_size < 2 ^ 63 then Inr (replicate packet_size 0) else Inl Bad_alloc)) (\<lambda>packet.
     andThen (on_world steady_now) (\<lambda>time_start.
     andThen (on_world (\<lambda>w.
        case forA (\<lambda>_. send_data_udp packet (m_my_hip s) (m_my_hip s) 3 (t_crypto_nonce_default host)) [0..<packet_count] (my_peer, w) of
          (r, (_, w')) \<Rightarrow> (r, w'))) (\<lambda>_.
     andThen (on_world steady_now) (\<lambda>time_stop.
     ret (if time_stop \<ge> time_start then (time_stop - time_start) div 1000000
          else - ((time_start - time_stop) div 1000000)))))))) s"

end
