(* ===== verification/Node_Lemmas.thy ===== *)
theory Node_Lemmas
  imports Event_Loop Rpc
begin

text \<open>
  What the operations of the node change: the frame of each, in terms of the datagrams it adds to
  \<open>w_sent\<close>, and the invariant of the peer table. The interpretation of \<open>galaxy_node\<close> on the node's
  own operations is here.
\<close>

section \<open>Sending\<close>

definition world_sends :: "(c_ip46_addr \<times> bytes) list \<Rightarrow> world \<Rightarrow> world \<Rightarrow> bool" where
  \<comment> \<open>only datagrams were sent and the clock was read\<close>
  "world_sends pkts w w' \<longleftrightarrow> (\<exists>n. w' = w\<lparr>w_sent := w_sent w @ pkts, w_clock_reads := n\<rparr>)"

lemma world_sends_refl [simp]: "world_sends [] w w"
  unfolding world_sends_def by (rule exI [of _ "w_clock_reads w"]) simp

lemma world_sends_trans: "world_sends ps w w' \<Longrightarrow> world_sends qs w' w'' \<Longrightarrow> world_sends (ps @ qs) w w''"
  by (auto simp: world_sends_def)

lemma world_sendsD:
  assumes "world_sends pkts w w'"
  shows "w_sent w' = w_sent w @ pkts" "w_tun w' = w_tun w" "w_rng w' = w_rng w" "m_disabled w' = m_disabled w"
    "w_tun_write w' = w_tun_write w" "g_dbg_level w' = g_dbg_level w"
  using assms by (auto simp: world_sends_def)

lemma steady_now_ext: "\<exists>t w'. steady_now w = (Inr t, w') \<and> world_sends [] w w'"
  by (auto simp: steady_now_def world_sends_def)

lemma send_data_RAW_udp_run:
  "\<exists>r w' pkts. send_data_RAW_udp data (p, w) = (r, (p, w')) \<and> world_sends pkts w w'
     \<and> (pkts = [] \<or> pkts = [(m_peering_addr p, data)])"
proof -
  have "\<exists>r w' pkts. udp_send_data a data w = (r, w') \<and> world_sends pkts w w' \<and> (pkts = [] \<or> pkts = [(a, data)])" for a
  proof (cases "m_disabled w \<or> (\<exists>e. get_ip4 a = Inl e)")
    case True
    then show ?thesis
      by (intro exI [of _ "fst (udp_send_data a data w)"] exI [of _ w] exI [of _ "[]"]) (auto simp: udp_send_data_def)
  next
    case False
    then obtain i where "get_ip4 a = Inr i" "\<not> m_disabled w" by (cases "get_ip4 a") auto
    moreover from this have "a = tag_ipv4 i" by (cases a) (auto simp: get_ip4_def split: if_splits)
    ultimately show ?thesis
      by (intro exI [of _ "Inr ()"] exI [of _ "w\<lparr>w_sent := w_sent w @ [(a, data)]\<rparr>"] exI [of _ "[(a, data)]"])
        (auto simp: udp_send_data_def world_sends_def intro: exI [of _ "w_clock_reads w"])
  qed
  then obtain r w' pkts where u: "udp_send_data (m_peering_addr p) data w = (r, w')" "world_sends pkts w w'"
      "pkts = [] \<or> pkts = [(m_peering_addr p, data)]"
    by blast
  have o: "on_snd (udp_send_data (m_peering_addr p) data) (p, w) = (r, (p, w'))"
    by (rule on_snd_run) (rule u(1))
  show ?thesis
  proof (cases "m_peering_addr p")
    case tag_none
    then show ?thesis
      by (intro exI [of _ "Inl Runtime_error"] exI [of _ w] exI [of _ "[]"]) (simp add: send_data_RAW_udp_def)
  qed (use o u in \<open>auto simp: send_data_RAW_udp_def\<close>)
qed

lemma send_data_udp_cmd_run:
  "\<exists>r w' pkts. send_data_udp_cmd cmd bin (p, w) = (r, (p, w')) \<and> world_sends pkts w w'
     \<and> (pkts = [] \<or> pkts = [(m_peering_addr p, current_version # proto_cmd_value cmd # bin)])"
  using send_data_RAW_udp_run [of "current_version # proto_cmd_value cmd # bin" p w]
  by (simp add: send_data_udp_cmd_def)

lemma update_sent_stats_run:
  "\<exists>st' w'. update_sent_stats n (st, w) = (Inr (), (st', w')) \<and> world_sends [] w w'"
  by (auto simp: update_sent_stats_def update_sent_buffer_def andThen_def on_snd_def steady_now_def
      Let_def world_sends_def)

lemma update_read_stats_run:
  "\<exists>st' w'. update_read_stats n (st, w) = (Inr (), (st', w')) \<and> world_sends [] w w'"
  by (auto simp: update_read_stats_def update_read_buffer_def andThen_def on_snd_def steady_now_def
      Let_def world_sends_def)

definition tunneled_octets :: "bytes \<Rightarrow> c_haship_addr \<Rightarrow> c_haship_addr \<Rightarrow> int \<Rightarrow> bytes \<Rightarrow> bytes" where
  "tunneled_octets data src dst ttl nonce =
     [current_version, proto_cmd_value e_proto_cmd_tunneled_data] @ src @ dst @ [of_int ttl] @ nonce @ varstring_octets data"

lemma writes_tunneled_data_packet:
  assumes "length src = 16" "length dst = 16" "length nonce = 24" "fits_size_t data"
  shows "writes (tunneled_data_packet data src dst ttl nonce) (tunneled_octets data src dst ttl nonce)"
proof -
  have "writes (tunneled_data_packet data src dst ttl nonce)
     ([current_version] @ [proto_cmd_value e_proto_cmd_tunneled_data] @ src @ dst @ [of_int ttl] @ nonce @ varstring_octets data)"
    unfolding tunneled_data_packet_def using assms by (intro codec_intros) (simp_all add: length_of_addr_def)
  then show ?thesis by (simp add: tunneled_octets_def)
qed

lemma send_data_udp_run:
  "\<exists>r st' w' pkts. send_data_udp data src dst ttl nonce (p, w) = (r, (p\<lparr>m_peering_stats := st'\<rparr>, w'))
     \<and> world_sends pkts w w'
     \<and> (pkts = [] \<or> (\<exists>d. generated (tunneled_data_packet data src dst ttl nonce) = Inr d \<and> pkts = [(m_peering_addr p, d)]))"
proof (cases "generated (tunneled_data_packet data src dst ttl nonce)")
  case (Inl e)
  then show ?thesis
    by (intro exI [of _ "Inl e"] exI [of _ "m_peering_stats p"] exI [of _ w] exI [of _ "[]"]) (simp add: send_data_udp_def)
next
  case (Inr d)
  obtain st' w1 where st: "update_sent_stats (length data) (m_peering_stats p, w) = (Inr (), (st', w1))" "world_sends [] w w1"
    using update_sent_stats_run by blast
  then have "on_stats (update_sent_stats (length data)) (p, w) = (Inr (), (p\<lparr>m_peering_stats := st'\<rparr>, w1))"
    by (simp add: on_stats_def)
  moreover obtain r w' pkts where raw: "send_data_RAW_udp d (p\<lparr>m_peering_stats := st'\<rparr>, w1) = (r, (p\<lparr>m_peering_stats := st'\<rparr>, w'))"
      "world_sends pkts w1 w'" "pkts = [] \<or> pkts = [(m_peering_addr p, d)]"
    using send_data_RAW_udp_run [of d "p\<lparr>m_peering_stats := st'\<rparr>" w1] by auto
  ultimately have "send_data_udp data src dst ttl nonce (p, w) = (r, (p\<lparr>m_peering_stats := st'\<rparr>, w'))"
    by (simp add: send_data_udp_def Inr)
  then show ?thesis using raw world_sends_trans [OF st(2) raw(2)] Inr by auto
qed

section \<open>Frames of the node's operations\<close>

definition peer_core ::
    "c_peering \<Rightarrow> c_ip46_addr \<times> c_haship_addr \<times> c_multikeys_pub option \<times> int \<times> int" where
  \<comment> \<open>everything but the statistics\<close>
  "peer_core p = (m_peering_addr p, m_haship_addr p, m_pubkey p, m_limit_points p, m_last_ping_time p)"

definition same_peers :: "(c_haship_addr \<times> c_peering) list \<Rightarrow> (c_haship_addr \<times> c_peering) list \<Rightarrow> bool" where
  "same_peers m m' \<longleftrightarrow> map (map_prod id peer_core) m = map (map_prod id peer_core) m'"

definition sends :: "(c_ip46_addr \<times> bytes) list \<Rightarrow> ('bx, 'ux) c_tunserver \<Rightarrow> ('bx, 'ux) c_tunserver \<Rightarrow> bool" where
  \<comment> \<open>only these datagrams were sent, the clock read, statistics and the routing manager updated\<close>
  "sends pkts s s' \<longleftrightarrow>
     s' = s\<lparr>m_peer := m_peer s', m_world := m_world s', m_routing_manager := m_routing_manager s'\<rparr>
     \<and> same_peers (m_peer s) (m_peer s') \<and> world_sends pkts (m_world s) (m_world s')"

lemma same_peers_refl [simp]: "same_peers m m"
  by (simp add: same_peers_def)

lemma same_peers_fst: "same_peers m m' \<Longrightarrow> map fst m' = map fst m"
proof -
  have "map fst m = map fst (map (map_prod id peer_core) m)" for m :: "(c_haship_addr \<times> c_peering) list"
    by simp
  then show "same_peers m m' \<Longrightarrow> map fst m' = map fst m" unfolding same_peers_def by metis
qed

lemma same_peers_sorted: "same_peers m m' \<Longrightarrow> map_sorted m' = map_sorted m"
  by (simp add: map_sorted_def same_peers_fst)

lemma same_peers_find:
  "same_peers m m' \<Longrightarrow> map_option peer_core (find_key k m') = map_option peer_core (find_key k m)"
proof (induction m arbitrary: m')
  case (Cons x m)
  then obtain y m'' where y: "m' = y # m''" "map_prod id peer_core x = map_prod id peer_core y" "same_peers m m''"
    by (cases m') (auto simp: same_peers_def)
  then show ?case using Cons.IH [OF y(3)] by (cases x; cases y) simp
qed (simp add: same_peers_def)

lemma same_peers_modify:
  assumes "map_sorted m" "find_key k m = Some p" "peer_core p' = peer_core p"
  shows "same_peers m (map_modify k (\<lambda>_. p') m)"
proof -
  have "map_prod id peer_core (case x of (a, b) \<Rightarrow> if a = k then (a, p') else (a, b)) = map_prod id peer_core x"
    if "x \<in> set m" for x
  proof (cases x)
    case (Pair a b)
    then show ?thesis using that assms in_find_key [of m a b] by auto
  qed
  then show ?thesis unfolding same_peers_def map_modify_def by simp
qed

lemma sends_refl [simp]: "sends [] s s"
  by (simp add: sends_def)

lemma sends_trans: "sends ps s s' \<Longrightarrow> sends qs s' s'' \<Longrightarrow> sends (ps @ qs) s s''"
proof -
  assume 1: "sends ps s s'" and 2: "sends qs s' s''"
  have "s'' = s'\<lparr>m_peer := m_peer s'', m_world := m_world s'', m_routing_manager := m_routing_manager s''\<rparr>"
    using 2 by (simp add: sends_def)
  also have "s' = s\<lparr>m_peer := m_peer s', m_world := m_world s', m_routing_manager := m_routing_manager s'\<rparr>"
    using 1 by (simp add: sends_def)
  finally have "s'' = s\<lparr>m_peer := m_peer s'', m_world := m_world s'', m_routing_manager := m_routing_manager s''\<rparr>"
    by simp
  moreover have "world_sends (ps @ qs) (m_world s) (m_world s'')"
    using 1 2 by (auto simp: sends_def intro: world_sends_trans)
  moreover have "same_peers (m_peer s) (m_peer s'')" using 1 2 by (simp add: sends_def same_peers_def)
  ultimately show ?thesis by (simp add: sends_def)
qed

lemma sendsD:
  assumes "sends pkts s s'"
  shows "same_peers (m_peer s) (m_peer s')" "world_sends pkts (m_world s) (m_world s')"
    "m_tunnel s' = m_tunnel s" "m_my_hip s' = m_my_hip s" "m_peer_black_list s' = m_peer_black_list s"
    "is_exiting s' = is_exiting s" "m_node_ipv6_prefix s' = m_node_ipv6_prefix s" "m_my_IDC s' = m_my_IDC s"
    "m_supported_ip_protocols s' = m_supported_ip_protocols s"
proof -
  have s': "s' = s\<lparr>m_peer := m_peer s', m_world := m_world s', m_routing_manager := m_routing_manager s'\<rparr>"
    using assms by (simp add: sends_def)
  show "m_tunnel s' = m_tunnel s" "m_my_hip s' = m_my_hip s" "m_peer_black_list s' = m_peer_black_list s"
    "is_exiting s' = is_exiting s" "m_node_ipv6_prefix s' = m_node_ipv6_prefix s" "m_my_IDC s' = m_my_IDC s"
    "m_supported_ip_protocols s' = m_supported_ip_protocols s"
    by (subst s', simp)+
qed (use assms in \<open>simp_all add: sends_def\<close>)

lemma sends_world: "world_sends pkts (m_world s) w \<Longrightarrow> sends pkts s (s\<lparr>m_world := w\<rparr>)"
  by (simp add: sends_def)

lemma sends_routing: "sends pkts s s' \<Longrightarrow> sends pkts s (s'\<lparr>m_routing_manager := rm\<rparr>)"
proof -
  assume 1: "sends pkts s s'"
  then have "s' = s\<lparr>m_peer := m_peer s', m_world := m_world s', m_routing_manager := m_routing_manager s'\<rparr>"
    by (simp add: sends_def)
  from arg_cong [OF this, of "m_routing_manager_update (\<lambda>_. rm)"]
  show ?thesis using 1 by (simp add: sends_def)
qed

lemma on_world_now: "\<exists>t s'. on_world steady_now s = (Inr t, s') \<and> sends [] s s'"
  using steady_now_ext [of "m_world s"] by (auto simp: on_world_def intro: sends_world)

lemma on_peer_sends:
  assumes "map_sorted (m_peer s)" and "find_key hip (m_peer s) = Some p"
    and "m (p, m_world s) = (r, (p', w'))" and "peer_core p' = peer_core p" and "world_sends pkts (m_world s) w'"
  shows "\<exists>s'. on_peer hip m s = (r, s') \<and> sends pkts s s' \<and> m_routing_manager s' = m_routing_manager s"
  using assms same_peers_modify [OF assms(1,2,4)]
  by (intro exI [of _ "s\<lparr>m_peer := map_modify hip (\<lambda>_. p') (m_peer s), m_world := w'\<rparr>"])
    (simp add: on_peer_def sends_def)

lemma forA_cmd_sends:
  assumes "map_sorted (m_peer s)" and "set hips \<subseteq> fst ` set (m_peer s)"
  shows "\<exists>r s' pkts. forA (\<lambda>hip. on_peer hip (send_data_udp_cmd cmd data)) hips s = (r, s') \<and> sends pkts s s'
    \<and> m_routing_manager s' = m_routing_manager s
    \<and> (\<forall>(a, d) \<in> set pkts. d = current_version # proto_cmd_value cmd # data) \<and> length pkts \<le> length hips"
  using assms
proof (induction hips arbitrary: s)
  case Nil
  show ?case by (intro exI [of _ "Inr ()"] exI [of _ s] exI [of _ "[]"]) simp
next
  case (Cons h hips)
  obtain p where p: "find_key h (m_peer s) = Some p"
    using Cons.prems in_find_key [OF Cons.prems(1)] by fastforce
  obtain r w' ps where run: "send_data_udp_cmd cmd data (p, m_world s) = (r, (p, w'))" "world_sends ps (m_world s) w'"
      "ps = [] \<or> ps = [(m_peering_addr p, current_version # proto_cmd_value cmd # data)]"
    using send_data_udp_cmd_run by blast
  obtain s1 where s1: "on_peer h (send_data_udp_cmd cmd data) s = (r, s1)" "sends ps s s1"
      "m_routing_manager s1 = m_routing_manager s"
    using on_peer_sends [where m = "send_data_udp_cmd cmd data", OF Cons.prems(1) p run(1) refl run(2)] by blast
  have same: "same_peers (m_peer s) (m_peer s1)" by (rule sendsD [OF s1(2)])
  show ?case
  proof (cases r)
    case (Inl e)
    then show ?thesis
      using s1 run(3) by (intro exI [of _ "Inl e"] exI [of _ s1] exI [of _ ps]) auto
  next
    case (Inr u)
    have "map_sorted (m_peer s1)" using Cons.prems(1) same_peers_sorted [OF same] by simp
    moreover have "set hips \<subseteq> fst ` set (m_peer s1)"
      using Cons.prems(2) same_peers_fst [OF same] by (metis insert_subset list.set(2) list.set_map)
    ultimately obtain r2 s2 qs where "forA (\<lambda>hip. on_peer hip (send_data_udp_cmd cmd data)) hips s1 = (r2, s2)"
        "sends qs s1 s2" "m_routing_manager s2 = m_routing_manager s1"
        "\<forall>(a, d) \<in> set qs. d = current_version # proto_cmd_value cmd # data" "length qs \<le> length hips"
      using Cons.IH [of s1] by blast
    then show ?thesis
      using s1 Inr run(3) sends_trans [OF s1(2), of qs s2]
      by (intro exI [of _ r2] exI [of _ s2] exI [of _ "ps @ qs"]) auto
  qed
qed

lemma foreach_sends:
  assumes "map_sorted (m_peer s)"
  shows "\<exists>r s' pkts. tun_nodep2p_foreach_cmd cmd data s = (r, s') \<and> sends pkts s s'
    \<and> m_routing_manager s' = m_routing_manager s
    \<and> (\<forall>(a, d) \<in> set pkts. d = current_version # proto_cmd_value cmd # data) \<and> length pkts \<le> length (m_peer s)"
  using forA_cmd_sends [OF assms, of "map fst (m_peer s)" cmd data] by (simp add: tun_nodep2p_foreach_cmd_def)

section \<open>The invariant of the peer table\<close>

definition pub_has_address :: "('bx, 'ux) crypto_lib \<Rightarrow> c_multikeys_pub \<Rightarrow> c_haship_addr \<Rightarrow> bool" where
  "pub_has_address lib pub hip \<longleftrightarrow> fst (c_haship_addr_by_hash_of_pubkey lib pub) = Inr hip"

definition peer_ok :: "('bx, 'ux) crypto_lib \<Rightarrow> c_haship_addr \<Rightarrow> c_peering \<Rightarrow> bool" where
  "peer_ok lib hip p \<longleftrightarrow> m_haship_addr p = hip \<and> length hip = 16
     \<and> (\<forall>pub. m_pubkey p = Some pub \<longrightarrow> pub_has_address lib pub hip)"

definition peers_wf :: "('bx, 'ux) crypto_lib \<Rightarrow> ('bx, 'ux) c_tunserver \<Rightarrow> bool" where
  \<comment> \<open>a peer is filed under his own address, which is the address of his key if the key is known, and
     is not on the black list\<close>
  "peers_wf lib s \<longleftrightarrow> map_sorted (m_peer s)
     \<and> (\<forall>hip p. find_key hip (m_peer s) = Some p \<longrightarrow> peer_ok lib hip p \<and> hip \<notin> m_peer_black_list s)"

lemma peer_ok_core: "peer_core p' = peer_core p \<Longrightarrow> peer_ok lib hip p' = peer_ok lib hip p"
  by (simp add: peer_ok_def peer_core_def)

lemma peers_wf_sends:
  assumes "peers_wf lib s" and "sends pkts s s'"
  shows "peers_wf lib s'"
proof -
  have same: "same_peers (m_peer s) (m_peer s')" by (rule sendsD [OF assms(2)])
  have "peer_ok lib hip p \<and> hip \<notin> m_peer_black_list s'" if f: "find_key hip (m_peer s') = Some p" for hip p
  proof -
    obtain p0 where p0: "find_key hip (m_peer s) = Some p0" "peer_core p = peer_core p0"
      using same_peers_find [OF same, of hip] f by (cases "find_key hip (m_peer s)") auto
    then show ?thesis using assms peer_ok_core [OF p0(2), of lib hip] sendsD(5) [OF assms(2)] by (auto simp: peers_wf_def)
  qed
  then show ?thesis using assms(1) same_peers_sorted [OF same] by (simp add: peers_wf_def)
qed

interpretation tn: galaxy_node
  "tun_node :: ('bx, 'ux) c_tunserver c_galaxy_node" "peers_wf lib" "\<lambda>s. w_sent (m_world s)"
  for lib :: "('bx, 'ux) crypto_lib"
proof unfold_locales
  fix w :: "('bx, 'ux) c_tunserver" and a b p e cmd data
  show "snd (get_peer_with_hip tun_node a b w) = w"
    by (simp add: tun_node_def tun_get_peer_with_hip_def split: option.split)
  show "m_haship_addr p = a" if "peers_wf lib w" "fst (get_peer_with_hip tun_node a b w) = Inr p"
    using that by (auto simp: tun_node_def tun_get_peer_with_hip_def peers_wf_def peer_ok_def split: option.splits if_splits)
  show "e = Expected_not_found" if "fst (get_peer_with_hip tun_node a False w) = Inl e"
    using that by (auto simp: tun_node_def tun_get_peer_with_hip_def split: option.splits)
  obtain t s' where now: "on_world steady_now w = (Inr t, s')" "sends [] w s'" using on_world_now by blast
  then show "\<exists>t. fst (node_now tun_node w) = Inr t" by (simp add: tun_node_def)
  show "peers_wf lib (snd (node_now tun_node w))" if "peers_wf lib w"
    using peers_wf_sends [OF that now(2)] now(1) by (simp add: tun_node_def)
  show "w_sent (m_world (snd (node_now tun_node w))) = w_sent (m_world w)"
    using now sendsD(2) [OF now(2)] world_sendsD(1) by (simp add: tun_node_def)
  show "peers_wf lib (snd (nodep2p_foreach_cmd tun_node cmd data w))" if "peers_wf lib w"
    using foreach_sends [of w cmd data] that peers_wf_sends [OF that]
    by (auto simp: tun_node_def peers_wf_def [of lib w])
qed

section \<open>Routing\<close>

definition is_query :: "c_haship_addr \<Rightarrow> int \<Rightarrow> bytes \<Rightarrow> bool" where
  "is_query hip ttl d \<longleftrightarrow>
     d = current_version # proto_cmd_value e_proto_cmd_findhip_query # findhip_query_data hip (of_int ttl)"

definition peer_addr_in :: "('bx, 'ux) c_tunserver \<Rightarrow> c_ip46_addr \<Rightarrow> bool" where
  "peer_addr_in s a \<longleftrightarrow> (\<exists>hip p. find_key hip (m_peer s) = Some p \<and> m_peering_addr p = a)"

lemma peer_addr_in_sends:
  assumes "sends pkts s s'" and "peer_addr_in s' a"
  shows "peer_addr_in s a"
proof -
  obtain hip p where p: "find_key hip (m_peer s') = Some p" "m_peering_addr p = a"
    using assms(2) by (auto simp: peer_addr_in_def)
  then obtain p0 where "find_key hip (m_peer s) = Some p0" "peer_core p = peer_core p0"
    using same_peers_find [OF sendsD(1) [OF assms(1)], of hip] by (cases "find_key hip (m_peer s)") auto
  then show ?thesis using p(2) by (auto simp: peer_addr_in_def peer_core_def)
qed

lemma node_now_sends: "sends [] s (snd (node_now tun_node s))"
  using on_world_now [of s] by (auto simp: tun_node_def)

lemma get_route_sends:
  assumes "map_sorted (m_peer s)" and "routing_wf (m_routing_manager s)" and "ttl \<le> 255"
    and "on_routing (get_route_or_maybe_search tun_node dst reason start ttl) s = (r, s')"
  shows "\<exists>pkts. sends pkts s s' \<and> (\<forall>(a, d) \<in> set pkts. is_query dst (max 5 ttl) d)
    \<and> length pkts \<le> length (m_peer s)
    \<and> (find_key dst (m_search (m_routing_manager s)) \<noteq> None \<longrightarrow> pkts = [])"
proof -
  obtain rm w where g: "get_route_or_maybe_search tun_node dst reason start ttl (m_routing_manager s, s) = (r, (rm, w))"
      and s': "s' = w\<lparr>m_routing_manager := rm\<rparr>"
    using assms(4) by (auto simp: on_routing_def split: prod.splits)
  let ?now = "snd (node_now tun_node s)"
  consider "w = s" | "w = ?now" | r0 w1 where "find_key dst (m_search (m_routing_manager s)) = None"
      "tun_nodep2p_foreach_cmd e_proto_cmd_findhip_query (findhip_query_data dst (of_int (max 5 ttl))) ?now = (r0, w1)"
      "w = w1 \<or> w = snd (node_now tun_node w1)"
    using tn.get_route_world [OF assms(2,3) g] by (auto simp: tun_node_def)
  then show ?thesis
  proof cases
    case 1
    then show ?thesis
      using sends_routing [OF sends_refl] by (intro exI [of _ "[]"]) (simp add: s')
  next
    case 2
    then show ?thesis
      using sends_routing [OF node_now_sends] by (intro exI [of _ "[]"]) (simp add: s')
  next
    case 3
    have same: "same_peers (m_peer s) (m_peer ?now)" by (rule sendsD [OF node_now_sends])
    have "map_sorted (m_peer ?now)" using assms(1) same_peers_sorted [OF same] by simp
    then obtain pkts where pk: "sends pkts ?now w1"
        "\<forall>(a, d) \<in> set pkts. d = current_version # proto_cmd_value e_proto_cmd_findhip_query
            # findhip_query_data dst (of_int (max 5 ttl))" "length pkts \<le> length (m_peer ?now)"
      using foreach_sends [of ?now e_proto_cmd_findhip_query "findhip_query_data dst (of_int (max 5 ttl))"] 3(2)
      by auto
    have "sends pkts ?now w"
      using 3(3) pk(1) sends_trans [OF pk(1) node_now_sends] by auto
    then have "sends pkts s s'"
      using sends_trans [OF node_now_sends] sends_routing by (fastforce simp: s')
    moreover have "length (m_peer ?now) = length (m_peer s)" using same_peers_fst [OF same] by (metis length_map)
    ultimately show ?thesis
      using 3(1) pk(2,3) by (intro exI [of _ pkts]) (auto simp: is_query_def)
  qed
qed

lemma get_route_keeps_wf:
  assumes "peers_wf lib s" and "routing_wf (m_routing_manager s)" and "ttl \<le> 255"
    and "on_routing (get_route_or_maybe_search tun_node dst reason start ttl) s = (r, s')"
  shows "routing_wf (m_routing_manager s')"
proof -
  obtain rm w where g: "get_route_or_maybe_search tun_node dst reason start ttl (m_routing_manager s, s) = (r, (rm, w))"
      and s': "s' = w\<lparr>m_routing_manager := rm\<rparr>"
    using assms(4) by (auto simp: on_routing_def split: prod.splits)
  then show ?thesis using tn.get_route_keeps [OF assms(2,1,3) g] by simp
qed

lemma find_via_sends:
  assumes "peers_wf lib s" and "routing_wf (m_routing_manager s)" and "find_via next_hip reason s = (r, s')"
  shows "\<exists>pkts. sends pkts s s' \<and> (\<forall>(a, d) \<in> set pkts. is_query next_hip 5 d) \<and> routing_wf (m_routing_manager s')"
proof -
  obtain r0 where g: "on_routing (get_route_or_maybe_search tun_node next_hip reason True 5) s = (r0, s')"
    using assms(3) by (auto simp: find_via_def ttl_max_accepted_def split: prod.splits sum.splits if_splits)
  have "map_sorted (m_peer s)" using assms(1) by (simp add: peers_wf_def)
  from get_route_sends [OF this assms(2) _ g] get_route_keeps_wf [OF assms(1,2) _ g] show ?thesis by auto
qed

definition data_sent_to_peer ::
    "bytes \<Rightarrow> c_haship_addr \<Rightarrow> c_haship_addr \<Rightarrow> int \<Rightarrow> bytes \<Rightarrow> ('bx, 'ux) c_tunserver \<Rightarrow> (c_ip46_addr \<times> bytes) list \<Rightarrow> bool" where
  \<comment> \<open>nothing, or one datagram with this tunnelled data to the address of a peer\<close>
  "data_sent_to_peer data src dst ttl nonce s ps \<longleftrightarrow> ps = [] \<or> (ttl > 0 \<and> (\<exists>a d. ps = [(a, d)]
     \<and> generated (tunneled_data_packet data src dst ttl nonce) = Inr d \<and> peer_addr_in s a))"

lemma on_peer_send_data:
  assumes "peers_wf lib s" and "find_key hip (m_peer s) = Some p" and "ttl > 0"
  shows "\<exists>r s' ps. on_peer hip (send_data_udp data src dst ttl nonce) s = (r, s') \<and> sends ps s s'
    \<and> data_sent_to_peer data src dst ttl nonce s ps \<and> m_routing_manager s' = m_routing_manager s"
proof -
  obtain r st w ps where run: "send_data_udp data src dst ttl nonce (p, m_world s) = (r, (p\<lparr>m_peering_stats := st\<rparr>, w))"
      "world_sends ps (m_world s) w"
      "ps = [] \<or> (\<exists>d. generated (tunneled_data_packet data src dst ttl nonce) = Inr d \<and> ps = [(m_peering_addr p, d)])"
    using send_data_udp_run by blast
  have "map_sorted (m_peer s)" using assms(1) by (simp add: peers_wf_def)
  from on_peer_sends [where m = "send_data_udp data src dst ttl nonce", OF this assms(2) run(1) _ run(2)]
  obtain s' where "on_peer hip (send_data_udp data src dst ttl nonce) s = (r, s')" "sends ps s s'"
      "m_routing_manager s' = m_routing_manager s"
    by (auto simp: peer_core_def)
  moreover have "data_sent_to_peer data src dst ttl nonce s ps"
    using run(3) assms(2,3) by (auto simp: data_sent_to_peer_def peer_addr_in_def)
  ultimately show ?thesis by blast
qed

lemma data_sent_to_peer_back:
  "sends qs s s' \<Longrightarrow> data_sent_to_peer data src dst ttl nonce s' ps \<Longrightarrow> data_sent_to_peer data src dst ttl nonce s ps"
  by (auto simp: data_sent_to_peer_def intro: peer_addr_in_sends)

lemma route_detail_sends:
  assumes "peers_wf lib s" and "routing_wf (m_routing_manager s)"
    and "route_tun_data_to_its_destination_detail meth data src dst nxt reason level ttl nonce s = (r, s')"
  shows "\<exists>qs ps. sends (qs @ ps) s s' \<and> (\<forall>(a, d) \<in> set qs. \<exists>hip. is_query hip 5 d)
    \<and> data_sent_to_peer data src dst ttl nonce s ps \<and> routing_wf (m_routing_manager s')
    \<and> (ttl \<le> 0 \<longrightarrow> qs = [])"
  using assms
proof (induction meth data src dst nxt reason level ttl nonce s
    arbitrary: r s' rule: route_tun_data_to_its_destination_detail.induct)
  case (1 meth data src dst nxt reason level ttl nonce s)
  note run = 1(4) [unfolded route_tun_data_to_its_destination_detail.simps
      [of meth data src dst nxt reason level ttl nonce s]]
  have stop: ?case if "s' = s"
    using that 1(3)
    by (intro exI [of _ "[] :: (c_ip46_addr \<times> bytes) list"] exI [of _ "[] :: (c_ip46_addr \<times> bytes) list"])
      (simp add: data_sent_to_peer_def)
  consider "ttl \<le> 0 \<or> m_peer s = [] \<or> (find_key nxt (m_peer s) = None \<and> level > 1)"
    | "\<not> ttl \<le> 0" "m_peer s \<noteq> []" "find_key nxt (m_peer s) = None" "\<not> level > 1"
    | p where "\<not> ttl \<le> 0" "m_peer s \<noteq> []" "find_key nxt (m_peer s) = Some p"
    by (cases "find_key nxt (m_peer s)") auto
  then show ?case
  proof cases
    case 1
    then show ?thesis using run stop by (auto split: if_splits)
  next
    case 2
    obtain v s1 where via: "find_via nxt reason s = (v, s1)" by force
    obtain qs where qs: "sends qs s s1" "\<forall>(a, d) \<in> set qs. is_query nxt 5 d" "routing_wf (m_routing_manager s1)"
      using find_via_sends [OF 1(2,3) via] by blast
    have here: ?thesis if "s' = s1"
      using that qs 2(1)
      by (intro exI [of _ qs] exI [of _ "[] :: (c_ip46_addr \<times> bytes) list"]) (auto simp: data_sent_to_peer_def)
    consider "s' = s1" | via_hip where "v = Inr (Some via_hip)"
        "route_tun_data_to_its_destination_detail meth data src dst via_hip reason (level + 1) ttl nonce s1 = (r, s')"
      using run 2 via by (auto split: sum.splits option.splits)
    then show ?thesis
    proof cases
      case (2 via_hip)
      obtain qs' ps where "sends (qs' @ ps) s1 s'" "\<forall>(a, d) \<in> set qs'. \<exists>hip. is_query hip 5 d"
          "data_sent_to_peer data src dst ttl nonce s1 ps" "routing_wf (m_routing_manager s')"
        using 1(1) [OF _ _ _ _ via [symmetric] _ _ peers_wf_sends [OF 1(2) qs(1)] qs(3) 2(2)]
          \<open>\<not> ttl \<le> 0\<close> \<open>m_peer s \<noteq> []\<close> \<open>find_key nxt (m_peer s) = None\<close> \<open>\<not> level > 1\<close> 2(1) by blast
      then show ?thesis
        using sends_trans [OF qs(1), of "qs' @ ps" s'] qs(1,2) data_sent_to_peer_back [OF qs(1)] \<open>\<not> ttl \<le> 0\<close>
        by (intro exI [of _ "qs @ qs'"] exI [of _ ps]) auto
    qed (rule here)
  next
    case (3 p)
    obtain r1 s1 ps where "on_peer nxt (send_data_udp data src dst ttl nonce) s = (r1, s1)" "sends ps s s1"
        "data_sent_to_peer data src dst ttl nonce s ps" "m_routing_manager s1 = m_routing_manager s"
      using on_peer_send_data [OF 1(2) 3(3), of ttl data src dst nonce] 3(1) by auto
    moreover from this have "s' = s1" using run 3 by (auto simp: andThen_def split: sum.splits)
    ultimately show ?thesis
      using 1(3) by (intro exI [of _ "[] :: (c_ip46_addr \<times> bytes) list"] exI [of _ ps]) simp
  qed
qed

lemma route_top_sends:
  assumes "peers_wf lib s" and "routing_wf (m_routing_manager s)"
    and "route_tun_data_to_its_destination_top meth data src dst reason ttl nonce s = (r, s')"
  shows "\<exists>qs ps. sends (qs @ ps) s s' \<and> (\<forall>(a, d) \<in> set qs. \<exists>hip. is_query hip 5 d)
    \<and> data_sent_to_peer data src dst ttl nonce s ps \<and> routing_wf (m_routing_manager s')
    \<and> (ttl \<le> 0 \<longrightarrow> qs = [])"
proof (cases "ttl \<le> 0")
  case True
  then have "s' = s" using assms(3) by (simp add: route_tun_data_to_its_destination_top_def)
  then show ?thesis
    using assms(2) by (intro exI [of _ "[] :: (c_ip46_addr \<times> bytes) list"]) (simp add: data_sent_to_peer_def)
next
  case False
  then obtain r0 where
    "route_tun_data_to_its_destination_detail meth data src dst dst reason 0 ttl nonce s = (r0, s')"
    using assms(3) by (auto simp: route_tun_data_to_its_destination_top_def split: prod.splits sum.splits if_splits)
  from route_detail_sends [OF assms(1,2) this] show ?thesis by blast
qed

end
