(* ===== verification/Node_Invariant.thy ===== *)
theory Node_Invariant
  imports Node_Lemmas
begin

text \<open>
  The invariant of the node and its preservation by every handler of the event loop and every
  method of the remote control, on return and on throw; and the states the node can reach.
\<close>

section \<open>The invariant\<close>

definition node_wf :: "('bx, 'ux) crypto_lib \<Rightarrow> ('bx, 'ux) c_tunserver \<Rightarrow> bool" where
  "node_wf lib s \<longleftrightarrow> peers_wf lib s \<and> map_sorted (m_tunnel s) \<and> routing_wf (m_routing_manager s)"

definition wf_step :: "('bx, 'ux) crypto_lib \<Rightarrow> ('bx, 'ux) c_tunserver \<Rightarrow> ('bx, 'ux) c_tunserver \<Rightarrow> bool" where
  "wf_step lib s s' \<longleftrightarrow> (node_wf lib s \<longrightarrow> node_wf lib s')"

named_theorems node_keeps \<open>operations that keep the invariant of the node\<close>

lemma wf_step_reflp: "reflp (wf_step lib)"
  by (simp add: reflp_def wf_step_def)

lemma wf_step_transp: "transp (wf_step lib)"
  by (auto simp: transp_def wf_step_def)

lemmas keeps_steps [node_keeps] =
  keeps_andThen [OF wf_step_transp] keeps_ret [OF wf_step_reflp]
  keeps_raise [OF wf_step_reflp] keeps_assertA [OF wf_step_reflp]

lemma keeps_wf_liftR [node_keeps]: "keeps (wf_step lib) (liftR r)"
  by (simp add: keeps_def wf_step_def)

lemma keeps_if [node_keeps]: "keeps R a \<Longrightarrow> keeps R b \<Longrightarrow> keeps R (if c then a else b)"
  by simp

lemma keeps_case_prod [node_keeps]: "(\<And>a b. keeps R (f a b)) \<Longrightarrow> keeps R (case_prod f x)"
  by (cases x) simp

lemma keeps_wfI: "(\<And>s. node_wf lib s \<Longrightarrow> node_wf lib (snd (m s))) \<Longrightarrow> keeps (wf_step lib) m"
  by (simp add: keeps_def wf_step_def)

lemma keeps_wfD: "keeps (wf_step lib) m \<Longrightarrow> node_wf lib s \<Longrightarrow> node_wf lib (snd (m s))"
  by (simp add: keeps_def wf_step_def)

lemma keeps_state: "(\<And>s0. keeps R (f s0)) \<Longrightarrow> keeps R (\<lambda>s. f s s)"
  by (simp add: keeps_def)

lemma node_wf_world [simp]: "node_wf lib (s\<lparr>m_world := w\<rparr>) = node_wf lib s"
  by (simp add: node_wf_def peers_wf_def)

lemma node_wf_sends:
  "node_wf lib s \<Longrightarrow> sends pkts s s' \<Longrightarrow> routing_wf (m_routing_manager s') \<Longrightarrow> node_wf lib s'"
  using peers_wf_sends [of lib s pkts s'] sendsD(3) [of pkts s s'] by (simp add: node_wf_def)

lemma keeps_on_world [node_keeps]: "keeps (wf_step lib) (on_world m)"
  by (rule keeps_wfI) (simp add: on_world_def split: prod.split)

lemma keeps_on_tunnel [node_keeps]: "keeps (wf_step lib) (on_tunnel hip m)"
  by (rule keeps_wfI)
    (auto simp: on_tunnel_def node_wf_def peers_wf_def map_sorted_modify split: option.split prod.split)

lemma keeps_route_top [node_keeps]:
  "keeps (wf_step lib) (route_tun_data_to_its_destination_top meth data src dst reason ttl nonce)"
proof (rule keeps_wfI)
  fix s :: "('a, 'b) c_tunserver"
  assume wf: "node_wf lib s"
  obtain r s' where run: "route_tun_data_to_its_destination_top meth data src dst reason ttl nonce s = (r, s')"
    by force
  obtain pkts where "sends pkts s s'" "routing_wf (m_routing_manager s')"
    using route_top_sends [OF _ _ run] wf by (auto simp: node_wf_def)
  then show "node_wf lib (snd (route_tun_data_to_its_destination_top meth data src dst reason ttl nonce s))"
    using run wf by (auto intro: node_wf_sends)
qed

lemma keeps_get_route [node_keeps]:
  assumes "ttl \<le> 255"
  shows "keeps (wf_step lib) (on_routing (get_route_or_maybe_search tun_node dst reason start ttl))"
proof (rule keeps_wfI)
  fix s :: "('a, 'b) c_tunserver"
  assume wf: "node_wf lib s"
  obtain r s' where run: "on_routing (get_route_or_maybe_search tun_node dst reason start ttl) s = (r, s')" by force
  have p: "peers_wf lib s" "routing_wf (m_routing_manager s)" using wf by (simp_all add: node_wf_def)
  then obtain pkts where "sends pkts s s'"
    using get_route_sends [OF _ p(2) assms run] by (auto simp: peers_wf_def)
  then show "node_wf lib (snd (on_routing (get_route_or_maybe_search tun_node dst reason start ttl) s))"
    using node_wf_sends [OF wf _ get_route_keeps_wf [OF p assms run]] run by simp
qed

lemma keeps_add_route [node_keeps]:
  "keeps (wf_step lib) (on_routing (on_fst (add_route_info_and_return goal info)))"
proof (rule keeps_wfI)
  fix s :: "('a, 'b) c_tunserver"
  assume "node_wf lib s"
  then show "node_wf lib (snd (on_routing (on_fst (add_route_info_and_return goal info)) s))"
    using routing_wf_route [of "m_routing_manager s" goal info]
    by (auto simp: on_routing_def on_fst_def node_wf_def peers_wf_def split: prod.split)
qed

lemma keeps_on_peer:
  assumes "\<And>p w. peer_ok lib hip p \<Longrightarrow> peer_ok lib hip (fst (snd (m (p, w))))"
  shows "keeps (wf_step lib) (on_peer hip m)"
proof (rule keeps_wfI)
  fix s :: "('a, 'b) c_tunserver"
  assume wf: "node_wf lib s"
  show "node_wf lib (snd (on_peer hip m s))"
  proof (cases "find_key hip (m_peer s)")
    case (Some p)
    then have "peer_ok lib hip p" "hip \<notin> m_peer_black_list s" using wf by (auto simp: node_wf_def peers_wf_def)
    then show ?thesis
      using wf Some assms [of p "m_world s"]
      by (auto simp: on_peer_def node_wf_def peers_wf_def map_sorted_modify split: prod.split dest!: smap.find_modifyD)
  qed (use wf in \<open>simp add: on_peer_def\<close>)
qed

lemma keeps_on_peer_cmd [node_keeps]: "keeps (wf_step lib) (on_peer hip (send_data_udp_cmd cmd data))"
proof (rule keeps_on_peer)
  show "peer_ok lib hip (fst (snd (send_data_udp_cmd cmd data (p, w))))" if "peer_ok lib hip p" for p w
    using send_data_udp_cmd_run [of cmd data p w] that by auto
qed

lemma keeps_on_peer_read_stats [node_keeps]: "keeps (wf_step lib) (on_peer hip (on_stats (update_read_stats n)))"
  by (rule keeps_on_peer) (auto simp: on_stats_def peer_ok_def split: prod.split)

lemma keeps_find_peer [node_keeps]: "keeps (wf_step lib) (find_peer_by_sender_peering_addr ip)"
  by (rule keeps_wfI) (simp add: find_peer_by_sender_peering_addr_def)

lemma keeps_catch_all [node_keeps]: "keeps R m \<Longrightarrow> keeps R (catch_all m)"
  by (simp add: keeps_def catch_all_def split: prod.split sum.split) (metis snd_conv)

lemma keeps_catch_exception: "keeps R m \<Longrightarrow> keeps R (catch_exception e m)"
  by (simp add: keeps_def catch_exception_def split: prod.split sum.split) (metis snd_conv)

section \<open>The greeting\<close>

lemma by_hash_again:
  assumes "c_haship_addr_by_hash_of_pubkey lib pub = (Inr hip, pub')"
  shows "pub_has_address lib pub' hip" and "length hip = 16"
proof -
  obtain addr where bin: "get_ipv6_string_bin lib pub = (Inr addr, pub')" and hip: "mapR (vec_at addr) [0..<16] = Inr hip"
    using assms by (auto simp: c_haship_addr_by_hash_of_pubkey_def andThen_def split: prod.splits sum.splits)
  obtain h where h: "get_hash lib pub = (Inr h, pub')"
    using bin by (auto simp: get_ipv6_string_bin_def andThen_def Let_def split: prod.splits sum.splits)
  then have "get_hash lib pub' = (Inr h, pub')" using get_hash_caches [OF h] get_hash_cached [of pub' lib] by auto
  then have "get_ipv6_string_bin lib pub' = (Inr addr, pub')"
    using bin h by (simp add: get_ipv6_string_bin_def)
  then show "pub_has_address lib pub' hip"
    using hip by (simp add: pub_has_address_def c_haship_addr_by_hash_of_pubkey_def)
  show "length hip = 16" using hip by (auto simp: mapR_Inr_iff dest: list_all2_lengthD)
qed

lemma node_wf_add_peer:
  assumes "node_wf lib s" and "peer_ok lib hip p" and "hip \<notin> bl" and "bl \<subseteq> m_peer_black_list s"
  shows "node_wf lib (s\<lparr>m_peer := emplace_key hip p (m_peer s), m_peer_black_list := bl\<rparr>)"
  using assms by (auto simp: node_wf_def peers_wf_def map_sorted_emplace_key dest!: smap.find_emplaceD)

lemma c_peering_new_run:
  "\<exists>p w'. c_peering_new ref w = (Inr p, w') \<and> m_haship_addr p = haship_addr ref
     \<and> m_peering_addr p = peering_addr ref \<and> m_pubkey p = None \<and> m_limit_points p = 100
     \<and> m_disabled w' = m_disabled w \<and> w_sent w' = w_sent w"
  by (simp add: c_peering_new_def c_transmission_stats_new_def c_data_transmission_buffer_new_def
      andThen_def steady_now_def)

lemma keeps_append_new_peer:
  assumes "pub_has_address lib pub (haship_addr ref)" and "length (haship_addr ref) = 16"
  shows "keeps (wf_step lib) (append_new_peer ref pub)"
proof (rule keeps_wfI)
  fix s :: "('a, 'b) c_tunserver"
  assume wf: "node_wf lib s"
  obtain p w' where new: "c_peering_new ref (m_world s) = (Inr p, w')" "m_haship_addr p = haship_addr ref"
    using c_peering_new_run by blast
  have "peer_ok lib (haship_addr ref) (set_pubkey pub p)"
    using new(2) assms by (simp add: peer_ok_def set_pubkey_def)
  moreover have "node_wf lib (s\<lparr>m_world := w'\<rparr>)" using wf by simp
  ultimately have "node_wf lib (s\<lparr>m_world := w', m_peer := emplace_key (haship_addr ref) (set_pubkey pub p) (m_peer s)\<rparr>)"
    if "haship_addr ref \<notin> m_peer_black_list s"
    using node_wf_add_peer [of lib "s\<lparr>m_world := w'\<rparr>" "haship_addr ref" _ "m_peer_black_list s"] that by simp
  then show "node_wf lib (snd (append_new_peer ref pub s))"
    using wf new(1) by (simp add: append_new_peer_def on_world_def)
qed

lemma keeps_update_existing_peer:
  assumes "pub_has_address lib pub hip"
  shows "keeps (wf_step lib) (on_peer hip (update_existing_peer ref pub))"
  by (rule keeps_on_peer)
    (use assms in \<open>auto simp: update_existing_peer_def update_last_ping_time_def andThen_def on_snd_def
      steady_now_def Let_def peer_ok_def set_pubkey_def set_pip_def split: sum.split\<close>)

lemma keeps_add_peer_append_pubkey [node_keeps]: "keeps (wf_step lib) (add_peer_append_pubkey lib ref pub)"
proof (rule keeps_wfI)
  fix s :: "('a, 'b) c_tunserver"
  assume wf: "node_wf lib s"
  show "node_wf lib (snd (add_peer_append_pubkey lib ref pub s))"
  proof (cases "\<exists>pub'. c_haship_addr_by_hash_of_pubkey lib pub = (Inr (haship_addr ref), pub')")
    case True
    then obtain pub' where h: "c_haship_addr_by_hash_of_pubkey lib pub = (Inr (haship_addr ref), pub')" by blast
    note ok = by_hash_again [OF h]
    have "keeps (wf_step lib)
        (if find_key (haship_addr ref) (m_peer s) = None then append_new_peer ref pub'
         else on_peer (haship_addr ref) (update_existing_peer ref pub'))"
      using keeps_append_new_peer [OF ok] keeps_update_existing_peer [OF ok(1)] by simp
    then have "keeps (wf_step lib) (andThen
        (if find_key (haship_addr ref) (m_peer s) = None then append_new_peer ref pub'
         else on_peer (haship_addr ref) (update_existing_peer ref pub'))
        (\<lambda>_ s. if dbg2_evaluated (m_world s) \<and> find_key (haship_addr ref) (m_peer s) = None
               then (Inl Out_of_range, s) else (Inr (), s)))"
      by (rule keeps_andThen [OF wf_step_transp]) (auto intro: keeps_wfI)
    from keeps_wfD [OF this wf] show ?thesis by (simp add: add_peer_append_pubkey_def Let_def h)
  next
    case False
    then show ?thesis
      using wf by (auto simp: add_peer_append_pubkey_def Let_def split: prod.split sum.split)
  qed
qed

lemma keeps_add_tunnel [node_keeps]: "keeps (wf_step lib) (add_tunnel_to_pubkey lib pub)"
  by (rule keeps_wfI)
    (auto simp: add_tunnel_to_pubkey_def node_wf_def peers_wf_def map_sorted_emplace_key
      split: prod.split sum.split option.split)

section \<open>Handlers\<close>

lemma keeps_send_own_data [node_keeps]: "keeps (wf_step lib) (send_own_data lib buff src dst)"
  unfolding send_own_data_def by (intro node_keeps)

lemma keeps_tun_packet [node_keeps]: "keeps (wf_step lib) (handle_tun_packet lib host buff)"
proof (rule keeps_wfI)
  fix s :: "('a, 'b) c_tunserver"
  assume wf: "node_wf lib s"
  have "node_wf lib (snd (andThen (route_tun_data_to_its_destination_top e_route_method_from_me [] src dst
      own_reason 5 (t_crypto_nonce_default host)) (\<lambda>_. ret ()) s))" for src dst
    by (rule keeps_wfD [OF _ wf]) (intro node_keeps)
  moreover have "node_wf lib (snd (send_own_data lib buff src dst s))" for src dst
    by (rule keeps_wfD [OF _ wf]) (intro node_keeps)
  ultimately show "node_wf lib (snd (handle_tun_packet lib host buff s))"
    using wf by (simp add: handle_tun_packet_def split: sum.split prod.split)
qed

lemma keeps_deliver [node_keeps]: "keeps (wf_step lib) (deliver_to_tun lib src dst blob nonce)"
  unfolding deliver_to_tun_def
  by (rule keeps_andThen [OF wf_step_transp keeps_on_tunnel], rule keeps_state) (intro node_keeps)

lemma keeps_tunneled_data [node_keeps]: "keeps (wf_step lib) (handle_tunneled_data lib host sender buf)"
proof -
  have "keeps (wf_step lib) (\<lambda>s. if dst = m_my_hip s then
         if find_key src (m_tunnel s) = None then
           andThen (route_tun_data_to_its_destination_top e_route_method_from_me [] dst src
                      own_reason ttl (t_crypto_nonce_default host)) (\<lambda>_. ret ()) s
         else deliver_to_tun lib src dst blob nonce s
       else if sender_drained sender s then (Inr (), s)
       else
         andThen (route_tun_data_to_its_destination_top e_route_method_default blob src dst
                    \<lparr>m_his_addr = src, m_search_mode = e_search_mode_route_other_packet\<rparr>
                    (reduce_ttl ttl) nonce) (\<lambda>_. ret ()) s)" for src dst ttl nonce blob
  proof (rule keeps_wfI)
    fix s :: "('a, 'b) c_tunserver"
    assume wf: "node_wf lib s"
    have "node_wf lib (snd (andThen (route_tun_data_to_its_destination_top meth data src dst
        reason ttl nonce) (\<lambda>_. ret ()) s))" for meth data src dst reason ttl nonce
      by (rule keeps_wfD [OF _ wf]) (intro node_keeps)
    moreover have "node_wf lib (snd (deliver_to_tun lib src dst blob nonce s))" for src dst
      by (rule keeps_wfD [OF _ wf]) (intro node_keeps)
    ultimately show "node_wf lib (snd (if dst = m_my_hip s then
         if find_key src (m_tunnel s) = None then
           andThen (route_tun_data_to_its_destination_top e_route_method_from_me [] dst src
                      own_reason ttl (t_crypto_nonce_default host)) (\<lambda>_. ret ()) s
         else deliver_to_tun lib src dst blob nonce s
       else if sender_drained sender s then (Inr (), s)
       else
         andThen (route_tun_data_to_its_destination_top e_route_method_default blob src dst
                    \<lparr>m_his_addr = src, m_search_mode = e_search_mode_route_other_packet\<rparr>
                    (reduce_ttl ttl) nonce) (\<lambda>_. ret ()) s))"
      using wf by simp
  qed
  then show ?thesis
    unfolding handle_tunneled_data_def
    by (intro keeps_andThen [OF wf_step_transp] keeps_wf_liftR) (simp split: prod.split)
qed

lemma keeps_hello_body [node_keeps]: "keeps (wf_step lib) (hello_body lib host pip hello)"
  unfolding hello_body_def case_prod_unfold by (rule keeps_state) (intro node_keeps)

lemma keeps_public_hi [node_keeps]: "keeps (wf_step lib) (handle_public_hi lib host pip buf)"
proof -
  have "keeps (wf_step lib) (\<lambda>s. case hello_body lib host pip hello s of
         (Inl e, s') \<Rightarrow> if is_invalid_argument e then (Inr (), s') else (Inl e, s')
       | (Inr _, s') \<Rightarrow> (Inr (), s'))" for hello
    using keeps_wfD [OF keeps_hello_body, of lib _ host pip hello]
    by (intro keeps_wfI) (auto split: prod.split sum.split, (metis snd_conv)+)
  then show ?thesis unfolding handle_public_hi_def by (intro node_keeps)
qed

lemma sint_byte_less: "sint (c :: byte) < 128"
  using sint_lt [of c] by simp

lemma parse_findhip_query_ttl: "parse_findhip_query d = Inr (hip, ttl) \<Longrightarrow> ttl < 128 \<and> length hip = 16"
  by (auto simp: parse_findhip_query_def bindR_eq_Inr_conv sint_byte_less split: option.splits if_splits)

lemma andThen_liftR_case: "andThen (liftR r) f = (case r of Inl e \<Rightarrow> raise e | Inr a \<Rightarrow> f a)"
  by (cases r) simp_all

lemma keeps_findhip_query [node_keeps]: "keeps (wf_step lib) (handle_findhip_query pip sender hip buf)"
proof -
  have "keeps (wf_step lib) (answer_query pip key hip req ttl)" if "ttl < 128" for key req ttl
    unfolding answer_query_def using that by (intro node_keeps) simp
  then have "keeps (wf_step lib) (case parse_findhip_query (drop 2 buf) of Inl e \<Rightarrow> raise e
      | Inr (req, ttl) \<Rightarrow> if ttl < 1 then ret () else (case sender of None \<Rightarrow> raise Abort
         | Some key \<Rightarrow> catch_all (answer_query pip key hip req ttl)))"
    by (auto simp: node_keeps split: sum.split option.split dest: parse_findhip_query_ttl)
  then show ?thesis
    unfolding handle_findhip_query_def by (intro keeps_andThen [OF wf_step_transp keeps_steps(4)]) (simp add: andThen_liftR_case)
qed

lemma keeps_findhip_reply [node_keeps]: "keeps (wf_step lib) (handle_findhip_reply lib hip buf)"
proof -
  have now: "keeps (wf_step lib) (c_route_info_new tun_node h cost pub)" for h cost pub
    unfolding c_route_info_new_def tun_node_def by (simp add: node_keeps)
  have "keeps (wf_step lib) (\<lambda>s. if ttl < 1 then (Inr (), s) else
         andThen (add_tunnel_to_pubkey lib (f s)) (\<lambda>_.
         andThen (c_route_info_new tun_node hip cost (g s)) (\<lambda>route_info.
         andThen (on_routing (on_fst (add_route_info_and_return goal route_info))) (\<lambda>_. ret ()))) s)"
    for ttl :: int and f g cost goal
  proof (cases "ttl < 1")
    case False
    have "keeps (wf_step lib) (andThen (add_tunnel_to_pubkey lib x) (\<lambda>_.
         andThen (c_route_info_new tun_node hip cost y) (\<lambda>route_info.
         andThen (on_routing (on_fst (add_route_info_and_return goal route_info))) (\<lambda>_. ret ()))))" for x y
      by (intro node_keeps now)
    from keeps_wfD [OF this] show ?thesis by (simp add: False keeps_wfI)
  qed (simp add: keeps_def wf_step_def)
  then show ?thesis
    unfolding handle_findhip_reply_def Let_def
    by (intro keeps_andThen [OF wf_step_transp] keeps_wf_liftR) (simp split: prod.split)
qed

lemma keeps_recognise [node_keeps]: "keeps (wf_step lib) (recognise_sender cmd pip n)"
proof -
  have "keeps (wf_step lib) (\<lambda>s. (Inr (f s), s))" for f :: "_ \<Rightarrow> 'c"
    by (simp add: keeps_def wf_step_def)
  then show ?thesis unfolding recognise_sender_def by (intro node_keeps)
qed

lemma keeps_udp_packet [node_keeps]: "keeps (wf_step lib) (handle_udp_packet lib host pip buf)"
  unfolding handle_udp_packet_def by (intro node_keeps)

lemma keeps_prepare_socket [node_keeps]: "keeps (wf_step lib) (prepare_socket device_ready)"
  by (rule keeps_wfI) (simp add: prepare_socket_def Let_def node_wf_def peers_wf_def)

lemma keeps_event [node_keeps]: "keeps (wf_step lib) (handle_event lib host ev)"
  by (cases ev) (simp_all add: handle_event_def node_keeps)

end
