(* ===== verification/Node_Reach.thy ===== *)
theory Node_Reach
  imports Node_Invariant
begin

text \<open>
  The states the node reaches when its methods are not disturbed: from a new object, by the set-up methods, the passes of the
  event loop and the methods of the remote control, one after the other, in any order and whether they return or throw.
  The invariant holds in all of them. What holds when threads interleave is in \<open>Node_Threads\<close>.
\<close>

section \<open>References are well formed\<close>

lemma reference_of_addr_length:
  "v6_text_laws host \<Longrightarrow> t_peering_reference_of_addr host addr text = Inr ref \<Longrightarrow> length (haship_addr ref) = 16"
  by (auto simp: t_peering_reference_of_addr_def bindR_eq_Inr_conv dest: by_addr_dot_length)

lemma simplestring_length:
  "v6_text_laws host \<Longrightarrow> parse_peer_simplestring host simple = Inr ref \<Longrightarrow> length (haship_addr ref) = 16"
  by (auto simp: parse_peer_simplestring_def t_peering_reference_of_text_def bindR_eq_Inr_conv
      dest: reference_of_addr_length split: option.splits)

lemma new_format_length:
  "v6_text_laws host \<Longrightarrow> new_format_reference host simple = Inr ref \<Longrightarrow> length (haship_addr ref) = 16"
  by (auto simp: new_format_reference_def bindR_eq_Inr_conv Let_def
      dest: reference_of_addr_length split: option.splits)

section \<open>Methods that change the peers\<close>

lemma node_wf_blacklist_shrinks:
  "node_wf lib s \<Longrightarrow> bl \<subseteq> m_peer_black_list s \<Longrightarrow> node_wf lib (s\<lparr>m_peer_black_list := bl\<rparr>)"
  by (auto simp: node_wf_def peers_wf_def)

lemma keeps_add_peer_unban:
  assumes "length (haship_addr ref) = 16"
  shows "keeps (wf_step lib) (andThen (add_peer ref) (\<lambda>_. delete_peer_from_black_list (haship_addr ref)))"
proof (rule keeps_wfI)
  fix s :: "('a, 'b) c_tunserver"
  assume wf: "node_wf lib s"
  let ?hip = "haship_addr ref" and ?bl = "m_peer_black_list s - {haship_addr ref}"
  obtain p w' where new: "c_peering_new ref (m_world s) = (Inr p, w')" "m_haship_addr p = ?hip" "m_pubkey p = None"
    using c_peering_new_run by blast
  have "peer_ok lib ?hip p" using new assms by (simp add: peer_ok_def)
  moreover have "node_wf lib (s\<lparr>m_world := w'\<rparr>)" using wf by simp
  ultimately have "node_wf lib (s\<lparr>m_world := w', m_peer := emplace_key ?hip p (m_peer s), m_peer_black_list := ?bl\<rparr>)"
    using node_wf_add_peer [of lib "s\<lparr>m_world := w'\<rparr>" ?hip p ?bl] by simp
  then show "node_wf lib (snd (andThen (add_peer ref) (\<lambda>_. delete_peer_from_black_list ?hip) s))"
    using new(1) by (simp add: add_peer_def andThen_def on_world_def delete_peer_from_black_list_def)
qed

lemma keeps_add_reference:
  assumes "\<And>ref. r = Inr ref \<Longrightarrow> length (haship_addr ref) = 16"
  shows "keeps (wf_step lib) (andThen (liftR r) (\<lambda>ref. andThen (add_peer ref)
           (\<lambda>_. delete_peer_from_black_list (haship_addr ref))))"
  using assms keeps_add_peer_unban by (cases r) (simp_all add: keeps_steps)

lemma keeps_add_peer_simplestring [node_keeps]:
  "v6_text_laws host \<Longrightarrow> keeps (wf_step lib) (add_peer_simplestring host simple)"
  unfolding add_peer_simplestring_def
  by (intro keeps_catch_exception keeps_add_reference) (rule simplestring_length)

lemma keeps_add_peer_new_format [node_keeps]:
  "v6_text_laws host \<Longrightarrow> keeps (wf_step lib) (add_peer_simplestring_new_format host simple)"
  unfolding add_peer_simplestring_new_format_def
  by (intro keeps_catch_exception keeps_add_reference) (rule new_format_length)

lemma node_wf_peers_shrink:
  assumes "node_wf lib s" and "map_sorted m" and "set m \<subseteq> set (m_peer s)"
    and "\<And>hip p. (hip, p) \<in> set m \<Longrightarrow> hip \<notin> bl"
  shows "node_wf lib (s\<lparr>m_peer := m, m_peer_black_list := bl\<rparr>)"
  unfolding node_wf_def peers_wf_def
proof (intro conjI allI impI)
  fix hip p
  assume "find_key hip (m_peer (s\<lparr>m_peer := m, m_peer_black_list := bl\<rparr>)) = Some p"
  then have f: "(hip, p) \<in> set m" by (auto dest: find_key_in)
  then have "find_key hip (m_peer s) = Some p"
    using assms(1,3) in_find_key [of "m_peer s" hip p] by (auto simp: node_wf_def peers_wf_def)
  then show "peer_ok lib hip p" "hip \<notin> m_peer_black_list (s\<lparr>m_peer := m, m_peer_black_list := bl\<rparr>)"
    using assms(1,4) f by (auto simp: node_wf_def peers_wf_def)
qed (use assms in \<open>simp_all add: node_wf_def\<close>)

lemma filter_map_sorted: "map_sorted m \<Longrightarrow> map_sorted (filter P m)"
  by (induction m) (auto simp: map_sorted_def)

lemma keeps_delete_peer [node_keeps]:
  "keeps (wf_step lib) (andThen (delete_peer hip) (\<lambda>peer_deleted.
      andThen (if is_banned then add_peer_to_black_list hip else ret ()) (\<lambda>_. ret peer_deleted)))"
proof (rule keeps_wfI)
  fix s :: "('a, 'b) c_tunserver"
  assume wf: "node_wf lib s"
  have keep: "node_wf lib (s\<lparr>m_peer := map_erase hip (m_peer s), m_peer_black_list := bl\<rparr>)"
    if "bl \<subseteq> insert hip (m_peer_black_list s)" for bl
  proof (rule node_wf_peers_shrink [OF wf])
    show "map_sorted (map_erase hip (m_peer s))" using wf by (simp add: node_wf_def peers_wf_def map_sorted_erase)
    show "h \<notin> bl" if "(h, p) \<in> set (map_erase hip (m_peer s))" for h p
    proof -
      have "h \<noteq> hip" "(h, p) \<in> set (m_peer s)" using that by (auto simp: map_erase_def)
      then show ?thesis
        using wf in_find_key [of "m_peer s" h p] \<open>bl \<subseteq> insert hip (m_peer_black_list s)\<close>
        by (auto simp: node_wf_def peers_wf_def)
    qed
  qed (rule set_map_erase)
  have ban: "node_wf lib (s\<lparr>m_peer_black_list := insert hip (m_peer_black_list s)\<rparr>)"
    if "find_key hip (m_peer s) = None"
    using wf that by (auto simp: node_wf_def peers_wf_def)
  show "node_wf lib (snd (andThen (delete_peer hip) (\<lambda>peer_deleted.
      andThen (if is_banned then add_peer_to_black_list hip else ret ()) (\<lambda>_. ret peer_deleted)) s))"
  proof (cases "find_key hip (m_peer s)")
    case None
    then show ?thesis
      using wf ban by (simp add: delete_peer_def add_peer_to_black_list_def andThen_def)
  next
    case (Some p)
    then show ?thesis
      using keep [of "insert hip (m_peer_black_list s)"] keep [of "m_peer_black_list s"]
      by (auto simp: delete_peer_def add_peer_to_black_list_def andThen_def)
  qed
qed

lemma keeps_delete_peer_simplestring [node_keeps]:
  "keeps (wf_step lib) (delete_peer_simplestring host simple is_banned)"
  unfolding delete_peer_simplestring_def
  by (intro keeps_catch_exception keeps_andThen [OF wf_step_transp keeps_wf_liftR] keeps_delete_peer)

lemma keeps_delete_all_peers [node_keeps]: "keeps (wf_step lib) (delete_all_peers is_banned)"
  by (rule keeps_wfI)
    (auto simp: delete_all_peers_def node_wf_def peers_wf_def map_sorted_def map_find_linorder)

lemma keeps_get_my_ipv6_nice [node_keeps]: "keeps (wf_step lib) (get_my_ipv6_nice lib)"
  by (rule keeps_wfI) (simp add: get_my_ipv6_nice_def node_wf_def peers_wf_def split: prod.split)

lemma keeps_configure_mykey [node_keeps]: "keeps (wf_step lib) (configure_mykey lib host load_string)"
  by (rule keeps_wfI)
    (auto simp: configure_mykey_def node_wf_def peers_wf_def Let_def split: sum.split prod.split)

lemma keeps_greetings [node_keeps]: "keeps (wf_step lib) peering_ping_all_peers"
proof -
  have remove: "node_wf lib (remove_inactive_peers now s)" if "node_wf lib s" for now and s :: "('a, 'b) c_tunserver"
    unfolding remove_inactive_peers_def
    using that node_wf_peers_shrink [OF that, of "filter f (m_peer s)" "m_peer_black_list s" for f]
    by (auto simp: filter_map_sorted node_wf_def peers_wf_def dest: in_find_key)
  have "keeps (wf_step lib) (\<lambda>s. andThen (liftR (hello_data s))
      (\<lambda>cmd_data. on_peer hip (send_data_udp_cmd e_proto_cmd_public_hi cmd_data)) s)" for hip
    by (rule keeps_state) (intro node_keeps)
  then have "keeps (wf_step lib) (forA (\<lambda>hip s. andThen (liftR (hello_data s))
      (\<lambda>cmd_data. on_peer hip (send_data_udp_cmd e_proto_cmd_public_hi cmd_data)) s) hips)" for hips
    by (intro keeps_forA wf_step_reflp wf_step_transp)
  from keeps_wfD [OF this] show ?thesis
    unfolding peering_ping_all_peers_def
    by (intro keeps_andThen [OF wf_step_transp keeps_on_world] keeps_wfI) (simp add: Let_def remove)
qed

section \<open>Remote control\<close>

lemma keeps_catch_bad_peer [node_keeps]: "keeps R m \<Longrightarrow> keeps R (catch_bad_peer cmd m)"
  by (auto simp: keeps_def catch_bad_peer_def split: prod.split sum.split) (metis snd_conv)+

lemma keeps_rpc_add_peer [node_keeps]:
  assumes "v6_text_laws host"
  shows "keeps (wf_step lib) (rpc_add_peer host peer format)"
proof -
  have "keeps (wf_step lib) (andThen (if format = octets_of ''0.1'' then add_peer_simplestring host peer
        else if format = octets_of ''1.0'' then add_peer_simplestring_new_format host peer else ret ()) (\<lambda>_. ret ans))"
    for ans :: rpc_answer
    using assms by (intro node_keeps)
  then have "keeps (wf_step lib) (rpc_add_peer_body host peer format)"
    unfolding rpc_add_peer_body_def
    by (intro keeps_andThen [OF wf_step_transp keeps_wf_liftR] keeps_wfI) (simp add: keeps_wfD)
  from keeps_wfD [OF this] show ?thesis
    by (intro keeps_wfI) (auto simp: rpc_add_peer_def split: prod.split sum.split, (metis snd_conv)+)
qed

lemma keeps_rpc_ban_peer [node_keeps]: "keeps (wf_step lib) (rpc_ban_peer host peer)"
proof -
  have "keeps (wf_step lib) (andThen (delete_peer_simplestring host peer True) (\<lambda>_. ret ans))" for ans :: rpc_answer
    by (intro node_keeps)
  from keeps_wfD [OF this] show ?thesis
    unfolding rpc_ban_peer_def
    by (intro keeps_andThen [OF wf_step_transp keeps_wf_liftR] keeps_catch_bad_peer keeps_wfI) simp
qed

lemma keeps_rpc_sending_test [node_keeps]: "keeps (wf_step lib) (rpc_sending_test host packet_size packet_count)"
  unfolding rpc_sending_test_def by (rule keeps_state) (intro node_keeps)

datatype rpc_request =
    Rpc_ping | Rpc_hello | Rpc_exit | Rpc_ban_all_peers | Rpc_delete_all_peers
  | Rpc_add_peer bytes bytes | Rpc_delete_peer bytes | Rpc_ban_peer bytes

fun rpc_run :: "host_lib \<Rightarrow> rpc_request \<Rightarrow> ('bx, 'ux, rpc_answer) tun_action" where
  \<comment> \<open>the methods that answer with a message\<close>
  "rpc_run host Rpc_ping = rpc_ping"
| "rpc_run host Rpc_hello = rpc_hello"
| "rpc_run host Rpc_exit = rpc_exit"
| "rpc_run host Rpc_ban_all_peers = rpc_ban_all_peers"
| "rpc_run host Rpc_delete_all_peers = rpc_delete_all_peers"
| "rpc_run host (Rpc_add_peer peer format) = rpc_add_peer host peer format"
| "rpc_run host (Rpc_delete_peer peer) = rpc_delete_peer host peer"
| "rpc_run host (Rpc_ban_peer peer) = rpc_ban_peer host peer"

lemma keeps_rpc_run:
  assumes "v6_text_laws host"
  shows "keeps (wf_step lib) (rpc_run host req)"
proof (cases req)
  case Rpc_exit
  then show ?thesis
    by (intro keeps_wfI) (simp add: rpc_exit_def exit_tunserver_def node_wf_def peers_wf_def)
qed (use assms in \<open>simp_all add: rpc_ping_def rpc_hello_def rpc_ban_all_peers_def rpc_delete_all_peers_def
    rpc_delete_peer_def node_keeps\<close>)

section \<open>Passes of the event loop\<close>

definition wf_pass :: "('bx, 'ux) crypto_lib \<Rightarrow> loop_locals \<times> ('bx, 'ux) c_tunserver \<Rightarrow> loop_locals \<times> ('bx, 'ux) c_tunserver \<Rightarrow> bool" where
  "wf_pass lib ls ls' \<longleftrightarrow> wf_step lib (snd ls) (snd ls')"

lemma wf_pass_transp: "transp (wf_pass lib)"
  by (auto simp: transp_def wf_pass_def wf_step_def)

lemma keeps_on_snd: "keeps (wf_step lib) m \<Longrightarrow> keeps (wf_pass lib) (on_snd m)"
  by (simp add: keeps_def wf_pass_def on_snd_def split: prod.split) (metis snd_conv)

lemma keeps_maybe_ping: "keeps (wf_pass lib) (maybe_ping hello_interval)"
proof -
  have stay: "keeps (wf_pass lib) (\<lambda>(l, s). (Inr (), (f l, s)))" for f
    by (simp add: keeps_def wf_pass_def wf_step_def)
  have "keeps (wf_pass lib) (andThen (on_snd peering_ping_all_peers) (\<lambda>_. andThen (on_snd (on_world steady_now))
      (\<lambda>now (l, s). (Inr (), (l\<lparr>ping_all_time_last := now, ping_all_count := ping_all_count l + 1\<rparr>, s)))))"
    by (intro keeps_andThen [OF wf_pass_transp] keeps_on_snd node_keeps stay)
  then show ?thesis
    unfolding maybe_ping_def
    by (intro keeps_andThen [OF wf_pass_transp] keeps_on_snd keeps_on_world)
      (simp add: keeps_def Let_def wf_pass_def wf_step_def)
qed

lemma keeps_event_loop_pass: "keeps (wf_pass lib) (event_loop_pass lib host hello_interval ev)"
  unfolding event_loop_pass_def
  by (intro keeps_catch_all keeps_andThen [OF wf_pass_transp] keeps_maybe_ping keeps_on_snd keeps_event)

section \<open>States reached without interference\<close>

inductive node_step ::
    "('bx, 'ux) crypto_lib \<Rightarrow> host_lib \<Rightarrow> ('bx, 'ux) c_tunserver \<Rightarrow> ('bx, 'ux) c_tunserver \<Rightarrow> bool"
  for lib host where
  \<comment> \<open>every rule runs a method from its start to its end\<close>
  pass: "event_loop_pass lib host hello_interval ev (l, s) = (Inr (), (l', s')) \<Longrightarrow> \<not> is_exiting s \<Longrightarrow> node_step lib host s s'"
| rpc: "rpc_run host req s = (r, s') \<Longrightarrow> r \<noteq> Inl Abort \<Longrightarrow> node_step lib host s s'"
| greet: "peering_ping_all_peers s = (r, s') \<Longrightarrow> r \<noteq> Inl Abort \<Longrightarrow> node_step lib host s s'"
| keys: "configure_mykey lib host load_string s = (r, s') \<Longrightarrow> r \<noteq> Inl Abort \<Longrightarrow> node_step lib host s s'"
| socket: "prepare_socket device_ready s = (r, s') \<Longrightarrow> r \<noteq> Inl Abort \<Longrightarrow> node_step lib host s s'"
| add: "add_peer_simplestring host simple s = (r, s') \<Longrightarrow> r \<noteq> Inl Abort \<Longrightarrow> node_step lib host s s'"
| add_new: "add_peer_simplestring_new_format host simple s = (r, s') \<Longrightarrow> r \<noteq> Inl Abort \<Longrightarrow> node_step lib host s s'"
| delete: "delete_peer_simplestring host simple is_banned s = (r, s') \<Longrightarrow> r \<noteq> Inl Abort \<Longrightarrow> node_step lib host s s'"
| nice: "get_my_ipv6_nice lib s = (r, s') \<Longrightarrow> r \<noteq> Inl Abort \<Longrightarrow> node_step lib host s s'"
| test: "rpc_sending_test host packet_size packet_count s = (r, s') \<Longrightarrow> r \<noteq> Inl Abort \<Longrightarrow> node_step lib host s s'"
| prefix: "node_step lib host s (set_prefix prefix s)"
| prefix_len: "node_step lib host s (set_prefix_len n s)"
| name: "node_step lib host s (set_my_name text s)"
| remove: "node_step lib host s (enable_remove_peers s)"
| timeout: "node_step lib host s (set_remove_peer_tometout seconds s)"
| outside: "node_step lib host s (s\<lparr>m_world := (m_world s)\<lparr>w_rng := n, g_dbg_level := level\<rparr>\<rparr>)"  \<comment> \<open>other code draws random numbers and sets the debug level\<close>

inductive_cases node_stepE: "node_step lib host s s'"

inductive node_reachable :: "('bx, 'ux) crypto_lib \<Rightarrow> host_lib \<Rightarrow> ('bx, 'ux) c_tunserver \<Rightarrow> bool"
  for lib host where
  start: "node_reachable lib host (c_tunserver_new w port peer_timeout0)"
| step: "node_reachable lib host s \<Longrightarrow> node_step lib host s s' \<Longrightarrow> node_reachable lib host s'"

lemma node_wf_new: "node_wf lib (c_tunserver_new w port peer_timeout0)"
  by (simp add: c_tunserver_new_def node_wf_def peers_wf_def map_sorted_def routing_wf_def c_routing_manager_init_def)

lemma keeps_run: "keeps (wf_step lib) m \<Longrightarrow> m s = (r, s') \<Longrightarrow> node_wf lib s \<Longrightarrow> node_wf lib s'"
  using keeps_wfD [of lib m s] by simp

lemma node_step_wf:
  assumes "v6_text_laws host" and "node_wf lib s" and "node_step lib host s s'"
  shows "node_wf lib s'"
  using assms(3)
proof (cases rule: node_step.cases)
  case (pass hello_interval ev l l')
  then show ?thesis
    using keepsD [OF keeps_event_loop_pass [of lib host hello_interval ev], of "(l, s)"] assms(2)
    by (simp add: wf_pass_def wf_step_def)
next
  case (rpc req r)
  from keeps_run [OF keeps_rpc_run [OF assms(1)] rpc(1) assms(2)] show ?thesis .
next
  case (greet r)
  from keeps_run [OF keeps_greetings greet(1) assms(2)] show ?thesis .
next
  case (keys load_string r)
  from keeps_run [OF keeps_configure_mykey keys(1) assms(2)] show ?thesis .
next
  case (socket device_ready r)
  from keeps_run [OF keeps_prepare_socket socket(1) assms(2)] show ?thesis .
next
  case (add simple r)
  from keeps_run [OF keeps_add_peer_simplestring [OF assms(1)] add(1) assms(2)] show ?thesis .
next
  case (add_new simple r)
  from keeps_run [OF keeps_add_peer_new_format [OF assms(1)] add_new(1) assms(2)] show ?thesis .
next
  case (delete simple is_banned r)
  from keeps_run [OF keeps_delete_peer_simplestring delete(1) assms(2)] show ?thesis .
next
  case (nice r)
  from keeps_run [OF keeps_get_my_ipv6_nice nice(1) assms(2)] show ?thesis .
next
  case (test packet_size packet_count r)
  from keeps_run [OF keeps_rpc_sending_test test(1) assms(2)] show ?thesis .
qed (use assms(2) in \<open>simp_all add: set_prefix_def set_prefix_len_def set_my_name_def enable_remove_peers_def
    set_remove_peer_tometout_def node_wf_def peers_wf_def\<close>)

lemma node_reachable_wf:
  assumes "v6_text_laws host" and "node_reachable lib host s"
  shows "node_wf lib s"
  using assms(2) by (induction rule: node_reachable.induct) (auto intro: node_wf_new node_step_wf [OF assms(1)])

end
