(* ===== verification/Forwarding.thy ===== *)
theory Forwarding
  imports Node_Reach
begin

text \<open>
  What a node does with tunnelled data that is not for it: it sends the same data on, with a
  smaller TTL, to at most one peer; so a packet makes a bounded number of hops.
\<close>

section \<open>The packet\<close>

lemma reads_pop_haship_addr: "length a = 16 \<Longrightarrow> reads pop_haship_addr a a"
  using reads_pop_bytes_n [of 16 a] by (simp add: reads_def pop_haship_addr_def length_of_addr_def andThen_def)

lemma reads_return: "x = y \<Longrightarrow> reads (ret x) [] y"
  by (simp add: reads_def)

lemma reads_tunneled_data:
  assumes "length src = 16" "length dst = 16" "length nonce = 24"
    and "length data \<le> SANE_MAX_SIZE_FOR_STRING" and "0 \<le> ttl" and "ttl \<le> 255"
  shows "reads parse_tunneled_data (tunneled_octets data src dst ttl nonce) (src, dst, ttl, nonce, data)"
proof -
  have "uint (of_int ttl :: byte) = ttl" using assms by (simp add: uint_word_of_int)
  then have "reads parse_tunneled_data
      ([current_version, proto_cmd_value e_proto_cmd_tunneled_data] @ src @ dst @ [of_int ttl] @ nonce @ varstring_octets data @ [])
      (src, dst, ttl, nonce, data)"
    unfolding parse_tunneled_data_def
    by (intro reads_andThen [OF reads_skip_bytes_n] reads_andThen [OF reads_pop_haship_addr]
        reads_andThen [OF reads_pop_byte_u] reads_andThen [OF reads_pop_bytes_n]
        reads_andThen [OF reads_pop_varstring] reads_return)
      (simp_all add: assms)
  then show ?thesis by (simp add: tunneled_octets_def)
qed

lemma parse_tunneled_octets:
  assumes "length src = 16" "length dst = 16" "length nonce = 24"
    and "length data \<le> SANE_MAX_SIZE_FOR_STRING" and "0 \<le> ttl" and "ttl \<le> 255"
  shows "fst (parse_tunneled_data (parser_of_buffer (tunneled_octets data src dst ttl nonce))) = Inr (src, dst, ttl, nonce, data)"
  using reads_tunneled_data [OF assms] unfolding reads_def parser_at_def parser_of_buffer_def
  by (metis append_Nil append_Nil2 fst_conv list.size(3))

lemma generated_tunneled_data:
  assumes "length src = 16" "length dst = 16" "length nonce = 24" "length data \<le> SANE_MAX_SIZE_FOR_STRING"
  shows "generated (tunneled_data_packet data src dst ttl nonce) = Inr (tunneled_octets data src dst ttl nonce)"
proof -
  have "fits_size_t data" using assms(4) by (simp add: fits_size_t_def SANE_MAX_SIZE_FOR_STRING_def)
  from writes_tunneled_data_packet [OF assms(1-3) this] show ?thesis by (simp add: generated_def writes_def generator_init_def)
qed

lemma tunneled_octets_head:
  "length (tunneled_octets data src dst ttl nonce) \<ge> 2"
  "tunneled_octets data src dst ttl nonce ! 0 = current_version"
  "tunneled_octets data src dst ttl nonce ! 1 = proto_cmd_value e_proto_cmd_tunneled_data"
  by (simp_all add: tunneled_octets_def)

lemma reduce_ttl_le: "reduce_ttl ttl = min 5 (ttl - 1)"
  by (simp add: reduce_ttl_def ttl_max_accepted_def)

section \<open>One node\<close>

lemma find_pip_in: "find_pip ip m = Inr hip \<Longrightarrow> hip \<in> fst ` set m"
  by (induction m) (auto simp: bindR_eq_Inr_conv split: if_splits)

lemma recognise_sender_tunneled:
  assumes "map_sorted (m_peer s)"
  shows "(\<exists>e. find_pip pip (m_peer s) = Inl e \<and> recognise_sender e_proto_cmd_tunneled_data pip n s = (Inl e, s))
    \<or> (\<exists>hip sender_hip s1. find_pip pip (m_peer s) = Inr hip \<and> sends [] s s1
        \<and> recognise_sender e_proto_cmd_tunneled_data pip n s = (Inr (Some hip, sender_hip), s1)
        \<and> m_routing_manager s1 = m_routing_manager s)"
proof (cases "find_pip pip (m_peer s)")
  case (Inl e)
  then show ?thesis
    by (simp add: recognise_sender_def command_is_valid_from_unknown_peer_def find_peer_by_sender_peering_addr_def
        andThen_def)
next
  case (Inr hip)
  then obtain p where p: "find_key hip (m_peer s) = Some p" using find_pip_in in_find_key [OF assms] by fastforce
  obtain st w where "update_read_stats n (m_peering_stats p, m_world s) = (Inr (), (st, w))" "world_sends [] (m_world s) w"
    using update_read_stats_run by blast
  then have "on_stats (update_read_stats n) (p, m_world s) = (Inr (), (p\<lparr>m_peering_stats := st\<rparr>, w))"
      "world_sends [] (m_world s) w"
    by (simp_all add: on_stats_def)
  from on_peer_sends [where m = "on_stats (update_read_stats n)", OF assms p this(1) _ this(2)]
  obtain s1 where "on_peer hip (on_stats (update_read_stats n)) s = (Inr (), s1)" "sends [] s s1"
      "m_routing_manager s1 = m_routing_manager s"
    by (auto simp: peer_core_def)
  then show ?thesis
    using Inr by (simp add: recognise_sender_def command_is_valid_from_unknown_peer_def
        find_peer_by_sender_peering_addr_def andThen_def)
qed

lemma handle_udp_tunneled:
  assumes "length buf \<ge> 2" and "buf ! 0 = current_version" and "buf ! 1 = proto_cmd_value e_proto_cmd_tunneled_data"
  shows "handle_udp_packet lib host pip buf s =
    (case recognise_sender e_proto_cmd_tunneled_data pip (length buf) s of
       (Inl e, s1) \<Rightarrow> (Inl e, s1) | (Inr (sender, sender_hip), s1) \<Rightarrow> handle_tunneled_data lib host sender buf s1)"
proof -
  have "int_to_proto_cmd (buf ! 1) = Inr e_proto_cmd_tunneled_data" unfolding assms(3) by (rule int_to_proto_cmd_value)
  moreover have "length buf \<noteq> 0" "\<not> \<not> length buf \<ge> 2" "\<not> current_version < buf ! 0" using assms by auto
  ultimately show ?thesis
    by (simp add: handle_udp_packet_def andThen_def split: prod.split sum.split)
qed

definition sends_on :: "bytes \<Rightarrow> c_haship_addr \<Rightarrow> c_haship_addr \<Rightarrow> int \<Rightarrow> bytes \<Rightarrow> ('bx, 'ux) c_tunserver \<Rightarrow> ('bx, 'ux) c_tunserver \<Rightarrow> bool" where
  \<comment> \<open>searches, and then the tunnelled data, once or not at all, if the TTL allows\<close>
  "sends_on data src dst ttl nonce s s' \<longleftrightarrow> (\<exists>qs ps. w_sent (m_world s') = w_sent (m_world s) @ qs @ ps
     \<and> (\<forall>(a, d) \<in> set qs. \<exists>hip. is_query hip 5 d)
     \<and> (ps = [] \<or> 0 < ttl \<and> (\<exists>a. peer_addr_in s a \<and> ps = [(a, tunneled_octets data src dst ttl nonce)]))
     \<and> (ttl \<le> 0 \<longrightarrow> qs = []))"

lemma sends_on_nothing: "w_sent (m_world s') = w_sent (m_world s) \<Longrightarrow> sends_on data src dst ttl nonce s s'"
  unfolding sends_on_def
  by (intro exI [of _ "[] :: (c_ip46_addr \<times> bytes) list"]) simp

lemma route_top_sends_on:
  assumes "node_wf lib s" and "length src = 16" "length dst = 16" "length nonce = 24"
    and "length data \<le> SANE_MAX_SIZE_FOR_STRING"
    and "route_tun_data_to_its_destination_top meth data src dst reason ttl nonce s = (r, s')"
  shows "sends_on data src dst ttl nonce s s'"
proof -
  have wf: "peers_wf lib s" "routing_wf (m_routing_manager s)" using assms(1) by (simp_all add: node_wf_def)
  obtain qs ps where out: "sends (qs @ ps) s s'" "\<forall>(a, d) \<in> set qs. \<exists>hip. is_query hip 5 d"
      "data_sent_to_peer data src dst ttl nonce s ps" "ttl \<le> 0 \<longrightarrow> qs = []"
    using route_top_sends [OF wf assms(6)] by blast
  have "ps = [] \<or> 0 < ttl \<and> (\<exists>a. peer_addr_in s a \<and> ps = [(a, tunneled_octets data src dst ttl nonce)])"
    using out(3) generated_tunneled_data [OF assms(2-5)] by (auto simp: data_sent_to_peer_def)
  moreover have "w_sent (m_world s') = w_sent (m_world s) @ qs @ ps"
    using world_sendsD(1) [OF sendsD(2) [OF out(1)]] .
  ultimately show ?thesis using out(2,4) unfolding sends_on_def by blast
qed

lemma sends_on_back:
  assumes "sends [] s s1" and "sends_on data src dst ttl nonce s1 s'"
  shows "sends_on data src dst ttl nonce s s'"
proof -
  have "w_sent (m_world s1) = w_sent (m_world s)" using world_sendsD(1) [OF sendsD(2) [OF assms(1)]] by simp
  moreover obtain qs ps where "w_sent (m_world s') = w_sent (m_world s1) @ qs @ ps" "\<forall>(a, d) \<in> set qs. \<exists>hip. is_query hip 5 d"
      "ps = [] \<or> 0 < ttl \<and> (\<exists>a. peer_addr_in s1 a \<and> ps = [(a, tunneled_octets data src dst ttl nonce)])"
      "ttl \<le> 0 \<longrightarrow> qs = []"
    using assms(2) unfolding sends_on_def by blast
  ultimately show ?thesis
    using peer_addr_in_sends [OF assms(1)] unfolding sends_on_def by (intro exI [of _ qs] exI [of _ ps]) auto
qed

lemma forward_step:
  assumes wf: "node_wf lib s" and len: "length src = 16" "length dst = 16" "length nonce = 24"
    and sane: "length data \<le> SANE_MAX_SIZE_FOR_STRING" and ttl: "0 \<le> ttl" "ttl \<le> 255"
    and other: "dst \<noteq> m_my_hip s"
    and run: "handle_udp_packet lib host pip (tunneled_octets data src dst ttl nonce) s = (r, s')"
  shows "sends_on data src dst (min 5 (ttl - 1)) nonce s s'"
proof -
  let ?buf = "tunneled_octets data src dst ttl nonce"
  have sorted: "map_sorted (m_peer s)" using wf by (simp add: node_wf_def peers_wf_def)
  note top = handle_udp_tunneled [OF tunneled_octets_head, of lib host pip data src dst ttl nonce s]
  from recognise_sender_tunneled [OF sorted, of pip "length ?buf"] show ?thesis
  proof (elim disjE exE conjE)
    fix e
    assume "recognise_sender e_proto_cmd_tunneled_data pip (length ?buf) s = (Inl e, s)"
    then have "s' = s" using run top by simp
    then show ?thesis by (simp add: sends_on_nothing)
  next
    fix sender sender_hip s1
    assume rec: "recognise_sender e_proto_cmd_tunneled_data pip (length ?buf) s = (Inr (Some sender, sender_hip), s1)"
      and quiet: "sends [] s s1" and routing: "m_routing_manager s1 = m_routing_manager s"
    have wf1: "node_wf lib s1"
      using node_wf_sends [OF wf quiet] wf routing by (simp add: node_wf_def)
    have h: "handle_tunneled_data lib host (Some sender) ?buf s1 = (r, s')" using run top rec by simp
    have my: "m_my_hip s1 = m_my_hip s" by (rule sendsD [OF quiet])
    have "sends_on data src dst (min 5 (ttl - 1)) nonce s1 s'"
    proof (cases "sender_drained (Some sender) s1")
      case True
      then have "s' = s1" using h other my
        by (simp add: handle_tunneled_data_def parse_tunneled_octets [OF len sane ttl])
      then show ?thesis by (simp add: sends_on_nothing)
    next
      case False
      obtain r1 where "route_tun_data_to_its_destination_top e_route_method_default data src dst
          \<lparr>m_his_addr = src, m_search_mode = e_search_mode_route_other_packet\<rparr> (reduce_ttl ttl) nonce s1 = (r1, s')"
        using False h other my
        by (auto simp: handle_tunneled_data_def parse_tunneled_octets [OF len sane ttl] andThen_def
            split: prod.splits sum.splits)
      from route_top_sends_on [OF wf1 len sane this] show ?thesis by (simp add: reduce_ttl_le)
    qed
    then show ?thesis by (rule sends_on_back [OF quiet])
  qed
qed

section \<open>A peer next door\<close>

lemma send_data_udp_ipv4:
  assumes "m_peering_addr p = tag_ipv4 a" and "sin_family a = AF_INET" and "\<not> m_disabled w"
    and "generated (tunneled_data_packet data src dst ttl nonce) = Inr d"
  shows "\<exists>st w'. send_data_udp data src dst ttl nonce (p, w) = (Inr (), (p\<lparr>m_peering_stats := st\<rparr>, w'))
    \<and> world_sends [(tag_ipv4 a, d)] w w'"
proof -
  obtain st w1 where st: "update_sent_stats (length data) (m_peering_stats p, w) = (Inr (), (st, w1))" "world_sends [] w w1"
    using update_sent_stats_run by blast
  then have on: "on_stats (update_sent_stats (length data)) (p, w) = (Inr (), (p\<lparr>m_peering_stats := st\<rparr>, w1))"
    by (simp add: on_stats_def)
  let ?w = "w1\<lparr>w_sent := w_sent w1 @ [(tag_ipv4 a, d)]\<rparr>"
  have "\<not> m_disabled w1" using world_sendsD(4) [OF st(2)] assms(3) by simp
  then have "udp_send_data (tag_ipv4 a) d w1 = (Inr (), ?w)"
    using assms(2) by (simp add: udp_send_data_def get_ip4_def)
  then have "send_data_RAW_udp d (p\<lparr>m_peering_stats := st\<rparr>, w1) = (Inr (), (p\<lparr>m_peering_stats := st\<rparr>, ?w))"
    using assms(1) by (simp add: send_data_RAW_udp_def on_snd_def)
  moreover have "world_sends [(tag_ipv4 a, d)] w1 ?w"
    unfolding world_sends_def by (rule exI [of _ "w_clock_reads w1"]) simp
  ultimately show ?thesis
    using on world_sends_trans [OF st(2)] assms(4) by (auto simp: send_data_udp_def)
qed

lemma route_to_direct_peer:
  assumes "map_sorted (m_peer s)" and "find_key dst (m_peer s) = Some p"
    and "m_peering_addr p = tag_ipv4 a" and "sin_family a = AF_INET" and "\<not> m_disabled (m_world s)"
    and "generated (tunneled_data_packet data src dst ttl nonce) = Inr d" and "0 < ttl"
  shows "\<exists>s'. route_tun_data_to_its_destination_top meth data src dst reason ttl nonce s = (Inr True, s')
    \<and> sends [(tag_ipv4 a, d)] s s'"
proof -
  obtain st w where run: "send_data_udp data src dst ttl nonce (p, m_world s) = (Inr (), (p\<lparr>m_peering_stats := st\<rparr>, w))"
      "world_sends [(tag_ipv4 a, d)] (m_world s) w"
    using send_data_udp_ipv4 [OF assms(3,4,5,6)] by blast
  from on_peer_sends [where m = "send_data_udp data src dst ttl nonce", OF assms(1,2) run(1) _ run(2)]
  obtain s' where "on_peer dst (send_data_udp data src dst ttl nonce) s = (Inr (), s')" "sends [(tag_ipv4 a, d)] s s'"
    by (auto simp: peer_core_def)
  moreover have "m_peer s \<noteq> []" using assms(2) find_key_in by fastforce
  ultimately show ?thesis
    using assms(2,7)
    by (simp add: route_tun_data_to_its_destination_top_def
        route_tun_data_to_its_destination_detail.simps [of _ _ _ _ dst _ 0])
qed

lemma same_peers_findD:
  assumes "sends pkts s s1" and "find_key k (m_peer s) = Some p"
  shows "\<exists>p1. find_key k (m_peer s1) = Some p1 \<and> peer_core p1 = peer_core p"
  using same_peers_find [OF sendsD(1) [OF assms(1)], of k] assms(2) by (cases "find_key k (m_peer s1)") auto

lemma forward_direct:
  assumes sorted: "map_sorted (m_peer s)" and len: "length src = 16" "length dst = 16" "length nonce = 24"
    and sane: "length data \<le> SANE_MAX_SIZE_FOR_STRING" and ttl: "2 \<le> ttl" "ttl \<le> 255"
    and other: "dst \<noteq> m_my_hip s" and sender: "find_pip pip (m_peer s) = Inr sender"
    and credit: "\<not> sender_drained (Some sender) s"
    and peer: "find_key dst (m_peer s) = Some p" "m_peering_addr p = tag_ipv4 a" "sin_family a = AF_INET"
    and up: "\<not> m_disabled (m_world s)"
  shows "\<exists>s'. handle_udp_packet lib host pip (tunneled_octets data src dst ttl nonce) s = (Inr (), s')
    \<and> sends [(tag_ipv4 a, tunneled_octets data src dst (min 5 (ttl - 1)) nonce)] s s'"
proof -
  let ?buf = "tunneled_octets data src dst ttl nonce"
  have ttl0: "0 \<le> ttl" using ttl by simp
  obtain sender_hip s1 where rec:
      "recognise_sender e_proto_cmd_tunneled_data pip (length ?buf) s = (Inr (Some sender, sender_hip), s1)" "sends [] s s1"
    using recognise_sender_tunneled [OF sorted, of pip "length ?buf"] sender by auto
  note quiet = sendsD [OF rec(2)]
  obtain p1 where p1: "find_key dst (m_peer s1) = Some p1" "peer_core p1 = peer_core p"
    using same_peers_findD [OF rec(2) peer(1)] by blast
  have "\<not> sender_drained (Some sender) s1"
    using credit same_peers_find [OF quiet(1), of sender]
    by (auto simp: sender_drained_def peer_core_def split: option.splits)
  moreover have "map_sorted (m_peer s1)" using sorted same_peers_sorted [OF quiet(1)] by simp
  moreover have "\<not> m_disabled (m_world s1)" using up world_sendsD(4) [OF quiet(2)] by simp
  moreover have "m_peering_addr p1 = tag_ipv4 a" using p1(2) peer(2) by (simp add: peer_core_def)
  moreover have "0 < reduce_ttl ttl" using ttl by (simp add: reduce_ttl_le)
  ultimately obtain s' where route: "route_tun_data_to_its_destination_top e_route_method_default data src dst
        \<lparr>m_his_addr = src, m_search_mode = e_search_mode_route_other_packet\<rparr> (reduce_ttl ttl) nonce s1 = (Inr True, s')"
      "sends [(tag_ipv4 a, tunneled_octets data src dst (reduce_ttl ttl) nonce)] s1 s'" "\<not> sender_drained (Some sender) s1"
    using route_to_direct_peer [OF _ p1(1) _ peer(3) _ generated_tunneled_data [OF len sane]] by blast
  have "handle_tunneled_data lib host (Some sender) ?buf s1 = (Inr (), s')"
    using route other quiet(4) by (simp add: handle_tunneled_data_def parse_tunneled_octets [OF len sane ttl0 ttl(2)])
  then have "handle_udp_packet lib host pip ?buf s = (Inr (), s')"
    using rec(1) handle_udp_tunneled [OF tunneled_octets_head, of lib host pip data src dst ttl nonce s] by simp
  then show ?thesis using sends_trans [OF rec(2) route(2)] by (simp add: reduce_ttl_le)
qed

section \<open>Several nodes\<close>

definition forwards :: "('bx, 'ux) crypto_lib \<Rightarrow> host_lib \<Rightarrow> c_haship_addr \<Rightarrow> bytes \<Rightarrow> bytes \<Rightarrow> bool" where
  \<comment> \<open>some node that is not the destination, in some state it can reach, answers the datagram \<open>d\<close> by
     sending the tunnelled data \<open>d'\<close>\<close>
  "forwards lib host dst d d' \<longleftrightarrow> (\<exists>s pip r s' pkts a. node_reachable lib host s \<and> m_my_hip s \<noteq> dst
     \<and> handle_udp_packet lib host pip d s = (r, s') \<and> w_sent (m_world s') = w_sent (m_world s) @ pkts
     \<and> (a, d') \<in> set pkts \<and> d' ! 1 = proto_cmd_value e_proto_cmd_tunneled_data)"

lemma forwards_once:
  assumes "v6_text_laws host" and "length src = 16" "length dst = 16" "length nonce = 24"
    and "length data \<le> SANE_MAX_SIZE_FOR_STRING" and "0 \<le> ttl" "ttl \<le> 255"
    and "forwards lib host dst (tunneled_octets data src dst ttl nonce) d'"
  shows "2 \<le> ttl \<and> d' = tunneled_octets data src dst (min 5 (ttl - 1)) nonce"
proof -
  obtain s pip r s' pkts a where s: "node_reachable lib host s" "m_my_hip s \<noteq> dst"
      "handle_udp_packet lib host pip (tunneled_octets data src dst ttl nonce) s = (r, s')"
      "w_sent (m_world s') = w_sent (m_world s) @ pkts" "(a, d') \<in> set pkts"
      "d' ! 1 = proto_cmd_value e_proto_cmd_tunneled_data"
    using assms(8) unfolding forwards_def by blast
  have "sends_on data src dst (min 5 (ttl - 1)) nonce s s'"
    using forward_step [OF node_reachable_wf [OF assms(1) s(1)] assms(2-7) _ s(3)] s(2) by simp
  then obtain qs ps where "pkts = qs @ ps" "\<forall>(a, d) \<in> set qs. \<exists>hip. is_query hip 5 d"
      "ps = [] \<or> 0 < min 5 (ttl - 1) \<and> (\<exists>a. peer_addr_in s a
         \<and> ps = [(a, tunneled_octets data src dst (min 5 (ttl - 1)) nonce)])"
    using s(4) unfolding sends_on_def by auto
  moreover have "\<not> is_query hip 5 d'" for hip using s(6) by (auto simp: is_query_def)
  ultimately show ?thesis using s(5) by auto
qed

lemma forwards_iterated:
  assumes "v6_text_laws host" and "length src = 16" "length dst = 16" "length nonce = 24"
    and "length data \<le> SANE_MAX_SIZE_FOR_STRING" and "0 \<le> ttl" "ttl \<le> 255"
    and "(forwards lib host dst ^^ n) (tunneled_octets data src dst ttl nonce) d'"
  shows "int n \<le> max 0 (min 5 (ttl - 1))"
  using assms(6-8)
proof (induction n arbitrary: ttl)
  case (Suc n)
  then obtain d1 where d1: "forwards lib host dst (tunneled_octets data src dst ttl nonce) d1"
      "(forwards lib host dst ^^ n) d1 d'"
    using relpowp_Suc_D2 by metis
  have "2 \<le> ttl" "d1 = tunneled_octets data src dst (min 5 (ttl - 1)) nonce"
    using forwards_once [OF assms(1-5) Suc.prems(1,2) d1(1)] by auto
  moreover from this have "int n \<le> max 0 (min 5 (min 5 (ttl - 1) - 1))"
    using d1(2) by (intro Suc.IH) auto
  ultimately show ?case by simp
qed simp

section \<open>Properties\<close>

definition example_world :: world where
  "example_world = \<lparr>w_clock = (\<lambda>_. 0), w_clock_reads = 0, m_disabled = False, w_sent = [], w_tun = [],
     w_tun_write = (\<lambda>packet. Some (length packet)), w_rng = 0, g_dbg_level = 100\<rparr>"

definition example_address :: "byte \<Rightarrow> c_haship_addr" where
  "example_address c = [0xFD, 0x42] @ replicate 13 0xFF @ [c]"

definition example_endpoint :: "bytes \<Rightarrow> c_ip46_addr" where
  "example_endpoint a = tag_ipv4 \<lparr>sin_family = AF_INET, sin_port = 9042, sin_addr = a\<rparr>"

lemma example_references:
  "parse_peer_simplestring example_host (octets_of ''127.0.0.1:9042-fd42ffffffffffffffffffffffffff01'')
   = Inr \<lparr>peering_addr = example_endpoint [127, 0, 0, 1], haship_addr = example_address 1\<rparr>"
  "parse_peer_simplestring example_host (octets_of ''192.168.2.62:9042-fd42ffffffffffffffffffffffffff02'')
   = Inr \<lparr>peering_addr = example_endpoint [192, 168, 2, 62], haship_addr = example_address 2\<rparr>"
  by (simp_all add: parse_peer_simplestring_def parse_ip_string_def parse_ip_body_def octets_of_def str_find_def stoi_def
      is_space_def is_digit_def example_host_def example_v4_def example_v6_def replicate_numeral substr_from_def
      t_peering_reference_of_text_def t_peering_reference_of_addr_def c_haship_addr_by_addr_dot_eq
      c_ip46_addr_of_string_def is_ipv4_def create_ipv4_def set_ip4_def AF_INET_def AF_INET6_def example_address_def
      string_as_bin_of_hex_def hex_octet_def hexchar2int_def example_endpoint_def)

lemma add_peer_simplestring_run:
  assumes "parse_peer_simplestring host simple = Inr ref"
  shows "\<exists>p w. add_peer_simplestring host simple s = (Inr (), s\<lparr>m_world := w,
      m_peer := emplace_key (haship_addr ref) p (m_peer s),
      m_peer_black_list := m_peer_black_list s - {haship_addr ref}\<rparr>)
    \<and> m_peering_addr p = peering_addr ref \<and> m_limit_points p = 100 \<and> m_disabled w = m_disabled (m_world s)"
proof -
  obtain p w where "c_peering_new ref (m_world s) = (Inr p, w)" "m_peering_addr p = peering_addr ref"
      "m_limit_points p = 100" "m_disabled w = m_disabled (m_world s)"
    using c_peering_new_run [of ref "m_world s"] by blast
  then show ?thesis
    using assms by (intro exI [of _ p] exI [of _ w])
      (simp add: add_peer_simplestring_def catch_exception_def add_peer_def delete_peer_from_black_list_def
        andThen_def on_world_def)
qed

lemma example_node:
  "\<exists>s p q :: c_peering. node_reachable lib example_host (s :: ('bx, 'ux) c_tunserver) \<and> m_my_hip s = c_haship_addr_init
     \<and> \<not> m_disabled (m_world s) \<and> find_key (example_address 1) (m_peer s) = Some p
     \<and> find_key (example_address 2) (m_peer s) = Some q \<and> m_peering_addr p = example_endpoint [127, 0, 0, 1]
     \<and> m_peering_addr q = example_endpoint [192, 168, 2, 62] \<and> m_limit_points p = 100
     \<and> find_pip (example_endpoint [127, 0, 0, 1]) (m_peer s) = Inr (example_address 1)
     \<and> m_peer_black_list s = {}"
proof -
  let ?s0 = "c_tunserver_new example_world 9042 60 :: ('bx, 'ux) c_tunserver"
  obtain p w where 1: "add_peer_simplestring example_host (octets_of ''127.0.0.1:9042-fd42ffffffffffffffffffffffffff01'') ?s0
      = (Inr (), ?s0\<lparr>m_world := w, m_peer := [(example_address 1, p)], m_peer_black_list := {}\<rparr>)"
      "m_peering_addr p = example_endpoint [127, 0, 0, 1]" "m_limit_points p = 100" "\<not> m_disabled w"
    using add_peer_simplestring_run [OF example_references(1), of ?s0]
    by (auto simp: c_tunserver_new_def example_world_def)
  let ?s1 = "?s0\<lparr>m_world := w, m_peer := [(example_address 1, p)], m_peer_black_list := {}\<rparr>"
  have lt: "\<not> example_address 2 < example_address 1" "example_address 1 < example_address 2"
    by (simp_all add: example_address_def replicate_numeral)
  obtain q w2 where 2: "add_peer_simplestring example_host (octets_of ''192.168.2.62:9042-fd42ffffffffffffffffffffffffff02'') ?s1
      = (Inr (), ?s1\<lparr>m_world := w2, m_peer := [(example_address 1, p), (example_address 2, q)], m_peer_black_list := {}\<rparr>)"
      "m_peering_addr q = example_endpoint [192, 168, 2, 62]" "\<not> m_disabled w2"
    using add_peer_simplestring_run [OF example_references(2), of ?s1] 1(4) lt by auto
  let ?s2 = "?s1\<lparr>m_world := w2, m_peer := [(example_address 1, p), (example_address 2, q)], m_peer_black_list := {}\<rparr>"
  have "node_reachable lib example_host ?s1"
    by (rule node_reachable.step [OF node_reachable.start]) (rule node_step.add [OF 1(1)], simp)
  then have "node_reachable lib example_host ?s2"
    by (rule node_reachable.step) (rule node_step.add [OF 2(1)], simp)
  moreover have "find_pip (example_endpoint [127, 0, 0, 1]) (m_peer ?s2) = Inr (example_address 1)"
    using 1(2) by (simp add: ip46_equal_def example_endpoint_def)
  ultimately show ?thesis
    using 1 2 lt by (intro exI [of _ ?s2] exI [of _ p] exI [of _ q]) (auto simp: c_tunserver_new_def)
qed

text \<open>
  C6: a node in any state it can reach that receives tunnelled data for someone else sends, besides
  searches with TTL 5, at most one datagram: the same data, source, destination and nonce with the
  TTL lowered to the minimum of 5 and the received one minus 1, to the address of a peer. At TTL 1
  or 0 it sends nothing.
\<close>

theorem forward_tunneled_data:
  assumes "v6_text_laws host" and "node_reachable lib host s"
    and "length src = 16" "length dst = 16" "length nonce = 24" "length data \<le> SANE_MAX_SIZE_FOR_STRING"
    and "0 \<le> ttl" "ttl \<le> 255" and "dst \<noteq> m_my_hip s"
    and "handle_udp_packet lib host pip (tunneled_octets data src dst ttl nonce) s = (r, s')"
  shows "\<exists>searches forwarded. w_sent (m_world s') = w_sent (m_world s) @ searches @ forwarded
    \<and> (\<forall>(a, d) \<in> set searches. \<exists>hip. is_query hip 5 d)
    \<and> (forwarded = [] \<or> (\<exists>a. forwarded = [(a, tunneled_octets data src dst (min 5 (ttl - 1)) nonce)] \<and> peer_addr_in s a))
    \<and> (ttl \<le> 1 \<longrightarrow> searches = [] \<and> forwarded = [])"
proof -
  obtain qs ps where "w_sent (m_world s') = w_sent (m_world s) @ qs @ ps" "\<forall>(a, d) \<in> set qs. \<exists>hip. is_query hip 5 d"
      "ps = [] \<or> 0 < min 5 (ttl - 1) \<and> (\<exists>a. peer_addr_in s a
         \<and> ps = [(a, tunneled_octets data src dst (min 5 (ttl - 1)) nonce)])" "min 5 (ttl - 1) \<le> 0 \<longrightarrow> qs = []"
    using forward_step [OF node_reachable_wf [OF assms(1,2)] assms(3-10)] unfolding sends_on_def by blast
  then show ?thesis by (intro exI [of _ qs] exI [of _ ps]) auto
qed

definition example_packet :: "int \<Rightarrow> bytes" where
  "example_packet ttl = tunneled_octets [1, 2, 3] (example_address 1) (example_address 2) ttl (replicate 24 7)"

theorem forward_tunneled_data_witness:
  "\<exists>s s' :: (bytes \<times> nat, bytes \<times> nat) c_tunserver. node_reachable example_lib example_host s \<and>
     (\<exists>searches forwarded. w_sent (m_world s') = w_sent (m_world s) @ searches @ forwarded
    \<and> (\<forall>(a, d) \<in> set searches. \<exists>hip. is_query hip 5 d)
    \<and> (forwarded = [] \<or> (\<exists>a. forwarded = [(a, example_packet 5)] \<and> peer_addr_in s a)))"
proof -
  obtain s :: "(bytes \<times> nat, bytes \<times> nat) c_tunserver" and p where
    s: "node_reachable example_lib example_host s" "m_my_hip s = c_haship_addr_init"
    using example_node [of example_lib] by blast
  have "example_address 2 \<noteq> m_my_hip s" by (simp add: s(2) example_address_def c_haship_addr_init_def g_haship_addr_size_def replicate_numeral)
  moreover obtain r s' where "handle_udp_packet example_lib example_host (example_endpoint [127, 0, 0, 1]) (example_packet 9) s = (r, s')"
    by force
  ultimately show ?thesis
    using forward_tunneled_data [OF v6_text_laws_example s(1), of "example_address 1" "example_address 2"
        "replicate 24 7" "[1, 2, 3]" 9] s(1)
    by (fastforce simp: example_packet_def example_address_def SANE_MAX_SIZE_FOR_STRING_def)
qed

text \<open>
  C7: when the sender is a peer in credit and the destination is a direct IPv4 peer, data with a TTL
  of at least 2 does arrive there: exactly one datagram is sent, to the address of that peer.
\<close>

theorem forward_to_direct_peer:
  assumes "v6_text_laws host" and "node_reachable lib host s"
    and "length src = 16" "length dst = 16" "length nonce = 24" "length data \<le> SANE_MAX_SIZE_FOR_STRING"
    and "2 \<le> ttl" "ttl \<le> 255" and "dst \<noteq> m_my_hip s"
    and "find_pip pip (m_peer s) = Inr sender" and "\<not> sender_drained (Some sender) s"
    and "find_key dst (m_peer s) = Some p" and "m_peering_addr p = tag_ipv4 a" and "sin_family a = AF_INET"
    and "\<not> m_disabled (m_world s)"
  shows "\<exists>s'. handle_udp_packet lib host pip (tunneled_octets data src dst ttl nonce) s = (Inr (), s')
    \<and> w_sent (m_world s') = w_sent (m_world s) @ [(tag_ipv4 a, tunneled_octets data src dst (min 5 (ttl - 1)) nonce)]"
proof -
  have "map_sorted (m_peer s)" using node_reachable_wf [OF assms(1,2)] by (simp add: node_wf_def peers_wf_def)
  from forward_direct [OF this assms(3-15), of lib host] show ?thesis using sendsD(2) world_sendsD(1) by blast
qed

theorem forward_to_direct_peer_witness:
  "\<exists>s s' :: (bytes \<times> nat, bytes \<times> nat) c_tunserver. node_reachable example_lib example_host s
     \<and> handle_udp_packet example_lib example_host (example_endpoint [127, 0, 0, 1]) (example_packet 9) s = (Inr (), s')
     \<and> w_sent (m_world s') = w_sent (m_world s) @ [(example_endpoint [192, 168, 2, 62], example_packet 5)]"
proof -
  obtain s :: "(bytes \<times> nat, bytes \<times> nat) c_tunserver" and p q where
    s: "node_reachable example_lib example_host s" "m_my_hip s = c_haship_addr_init" "\<not> m_disabled (m_world s)"
      "find_key (example_address 1) (m_peer s) = Some p" "find_key (example_address 2) (m_peer s) = Some q"
      "m_peering_addr q = example_endpoint [192, 168, 2, 62]" "m_limit_points p = 100"
      "find_pip (example_endpoint [127, 0, 0, 1]) (m_peer s) = Inr (example_address 1)"
    using example_node [of example_lib] by blast
  have "example_address 2 \<noteq> m_my_hip s" by (simp add: s(2) example_address_def c_haship_addr_init_def g_haship_addr_size_def replicate_numeral)
  moreover have "\<not> sender_drained (Some (example_address 1)) s" using s(4,7) by (simp add: sender_drained_def)
  ultimately show ?thesis
    using forward_to_direct_peer [OF v6_text_laws_example s(1), of "example_address 1" "example_address 2"
        "replicate 24 7" "[1, 2, 3]" 9 "example_endpoint [127, 0, 0, 1]" "example_address 1" q] s
    by (fastforce simp: example_packet_def example_address_def example_endpoint_def SANE_MAX_SIZE_FOR_STRING_def)
qed

text \<open>
  C8: tunnelled data is forwarded at most five times, whatever TTL its first sender wrote, through
  any nodes other than its destination, in any states they can reach.
\<close>

theorem hops_bounded:
  assumes "v6_text_laws host"
    and "length src = 16" "length dst = 16" "length nonce = 24" "length data \<le> SANE_MAX_SIZE_FOR_STRING"
    and "0 \<le> ttl" "ttl \<le> 255"
    and "(forwards lib host dst ^^ n) (tunneled_octets data src dst ttl nonce) d'"
  shows "int n \<le> max 0 (min 5 (ttl - 1))"
  using forwards_iterated [OF assms] .

theorem hops_bounded_witness:
  "(forwards example_lib example_host (example_address 2) ^^ 1) (example_packet 9) (example_packet 5)
   \<and> int 1 \<le> max 0 (min 5 (9 - 1))"
proof
  obtain s :: "(bytes \<times> nat, bytes \<times> nat) c_tunserver" and p q where
    s: "node_reachable example_lib example_host s" "m_my_hip s = c_haship_addr_init" "\<not> m_disabled (m_world s)"
      "find_key (example_address 1) (m_peer s) = Some p" "find_key (example_address 2) (m_peer s) = Some q"
      "m_peering_addr q = example_endpoint [192, 168, 2, 62]" "m_limit_points p = 100"
      "find_pip (example_endpoint [127, 0, 0, 1]) (m_peer s) = Inr (example_address 1)"
    using example_node [of example_lib] by blast
  have other: "example_address 2 \<noteq> m_my_hip s"
    by (simp add: s(2) example_address_def c_haship_addr_init_def g_haship_addr_size_def replicate_numeral)
  have "\<not> sender_drained (Some (example_address 1)) s" using s(4,7) by (simp add: sender_drained_def)
  moreover have "map_sorted (m_peer s)"
    using node_reachable_wf [OF v6_text_laws_example s(1)] by (simp add: node_wf_def peers_wf_def)
  ultimately obtain s' where s': "handle_udp_packet example_lib example_host (example_endpoint [127, 0, 0, 1]) (example_packet 9) s = (Inr (), s')"
      "sends [(example_endpoint [192, 168, 2, 62], example_packet 5)] s s'"
    using forward_direct [of s "example_address 1" "example_address 2" "replicate 24 7" "[1, 2, 3]" 9
        "example_endpoint [127, 0, 0, 1]" "example_address 1" q] s other
    by (fastforce simp: example_packet_def example_address_def example_endpoint_def SANE_MAX_SIZE_FOR_STRING_def)
  have "example_packet 5 ! 1 = proto_cmd_value e_proto_cmd_tunneled_data"
    unfolding example_packet_def by (rule tunneled_octets_head)
  then have "forwards example_lib example_host (example_address 2) (example_packet 9) (example_packet 5)"
    using s(1) other s'(1) world_sendsD(1) [OF sendsD(2) [OF s'(2)]] unfolding forwards_def by fastforce
  then show "(forwards example_lib example_host (example_address 2) ^^ 1) (example_packet 9) (example_packet 5)"
    by (simp add: eq_OO)
  from hops_bounded [OF v6_text_laws_example, of "example_address 1" "example_address 2" "replicate 24 7" "[1, 2, 3]" 9
      1 example_lib "example_packet 5"] this
  show "int 1 \<le> max 0 (min 5 (9 - 1))" by (simp add: example_packet_def)
qed

end
