(* ===== verification/Greeting.thy ===== *)
theory Greeting
  imports Forwarding
begin

text \<open>
  The greeting (\<open>public_hi\<close>): what a node that receives one does to its peers, whoever sent it, and
  that the greeting one node sends is accepted by another.
\<close>

section \<open>Greetings\<close>

definition same_keys :: "c_multikeys_pub \<Rightarrow> c_multikeys_pub \<Rightarrow> bool" where
  "same_keys mk mk' \<longleftrightarrow> m_cryptolists_general mk' = m_cryptolists_general mk"

lemma same_keys_steps:
  "reflp same_keys" "transp same_keys"
  by (auto simp: reflp_def transp_def same_keys_def)

lemma keeps_keys_get_hash: "keeps same_keys (get_hash lib)"
  by (auto simp: keeps_def same_keys_def get_hash_def update_hash_def Let_def split: sum.split)

lemma keeps_keys_liftR: "keeps same_keys (liftR r)"
  by (simp add: keeps_def same_keys_def)

lemma keeps_keys_bin: "keeps same_keys (get_ipv6_string_bin lib)"
  unfolding get_ipv6_string_bin_def
  by (rule keeps_andThen [OF same_keys_steps(2) keeps_keys_get_hash])
    (simp add: keeps_def same_keys_def Let_def split: sum.split)

lemma keeps_keys_hexdot: "keeps same_keys (get_ipv6_string_hexdot lib)"
  unfolding get_ipv6_string_hexdot_def get_ipv6_string_hex_def
  by (intro keeps_andThen [OF same_keys_steps(2)] keeps_keys_bin keeps_keys_liftR keeps_ret [OF same_keys_steps(1)])

lemma keeps_keys_by_hash: "keeps same_keys (c_haship_addr_by_hash_of_pubkey lib)"
  unfolding c_haship_addr_by_hash_of_pubkey_def
  by (intro keeps_andThen [OF same_keys_steps(2)] keeps_keys_bin keeps_keys_liftR)

definition keyed_peer ::
    "('bx, 'ux) crypto_lib \<Rightarrow> t_peering_reference \<Rightarrow> c_multikeys_pub \<Rightarrow> ('bx, 'ux) c_tunserver \<Rightarrow> c_haship_addr \<Rightarrow> c_peering \<Rightarrow> bool" where
  "keyed_peer lib ref pub s hip p \<longleftrightarrow> hip = haship_addr ref \<and> hip \<notin> m_peer_black_list s
     \<and> (\<exists>pub'. m_pubkey p = Some pub' \<and> same_keys pub pub' \<and> pub_has_address lib pub' hip)"

lemma add_peer_append_pubkey_effect:
  assumes wf: "node_wf lib s" and run: "add_peer_append_pubkey lib ref pub s = (r, s')"
    and p: "find_key hip (m_peer s') = Some p"
  shows "map_option m_pubkey (find_key hip (m_peer s)) = Some (m_pubkey p) \<or> keyed_peer lib ref pub s hip p"
proof (cases "\<exists>pub'. c_haship_addr_by_hash_of_pubkey lib pub = (Inr (haship_addr ref), pub')")
  case True
  then obtain pub' where h: "c_haship_addr_by_hash_of_pubkey lib pub = (Inr (haship_addr ref), pub')" by blast
  have pub': "same_keys pub pub'" "pub_has_address lib pub' (haship_addr ref)"
    using keepsD [OF keeps_keys_by_hash, of pub lib] h by_hash_again(1) [OF h] by simp_all
  have sorted: "map_sorted (m_peer s)" using wf by (simp add: node_wf_def peers_wf_def)
  show ?thesis
  proof (cases "find_key (haship_addr ref) (m_peer s)")
    case None
    obtain q w where q: "c_peering_new ref (m_world s) = (Inr q, w)" using c_peering_new_run by blast
    show ?thesis
    proof (cases "haship_addr ref \<in> m_peer_black_list s")
      case True
      then have "m_peer s' = m_peer s"
        using run None h by (auto simp: add_peer_append_pubkey_def append_new_peer_def Let_def andThen_def split: if_splits)
      then show ?thesis using p by simp
    next
      case False
      then have "m_peer s' = emplace_key (haship_addr ref) (set_pubkey pub' q) (m_peer s)"
        using run None h q
        by (auto simp: add_peer_append_pubkey_def append_new_peer_def Let_def andThen_def on_world_def split: if_splits)
      then show ?thesis
        using p sorted False pub' smap.find_emplaceD [OF sorted, of hip "haship_addr ref" "set_pubkey pub' q" p]
        by (auto simp: keyed_peer_def set_pubkey_def)
    qed
  next
    case (Some q)
    then have free: "haship_addr ref \<notin> m_peer_black_list s" using wf by (auto simp: node_wf_def peers_wf_def)
    obtain r1 q' w where q': "update_existing_peer ref pub' (q, m_world s) = (r1, (q', w))" by (metis prod.collapse)
    have key: "m_pubkey q' = Some pub'"
      using q' by (auto simp: update_existing_peer_def update_last_ping_time_def andThen_def on_snd_def steady_now_def
          Let_def set_pubkey_def set_pip_def split: sum.splits if_splits)
    have "m_peer s' = map_modify (haship_addr ref) (\<lambda>_. q') (m_peer s)"
      using run Some h q'
      by (auto simp: add_peer_append_pubkey_def Let_def andThen_def on_peer_def split: sum.splits if_splits)
    then show ?thesis
      using p sorted free pub' key smap.find_modifyD [of hip "haship_addr ref" "\<lambda>_. q'" "m_peer s" p]
      by (auto simp: keyed_peer_def)
  qed
next
  case False
  then have "s' = s"
    using run by (auto simp: add_peer_append_pubkey_def Let_def split: prod.splits sum.splits if_splits)
  then show ?thesis using p by simp
qed

lemma add_tunnel_keeps_peers: "m_peer (snd (add_tunnel_to_pubkey lib pub s)) = m_peer s"
  by (auto simp: add_tunnel_to_pubkey_def split: prod.split sum.split option.split)


lemma hello_body_effect:
  assumes wf: "node_wf lib s" and run: "hello_body lib host pip (IDC, IDI, sig) s = (r, s')"
    and p: "find_key hip (m_peer s') = Some p"
    and new: "map_option m_pubkey (find_key hip (m_peer s)) \<noteq> Some (m_pubkey p)"
  shows "\<exists>his_IDI ms key. load_pubkey (m_node_ipv6_prefix s) IDI = Inr his_IDI \<and> load_signature sig = Inr ms
    \<and> multi_sign_verify lib ms IDC his_IDI = Inr ()
    \<and> m_pubkey p = Some key \<and> same_keys his_IDI key \<and> pub_has_address lib key hip \<and> hip \<notin> m_peer_black_list s"
proof -
  have changed: "m_peer s' \<noteq> m_peer s" using p new by auto
  let ?pre = "m_node_ipv6_prefix s"
  obtain his_IDI where 1: "load_pubkey ?pre IDI = Inr his_IDI"
    using run changed by (cases "load_pubkey ?pre IDI") (auto simp: hello_body_def)
  obtain ms where 2: "load_signature sig = Inr ms"
    using run changed 1 by (cases "load_signature sig") (auto simp: hello_body_def)
  have 3: "multi_sign_verify lib ms IDC his_IDI = Inr ()"
    using run changed 1 2 by (cases "multi_sign_verify lib ms IDC his_IDI") (auto simp: hello_body_def)
  obtain ref pub' where 4: "hello_reference lib host pip his_IDI = Inr (ref, pub')"
    using run changed 1 2 3 by (cases "hello_reference lib host pip his_IDI") (auto simp: hello_body_def)
  have keys: "same_keys his_IDI pub'"
    using 4 keepsD [OF keeps_keys_hexdot, of his_IDI lib]
    by (auto simp: hello_reference_def bindR_eq_Inr_conv split: prod.splits sum.splits)
  obtain r1 s1 where 5: "add_peer_append_pubkey lib ref pub' s = (r1, s1)" by force
  have "m_peer s' = m_peer s1"
    using run 1 2 3 4 5 add_tunnel_keeps_peers [of lib his_IDI s1]
    by (auto simp: hello_body_def andThen_def split: sum.splits)
  then have "keyed_peer lib ref pub' s hip p"
    using add_peer_append_pubkey_effect [OF wf 5] p new by auto
  then show ?thesis using 1 2 3 keys by (auto simp: keyed_peer_def same_keys_def)
qed

lemma add_peer_append_pubkey_adds:
  assumes "map_sorted (m_peer s)" and "haship_addr ref \<notin> m_peer_black_list s"
    and h: "c_haship_addr_by_hash_of_pubkey lib pub = (Inr (haship_addr ref), pub')"
  shows "\<exists>p. find_key (haship_addr ref) (m_peer (snd (add_peer_append_pubkey lib ref pub s))) = Some p
    \<and> m_pubkey p = Some pub'"
proof (cases "find_key (haship_addr ref) (m_peer s)")
  case None
  obtain q w where "c_peering_new ref (m_world s) = (Inr q, w)" using c_peering_new_run by blast
  then show ?thesis
    using None h assms(1,2) smap.find_emplace [OF assms(1)]
    by (simp add: add_peer_append_pubkey_def append_new_peer_def Let_def andThen_def on_world_def set_pubkey_def)
next
  case (Some q)
  obtain r1 q' w where q': "update_existing_peer ref pub' (q, m_world s) = (r1, (q', w))" by (metis prod.collapse)
  then have "m_pubkey q' = Some pub'"
    by (auto simp: update_existing_peer_def update_last_ping_time_def andThen_def on_snd_def steady_now_def
        Let_def set_pubkey_def set_pip_def split: sum.splits if_splits)
  then show ?thesis
    using Some h q' by (simp add: add_peer_append_pubkey_def Let_def andThen_def on_peer_def smap.find_modify split: sum.split)
qed


lemma public_hi_peers:
  assumes "fst (parse_hello (parser_of_buffer (drop 2 buf))) = Inr hello" and "length buf \<ge> 2"
  shows "m_peer (snd (handle_public_hi lib host pip buf s)) = m_peer (snd (hello_body lib host pip hello s))"
  using assms by (simp add: handle_public_hi_def andThen_def split: prod.split sum.split)

lemma public_hi_no_hello:
  assumes "fst (parse_hello (parser_of_buffer (drop 2 buf))) = Inl e \<or> \<not> length buf \<ge> 2"
  shows "snd (handle_public_hi lib host pip buf s) = s"
  using assms by (auto simp: handle_public_hi_def andThen_def)

lemma public_hi_effect:
  assumes wf: "node_wf lib s" and run: "handle_public_hi lib host pip buf s = (r, s')"
    and p: "find_key hip (m_peer s') = Some p"
    and new: "map_option m_pubkey (find_key hip (m_peer s)) \<noteq> Some (m_pubkey p)"
  shows "\<exists>IDC IDI sig his_IDI ms key. fst (parse_hello (parser_of_buffer (drop 2 buf))) = Inr (IDC, IDI, sig)
    \<and> load_pubkey (m_node_ipv6_prefix s) IDI = Inr his_IDI \<and> load_signature sig = Inr ms
    \<and> multi_sign_verify lib ms IDC his_IDI = Inr ()
    \<and> m_pubkey p = Some key \<and> same_keys his_IDI key \<and> pub_has_address lib key hip \<and> hip \<notin> m_peer_black_list s"
proof (cases "fst (parse_hello (parser_of_buffer (drop 2 buf)))")
  case (Inl e)
  then have "s' = s" using public_hi_no_hello [of buf e lib host pip s] run by simp
  then show ?thesis using p new by simp
next
  case (Inr hello)
  obtain IDC IDI sig where h: "hello = (IDC, IDI, sig)" by (cases hello) auto
  have "length buf \<ge> 2" using run p new public_hi_no_hello [of buf _ lib host pip s] by fastforce
  then have same: "m_peer s' = m_peer (snd (hello_body lib host pip hello s))"
    using public_hi_peers [OF Inr, of lib host pip s] run by simp
  obtain r0 s0 where body: "hello_body lib host pip (IDC, IDI, sig) s = (r0, s0)" by force
  from hello_body_effect [OF wf body _ new] show ?thesis using same body h p Inr by auto
qed

section \<open>A greeting from one node to another\<close>

definition hello_octets :: "bytes \<Rightarrow> bytes \<Rightarrow> bytes \<Rightarrow> bytes" where
  "hello_octets IDC IDI sig = varstring_octets IDC @ varstring_octets IDI @ varstring_octets sig"

definition sane :: "bytes \<Rightarrow> bool" where
  "sane bs \<longleftrightarrow> length bs \<le> SANE_MAX_SIZE_FOR_STRING"

lemma hello_data_eq:
  assumes "get_serialize_bin_pubkey (m_my_IDC s) = Inr IDC" and "serialize_bin push_varstring (m_my_IDI_pub s) = Inr IDI"
    and "multisign_serialize_bin (m_IDI_IDC_sig s) = Inr sig" and "sane IDC" "sane IDI" "sane sig"
  shows "hello_data s = Inr (hello_octets IDC IDI sig)"
proof -
  have "fits_size_t IDC" "fits_size_t IDI" "fits_size_t sig"
    using assms by (simp_all add: sane_def fits_size_t_def SANE_MAX_SIZE_FOR_STRING_def)
  then have "writes (andThen (push_varstring IDC) (\<lambda>_. andThen (push_varstring IDI) (\<lambda>_. push_varstring sig)))
      (hello_octets IDC IDI sig)"
    unfolding hello_octets_def by (intro codec_intros)
  then show ?thesis using assms by (simp add: hello_data_def generated_writes)
qed

lemma parse_hello_octets:
  assumes "sane IDC" "sane IDI" "sane sig"
  shows "fst (parse_hello (parser_of_buffer (hello_octets IDC IDI sig))) = Inr (IDC, IDI, sig)"
proof -
  have "reads parse_hello (varstring_octets IDC @ varstring_octets IDI @ varstring_octets sig @ []) (IDC, IDI, sig)"
    unfolding parse_hello_def using assms
    by (intro reads_andThen [OF reads_pop_varstring] reads_return) (simp_all add: sane_def)
  from readsD [OF this, of "[]" "[]"] show ?thesis
    by (simp add: hello_octets_def parser_of_buffer_at)
qed

lemma load_pubkey_serialized:
  fixes mk :: c_multikeys_pub
  assumes "pubkeys.keylists_ok (m_cryptolists_general mk)" and "m_crypto_use mk = e_crypto_use_open"
    and "serialize_bin push_varstring mk = Inr bs"
  shows "load_pubkey prefix bs = Inr (c_multikeys_pub_init\<lparr>m_cryptolists_general := m_cryptolists_general mk, m_ipv6_prefix := prefix\<rparr>)"
proof -
  let ?ls = "m_cryptolists_general mk"
  have len: "length ?ls = 32" using assms(1) by (simp add: pubkeys.keylists_ok_def)
  have "map (\<lambda>ix. if ?ls ! ix \<noteq> [] then ?ls ! ix else m_cryptolists_general c_multikeys_pub_init ! ix) [0..<32] = ?ls"
    using len by (intro nth_equalityI) (simp_all add: c_multikeys_pub_init_def)
  then have "load_from_bin pop_varstring bs c_multikeys_pub_init
      = (Inr (), c_multikeys_pub_init\<lparr>m_cryptolists_general := ?ls, m_hash_cached := []\<rparr>)"
    using pubkeys.serialize_bin_eq [OF assms(1)] pubkeys.load_from_bin_eq [OF assms(1), of c_multikeys_pub_init] assms(2,3)
    by (simp add: c_multikeys_pub_init_def)
  then show ?thesis by (simp add: load_pubkey_def set_ipv6_prefix_def c_multikeys_pub_init_def)
qed

lemma keylists_known: "pubkeys.keylists_ok ls \<Longrightarrow> systems_known ls"
  by (auto simp: pubkeys.keylists_ok_def systems_known_def)


definition received_identity :: "bytes \<Rightarrow> c_multikeys_pub \<Rightarrow> c_multikeys_pub" where
  \<comment> \<open>the keys of \<open>mk\<close> as a node with this prefix loads them\<close>
  "received_identity prefix mk = c_multikeys_pub_init\<lparr>m_cryptolists_general := m_cryptolists_general mk, m_ipv6_prefix := prefix\<rparr>"

definition two_system_signature :: "c_multisign \<Rightarrow> bool" where
  \<comment> \<open>a signature that the serialised form carries: Ed25519 and NTRU only\<close>
  "two_system_signature ms \<longleftrightarrow> (\<exists>ed nt. m_cryptolists_general ms = (replicate 32 [])[6 := ed, 11 := nt]
     \<and> length ed < 2 ^ 63 \<and> length nt < 2 ^ 63 \<and> list_all sane ed \<and> list_all sane nt)"

lemma load_signature_serialized:
  assumes "two_system_signature ms" and "multisign_serialize_bin ms = Inr bs"
  shows "\<exists>ms'. load_signature bs = Inr ms' \<and> m_cryptolists_general ms' = m_cryptolists_general ms"
proof -
  obtain ed nt where ls: "m_cryptolists_general ms = (replicate 32 [])[6 := ed, 11 := nt]"
      "length ed < 2 ^ 63" "length nt < 2 ^ 63" "list_all sane ed" "list_all sane nt"
    using assms(1) unfolding two_system_signature_def by blast
  have "list_all (\<lambda>x. length x \<le> SANE_MAX_SIZE_FOR_STRING) xs" if "xs = ed \<or> xs = nt" for xs
    using that ls(4,5) by (auto simp: sane_def list_all_def)
  then have "\<exists>bs. multisign_serialize_bin ms = Inr bs
    \<and> multisign_load_from_bin bs c_multisign_init = (Inr (), c_multisign_init\<lparr>m_cryptolists_general :=
        (replicate 32 [])[6 := m_cryptolists_general ms ! 6, 11 := m_cryptolists_general ms ! 11]\<rparr>)"
    using ls(1-3) by (intro multisign_bin_back) auto
  then show ?thesis using assms(2) ls(1) by (auto simp: load_signature_def)
qed

lemma greeting_accepted:
  assumes host: "v6_text_laws host" and hash: "hash_sized lib" and wf: "node_wf lib s"
    and keys: "pubkeys.keylists_ok (m_cryptolists_general (m_my_IDI_pub sa))" "m_crypto_use (m_my_IDI_pub sa) = e_crypto_use_open"
    and IDC: "get_serialize_bin_pubkey (m_my_IDC sa) = Inr IDC" "sane IDC"
    and IDI: "serialize_bin push_varstring (m_my_IDI_pub sa) = Inr IDI" "sane IDI"
    and sig: "two_system_signature (m_IDI_IDC_sig sa)" "multisign_serialize_bin (m_IDI_IDC_sig sa) = Inr sig" "sane sig"
    and verify: "multi_sign_verify lib (m_IDI_IDC_sig sa) IDC (m_my_IDI_pub sa) = Inr ()"
    and prefix: "string_as_bin_of_hex (m_node_ipv6_prefix s) = Inr prefix" "length prefix \<le> 16"
    and hip: "pub_has_address lib (received_identity (m_node_ipv6_prefix s) (m_my_IDI_pub sa)) hip" "\<not> peer_on_black_list hip s"
  shows "\<exists>data p key. hello_data sa = Inr data
    \<and> find_key hip (m_peer (snd (handle_public_hi lib host pip ([ver, cmd] @ data) s))) = Some p
    \<and> m_pubkey p = Some key \<and> same_keys (m_my_IDI_pub sa) key"
proof -
  let ?pub = "received_identity (m_node_ipv6_prefix s) (m_my_IDI_pub sa)"
  let ?hello = "hello_octets IDC IDI sig" and ?text = "\<lambda>h. hexdot_loop 0 (length h) h"
  have data: "hello_data sa = Inr ?hello" using IDC IDI sig by (intro hello_data_eq)
  have parse: "fst (parse_hello (parser_of_buffer (drop 2 ([ver, cmd] @ ?hello)))) = Inr (IDC, IDI, sig)"
    using parse_hello_octets IDC IDI sig by simp
  have 1: "load_pubkey (m_node_ipv6_prefix s) IDI = Inr ?pub"
    unfolding received_identity_def by (rule load_pubkey_serialized [OF keys IDI(1)])
  obtain ms where 2: "load_signature sig = Inr ms" "m_cryptolists_general ms = m_cryptolists_general (m_IDI_IDC_sig sa)"
    using load_signature_serialized [OF sig(1,2)] by blast
  have len: "length (m_cryptolists_general (m_IDI_IDC_sig sa)) = 32" "length (m_cryptolists_general (m_my_IDI_pub sa)) = 32"
    using sig(1) keys(1) by (auto simp: two_system_signature_def pubkeys.keylists_ok_def)
  have 3: "multi_sign_verify lib ms IDC ?pub = Inr ()"
    using verify multi_sign_verify_iff [OF len, of lib IDC] multi_sign_verify_iff [of ms ?pub lib IDC] len 2(2)
    by (simp add: received_identity_def)
  obtain h hex pub' where form: "length h = 16" "string_as_hex_of_bin h = Inr hex"
      "get_ipv6_string_hexdot lib ?pub = (Inr (?text hex), pub')" "c_haship_addr_by_hash_of_pubkey lib ?pub = (Inr h, pub')"
    using address_forms [OF hash, of ?pub prefix] keylists_known [OF keys(1)] prefix
    by (auto simp: received_identity_def c_multikeys_pub_init_def)
  have h: "h = hip" using hip(1) form(4) by (simp add: pub_has_address_def)
  let ?ref = "\<lparr>peering_addr = pip, haship_addr = hip\<rparr>"
  have 4: "hello_reference lib host pip ?pub = Inr (?ref, pub')"
    using form by_addr_dot_hexdot [OF host form(1,2)] by (simp add: hello_reference_def t_peering_reference_of_addr_def h)
  obtain pub'' where again: "c_haship_addr_by_hash_of_pubkey lib pub' = (Inr hip, pub'')"
    using by_hash_again(1) [OF form(4)] h by (cases "c_haship_addr_by_hash_of_pubkey lib pub'") (auto simp: pub_has_address_def)
  have sorted: "map_sorted (m_peer s)" using wf by (simp add: node_wf_def peers_wf_def)
  obtain p where p: "find_key hip (m_peer (snd (add_peer_append_pubkey lib ?ref pub' s))) = Some p" "m_pubkey p = Some pub''"
    using add_peer_append_pubkey_adds [OF sorted, of ?ref lib pub' pub''] again hip(2) by (auto simp: peer_on_black_list_def)
  have "m_peer (snd (hello_body lib host pip (IDC, IDI, sig) s)) = m_peer (snd (add_peer_append_pubkey lib ?ref pub' s))"
    using 1 2 3 4 add_tunnel_keeps_peers [of lib ?pub]
    by (simp add: hello_body_def andThen_def split: prod.split sum.split)
  then have "m_peer (snd (handle_public_hi lib host pip ([ver, cmd] @ ?hello) s))
      = m_peer (snd (add_peer_append_pubkey lib ?ref pub' s))"
    using public_hi_peers [OF parse, of lib host pip s] by simp
  moreover have "same_keys (m_my_IDI_pub sa) pub''"
    using keepsD [OF keeps_keys_by_hash, of ?pub lib] keepsD [OF keeps_keys_by_hash, of pub' lib] form(4) again
    by (simp add: same_keys_def received_identity_def)
  ultimately show ?thesis using data p by auto
qed

section \<open>Properties\<close>

text \<open>
  C4: whoever sends a greeting, and whatever it holds: a peer that is new, or has another key, after
  it was handled, has the identity of the greeting, whose signature of the greeting's other key
  was verified; the address of the peer is the address of that identity, and it is not on the
  black list.
\<close>

theorem greeting_authenticated:
  assumes "v6_text_laws host" and "node_reachable lib host s"
    and "handle_public_hi lib host pip buf s = (r, s')" and "find_key hip (m_peer s') = Some p"
    and "map_option m_pubkey (find_key hip (m_peer s)) \<noteq> Some (m_pubkey p)"
  shows "\<exists>IDC IDI sig his_IDI ms key. fst (parse_hello (parser_of_buffer (drop 2 buf))) = Inr (IDC, IDI, sig)
    \<and> load_pubkey (m_node_ipv6_prefix s) IDI = Inr his_IDI \<and> load_signature sig = Inr ms
    \<and> multi_sign_verify lib ms IDC his_IDI = Inr ()
    \<and> m_pubkey p = Some key \<and> m_cryptolists_general key = m_cryptolists_general his_IDI
    \<and> fst (c_haship_addr_by_hash_of_pubkey lib key) = Inr hip \<and> \<not> peer_on_black_list hip s"
  using public_hi_effect [OF node_reachable_wf [OF assms(1,2)] assms(3-5)]
  by (auto simp: same_keys_def pub_has_address_def peer_on_black_list_def)

definition example_greeter :: "bytes \<Rightarrow> (bytes \<times> nat, bytes \<times> nat) c_tunserver" where
  \<comment> \<open>a node with the identity of \<open>example_sign_pair\<close>, which signed \<open>IDC\<close>\<close>
  "example_greeter IDC = (c_tunserver_new example_world 9042 60)\<lparr>m_my_IDI_pub := m_pub example_sign_pair,
     m_IDI_IDC_sig := c_multisign_init\<lparr>m_cryptolists_general := (replicate 32 [])[6 := [7 # IDC, 8 # IDC], 11 := []]\<rparr>\<rparr>"

lemma filter_one: "i < n \<Longrightarrow> filter (\<lambda>ix. (replicate n [])[i := x] ! ix \<noteq> []) [0..<n] = (if x = [] then [] else [i])"
  using upt_split_at [of 0 i n] by (auto simp: nth_list_update filter_empty_conv)

lemma uvarint_octets_short: "length (uvarint_octets v) \<le> 9"
  using length_uvarint_octets [of v] by auto

lemma length_example_IDC: "length (pubkeys.gmk_octets u (m_cryptolists_general c_multikeys_pub_init)) < 100"
  using uvarint_octets_short [of 0]
  by (simp add: filter_one [of 0 32 "[]", simplified] c_multikeys_pub_init_def pubkeys.gmk_octets_def
      pubkeys.keymap_octets_def used_types_def GMK_def)

lemma length_example_IDI: "length (pubkeys.gmk_octets u (m_cryptolists_general (m_pub example_sign_pair))) < 100"
  by (simp add: example_sign_pair_def pubkeys.gmk_octets_def pubkeys.keymap_octets_def pubkeys.system_octets_def GMK_def
      filter_one [of 6 32 "[[7], [8]]"] t_crypto_system_type_to_ID_def uvarint_octets_def vector_octets_def
      varstring_octets_def used_types_def)

lemma example_identity_ok: "pubkeys.keylists_ok (m_cryptolists_general (m_pub example_sign_pair))"
  unfolding pubkeys.keylists_ok_def
  by (auto simp: example_sign_pair_def nth_list_update t_crypto_system_type_to_ID_def fits_size_t_def
      SANE_MAX_SIZE_FOR_STRING_def)

lemma example_greeter_sends:
  "\<exists>IDC IDI sig. get_serialize_bin_pubkey (m_my_IDC (example_greeter IDC)) = Inr IDC \<and> sane IDC
    \<and> serialize_bin push_varstring (m_my_IDI_pub (example_greeter IDC)) = Inr IDI \<and> sane IDI
    \<and> two_system_signature (m_IDI_IDC_sig (example_greeter IDC))
    \<and> multisign_serialize_bin (m_IDI_IDC_sig (example_greeter IDC)) = Inr sig \<and> sane sig
    \<and> multi_sign_verify example_lib (m_IDI_IDC_sig (example_greeter IDC)) IDC (m_my_IDI_pub (example_greeter IDC)) = Inr ()"
proof -
  let ?IDC = "pubkeys.gmk_octets e_crypto_use_open (m_cryptolists_general c_multikeys_pub_init)"
  let ?IDI = "pubkeys.gmk_octets e_crypto_use_open (m_cryptolists_general (m_pub example_sign_pair))"
  let ?g = "example_greeter ?IDC" and ?ed = "[7 # ?IDC, 8 # ?IDC]"
  have init_ok: "pubkeys.keylists_ok (m_cryptolists_general c_multikeys_pub_init)"
    by (simp add: pubkeys.keylists_ok_def c_multikeys_pub_init_def)
  have IDC: "get_serialize_bin_pubkey (m_my_IDC ?g) = Inr ?IDC"
    using pubkeys.serialize_bin_eq [OF init_ok]
    by (simp add: get_serialize_bin_pubkey_def example_greeter_def c_tunserver_new_def c_multikeys_PAIR_init_def
        c_multikeys_pub_init_def)
  have IDI: "serialize_bin push_varstring (m_my_IDI_pub ?g) = Inr ?IDI"
    using pubkeys.serialize_bin_eq [OF example_identity_ok]
    by (simp add: example_greeter_def example_sign_pair_def c_multikeys_pub_init_def)
  have lists: "m_cryptolists_general (m_IDI_IDC_sig ?g) = (replicate 32 [])[6 := ?ed, 11 := []]"
    by (simp add: example_greeter_def)
  have sane: "sane ?IDC" "sane ?IDI" "list_all sane ?ed"
    using length_example_IDC [of e_crypto_use_open] length_example_IDI [of e_crypto_use_open] by (simp_all add: sane_def SANE_MAX_SIZE_FOR_STRING_def)
  then have two: "two_system_signature (m_IDI_IDC_sig ?g)"
    unfolding two_system_signature_def lists by (intro exI [of _ ?ed] exI [of _ "[]"]) simp
  have "get_signature_vec (m_IDI_IDC_sig ?g) s = Inr (m_cryptolists_general (m_IDI_IDC_sig ?g) ! enum_value s)"
    if "enum_value s < 32" for s
    using that lists by (simp add: get_signature_vec_eq)
  moreover have fits: "fits_size_t ?ed" "fits_size_t ([] :: bytes list)" by (simp_all add: fits_size_t_def)
  then have "writes (push_vector_string xs) (vector_octets varstring_octets xs)" if "xs = ?ed \<or> xs = []" for xs
    unfolding push_vector_string_eq using that sane(3)
    by (intro str.writes_push_vector_object) (auto simp: sane_def)
  then have "writes (andThen (push_byte_u 6) (\<lambda>_. andThen (push_vector_string ?ed) (\<lambda>_.
      andThen (push_byte_u 11) (\<lambda>_. push_vector_string []))))
      ([6] @ vector_octets varstring_octets ?ed @ [11] @ vector_octets varstring_octets [])"
    by (intro writes_andThen writes_push_byte_u) simp_all
  ultimately have sig: "multisign_serialize_bin (m_IDI_IDC_sig ?g)
      = Inr ([6] @ vector_octets varstring_octets ?ed @ [11] @ vector_octets varstring_octets [])"
    using lists by (simp add: multisign_serialize_bin_def generated_writes)
  have "length (varstring_octets x) \<le> 9 + length x" for x
    using uvarint_octets_short by (simp add: varstring_octets_def)
  from this [of "7 # ?IDC"] this [of "8 # ?IDC"]
  have "sane ([6] @ vector_octets varstring_octets ?ed @ [11] @ vector_octets varstring_octets [])"
    using length_example_IDC [of e_crypto_use_open] uvarint_octets_short [of 2] uvarint_octets_short [of 0]
    by (simp add: vector_octets_def sane_def SANE_MAX_SIZE_FOR_STRING_def)
  moreover have "multi_sign_verify example_lib (m_IDI_IDC_sig ?g) ?IDC (m_my_IDI_pub ?g) = Inr ()"
    by (subst multi_sign_verify_iff) (auto simp: example_greeter_def example_sign_pair_def nth_list_update)
  ultimately show ?thesis using IDC IDI sig two sane by (intro exI [of _ ?IDC] exI [of _ ?IDI] exI) auto
qed


lemma example_greeting_ready:
  "\<exists>IDC IDI sig hip. get_serialize_bin_pubkey (m_my_IDC (example_greeter IDC)) = Inr IDC \<and> sane IDC
    \<and> serialize_bin push_varstring (m_my_IDI_pub (example_greeter IDC)) = Inr IDI \<and> sane IDI
    \<and> two_system_signature (m_IDI_IDC_sig (example_greeter IDC))
    \<and> multisign_serialize_bin (m_IDI_IDC_sig (example_greeter IDC)) = Inr sig \<and> sane sig
    \<and> multi_sign_verify example_lib (m_IDI_IDC_sig (example_greeter IDC)) IDC (m_my_IDI_pub (example_greeter IDC)) = Inr ()
    \<and> pubkeys.keylists_ok (m_cryptolists_general (m_my_IDI_pub (example_greeter IDC)))
    \<and> m_crypto_use (m_my_IDI_pub (example_greeter IDC)) = e_crypto_use_open
    \<and> pub_has_address example_lib (received_identity [] (m_my_IDI_pub (example_greeter IDC))) hip"
proof -
  let ?pub = "received_identity [] (m_pub example_sign_pair)"
  have "systems_known (m_cryptolists_general ?pub)"
    using keylists_known [OF example_identity_ok] by (simp add: received_identity_def)
  moreover have "string_as_bin_of_hex [] = Inr []" by (simp add: string_as_bin_of_hex_def)
  ultimately obtain hip where "pub_has_address example_lib ?pub hip"
    using address_forms [OF hash_sized_example, of ?pub "[]"]
    by (auto simp: received_identity_def c_multikeys_pub_init_def pub_has_address_def)
  moreover have "m_my_IDI_pub (example_greeter IDC) = m_pub example_sign_pair" for IDC by (simp add: example_greeter_def)
  moreover have "m_crypto_use (m_pub example_sign_pair) = e_crypto_use_open"
    by (simp add: example_sign_pair_def c_multikeys_pub_init_def)
  ultimately show ?thesis using example_greeter_sends example_identity_ok by simp blast
qed

lemma example_node_fresh:
  "m_node_ipv6_prefix (c_tunserver_new example_world 9042 60) = []" "\<not> peer_on_black_list hip (c_tunserver_new example_world 9042 60)"
  "m_peer (c_tunserver_new example_world 9042 60) = []"
  by (simp_all add: c_tunserver_new_def peer_on_black_list_def)

theorem greeting_authenticated_witness:
  "\<exists>buf hip IDC IDI sig his_IDI ms. fst (parse_hello (parser_of_buffer (drop 2 buf))) = Inr (IDC, IDI, sig)
    \<and> load_pubkey [] IDI = Inr his_IDI \<and> load_signature sig = Inr ms \<and> multi_sign_verify example_lib ms IDC his_IDI = Inr ()
    \<and> find_key hip (m_peer (snd (handle_public_hi example_lib example_host (example_endpoint [127, 0, 0, 1]) buf
        (c_tunserver_new example_world 9042 60 :: (bytes \<times> nat, bytes \<times> nat) c_tunserver)))) \<noteq> None"
proof -
  let ?s = "c_tunserver_new example_world 9042 60 :: (bytes \<times> nat, bytes \<times> nat) c_tunserver"
  let ?hi = "handle_public_hi example_lib example_host (example_endpoint [127, 0, 0, 1])"
  have reach: "node_reachable example_lib example_host ?s" by (rule node_reachable.start)
  obtain IDC IDI sig hip where g: "get_serialize_bin_pubkey (m_my_IDC (example_greeter IDC)) = Inr IDC" "sane IDC"
    "serialize_bin push_varstring (m_my_IDI_pub (example_greeter IDC)) = Inr IDI" "sane IDI"
    "two_system_signature (m_IDI_IDC_sig (example_greeter IDC))"
    "multisign_serialize_bin (m_IDI_IDC_sig (example_greeter IDC)) = Inr sig" "sane sig"
    "multi_sign_verify example_lib (m_IDI_IDC_sig (example_greeter IDC)) IDC (m_my_IDI_pub (example_greeter IDC)) = Inr ()"
    "pubkeys.keylists_ok (m_cryptolists_general (m_my_IDI_pub (example_greeter IDC)))"
    "m_crypto_use (m_my_IDI_pub (example_greeter IDC)) = e_crypto_use_open"
    "pub_has_address example_lib (received_identity [] (m_my_IDI_pub (example_greeter IDC))) hip"
    using example_greeting_ready by blast
  have fresh: "string_as_bin_of_hex (m_node_ipv6_prefix ?s) = Inr []" "length ([] :: bytes) \<le> 16"
      "pub_has_address example_lib (received_identity (m_node_ipv6_prefix ?s) (m_my_IDI_pub (example_greeter IDC))) hip"
      "\<not> peer_on_black_list hip ?s"
    using g(11) by (simp_all add: example_node_fresh string_as_bin_of_hex_def)
  obtain data p where p: "find_key hip (m_peer (snd (?hi ([1, 3] @ data) ?s))) = Some p"
    using greeting_accepted [OF v6_text_laws_example hash_sized_example node_wf_new g(9,10,1,2,3,4,5,6,7,8) fresh,
        where pip = "example_endpoint [127, 0, 0, 1]" and ver = 1 and cmd = 3] by blast
  obtain r s' where run: "?hi ([1, 3] @ data) ?s = (r, s')" by force
  have "map_option m_pubkey (find_key hip (m_peer ?s)) \<noteq> Some (m_pubkey p)" by (simp add: example_node_fresh)
  from greeting_authenticated [OF v6_text_laws_example reach run _ this] p run show ?thesis
    by (fastforce simp: example_node_fresh)
qed

text \<open>
  C5: the greeting one node sends is accepted by another: when the sender's identity signed his other
  key, the receiver, in any state it can reach, has the sender among its peers after handling the
  greeting, under the address of the sender's identity and with the sender's keys, unless that
  address is on its black list. Serialising, signing, parsing, verifying and addressing agree at
  both ends.
\<close>

theorem greeting_between_nodes:
  assumes "v6_text_laws host" and "\<And>x. length (crypto_generichash lib x) = 64" and "node_reachable lib host s"
    and "pubkeys.keylists_ok (m_cryptolists_general (m_my_IDI_pub sa))" "m_crypto_use (m_my_IDI_pub sa) = e_crypto_use_open"
    and "get_serialize_bin_pubkey (m_my_IDC sa) = Inr IDC" "sane IDC"
    and "serialize_bin push_varstring (m_my_IDI_pub sa) = Inr IDI" "sane IDI"
    and "two_system_signature (m_IDI_IDC_sig sa)" "multisign_serialize_bin (m_IDI_IDC_sig sa) = Inr sig" "sane sig"
    and "multi_sign_verify lib (m_IDI_IDC_sig sa) IDC (m_my_IDI_pub sa) = Inr ()"
    and "string_as_bin_of_hex (m_node_ipv6_prefix s) = Inr prefix" "length prefix \<le> 16"
    and "pub_has_address lib (received_identity (m_node_ipv6_prefix s) (m_my_IDI_pub sa)) hip" "\<not> peer_on_black_list hip s"
  shows "\<exists>data p key. hello_data sa = Inr data
    \<and> find_key hip (m_peer (snd (handle_public_hi lib host pip ([ver, cmd] @ data) s))) = Some p
    \<and> m_pubkey p = Some key \<and> m_cryptolists_general key = m_cryptolists_general (m_my_IDI_pub sa)"
proof -
  have "hash_sized lib" using assms(2) by (simp add: hash_sized_def)
  from greeting_accepted [OF assms(1) this node_reachable_wf [OF assms(1,3)] assms(4-17)] show ?thesis
    by (simp add: same_keys_def)
qed

theorem greeting_between_nodes_witness:
  "\<exists>IDC data hip p key. hello_data (example_greeter IDC) = Inr data
    \<and> find_key hip (m_peer (snd (handle_public_hi example_lib example_host (example_endpoint [127, 0, 0, 1]) ([1, 3] @ data)
        (c_tunserver_new example_world 9042 60)))) = Some p
    \<and> m_pubkey p = Some key \<and> m_cryptolists_general key = (replicate 32 [])[6 := [[7], [8]]]"
proof -
  let ?s = "c_tunserver_new example_world 9042 60 :: (bytes \<times> nat, bytes \<times> nat) c_tunserver"
  have reach: "node_reachable example_lib example_host ?s" by (rule node_reachable.start)
  have hash: "\<And>x. length (crypto_generichash example_lib x) = 64" using hash_sized_example by (simp add: hash_sized_def)
  obtain IDC IDI sig hip where g: "get_serialize_bin_pubkey (m_my_IDC (example_greeter IDC)) = Inr IDC" "sane IDC"
    "serialize_bin push_varstring (m_my_IDI_pub (example_greeter IDC)) = Inr IDI" "sane IDI"
    "two_system_signature (m_IDI_IDC_sig (example_greeter IDC))"
    "multisign_serialize_bin (m_IDI_IDC_sig (example_greeter IDC)) = Inr sig" "sane sig"
    "multi_sign_verify example_lib (m_IDI_IDC_sig (example_greeter IDC)) IDC (m_my_IDI_pub (example_greeter IDC)) = Inr ()"
    "pubkeys.keylists_ok (m_cryptolists_general (m_my_IDI_pub (example_greeter IDC)))"
    "m_crypto_use (m_my_IDI_pub (example_greeter IDC)) = e_crypto_use_open"
    "pub_has_address example_lib (received_identity [] (m_my_IDI_pub (example_greeter IDC))) hip"
    using example_greeting_ready by blast
  have fresh: "string_as_bin_of_hex (m_node_ipv6_prefix ?s) = Inr []" "length ([] :: bytes) \<le> 16"
      "pub_has_address example_lib (received_identity (m_node_ipv6_prefix ?s) (m_my_IDI_pub (example_greeter IDC))) hip"
      "\<not> peer_on_black_list hip ?s"
    using g(11) by (simp_all add: example_node_fresh string_as_bin_of_hex_def)
  have "m_cryptolists_general (m_my_IDI_pub (example_greeter IDC)) = (replicate 32 [])[6 := [[7], [8]]]"
    by (simp add: example_greeter_def example_sign_pair_def)
  then have "\<exists>data p key. hello_data (example_greeter IDC) = Inr data
    \<and> find_key hip (m_peer (snd (handle_public_hi example_lib example_host (example_endpoint [127, 0, 0, 1]) ([1, 3] @ data) ?s))) = Some p
    \<and> m_pubkey p = Some key \<and> m_cryptolists_general key = (replicate 32 [])[6 := [[7], [8]]]"
    using greeting_between_nodes [OF v6_text_laws_example hash reach g(9,10,1-8) fresh,
        where pip = "example_endpoint [127, 0, 0, 1]" and ver = 1 and cmd = 3] by simp
  then show ?thesis by blast
qed

end
