(* ===== verification/Tun_Delivery.thy ===== *)
theory Tun_Delivery
  imports Forwarding
begin

text \<open>
  Packets between the TUN device and the tunnels: what a node writes to its device, and that a
  packet taken from the device of one node comes out of the device of the other unchanged.
\<close>

section \<open>The TUN device\<close>

lemma source_check_Inr:
  assumes "check_packet_source_address src packet = Inr True"
  shows "length packet \<ge> 40 \<and> take 16 (drop 8 packet) = src"
proof -
  have len: "length packet \<ge> 40" "length src = 16"
    using assms by (auto simp: check_packet_source_address_def check_packet_address_def Let_def
        header_position_of_src_def split: if_splits)
  then have "src ! i = take 16 (drop 8 packet) ! i" if "i < 16" for i
    using assms that by (auto simp: check_packet_source_address_def check_packet_address_def Let_def
        header_position_of_src_def list_all_iff split: if_splits)
  then have "take 16 (drop 8 packet) = src" using len by (intro nth_equalityI) auto
  then show ?thesis using len by simp
qed

definition tun_frame_ok :: "('bx, 'ux) c_tunserver \<Rightarrow> c_haship_addr \<Rightarrow> c_haship_addr \<Rightarrow> bytes \<Rightarrow> bool" where
  \<comment> \<open>as long as an IPv6 header, with this source and destination, the octet of the next header one that the node supports;
     the version is not looked at\<close>
  "tun_frame_ok s src dst packet \<longleftrightarrow> length packet \<ge> 40 \<and> take 16 (drop 8 packet) = src \<and> take 16 (drop 24 packet) = dst
     \<and> sint (packet ! 6) \<in> set (m_supported_ip_protocols s)"

definition tun_written :: "('bx, 'ux) c_tunserver \<Rightarrow> unit result \<Rightarrow> ('bx, 'ux) c_tunserver \<Rightarrow> bytes \<Rightarrow> bool" where
  \<comment> \<open>the device took as much of the framed packet as it does; short of the whole, the run ends in an exception\<close>
  "tun_written s r s' packet \<longleftrightarrow> (\<exists>n. w_tun_write (m_world s) (tun_header @ packet) = Some n
     \<and> w_tun (m_world s') = w_tun (m_world s) @ [take n (tun_header @ packet)]
     \<and> r = (if n = length (tun_header @ packet) then Inr () else Inl Runtime_error))"

lemma deliver_after_unbox:
  assumes "length dst = 16"
    and run: "deliver_to_tun lib src dst blob nonce s = (r, s')"
  shows "w_tun (m_world s') = w_tun (m_world s)
    \<or> (\<exists>packet. tun_frame_ok s src dst packet \<and> tun_written s r s' packet)"
proof -
  obtain r1 s1 where unbox: "on_tunnel src (unbox_ab lib blob nonce) s = (r1, s1)" by force
  have quiet: "w_tun (m_world s1) = w_tun (m_world s)" "w_tun_write (m_world s1) = w_tun_write (m_world s)" "m_supported_ip_protocols s1 = m_supported_ip_protocols s"
    using unbox by (auto simp: on_tunnel_def split: option.splits prod.splits)
  have stop: ?thesis if "s' = s1" using that quiet by simp
  show ?thesis
  proof (cases "s' = s1")
    case False
    then obtain clear where clear: "r1 = Inr clear"
      using run unbox by (cases r1) (auto simp: deliver_to_tun_def)
    obtain ok where 1: "check_ip_protocol clear s1 = Inr ok"
      using run unbox clear False by (cases "check_ip_protocol clear s1") (auto simp: deliver_to_tun_def)
    then have ok: "ok"
      using run unbox clear False
      by (cases ok; cases "get_ip_protocol_number clear") (auto simp: deliver_to_tun_def)
    obtain packet where 2: "string_insert header_position_of_dst dst clear = Inr packet"
      using run unbox clear False 1 ok
      by (cases "string_insert header_position_of_dst dst clear") (auto simp: deliver_to_tun_def)
    obtain src_ok where 3: "check_packet_source_address src packet = Inr src_ok"
      using run unbox clear False 1 ok 2
      by (cases "check_packet_source_address src packet") (auto simp: deliver_to_tun_def)
    have src_ok: "src_ok"
      using run unbox clear False 1 ok 2 3 by (cases src_ok) (auto simp: deliver_to_tun_def)
    have written: "andThen (on_world (write_to_tun (tun_header @ packet)))
        (\<lambda>n. if n = length (tun_header @ packet) then ret () else raise Runtime_error) s1 = (r, s')"
      using run unbox clear 1 ok 2 3 src_ok by (simp add: deliver_to_tun_def string_insert_def)
    then obtain n where n: "w_tun_write (m_world s1) (tun_header @ packet) = Some n"
      using False by (cases "w_tun_write (m_world s1) (tun_header @ packet)")
        (auto simp: andThen_def on_world_def write_to_tun_def)
    then have "w_tun (m_world s') = w_tun (m_world s) @ [take n (tun_header @ packet)]
        \<and> r = (if n = length (tun_header @ packet) then Inr () else Inl Runtime_error)"
      using written quiet by (auto simp: andThen_def on_world_def write_to_tun_def simp del: take_append split: if_splits)
    then have "tun_written s r s' packet" unfolding tun_written_def using n quiet by (intro exI [of _ n]) (simp del: take_append)
    moreover have "packet = take 24 clear @ dst @ drop 24 clear" "24 \<le> length clear"
      using 2 by (auto simp: string_insert_def header_position_of_dst_def split: if_splits)
    moreover have "length packet \<ge> 40" "take 16 (drop 8 packet) = src"
      using source_check_Inr 3 src_ok by auto
    ultimately have "tun_frame_ok s src dst packet"
      using 1 ok assms(1) quiet(3)
      by (auto simp: tun_frame_ok_def check_ip_protocol_def get_ip_protocol_number_def bindR_eq_Inr_conv vec_at_def
          header_position_of_ip_protocol_type_def nth_append split: if_splits)
    then show ?thesis using \<open>tun_written s r s' packet\<close> by blast
  qed (rule stop)
qed

lemma tunneled_data_writes:
  assumes wf: "node_wf lib s" and run: "handle_tunneled_data lib host sender buf s = (r, s')"
  shows "w_tun (m_world s') = w_tun (m_world s)
    \<or> (\<exists>src packet. find_key src (m_tunnel s) \<noteq> None \<and> tun_frame_ok s src (m_my_hip s) packet \<and> tun_written s r s' packet)"
proof (cases "fst (parse_tunneled_data (parser_of_buffer buf))")
  case (Inl e)
  then show ?thesis using run by (simp add: handle_tunneled_data_def)
next
  case (Inr x)
  obtain src dst ttl nonce blob where x: "x = (src, dst, ttl, nonce, blob)" by (cases x) auto
  have dst: "length dst = 16"
    using Inr x by (auto simp: parse_tunneled_data_def pop_haship_addr_def andThen_def split: prod.splits sum.splits if_splits)
  have route: ?thesis if "andThen (route_tun_data_to_its_destination_top meth data a b reason t n) (\<lambda>_. ret ()) s = (r, s')"
    for meth data a b reason t n
  proof -
    obtain r1 s1 where top: "route_tun_data_to_its_destination_top meth data a b reason t n s = (r1, s1)" by force
    then have "s1 = s'" using that by (cases r1) (auto simp: andThen_def)
    moreover obtain pkts where "sends pkts s s1" using route_top_sends [OF _ _ top, of lib] wf unfolding node_wf_def by blast
    ultimately show ?thesis using world_sendsD(2) [OF sendsD(2)] by blast
  qed
  consider (here) "dst = m_my_hip s" "find_key src (m_tunnel s) \<noteq> None" "deliver_to_tun lib src dst blob nonce s = (r, s')"
    | (routed) meth data a b reason t n where "andThen (route_tun_data_to_its_destination_top meth data a b reason t n) (\<lambda>_. ret ()) s = (r, s')"
    | (dropped) "s' = s"
    using run Inr x by (auto simp: handle_tunneled_data_def split: if_splits)
  then show ?thesis
  proof cases
    case here
    then show ?thesis using deliver_after_unbox [OF dst here(3)] by auto
  next
    case (routed meth data a b reason t n)
    then show ?thesis by (rule route)
  qed simp
qed

section \<open>From device to device\<close>

definition cut_destination :: "bytes \<Rightarrow> bytes" where
  \<comment> \<open>the IPv6 packet behind the header of the device, without its destination address\<close>
  "cut_destination buff = (let packet = drop header_position_of_ipv6 buff
     in take header_position_of_dst packet @ drop (header_position_of_dst + g_haship_addr_size) packet)"

lemma send_own_data_boxes:
  assumes "44 \<le> length buff" and "length buff \<le> 65536"
  shows "send_own_data lib buff src dst =
    andThen (on_tunnel dst (box_ab lib (cut_destination buff))) (\<lambda>(data_encrypted, nonce_used).
    andThen (route_tun_data_to_its_destination_top e_route_method_from_me data_encrypted src dst own_reason 5 nonce_used)
      (\<lambda>_. ret ()))"
proof -
  have "string_erase header_position_of_dst g_haship_addr_size (drop header_position_of_ipv6 buff) = Inr (cut_destination buff)"
    using assms by (simp add: string_erase_def cut_destination_def Let_def header_position_of_dst_def header_position_of_ipv6_def)
  then show ?thesis
    using assms by (simp add: send_own_data_def fun_eq_iff andThen_def header_position_of_ipv6_def)
qed

lemma restored_packet:
  assumes "44 \<le> length buff" and "dst = take 16 (drop 28 buff)"
  shows "string_insert header_position_of_dst dst (cut_destination buff) = Inr (drop 4 buff)"
proof -
  let ?p = "drop 4 buff"
  have "take 24 ?p @ take 16 (drop 24 ?p) @ drop 40 ?p = ?p"
    using append_take_drop_id [of 24 ?p] append_take_drop_id [of 16 "drop 24 ?p"] by simp
  then show ?thesis
    using assms by (simp add: string_insert_def cut_destination_def Let_def header_position_of_dst_def
        header_position_of_ipv6_def g_haship_addr_size_def)
qed

lemma check_source_here:
  assumes "44 \<le> length buff" and "src = take 16 (drop 12 buff)"
  shows "check_packet_source_address src (drop 4 buff) = Inr True"
  using assms
  by (simp add: check_packet_source_address_def check_packet_address_def Let_def header_position_of_src_def list_all_iff)
    arith

lemma deliver_restores:
  assumes "44 \<le> length buff" and "src = take 16 (drop 12 buff)" and "dst = take 16 (drop 28 buff)"
    and "sint (buff ! 10) \<in> set (m_supported_ip_protocols s)"
    and "w_tun_write (m_world s) (tun_header @ drop 4 buff) = Some (length (tun_header @ drop 4 buff))"
    and "on_tunnel src (unbox_ab lib blob nonce) s = (Inr (cut_destination buff), s1)"
  shows "\<exists>s'. deliver_to_tun lib src dst blob nonce s = (Inr (), s')
    \<and> w_tun (m_world s') = w_tun (m_world s) @ [tun_header @ drop 4 buff]"
proof -
  have s1: "w_tun (m_world s1) = w_tun (m_world s)" "w_tun_write (m_world s1) = w_tun_write (m_world s)"
      "m_supported_ip_protocols s1 = m_supported_ip_protocols s"
    using assms(6) by (auto simp: on_tunnel_def split: option.splits prod.splits)
  have "cut_destination buff ! 6 = buff ! 10" "6 < length (cut_destination buff)"
    using assms(1) by (simp_all add: cut_destination_def Let_def header_position_of_dst_def header_position_of_ipv6_def nth_append)
  then have "check_ip_protocol (cut_destination buff) s1 = Inr True"
    using assms(4) s1 by (simp add: check_ip_protocol_def get_ip_protocol_number_def header_position_of_ip_protocol_type_def)
  then show ?thesis
    using assms(5,6) s1 restored_packet [OF assms(1,3)] check_source_here [OF assms(1,2)]
    by (simp add: deliver_to_tun_def string_insert_def [of 0] on_world_def write_to_tun_def)
qed


lemma tun_packet_sent:
  assumes host: "v6_text_laws host" and sorted: "map_sorted (m_peer s)" and offset: "m_tun_header_offset_ipv6 s = 4"
    and buff: "44 \<le> length buff" "length buff \<le> 65536"
    and src: "src = take 16 (drop 12 buff)" and dst: "dst = take 16 (drop 28 buff)" "dst ! 0 = 0xFD"
    and tunnel: "find_key dst (m_tunnel s) = Some ct"
    and box: "fst (box_ab lib (cut_destination buff) (ct, w_rng (m_world s))) = Inr (c, nonce)"
    and small: "length nonce = 24" "length c \<le> SANE_MAX_SIZE_FOR_STRING"
    and peer: "find_key dst (m_peer s) = Some p" "m_peering_addr p = tag_ipv4 a" "sin_family a = AF_INET"
    and up: "\<not> m_disabled (m_world s)"
  shows "\<exists>s'. handle_tun_packet lib host buff s = (Inr (), s')
    \<and> w_sent (m_world s') = w_sent (m_world s) @ [(tag_ipv4 a, tunneled_octets c src dst 5 nonce)]"
proof -
  have len: "length src = 16" "length dst = 16" using buff src dst by simp_all
  have "parse_tun_ip_src_dst host buff 4 = Inr (src, dst)"
    using buff len by_addr_dot_ntop [OF host] src dst
    by (simp add: parse_tun_ip_src_dst_def Let_def header_position_of_src_def header_position_of_dst_def
        header_length_of_src_def header_length_of_dst_def)
  then have h: "handle_tun_packet lib host buff s = send_own_data lib buff src dst s"
    using offset tunnel dst(2) len by (simp add: handle_tun_packet_def addr_is_galaxy_eq)
  obtain ct' n' where "box_ab lib (cut_destination buff) (ct, w_rng (m_world s)) = (Inr (c, nonce), (ct', n'))"
    using box by (metis prod.collapse)
  then obtain s1 where s1: "on_tunnel dst (box_ab lib (cut_destination buff)) s = (Inr (c, nonce), s1)"
      "m_peer s1 = m_peer s" "w_sent (m_world s1) = w_sent (m_world s)" "m_disabled (m_world s1) = m_disabled (m_world s)"
    using tunnel by (simp add: on_tunnel_def)
  obtain s' where s': "route_tun_data_to_its_destination_top e_route_method_from_me c src dst own_reason 5 nonce s1 = (Inr True, s')"
      "sends [(tag_ipv4 a, tunneled_octets c src dst 5 nonce)] s1 s'"
    using route_to_direct_peer [of s1 dst p a, OF _ _ peer(2,3) _ generated_tunneled_data [OF len small]] sorted peer(1) up s1
    by (metis zero_less_numeral)
  then show ?thesis
    using h s1 world_sendsD(1) [OF sendsD(2) [OF s'(2)]] by (simp add: send_own_data_boxes [OF buff])
qed

lemma tunneled_data_delivered:
  assumes sorted: "map_sorted (m_peer s)" and buff: "44 \<le> length buff"
    and src: "src = take 16 (drop 12 buff)" and dst: "m_my_hip s = take 16 (drop 28 buff)"
    and small: "length nonce = 24" "length c \<le> SANE_MAX_SIZE_FOR_STRING"
    and sender: "find_pip pip (m_peer s) = Inr sender"
    and tunnel: "find_key src (m_tunnel s) = Some ct"
    and unbox: "fst (unbox_ab lib c nonce (ct, w_rng (m_world s))) = Inr (cut_destination buff)"
    and protocol: "sint (buff ! 10) \<in> set (m_supported_ip_protocols s)"
    and device: "w_tun_write (m_world s) (tun_header @ drop 4 buff) = Some (length (tun_header @ drop 4 buff))"
  shows "\<exists>s'. handle_udp_packet lib host pip (tunneled_octets c src (m_my_hip s) 5 nonce) s = (Inr (), s')
    \<and> w_tun (m_world s') = w_tun (m_world s) @ [tun_header @ drop 4 buff]"
proof -
  let ?d = "tunneled_octets c src (m_my_hip s) 5 nonce"
  have len: "length src = 16" "length (m_my_hip s) = 16" using buff src dst by simp_all
  obtain sender_hip s1 where rec:
      "recognise_sender e_proto_cmd_tunneled_data pip (length ?d) s = (Inr (Some sender, sender_hip), s1)" "sends [] s s1"
    using recognise_sender_tunneled [OF sorted, of pip "length ?d"] sender by auto
  note quiet = sendsD [OF rec(2)] world_sendsD [OF sendsD(2) [OF rec(2)]]
  obtain ct' n' where "unbox_ab lib c nonce (ct, w_rng (m_world s1)) = (Inr (cut_destination buff), (ct', n'))"
    using unbox quiet by (metis prod.collapse)
  then obtain s2 where "on_tunnel src (unbox_ab lib c nonce) s1 = (Inr (cut_destination buff), s2)"
    using tunnel quiet by (simp add: on_tunnel_def)
  from deliver_restores [OF buff src dst _ _ this]
  obtain s' where "deliver_to_tun lib src (m_my_hip s) c nonce s1 = (Inr (), s')"
      "w_tun (m_world s') = w_tun (m_world s) @ [tun_header @ drop 4 buff]"
    using protocol device quiet by auto
  moreover have "fst (parse_tunneled_data (parser_of_buffer ?d)) = Inr (src, m_my_hip s, 5, nonce, c)"
    by (rule parse_tunneled_octets [OF len small]) simp_all
  ultimately show ?thesis
    using rec(1) tunnel quiet handle_udp_tunneled [OF tunneled_octets_head, of lib host pip c src "m_my_hip s" 5 nonce s]
    by (simp add: handle_tunneled_data_def)
qed

section \<open>Properties\<close>

text \<open>
  C3: an IPv6 packet that one node takes from its TUN device comes out of the TUN device of the
  node with the destination address as it went in, when that node is a direct peer and the two hold
  a tunnel: what the sender cuts out and boxes, the receiver unboxes and restores.
\<close>

theorem packet_device_to_device:
  assumes "v6_text_laws host"
    and "44 \<le> length buff" "length buff \<le> 65536"
    and "src = take 16 (drop 12 buff)" and "dst = take 16 (drop 28 buff)" and "dst ! 0 = 0xFD"
    and "map_sorted (m_peer sA)" and "m_tun_header_offset_ipv6 sA = 4" and "\<not> m_disabled (m_world sA)"
    and "find_key dst (m_peer sA) = Some p" "m_peering_addr p = tag_ipv4 a" "sin_family a = AF_INET"
    and "find_key dst (m_tunnel sA) = Some ctA" and "find_key src (m_tunnel sB) = Some ctB"
    and "fst (box_ab lib (cut_destination buff) (ctA, w_rng (m_world sA))) = Inr (c, nonce)"
    and "length nonce = 24" and "length c \<le> SANE_MAX_SIZE_FOR_STRING"
    and "fst (unbox_ab lib c nonce (ctB, w_rng (m_world sB))) = Inr (cut_destination buff)"
    and "map_sorted (m_peer sB)" and "m_my_hip sB = dst" and "find_pip pip (m_peer sB) = Inr sender"
    and "sint (buff ! 10) \<in> set (m_supported_ip_protocols sB)"
    and "w_tun_write (m_world sB) (tun_header @ drop 4 buff) = Some (length (tun_header @ drop 4 buff))"
  shows "\<exists>datagram sA' sB'. handle_event lib host (Ev_tun buff) sA = (Inr (), sA')
    \<and> w_sent (m_world sA') = w_sent (m_world sA) @ [(tag_ipv4 a, datagram)]
    \<and> handle_event lib host (Ev_udp pip datagram) sB = (Inr (), sB')
    \<and> w_tun (m_world sB') = w_tun (m_world sB) @ [tun_header @ drop 4 buff]"
proof -
  obtain sA' where "handle_tun_packet lib host buff sA = (Inr (), sA')"
      "w_sent (m_world sA') = w_sent (m_world sA) @ [(tag_ipv4 a, tunneled_octets c src dst 5 nonce)]"
    using tun_packet_sent [OF assms(1,7,8,2-6,13,15,16,17,10-12,9)] by blast
  moreover have my: "m_my_hip sB = take 16 (drop 28 buff)" using assms(5,20) by simp
  obtain sB' where "handle_udp_packet lib host pip (tunneled_octets c src dst 5 nonce) sB = (Inr (), sB')"
      "w_tun (m_world sB') = w_tun (m_world sB) @ [tun_header @ drop 4 buff]"
    using tunneled_data_delivered [OF assms(19,2,4) my assms(16,17,21,14,18,22,23), of host] assms(20) by auto
  ultimately show ?thesis by (auto simp: handle_event_def)
qed

definition example_packet_ip6 :: bytes where
  \<comment> \<open>the header of the device, an IPv6 header for UDP and two octets of data\<close>
  "example_packet_ip6 = tun_header @ [0x60, 0, 0, 0, 0, 2, 17, 64] @ example_address 1 @ example_address 2 @ [1, 2]"

definition example_lib24 :: "(bytes \<times> nat, bytes \<times> nat) crypto_lib" where
  \<comment> \<open>\<open>example_lib\<close> with nonces of 24 octets\<close>
  "example_lib24 = example_lib\<lparr>boxer_nonce := (\<lambda>b. replicate 24 (of_nat (snd b)))\<rparr>"

lemma example_lib24 [simp]:
  "boxer_nonce example_lib24 = (\<lambda>b. replicate 24 (of_nat (snd b)))"
  "boxer_box example_lib24 = (\<lambda>(k, n) m. (Inr (of_nat n # m), (k, n + 2)))"
  "unboxer_unbox_nonce example_lib24 = (\<lambda>(k, n) c nonce. (open_example (unat (hd nonce)) c, (k, n)))"
  by (simp_all add: example_lib24_def example_lib_def)

definition example_tunnel :: "(bytes \<times> nat, bytes \<times> nat) c_crypto_tunnel" where
  "example_tunnel = (tunnel_new True)\<lparr>m_stream_crypto_ab :=
     Some ((c_stream_init True)\<lparr>m_boxer := Some ([], 1), m_unboxer := Some ([], 1)\<rparr>)\<rparr>"

lemma example_tunnel_box:
  "fst (box_ab example_lib24 msg (example_tunnel, n)) = Inr (1 # msg, replicate 24 1)"
  "fst (unbox_ab example_lib24 (1 # msg) (replicate 24 1) (example_tunnel, n)) = Inr msg"
  by (simp_all add: box_ab_def unbox_ab_def on_ab_def on_fst_def stream_box_def stream_unbox_nonce_def example_tunnel_def
      open_example_def)

definition example_sender :: "c_peering \<Rightarrow> (bytes \<times> nat, bytes \<times> nat) c_tunserver" where
  "example_sender p = (c_tunserver_new example_world 9042 60)\<lparr>m_peer := [(example_address 2, p)],
     m_tunnel := [(example_address 2, example_tunnel)], m_tun_header_offset_ipv6 := 4\<rparr>"

definition example_receiver :: "c_peering \<Rightarrow> (bytes \<times> nat, bytes \<times> nat) c_tunserver" where
  "example_receiver q = (c_tunserver_new example_world 9042 60)\<lparr>m_peer := [(example_address 1, q)],
     m_tunnel := [(example_address 1, example_tunnel)], m_my_hip := example_address 2\<rparr>"

lemma peer_at: "\<exists>p :: c_peering. m_peering_addr p = a"
proof -
  let ?ref = "\<lparr>peering_addr = a, haship_addr = c_haship_addr_init\<rparr>"
  obtain p w where "c_peering_new ?ref example_world = (Inr p, w)" "m_peering_addr p = peering_addr ?ref"
    using c_peering_new_run by blast
  then show ?thesis by (intro exI [of _ p]) simp
qed

text \<open>
  C11: in a state with the invariant of every reachable state, handling tunnelled data writes to the TUN device at most once, and what the device is given is, behind its own header, at
  least 40 octets whose source is an address the node has a tunnel with, whose destination is the node's own address and whose
  octet of the next header is one of the protocols the node supports. No other field is tested, not even the version. The
  device may take less than the whole; then the run ends in an exception, otherwise without one.
\<close>

theorem tun_output_checked:
  assumes "node_wf lib s" and "handle_tunneled_data lib host sender buf s = (r, s')"
  shows "w_tun (m_world s') = w_tun (m_world s)
    \<or> (\<exists>src packet. find_key src (m_tunnel s) \<noteq> None \<and> tun_frame_ok s src (m_my_hip s) packet \<and> tun_written s r s' packet)"
  using tunneled_data_writes [OF assms] .

lemma example_ip6:
  "length example_packet_ip6 = 46" "take 16 (drop 12 example_packet_ip6) = example_address 1"
  "take 16 (drop 28 example_packet_ip6) = example_address 2" "example_packet_ip6 ! 10 = 17"
  "tun_header @ drop 4 example_packet_ip6 = example_packet_ip6"
  "length (1 # cut_destination example_packet_ip6) \<le> SANE_MAX_SIZE_FOR_STRING"
  by (simp_all add: example_packet_ip6_def tun_header_def example_address_def cut_destination_def Let_def
      header_position_of_dst_def header_position_of_ipv6_def g_haship_addr_size_def SANE_MAX_SIZE_FOR_STRING_def)

theorem tun_output_checked_witness:
  "\<exists>q s' packet. node_wf example_lib24 (example_receiver q) \<and> handle_tunneled_data example_lib24 example_host None
         (tunneled_octets (1 # cut_destination example_packet_ip6) (example_address 1) (example_address 2) 5 (replicate 24 1))
         (example_receiver q) = (Inr (), s')
     \<and> w_tun (m_world (example_receiver q)) = [] \<and> w_tun (m_world s') = [example_packet_ip6]
     \<and> tun_frame_ok (example_receiver q) (example_address 1) (example_address 2) packet
     \<and> tun_written (example_receiver q) (Inr ()) s' packet"
proof -
  let ?ref = "\<lparr>peering_addr = example_endpoint [127, 0, 0, 1], haship_addr = example_address 1\<rparr>"
  obtain q :: c_peering where q: "m_haship_addr q = example_address 1" "m_pubkey q = None"
    using c_peering_new_run [of ?ref example_world] by (metis t_peering_reference.select_convs(2))
  let ?s = "example_receiver q" and ?blob = "1 # cut_destination example_packet_ip6" and ?nonce = "replicate 24 1 :: bytes"
  let ?d = "tunneled_octets ?blob (example_address 1) (example_address 2) 5 ?nonce"
  have fields: "m_my_hip ?s = example_address 2" "m_tunnel ?s = [(example_address 1, example_tunnel)]"
      "w_tun (m_world ?s) = []"
    by (simp_all add: example_receiver_def c_tunserver_new_def example_world_def)
  have "peer_ok example_lib24 (example_address 1) q" using q by (simp add: peer_ok_def example_address_def)
  then have wf: "node_wf example_lib24 ?s"
    by (simp add: node_wf_def peers_wf_def example_receiver_def map_sorted_def c_tunserver_new_def routing_wf_init)
      (metis linorder_less_linear)
  obtain ct' n' where "unbox_ab example_lib24 ?blob ?nonce (example_tunnel, w_rng (m_world ?s))
      = (Inr (cut_destination example_packet_ip6), (ct', n'))"
    using example_tunnel_box(2) by (metis prod.collapse)
  then obtain s1 where unbox: "on_tunnel (example_address 1) (unbox_ab example_lib24 ?blob ?nonce) ?s
      = (Inr (cut_destination example_packet_ip6), s1)"
    using fields(2) by (simp add: on_tunnel_def)
  obtain s' where s': "deliver_to_tun example_lib24 (example_address 1) (example_address 2) ?blob ?nonce ?s = (Inr (), s')"
      "w_tun (m_world s') = w_tun (m_world ?s) @ [tun_header @ drop 4 example_packet_ip6]"
    using deliver_restores [OF _ _ _ _ _ unbox] example_ip6
    by (auto simp: example_receiver_def c_tunserver_new_def example_world_def)
  have "fst (parse_tunneled_data (parser_of_buffer ?d)) = Inr (example_address 1, example_address 2, 5, ?nonce, ?blob)"
    by (rule parse_tunneled_octets) (use example_ip6(6) in \<open>simp_all add: example_address_def\<close>)
  then have run: "handle_tunneled_data example_lib24 example_host None ?d ?s = (Inr (), s')"
    using s'(1) fields by (simp add: handle_tunneled_data_def)
  from tun_output_checked [OF wf run] obtain src packet where
    "find_key src (m_tunnel ?s) \<noteq> None" "tun_frame_ok ?s src (example_address 2) packet" "tun_written ?s (Inr ()) s' packet"
    using s'(2) fields(1,3) by auto
  moreover from this(1) have "src = example_address 1" using fields(2) by (auto split: if_splits)
  ultimately show ?thesis using wf run s'(2) fields(3) example_ip6(5) by auto
qed

theorem packet_device_to_device_witness:
  "\<exists>p q datagram sA' sB'. handle_event example_lib24 example_host (Ev_tun example_packet_ip6) (example_sender p) = (Inr (), sA')
    \<and> w_sent (m_world sA') = [(example_endpoint [192, 168, 2, 62], datagram)]
    \<and> handle_event example_lib24 example_host (Ev_udp (example_endpoint [127, 0, 0, 1]) datagram) (example_receiver q) = (Inr (), sB')
    \<and> w_tun (m_world sB') = [example_packet_ip6]"
proof -
  obtain p :: c_peering where p: "m_peering_addr p = example_endpoint [192, 168, 2, 62]"
    using peer_at by blast
  obtain q :: c_peering where q: "m_peering_addr q = example_endpoint [127, 0, 0, 1]"
    using peer_at by blast
  let ?buff = "example_packet_ip6"
  note buff = example_ip6(1-5) and small = example_ip6(6)
  let ?a = "\<lparr>sin_family = AF_INET, sin_port = 9042, sin_addr = [192, 168, 2, 62]\<rparr>"
  have "\<exists>datagram sA' sB'. handle_event example_lib24 example_host (Ev_tun ?buff) (example_sender p) = (Inr (), sA')
    \<and> w_sent (m_world sA') = w_sent (m_world (example_sender p)) @ [(tag_ipv4 ?a, datagram)]
    \<and> handle_event example_lib24 example_host (Ev_udp (example_endpoint [127, 0, 0, 1]) datagram) (example_receiver q) = (Inr (), sB')
    \<and> w_tun (m_world sB') = w_tun (m_world (example_receiver q)) @ [tun_header @ drop 4 ?buff]"
  proof (rule packet_device_to_device [OF v6_text_laws_example,
        where src = "example_address 1" and dst = "example_address 2"])
    show "fst (box_ab example_lib24 (cut_destination ?buff) (example_tunnel, w_rng (m_world (example_sender p))))
      = Inr (1 # cut_destination ?buff, replicate 24 1)"
      by (rule example_tunnel_box)
    show "fst (unbox_ab example_lib24 (1 # cut_destination ?buff) (replicate 24 1)
      (example_tunnel, w_rng (m_world (example_receiver q)))) = Inr (cut_destination ?buff)"
      by (rule example_tunnel_box)
    show "m_peering_addr p = tag_ipv4 ?a" using p by (simp add: example_endpoint_def)
    show "find_pip (example_endpoint [127, 0, 0, 1]) (m_peer (example_receiver q)) = Inr (example_address 1)"
      using q by (simp add: example_receiver_def ip46_equal_def example_endpoint_def)
    show "length (1 # cut_destination ?buff) \<le> SANE_MAX_SIZE_FOR_STRING" by (rule small)
    show "example_address 2 ! 0 = 0xFD" by (simp add: example_address_def)
  qed (use buff in \<open>simp_all add: example_sender_def example_receiver_def c_tunserver_new_def map_sorted_def
      example_world_def\<close>)
  then show ?thesis
    using buff(5) by (simp add: example_endpoint_def example_sender_def example_receiver_def c_tunserver_new_def example_world_def) blast
qed

end
