(* ===== verification/Sections.thy ===== *)
theory Sections
  imports Galaxy_Prelude
begin

text \<open>
  Code that several threads run on one object, each holding a mutex of it for a part of the time only.

  A \<open>program\<close> is a method cut into its critical sections: it has finished, with a result, or it runs
  one section, from the state it finds to a new state and the program that remains. Between two sections
  the state belongs to the other threads. \<open>alone p\<close> runs \<open>p\<close> with nobody in between; \<open>under_interference p\<close>
  runs it in a schedule, which holds, for each section of \<open>p\<close>, what the other threads did before it.
\<close>

datatype ('s, 'a) "program" =
    Finished "'a result"
  | Section "'s \<Rightarrow> ('s, 'a) program \<times> 's"

lemma program_induct [case_names Finished Section, induct type: "program"]:
  assumes "\<And>r. Q (Finished r)" and "\<And>m. (\<And>s. Q (fst (m s))) \<Longrightarrow> Q (Section m)"
  shows "Q p"
proof (induction p rule: program.induct)
  case (Section m)
  have "Q (fst (m s))" for s by (rule Section [of "m s"]) (simp_all add: prod_set_defs)
  then show ?case by (rule assms(2))
qed (rule assms(1))

primrec alone :: "('s, 'a) program \<Rightarrow> ('s, 'a) action" where
  "alone (Finished r) = (\<lambda>s. (r, s))"
| "alone (Section m) = (\<lambda>s. case map_prod alone id (m s) of (rest, s') \<Rightarrow> rest s')"

type_synonym 's schedule = "('s \<Rightarrow> 's) list"

definition others_first :: "'s \<times> 's schedule \<Rightarrow> 's" where
  "others_first w = (case w of (s, []) \<Rightarrow> s | (s, e # es) \<Rightarrow> e s)"

primrec under_interference :: "('s, 'a) program \<Rightarrow> ('s \<times> 's schedule, 'a) action" where
  "under_interference (Finished r) = (\<lambda>w. (r, w))"
| "under_interference (Section m) =
     (\<lambda>w. case map_prod under_interference id (m (others_first w)) of (rest, s') \<Rightarrow> rest (s', tl (snd w)))"

section \<open>Composition\<close>

primrec attempt :: "('s, 'a) program \<Rightarrow> ('a result \<Rightarrow> ('s, 'b) program) \<Rightarrow> ('s, 'b) program" where
  \<comment> \<open>goes on with whatever the first program returned or threw\<close>
  "attempt (Finished r) h = h r"
| "attempt (Section m) h = Section (\<lambda>s. map_prod (\<lambda>rest. attempt rest h) id (m s))"

definition thenP :: "('s, 'a) program \<Rightarrow> ('a \<Rightarrow> ('s, 'b) program) \<Rightarrow> ('s, 'b) program" where
  "thenP p f = attempt p (\<lambda>r. case r of Inl e \<Rightarrow> Finished (Inl e) | Inr a \<Rightarrow> f a)"

definition critical :: "('s, 'a) action \<Rightarrow> ('s, 'a) program" where
  \<comment> \<open>one critical section\<close>
  "critical m = Section (\<lambda>s. map_prod Finished id (m s))"

definition readP :: "('s \<Rightarrow> ('s, 'a) program) \<Rightarrow> ('s, 'a) program" where
  \<comment> \<open>a section that only reads\<close>
  "readP f = Section (\<lambda>s. (f s, s))"

lemma alone_attempt: "alone (attempt p h) s = (case alone p s of (r, s') \<Rightarrow> alone (h r) s')"
  by (induction p arbitrary: s) (simp_all add: case_prod_unfold)

lemma alone_thenP [simp]: "alone (thenP p f) = andThen (alone p) (\<lambda>a. alone (f a))"
  by (rule ext) (auto simp: thenP_def alone_attempt andThen_def split: prod.split sum.split)

lemma alone_critical [simp]: "alone (critical m) = m"
  by (rule ext) (simp add: critical_def case_prod_unfold)

lemma alone_readP [simp]: "alone (readP f) = (\<lambda>s. alone (f s) s)"
  by (simp add: readP_def)

section \<open>The sections of a program\<close>

inductive section_of :: "('s, 'a) program \<Rightarrow> ('s \<Rightarrow> 's) \<Rightarrow> bool" where
  now: "section_of (Section m) (\<lambda>s. snd (m s))"
| later: "section_of (fst (m s)) f \<Longrightarrow> section_of (Section m) f"

inductive_cases section_of_FinishedE [elim!]: "section_of (Finished r) f"
inductive_cases section_of_SectionE: "section_of (Section m) f"

primrec sections_keep :: "('s \<Rightarrow> bool) \<Rightarrow> ('s, 'a) program \<Rightarrow> bool" where
  \<comment> \<open>every section keeps the invariant, whatever the other threads do in between\<close>
  "sections_keep P (Finished r) = True"
| "sections_keep P (Section m) =
     (\<forall>s. (P s \<longrightarrow> P (snd (m s))) \<and> fst (map_prod (sections_keep P) id (m s)))"

lemma sections_keep_Section:
  "sections_keep P (Section m) \<longleftrightarrow> (\<forall>s. (P s \<longrightarrow> P (snd (m s))) \<and> sections_keep P (fst (m s)))"
  by simp

lemma section_of_keeps: "section_of p f \<Longrightarrow> sections_keep P p \<Longrightarrow> P s \<Longrightarrow> P (f s)"
  by (induction rule: section_of.induct) auto

lemma sections_keep_attempt:
  "sections_keep P p \<Longrightarrow> (\<And>r. sections_keep P (h r)) \<Longrightarrow> sections_keep P (attempt p h)"
  by (induction p) simp_all

lemma sections_keep_thenP:
  "sections_keep P p \<Longrightarrow> (\<And>a. sections_keep P (f a)) \<Longrightarrow> sections_keep P (thenP p f)"
  unfolding thenP_def by (rule sections_keep_attempt) (auto split: sum.split)

lemma sections_keep_critical: "(\<And>s. P s \<Longrightarrow> P (snd (m s))) \<Longrightarrow> sections_keep P (critical m)"
  by (simp add: critical_def)

lemma sections_keep_readP: "(\<And>s. sections_keep P (f s)) \<Longrightarrow> sections_keep P (readP f)"
  by (simp add: readP_def)

section \<open>Running a program\<close>

lemma alone_sections:
  assumes "\<And>f s. section_of p f \<Longrightarrow> reach s \<Longrightarrow> reach (f s)" and "reach s"
  shows "reach (snd (alone p s))"
  using assms
proof (induction p arbitrary: s)
  case (Section m)
  have "reach (snd (m s))" using Section.prems(1) [OF section_of.now Section.prems(2)] .
  then have "reach (snd (alone (fst (m s)) (snd (m s))))"
    using Section.prems(1) by (intro Section.IH) (auto intro: section_of.later)
  then show ?case by (simp add: case_prod_unfold)
qed simp

text \<open>Rely and guarantee: what every section and every step of the others keeps, every run keeps.\<close>

lemma interference_sections:
  assumes "\<And>f s. section_of p f \<Longrightarrow> reach s \<Longrightarrow> reach (f s)"
    and "\<And>e s. e \<in> set es \<Longrightarrow> reach s \<Longrightarrow> reach (e s)" and "reach s"
    and "under_interference p (s, es) = (r, (s', es'))"
  shows "reach s' \<and> set es' \<subseteq> set es"
  using assms
proof (induction p arbitrary: s es)
  case (Section m)
  let ?s = "others_first (s, es)"
  have "reach ?s" using Section.prems(2,3) by (cases es) (simp_all add: others_first_def)
  then have "reach (snd (m ?s))" using Section.prems(1) section_of.now by blast
  moreover have "under_interference (fst (m ?s)) (snd (m ?s), tl es) = (r, (s', es'))"
    using Section.prems(4) by (simp add: case_prod_unfold)
  moreover have "set (tl es) \<subseteq> set es" by (cases es) auto
  ultimately have "reach s' \<and> set es' \<subseteq> set (tl es)"
    by (intro Section.IH [of ?s "tl es" "snd (m ?s)"])
      (use Section.prems(1,2) in \<open>auto intro: section_of.later dest: set_mp\<close>)
  then show ?case using \<open>set (tl es) \<subseteq> set es\<close> by blast
qed simp

lemma no_interference: "under_interference p (s, []) = (fst (alone p s), (snd (alone p s), []))"
  by (induction p arbitrary: s) (simp_all add: others_first_def case_prod_unfold)

lemma under_attempt: "under_interference (attempt p h) w = (case under_interference p w of (r, w') \<Rightarrow> under_interference (h r) w')"
  by (induction p arbitrary: w) (auto simp: case_prod_unfold)

lemma under_thenP [simp]:
  "under_interference (thenP p f) = andThen (under_interference p) (\<lambda>a. under_interference (f a))"
  by (rule ext) (auto simp: thenP_def under_attempt andThen_def split: prod.split sum.split)

lemma under_critical:
  "under_interference (critical m) w = (fst (m (others_first w)), (snd (m (others_first w)), tl (snd w)))"
  by (simp add: critical_def case_prod_unfold)

lemma under_readP:
  "under_interference (readP f) w = under_interference (f (others_first w)) (others_first w, tl (snd w))"
  by (simp add: readP_def)

end
