(* ===== verification/Node_Programs.thy ===== *)
theory Node_Programs
  imports Node_Reach Sections
begin

text \<open>
  The methods of \<open>c_tunserver\<close> as programs, cut where \<^verbatim>\<open>src/src/tunserver.cpp\<close> takes and
  releases \<open>m_peer_etc_mutex\<close>: those of the remote control, which the thread of the RPC server runs, and a
  pass of the event loop, which the main thread runs at the same time. \<open>f_sections\<close> is the method \<open>f\<close> of the
  theories \<open>Tunserver\<close>, \<open>Rpc\<close> and \<open>Event_Loop\<close>; run alone, it is \<open>f\<close>.

  A section is what the code does while it holds the mutex, or what it does to objects that only its own
  thread uses (tunnels, routes, the TUN device) and to the clock and the sockets. A peer that the code uses through a reference
  after the mutex is released is looked up again by its address: if another thread has erased it, the reference
  dangles and the execution has no meaning any more, which is an \<open>Abort\<close> here.
\<close>

type_synonym ('bx, 'ux, 'a) tun_program = "(('bx, 'ux) c_tunserver, 'a) program"

section \<open>Catching\<close>

definition catch_exceptionP :: "cpp_error \<Rightarrow> ('s, 'a) program \<Rightarrow> ('s, 'a) program" where
  "catch_exceptionP e' p = attempt p (\<lambda>r. Finished (case r of Inl e \<Rightarrow> Inl (if e = Abort then Abort else e') | Inr a \<Rightarrow> Inr a))"

definition catch_allP :: "('s, unit) program \<Rightarrow> ('s, unit) program" where
  "catch_allP p = attempt p (\<lambda>r. Finished (case r of Inl e \<Rightarrow> if e = Abort then Inl Abort else Inr () | Inr _ \<Rightarrow> Inr ()))"

definition catch_bad_peerP :: "string \<Rightarrow> ('s, rpc_answer) program \<Rightarrow> ('s, rpc_answer) program" where
  "catch_bad_peerP cmd p = attempt p (\<lambda>r. Finished (case r of
       Inr ans \<Rightarrow> Inr ans
     | Inl e \<Rightarrow> if e = Invalid_argument \<or> e = Invalid_argument_in_version
         then Inr \<lparr>rpc_cmd = cmd, rpc_msg = ''fail: Bad peer format'', rpc_state = ''error''\<rparr> else Inl e))"

section \<open>The remote control\<close>

definition add_and_unban :: "t_peering_reference \<Rightarrow> ('bx, 'ux, unit) tun_program" where
  "add_and_unban peering_ref =
     thenP (critical (add_peer peering_ref)) (\<lambda>_. critical (delete_peer_from_black_list (haship_addr peering_ref)))"

definition add_peer_simplestring_sections :: "host_lib \<Rightarrow> bytes \<Rightarrow> ('bx, 'ux, unit) tun_program" where
  "add_peer_simplestring_sections host simple =
     catch_exceptionP Invalid_argument (thenP (Finished (parse_peer_simplestring host simple)) add_and_unban)"

definition add_peer_simplestring_new_format_sections :: "host_lib \<Rightarrow> bytes \<Rightarrow> ('bx, 'ux, unit) tun_program" where
  "add_peer_simplestring_new_format_sections host simple =
     catch_exceptionP Err_check_input (thenP (Finished (new_format_reference host simple)) add_and_unban)"

definition delete_peer_simplestring_sections :: "host_lib \<Rightarrow> bytes \<Rightarrow> bool \<Rightarrow> ('bx, 'ux, bool) tun_program" where
  "delete_peer_simplestring_sections host simple is_banned = catch_exceptionP Invalid_argument
     (thenP (Finished (c_haship_addr_by_addr_dot host simple)) (\<lambda>hip.
      thenP (critical (delete_peer hip)) (\<lambda>peer_deleted.
      thenP (if is_banned then critical (add_peer_to_black_list hip) else Finished (Inr ())) (\<lambda>_.
      Finished (Inr peer_deleted)))))"

definition rpc_add_peer_sections :: "host_lib \<Rightarrow> bytes \<Rightarrow> bytes \<Rightarrow> ('bx, 'ux, rpc_answer) tun_program" where
  "rpc_add_peer_sections host peer format = attempt
     (thenP (Finished (add_peer_hip host peer format)) (\<lambda>hip.
      thenP (critical (\<lambda>s. (Inr (can_i_add_peer hip s), s))) (\<lambda>can_add.
        if can_add then
          thenP (if format = octets_of ''0.1'' then add_peer_simplestring_sections host peer
                 else if format = octets_of ''1.0'' then add_peer_simplestring_new_format_sections host peer
                 else Finished (Inr ()))
            (\<lambda>_. Finished (Inr \<lparr>rpc_cmd = ''add_peer'', rpc_msg = ''ok: Peer added'', rpc_state = ''ok''\<rparr>))
        else Finished (Inr \<lparr>rpc_cmd = ''add_peer'', rpc_msg = ''failed: peer is banned and you said to not unban him'',
                  rpc_state = ''blocked''\<rparr>))))
     (\<lambda>r. Finished (case r of Inr ans \<Rightarrow> Inr ans
       | Inl e \<Rightarrow> if e = Abort then Inl Abort
           else Inr \<lparr>rpc_cmd = ''add_peer'', rpc_msg = ''fail: Bad peer format'', rpc_state = ''error''\<rparr>))"

definition rpc_delete_peer_sections :: "host_lib \<Rightarrow> bytes \<Rightarrow> ('bx, 'ux, rpc_answer) tun_program" where
  "rpc_delete_peer_sections host peer = catch_bad_peerP ''delete_peer''
     (thenP (delete_peer_simplestring_sections host peer False) (\<lambda>peer_deleted.
        Finished (Inr (if peer_deleted
             then \<lparr>rpc_cmd = ''delete_peer'', rpc_msg = ''ok: Peer deleted'', rpc_state = ''ok''\<rparr>
             else \<lparr>rpc_cmd = ''delete_peer'', rpc_msg = ''ok: Peer not found'', rpc_state = ''nothing_done''\<rparr>))))"

definition rpc_ban_peer_sections :: "host_lib \<Rightarrow> bytes \<Rightarrow> ('bx, 'ux, rpc_answer) tun_program" where
  \<comment> \<open>three sections: the test, the deletion, the entry in the black list\<close>
  "rpc_ban_peer_sections host peer =
     thenP (Finished (c_haship_addr_by_addr_dot host peer)) (\<lambda>hip.
     catch_bad_peerP ''ban_peer''
       (thenP (critical (\<lambda>s. (Inr (peer_on_black_list hip s), s))) (\<lambda>is_banned.
          if is_banned
          then Finished (Inr \<lparr>rpc_cmd = ''ban_peer'', rpc_msg = ''nothing done, peer is banned'', rpc_state = ''nothing_done''\<rparr>)
          else thenP (delete_peer_simplestring_sections host peer True)
            (\<lambda>_. Finished (Inr \<lparr>rpc_cmd = ''ban_peer'', rpc_msg = ''ok: Peer banned'', rpc_state = ''ok''\<rparr>)))))"

section \<open>The routing manager\<close>

definition get_route_direct_sections :: "c_haship_addr \<Rightarrow> ('bx, 'ux, c_route_info) tun_program" where
  "get_route_direct_sections dst =
     thenP (critical (tun_get_peer_with_hip dst False)) (\<lambda>peer.
       case m_pubkey peer of
         None \<Rightarrow> Finished (Inl Runtime_error)
       | Some peer_pub \<Rightarrow>
           thenP (critical (c_route_info_new tun_node (m_haship_addr peer) 1 peer_pub)) (\<lambda>route_info.
           critical (on_routing (on_fst (add_route_info_and_return dst route_info)))))"

definition new_search :: "c_haship_addr \<Rightarrow> c_route_reason \<Rightarrow> int \<Rightarrow> (c_routing_manager \<times> ('bx, 'ux) c_tunserver, unit) action" where
  \<comment> \<open>the new search with its first reason, in the table\<close>
  "new_search dst reason search_ttl = (\<lambda>(rm, w).
     case add_request tun_node reason search_ttl (c_route_search_new dst search_ttl, w) of
       (Inl e, (_, w')) \<Rightarrow> (Inl e, (rm, w'))
     | (Inr _, (search, w')) \<Rightarrow> (Inr (), (rm\<lparr>m_search := emplace_key dst search (m_search rm)\<rparr>, w')))"

definition search_done :: "byte \<Rightarrow> (c_route_search \<times> ('bx, 'ux) c_tunserver, unit) action" where
  "search_done byte_highest_ttl = andThen (on_snd (node_now tun_node)) (\<lambda>now (search, w).
     (Inr (), (search\<lparr>m_ttl_used := uint byte_highest_ttl, m_ask_time := now\<rparr>, w)))"

definition search_execute_sections :: "c_haship_addr \<Rightarrow> ('bx, 'ux, unit) tun_program" where
  "search_execute_sections dst = readP (\<lambda>s.
     case find_key dst (m_search (m_routing_manager s)) of
       None \<Rightarrow> Finished (Inl Abort)
     | Some search \<Rightarrow>
         let byte_highest_ttl = of_int (m_ttl_should_use search) :: byte in
         if m_ttl_should_use search = uint byte_highest_ttl then
           thenP (critical (tun_nodep2p_foreach_cmd e_proto_cmd_findhip_query
                    (findhip_query_data (m_addr search) byte_highest_ttl))) (\<lambda>_.
           critical (on_routing (on_search dst (search_done byte_highest_ttl))))
         else Finished (Inl Abort))"

definition search_for_sections :: "c_haship_addr \<Rightarrow> c_route_reason \<Rightarrow> int \<Rightarrow> ('bx, 'ux, unit) tun_program" where
  "search_for_sections dst reason search_ttl = readP (\<lambda>s.
     case find_key dst (m_search (m_routing_manager s)) of
       None \<Rightarrow> thenP (critical (on_routing (new_search dst reason search_ttl))) (\<lambda>_. search_execute_sections dst)
     | Some _ \<Rightarrow> critical (on_routing (on_search dst (add_request tun_node reason search_ttl))))"

definition get_route_known_or_search_sections ::
    "c_haship_addr \<Rightarrow> c_route_reason \<Rightarrow> bool \<Rightarrow> int \<Rightarrow> ('bx, 'ux, c_route_info) tun_program" where
  "get_route_known_or_search_sections dst reason start_search search_ttl = readP (\<lambda>s.
     case find_key dst (m_route_nexthop (m_routing_manager s)) of
       Some route \<Rightarrow> Finished (Inr route)
     | None \<Rightarrow>
         if \<not> start_search then Finished (Inl Runtime_error)
         else thenP (search_for_sections dst reason search_ttl) (\<lambda>_. Finished (Inl Runtime_error)))"

definition get_route_sections ::
    "c_haship_addr \<Rightarrow> c_route_reason \<Rightarrow> bool \<Rightarrow> int \<Rightarrow> ('bx, 'ux, c_route_info) tun_program" where
  "get_route_sections dst reason start_search search_ttl =
     attempt (get_route_direct_sections dst) (\<lambda>r. case r of
       Inr route \<Rightarrow> Finished (Inr route)
     | Inl e \<Rightarrow>
         if e = Expected_not_found_missing_pubkey \<or> e = Expected_not_found
         then get_route_known_or_search_sections dst reason start_search search_ttl
         else Finished (Inl e))"

section \<open>Routing of tunnelled data\<close>

definition find_via_sections :: "c_haship_addr \<Rightarrow> c_route_reason \<Rightarrow> ('bx, 'ux, c_haship_addr option) tun_program" where
  "find_via_sections next_hip reason =
     attempt (get_route_sections next_hip reason True ttl_max_accepted) (\<lambda>r. Finished (case r of
       Inr route \<Rightarrow> Inr (Some (m_nexthop route))
     | Inl e \<Rightarrow> if e = Abort then Inl Abort else Inr None))"

primrec route_detail_sections ::
    "nat \<Rightarrow> bytes \<Rightarrow> c_haship_addr \<Rightarrow> c_haship_addr \<Rightarrow> c_haship_addr \<Rightarrow> c_route_reason \<Rightarrow> int \<Rightarrow> bytes \<Rightarrow> ('bx, 'ux, bool) tun_program" where
  \<comment> \<open>the first argument: how often the function may still call itself, 2 less the level of the recursion\<close>
  "route_detail_sections 0 data src_hip dst_hip next_hip reason data_route_ttl nonce_used =
     (if data_route_ttl \<le> 0 then Finished (Inr False)
      else readP (\<lambda>s.
        if m_peer s = [] then Finished (Inr False)
        else if find_key next_hip (m_peer s) = None then Finished (Inr False)
        else thenP (critical (on_peer next_hip (send_data_udp data src_hip dst_hip data_route_ttl nonce_used)))
               (\<lambda>_. Finished (Inr True))))"
| "route_detail_sections (Suc n) data src_hip dst_hip next_hip reason data_route_ttl nonce_used =
     (if data_route_ttl \<le> 0 then Finished (Inr False)
      else readP (\<lambda>s.
        if m_peer s = [] then Finished (Inr False)
        else if find_key next_hip (m_peer s) = None then
          thenP (find_via_sections next_hip reason) (\<lambda>via. case via of
            None \<Rightarrow> Finished (Inr False)
          | Some via_hip \<Rightarrow> route_detail_sections n data src_hip dst_hip via_hip reason data_route_ttl nonce_used)
        else thenP (critical (on_peer next_hip (send_data_udp data src_hip dst_hip data_route_ttl nonce_used)))
               (\<lambda>_. Finished (Inr True))))"

definition route_top_sections ::
    "bytes \<Rightarrow> c_haship_addr \<Rightarrow> c_haship_addr \<Rightarrow> c_route_reason \<Rightarrow> int \<Rightarrow> bytes \<Rightarrow> ('bx, 'ux, bool) tun_program" where
  "route_top_sections data src_hip dst_hip reason data_route_ttl nonce_used =
     (if data_route_ttl \<le> 0 then Finished (Inr False)
      else attempt (route_detail_sections 2 data src_hip dst_hip dst_hip reason data_route_ttl nonce_used)
        (\<lambda>r. Finished (case r of Inr ok \<Rightarrow> Inr ok | Inl e \<Rightarrow> if e = Abort then Inl Abort else Inr True)))"

section \<open>The handlers\<close>

definition send_own_data_sections ::
    "('bx, 'ux) crypto_lib \<Rightarrow> bytes \<Rightarrow> c_haship_addr \<Rightarrow> c_haship_addr \<Rightarrow> ('bx, 'ux, unit) tun_program" where
  "send_own_data_sections lib buff src_hip dst_hip =
     thenP (Finished (if length buff \<le> 65536 \<and> length buff \<ge> header_position_of_ipv6 then Inr () else Inl Abort)) (\<lambda>_.
     thenP (Finished (string_erase header_position_of_dst g_haship_addr_size (drop header_position_of_ipv6 buff))) (\<lambda>data_cleartext.
     thenP (critical (on_tunnel dst_hip (box_ab lib data_cleartext))) (\<lambda>(data_encrypted, nonce_used).
     thenP (route_top_sections data_encrypted src_hip dst_hip own_reason 5 nonce_used) (\<lambda>_. Finished (Inr ())))))"

definition handle_tun_packet_sections ::
    "('bx, 'ux) crypto_lib \<Rightarrow> host_lib \<Rightarrow> bytes \<Rightarrow> ('bx, 'ux, unit) tun_program" where
  "handle_tun_packet_sections lib host buff = readP (\<lambda>s.
     case parse_tun_ip_src_dst host buff (m_tun_header_offset_ipv6 s) of
        Inl e \<Rightarrow> Finished (Inl e)
      | Inr (src_hip, dst_hip) \<Rightarrow>
          (case addr_is_galaxy dst_hip of
             Inl e \<Rightarrow> Finished (Inl e)
           | Inr is_galaxy \<Rightarrow>
               if \<not> is_galaxy then Finished (Inr ())
               else if find_key dst_hip (m_tunnel s) = None then
                 thenP (route_top_sections [] src_hip dst_hip own_reason 5 (t_crypto_nonce_default host)) (\<lambda>_. Finished (Inr ()))
               else send_own_data_sections lib buff src_hip dst_hip))"

definition handle_tunneled_data_sections ::
    "('bx, 'ux) crypto_lib \<Rightarrow> host_lib \<Rightarrow> c_haship_addr option \<Rightarrow> bytes \<Rightarrow> ('bx, 'ux, unit) tun_program" where
  "handle_tunneled_data_sections lib host sender buf =
     thenP (Finished (fst (parse_tunneled_data (parser_of_buffer buf)))) (\<lambda>(src_hip, dst_hip, requested_ttl, nonce_used, blob). readP (\<lambda>s.
       if dst_hip = m_my_hip s then
         if find_key src_hip (m_tunnel s) = None then
           thenP (route_top_sections [] dst_hip src_hip own_reason requested_ttl (t_crypto_nonce_default host)) (\<lambda>_. Finished (Inr ()))
         else critical (deliver_to_tun lib src_hip dst_hip blob nonce_used)
       else if sender_drained sender s then Finished (Inr ())
       else
         thenP (route_top_sections blob src_hip dst_hip
                    \<lparr>m_his_addr = src_hip, m_search_mode = e_search_mode_route_other_packet\<rparr>
                    (reduce_ttl requested_ttl) nonce_used) (\<lambda>_. Finished (Inr ()))))"

definition hello_body_sections ::
    "('bx, 'ux) crypto_lib \<Rightarrow> host_lib \<Rightarrow> c_ip46_addr \<Rightarrow> bytes \<times> bytes \<times> bytes \<Rightarrow> ('bx, 'ux, unit) tun_program" where
  "hello_body_sections lib host sender_pip = (\<lambda>(bin_his_IDC_pub, bin_his_IDI_pub, bin_his_IDI_IDC_sig). readP (\<lambda>s.
     thenP (Finished (load_pubkey (m_node_ipv6_prefix s) bin_his_IDI_pub)) (\<lambda>his_IDI.
     thenP (Finished (load_signature bin_his_IDI_IDC_sig)) (\<lambda>his_IDI_IDC_sig.
     thenP (Finished (multi_sign_verify lib his_IDI_IDC_sig bin_his_IDC_pub his_IDI)) (\<lambda>_.
     thenP (Finished (load_pubkey (m_node_ipv6_prefix s) bin_his_IDI_pub)) (\<lambda>his_pubkey.
     thenP (Finished (hello_reference lib host sender_pip his_pubkey)) (\<lambda>(his_ref, his_pubkey').
     thenP (critical (add_peer_append_pubkey lib his_ref his_pubkey')) (\<lambda>_.
     thenP (Finished (load_pubkey (m_node_ipv6_prefix s) bin_his_IDI_pub)) (\<lambda>node_pubkey.
     critical (add_tunnel_to_pubkey lib node_pubkey))))))))))"

definition handle_public_hi_sections ::
    "('bx, 'ux) crypto_lib \<Rightarrow> host_lib \<Rightarrow> c_ip46_addr \<Rightarrow> bytes \<Rightarrow> ('bx, 'ux, unit) tun_program" where
  "handle_public_hi_sections lib host sender_pip buf =
     thenP (Finished (if length buf \<ge> 2 then Inr () else Inl Abort)) (\<lambda>_.
     thenP (Finished (fst (parse_hello (parser_of_buffer (drop 2 buf))))) (\<lambda>hello.
       attempt (hello_body_sections lib host sender_pip hello) (\<lambda>r. Finished (case r of
         Inl e \<Rightarrow> if is_invalid_argument e then Inr () else Inl e
       | Inr _ \<Rightarrow> Inr ()))))"

definition answer_query_sections ::
    "c_ip46_addr \<Rightarrow> c_haship_addr \<Rightarrow> c_haship_addr \<Rightarrow> c_haship_addr \<Rightarrow> int \<Rightarrow> ('bx, 'ux, unit) tun_program" where
  "answer_query_sections sender_pip sender sender_hip requested_hip requested_ttl =
     thenP (get_route_sections requested_hip \<lparr>m_his_addr = sender_hip, m_search_mode = e_search_mode_help_find\<rparr> True (requested_ttl - 1)) (\<lambda>route.
     thenP (Finished (findhip_reply_data requested_ttl requested_hip route)) (\<lambda>data.
     thenP (critical (on_peer sender (send_data_udp_cmd e_proto_cmd_findhip_reply data))) (\<lambda>_.
     thenP (critical (find_peer_by_sender_peering_addr sender_pip)) (\<lambda>_.
     Finished (Inr ())))))"

definition handle_findhip_query_sections ::
    "c_ip46_addr \<Rightarrow> c_haship_addr option \<Rightarrow> c_haship_addr \<Rightarrow> bytes \<Rightarrow> ('bx, 'ux, unit) tun_program" where
  "handle_findhip_query_sections sender_pip sender sender_hip buf =
     thenP (Finished (if length buf \<ge> 2 then Inr () else Inl Abort)) (\<lambda>_.
     thenP (Finished (parse_findhip_query (drop 2 buf))) (\<lambda>(requested_hip, requested_ttl).
       if requested_ttl < 1 then Finished (Inr ())
       else case sender of
              None \<Rightarrow> Finished (Inl Abort)
            | Some key \<Rightarrow> catch_allP (answer_query_sections sender_pip key sender_hip requested_hip requested_ttl)))"

definition recognise_sender_sections ::
    "t_proto_cmd \<Rightarrow> c_ip46_addr \<Rightarrow> nat \<Rightarrow> ('bx, 'ux, c_haship_addr option \<times> c_haship_addr) tun_program" where
  "recognise_sender_sections cmd sender_pip size_read =
     (if \<not> command_is_valid_from_unknown_peer cmd then
        thenP (critical (find_peer_by_sender_peering_addr sender_pip)) (\<lambda>hip.
        thenP (critical (on_peer hip (on_stats (update_read_stats size_read)))) (\<lambda>_. critical (\<lambda>s.
          (Inr (Some hip, case find_key hip (m_peer s) of None \<Rightarrow> hip | Some p \<Rightarrow> m_haship_addr p), s))))
      else Finished (Inr (None, c_haship_addr_init)))"

definition handle_udp_packet_sections ::
    "('bx, 'ux) crypto_lib \<Rightarrow> host_lib \<Rightarrow> c_ip46_addr \<Rightarrow> bytes \<Rightarrow> ('bx, 'ux, unit) tun_program" where
  "handle_udp_packet_sections lib host sender_pip buf =
     (if length buf = 0 then Finished (Inr ())
      else if \<not> length buf \<ge> 2 then Finished (Inr ())
      else if current_version < buf ! 0 then Finished (Inl Runtime_error)
      else
        thenP (Finished (int_to_proto_cmd (buf ! 1))) (\<lambda>cmd.
        thenP (recognise_sender_sections cmd sender_pip (length buf)) (\<lambda>(sender, sender_hip).
          if cmd = e_proto_cmd_tunneled_data then handle_tunneled_data_sections lib host sender buf
          else if cmd = e_proto_cmd_public_hi then handle_public_hi_sections lib host sender_pip buf
          else if cmd = e_proto_cmd_findhip_query then handle_findhip_query_sections sender_pip sender sender_hip buf
          else if cmd = e_proto_cmd_findhip_reply then critical (handle_findhip_reply lib sender_hip buf)
          else Finished (Inr ()))))"

definition handle_event_sections :: "('bx, 'ux) crypto_lib \<Rightarrow> host_lib \<Rightarrow> event \<Rightarrow> ('bx, 'ux, unit) tun_program" where
  "handle_event_sections lib host ev =
     (case ev of
        Ev_tun buff \<Rightarrow> handle_tun_packet_sections lib host buff
      | Ev_udp sender_pip buf \<Rightarrow> handle_udp_packet_sections lib host sender_pip buf
      | Ev_idle \<Rightarrow> Finished (Inr ())
      | Ev_device_lost device_ready \<Rightarrow> critical (prepare_socket device_ready))"

definition maybe_ping_sections :: "int \<Rightarrow> loop_locals \<Rightarrow> ('bx, 'ux, loop_locals) tun_program" where
  \<comment> \<open>the variables of the loop are on the stack of the thread\<close>
  "maybe_ping_sections hello_interval l =
     thenP (critical (on_world steady_now)) (\<lambda>time_now.
       let freq = (if ping_all_count l < 2 then 1 else hello_interval) in
       if time_now > ping_all_time_last l + freq * 1000000000 then
         thenP (critical peering_ping_all_peers) (\<lambda>_.
         thenP (critical (on_world steady_now)) (\<lambda>now.
           Finished (Inr (l\<lparr>ping_all_time_last := now, ping_all_count := ping_all_count l + 1\<rparr>))))
       else Finished (Inr l))"

definition event_loop_pass_sections ::
    "('bx, 'ux) crypto_lib \<Rightarrow> host_lib \<Rightarrow> int \<Rightarrow> event \<Rightarrow> loop_locals \<Rightarrow> ('bx, 'ux, loop_locals) tun_program" where
  "event_loop_pass_sections lib host hello_interval ev l =
     attempt (maybe_ping_sections hello_interval l) (\<lambda>r. case r of
       Inl e \<Rightarrow> Finished (if e = Abort then Inl Abort else Inr l)
     | Inr l' \<Rightarrow> attempt (handle_event_sections lib host ev)
         (\<lambda>r. Finished (if r = Inl Abort then Inl Abort else Inr l')))"

end
