(* ===== verification/Node_Alone.thy ===== *)
theory Node_Alone
  imports Node_Programs
begin

text \<open>
  Run alone, the programs of \<open>Node_Programs\<close> are the methods they cut.
\<close>

lemma alone_catch_exception [simp]: "alone (catch_exceptionP e' p) = catch_exception e' (alone p)"
  by (rule ext) (simp add: catch_exceptionP_def catch_exception_def alone_attempt split: prod.split sum.split)

lemma alone_catch_all [simp]: "alone (catch_allP p) = catch_all (alone p)"
  by (rule ext) (simp add: catch_allP_def catch_all_def alone_attempt split: prod.split sum.split)

lemma alone_catch_bad_peer [simp]: "alone (catch_bad_peerP cmd p) = catch_bad_peer cmd (alone p)"
  by (rule ext) (simp add: catch_bad_peerP_def catch_bad_peer_def alone_attempt split: prod.split sum.split)

lemma alone_Finished [simp]: "alone (Finished r) = liftR r"
  by (rule ext) (simp add: liftR_def)

declare alone.simps(1) [simp del]

lemma alone_if [simp]: "alone (if b then p else q) = (if b then alone p else alone q)"
  by simp

lemma liftR_Inr: "liftR (Inr a) = ret a" and liftR_Inl: "liftR (Inl e) = raise e"
  by (simp_all add: liftR_def ret_def raise_def fun_eq_iff)

section \<open>The remote control\<close>

lemma alone_add_and_unban [simp]:
  "alone (add_and_unban ref) = andThen (add_peer ref) (\<lambda>_. delete_peer_from_black_list (haship_addr ref))"
  by (simp add: add_and_unban_def)

lemma alone_rpc [simp]:
  "alone (add_peer_simplestring_sections host simple) = add_peer_simplestring host simple"
  "alone (add_peer_simplestring_new_format_sections host simple) = add_peer_simplestring_new_format host simple"
  "alone (delete_peer_simplestring_sections host simple is_banned) = delete_peer_simplestring host simple is_banned"
  by (simp_all add: add_peer_simplestring_sections_def add_peer_simplestring_def
      add_peer_simplestring_new_format_sections_def add_peer_simplestring_new_format_def
      delete_peer_simplestring_sections_def delete_peer_simplestring_def liftR_Inr cong: if_cong)

lemma alone_rpc_add_peer [simp]: "alone (rpc_add_peer_sections host peer format) = rpc_add_peer host peer format"
proof (rule ext)
  fix s :: "('a, 'b) c_tunserver"
  show "alone (rpc_add_peer_sections host peer format) s = rpc_add_peer host peer format s"
    by (cases "add_peer_hip host peer format")
      (auto simp: rpc_add_peer_sections_def rpc_add_peer_def rpc_add_peer_body_def alone_attempt liftR_Inr andThen_def
        liftR_def ret_def split: prod.split sum.split)
qed

lemma alone_rpc_delete_peer [simp]: "alone (rpc_delete_peer_sections host peer) = rpc_delete_peer host peer"
  by (simp add: rpc_delete_peer_sections_def rpc_delete_peer_def liftR_Inr)

lemma alone_rpc_ban_peer [simp]: "alone (rpc_ban_peer_sections host peer) = rpc_ban_peer host peer"
proof -
  have test: "andThen (\<lambda>s. (Inr (b s), s)) f = (\<lambda>s. f (b s) s)" for b and f :: "bool \<Rightarrow> ('a, 'b, rpc_answer) tun_action"
    by (rule ext) (simp add: andThen_def)
  show ?thesis
    unfolding rpc_ban_peer_sections_def rpc_ban_peer_def
    by (simp add: test liftR_Inr if_distrib [of alone] if_distrib [of "\<lambda>m. m s" for s] cong: if_cong)
qed

section \<open>The routing manager\<close>

text \<open>
  The routing manager runs on the pair of its tables and the node. The equations hold where the tables are
  sorted, as they are in every state the node reaches.
\<close>

definition agrees :: "('bx, 'ux) crypto_lib \<Rightarrow> ('bx, 'ux, 'a) tun_program \<Rightarrow> ('bx, 'ux, 'a) tun_action \<Rightarrow> bool" where
  "agrees lib p m \<longleftrightarrow> (\<forall>s. node_wf lib s \<longrightarrow> alone p s = m s)"

lemma agreesD: "agrees lib p m \<Longrightarrow> node_wf lib s \<Longrightarrow> alone p s = m s"
  by (simp add: agrees_def)

lemma agrees_alone: "alone p = m \<Longrightarrow> agrees lib p m"
  by (simp add: agrees_def)

lemma agrees_thenP:
  assumes "agrees lib p m" and "keeps (wf_step lib) m" and "\<And>a. agrees lib (f a) (g a)"
  shows "agrees lib (thenP p f) (andThen m g)"
  using assms keeps_wfD [OF assms(2)]
  by (auto simp: agrees_def andThen_def split: prod.split sum.split) (metis snd_conv)

lemma agrees_attempt:
  assumes "agrees lib p m" and "keeps (wf_step lib) m" and "\<And>r. agrees lib (h r) (g r)"
  shows "agrees lib (attempt p h) (\<lambda>s. case m s of (r, s') \<Rightarrow> g r s')"
  using assms keeps_wfD [OF assms(2)]
  by (auto simp: agrees_def alone_attempt split: prod.split) (metis snd_conv)

lemma agrees_readP: "(\<And>s. node_wf lib s \<Longrightarrow> alone (f s) s = m s) \<Longrightarrow> agrees lib (readP f) m"
  by (simp add: agrees_def)

lemma on_peer_routing:
  "on_peer hip m (s\<lparr>m_routing_manager := rm\<rparr>) = map_prod id (\<lambda>t. t\<lparr>m_routing_manager := rm\<rparr>) (on_peer hip m s)"
  by (simp add: on_peer_def split: option.split prod.split)

lemma foreach_routing:
  "tun_nodep2p_foreach_cmd cmd data (s\<lparr>m_routing_manager := rm\<rparr>)
     = map_prod id (\<lambda>t. t\<lparr>m_routing_manager := rm\<rparr>) (tun_nodep2p_foreach_cmd cmd data s)"
proof -
  have "forA (\<lambda>hip. on_peer hip m) hips (s\<lparr>m_routing_manager := rm\<rparr>)
     = map_prod id (\<lambda>t. t\<lparr>m_routing_manager := rm\<rparr>) (forA (\<lambda>hip. on_peer hip m) hips s)"
    for hips and m :: "(c_peering \<times> world, unit) action"
  proof (induction hips arbitrary: s)
    case (Cons hip hips)
    then show ?case by (simp add: andThen_def on_peer_routing split: prod.split sum.split)
  qed simp
  then show ?thesis by (simp add: tun_nodep2p_foreach_cmd_def)
qed

lemma foreach_keeps_routing:
  assumes "tun_nodep2p_foreach_cmd cmd data s = (r, s')"
  shows "m_routing_manager s' = m_routing_manager s"
proof -
  have "s\<lparr>m_routing_manager := m_routing_manager s\<rparr> = s" by simp
  then have "(r, s') = map_prod id (\<lambda>t. t\<lparr>m_routing_manager := m_routing_manager s\<rparr>) (r, s')"
    using foreach_routing [where s = s and rm = "m_routing_manager s" and cmd = cmd and data = data] assms by simp
  then have "s' = s'\<lparr>m_routing_manager := m_routing_manager s\<rparr>" by simp
  then show ?thesis by (metis c_tunserver.select_convs(9) c_tunserver.surjective c_tunserver.update_convs(9))
qed

lemma map_modify_same: "map_sorted m \<Longrightarrow> find_key k m = Some v \<Longrightarrow> map_modify k (\<lambda>_. v) m = m"
  unfolding map_modify_def
proof (rule map_idI)
  fix x
  assume "map_sorted m" "find_key k m = Some v" "x \<in> set m"
  then show "(case x of (a, b) \<Rightarrow> if a = k then (a, v) else (a, b)) = x"
    using in_find_key [of m "fst x" "snd x"] by (cases x) auto
qed

lemma now_run: "on_world steady_now s = (Inr (w_clock (m_world s) (w_clock_reads (m_world s))), s\<lparr>m_world := (m_world s)\<lparr>w_clock_reads := Suc (w_clock_reads (m_world s))\<rparr>\<rparr>)"
  by (simp add: on_world_def steady_now_def)

lemma alone_get_route_direct: "alone (get_route_direct_sections dst) s = on_routing (get_route_direct tun_node dst) s"
proof (cases "find_key dst (m_peer s)")
  case None
  then show ?thesis
    by (simp add: get_route_direct_sections_def get_route_direct_def on_routing_def tun_node_def tun_get_peer_with_hip_def
        andThen_def on_snd_def)
next
  case (Some p)
  then show ?thesis
    by (cases "m_pubkey p")
      (simp_all add: get_route_direct_sections_def get_route_direct_def on_routing_def tun_node_def tun_get_peer_with_hip_def
        andThen_def on_snd_def on_fst_def liftR_def c_route_info_new_def now_run ret_def split: prod.split)
qed

lemma alone_search_execute:
  assumes "map_sorted (m_search (m_routing_manager s))"
  shows "alone (search_execute_sections dst) s = on_routing (on_search dst (search_execute tun_node)) s"
proof (cases "find_key dst (m_search (m_routing_manager s))")
  case None
  then show ?thesis by (simp add: search_execute_sections_def on_routing_def on_search_def liftR_def)
next
  case (Some search)
  let ?b = "of_int (m_ttl_should_use search) :: byte"
  obtain r s1 where cmd: "tun_nodep2p_foreach_cmd e_proto_cmd_findhip_query (findhip_query_data (m_addr search) ?b) s = (r, s1)"
    by force
  note rm = foreach_keeps_routing [OF cmd]
  note same = map_modify_same [OF assms Some]
  show ?thesis
    by (cases r; cases "m_ttl_should_use search = uint ?b")
      (use Some cmd rm same in \<open>simp_all add: search_execute_sections_def search_execute_def on_routing_def on_search_def tun_node_def
        Let_def andThen_def on_snd_def liftR_def search_done_def now_run\<close>)
qed

lemma on_search_execute_table:
  "on_search dst (search_execute tun_node) (rm, s\<lparr>m_routing_manager := rm'\<rparr>)
     = map_prod id (map_prod id (\<lambda>t. t\<lparr>m_routing_manager := rm'\<rparr>)) (on_search dst (search_execute tun_node) (rm, s))"
  by (simp add: on_search_def search_execute_def tun_node_def Let_def andThen_def on_snd_def foreach_routing now_run assertA_def
      split: option.split prod.split sum.split)

lemma add_request_returns: "\<exists>search' w'. add_request tun_node reason ttl (search, w) = (Inr (), (search', w'))
    \<and> m_routing_manager w' = m_routing_manager w \<and> m_addr search' = m_addr search \<and> m_ttl_should_use search' = max (m_ttl_should_use search) ttl"
  by (simp add: add_request_def andThen_def on_snd_def tun_node_def now_run Let_def)

lemma alone_search_for:
  assumes "map_sorted (m_search (m_routing_manager s))"
  shows "alone (search_for_sections dst reason ttl) s = on_routing (search_for tun_node dst reason ttl) s"
proof (cases "find_key dst (m_search (m_routing_manager s))")
  case None
  obtain search s1 where req: "add_request tun_node reason ttl (c_route_search_new dst ttl, s) = (Inr (), (search, s1))"
    using add_request_returns by blast
  let ?rm = "(m_routing_manager s)\<lparr>m_search := emplace_key dst search (m_search (m_routing_manager s))\<rparr>"
  have new: "on_routing (new_search dst reason ttl) s = (Inr (), s1\<lparr>m_routing_manager := ?rm\<rparr>)"
    using req by (simp add: on_routing_def new_search_def)
  have "map_sorted (m_search ?rm)" using assms by (simp add: map_sorted_emplace_key)
  then have "alone (search_for_sections dst reason ttl) s
      = on_routing (on_search dst (search_execute tun_node)) (s1\<lparr>m_routing_manager := ?rm\<rparr>)"
    using None new by (simp add: search_for_sections_def andThen_def alone_search_execute)
  also have "\<dots> = on_routing (search_for tun_node dst reason ttl) s"
    using None req on_search_execute_table [where dst = dst and rm = ?rm and s = s1 and rm' = ?rm] by (simp add: on_routing_def search_for_def split: prod.split)
  finally show ?thesis .
qed (simp add: search_for_sections_def on_routing_def search_for_def)

lemma alone_known_or_search:
  assumes "map_sorted (m_search (m_routing_manager s))"
  shows "alone (get_route_known_or_search_sections dst reason start ttl) s
    = on_routing (get_route_known_or_search tun_node dst reason start ttl) s"
  using alone_search_for [OF assms, of dst reason ttl]
  by (auto simp: get_route_known_or_search_sections_def get_route_known_or_search_def on_routing_def andThen_def liftR_def
      split: option.split prod.split sum.split)

lemma agrees_get_route:
  "agrees lib (get_route_sections dst reason start ttl) (on_routing (get_route_or_maybe_search tun_node dst reason start ttl))"
  unfolding agrees_def
proof (intro allI impI)
  fix s :: "('a, 'b) c_tunserver"
  assume "node_wf lib s"
  then have sorted: "map_sorted (m_search (m_routing_manager s))" by (simp add: node_wf_def routing_wf_def)
  obtain r rm s1 where direct: "get_route_direct tun_node dst (m_routing_manager s, s) = (r, (rm, s1))"
    by (metis prod.collapse)
  have "rm = m_routing_manager s \<and> s1 = s" if "r = Inl e" "e = Expected_not_found_missing_pubkey \<or> e = Expected_not_found" for e
    using direct that
    by (auto simp: get_route_direct_def tun_node_def tun_get_peer_with_hip_def andThen_def on_snd_def on_fst_def now_run
        c_route_info_new_def add_route_info_and_return_def split: option.splits prod.splits sum.splits)
  then show "alone (get_route_sections dst reason start ttl) s = on_routing (get_route_or_maybe_search tun_node dst reason start ttl) s"
    using alone_known_or_search [OF sorted, of dst reason start ttl] direct
    by (auto simp: get_route_sections_def get_route_or_maybe_search_def alone_attempt alone_get_route_direct on_routing_def liftR_def
        split: sum.split prod.split)
qed

section \<open>Routing of tunnelled data and the handlers\<close>

lemma agrees_find_via: "agrees lib (find_via_sections hip reason) (find_via hip reason)"
  using agrees_get_route [of lib hip reason True ttl_max_accepted]
  by (auto simp: agrees_def find_via_sections_def find_via_def alone_attempt liftR_def split: prod.split sum.split)

lemma keeps_find_via: "keeps (wf_step lib) (find_via hip reason)"
proof (rule keeps_wfI)
  fix s :: "('a, 'b) c_tunserver"
  assume "node_wf lib s"
  then show "node_wf lib (snd (find_via hip reason s))"
    using keeps_wfD [OF keeps_get_route [of ttl_max_accepted lib hip reason True], of s]
    by (auto simp: find_via_def ttl_max_accepted_def split: prod.split sum.split)
qed

lemma agrees_route_detail:
  "level \<le> 2 \<Longrightarrow> agrees lib (route_detail_sections (2 - level) data src dst nxt reason ttl nonce)
     (route_tun_data_to_its_destination_detail meth data src dst nxt reason level ttl nonce)"
proof (induction "2 - level" arbitrary: level nxt)
  case 0
  then have "level = 2" by simp
  then show ?case
    by (auto simp: agrees_def route_tun_data_to_its_destination_detail.simps [of meth data src dst nxt reason 2] liftR_def
        liftR_Inr split: prod.split)
next
  case (Suc n)
  have IH: "agrees lib (route_detail_sections n data src dst via reason ttl nonce)
     (route_tun_data_to_its_destination_detail meth data src dst via reason (level + 1) ttl nonce)" for via
  proof -
    have "n = 2 - (level + 1)" "level + 1 \<le> 2" using Suc.hyps(2) Suc.prems by arith+
    from Suc.hyps(1) [OF this, of via] this(1) show ?thesis by simp
  qed
  show ?case
    unfolding agrees_def
  proof (intro allI impI)
    fix s :: "('a, 'b) c_tunserver"
    assume wf: "node_wf lib s"
    obtain r s1 where via: "find_via nxt reason s = (r, s1)" by force
    have wf1: "node_wf lib s1" using keeps_wfD [OF keeps_find_via wf, of nxt reason] via by simp
    have low: "\<not> 1 < level" using Suc.hyps(2) by arith
    show "alone (route_detail_sections (2 - level) data src dst nxt reason ttl nonce) s
        = route_tun_data_to_its_destination_detail meth data src dst nxt reason level ttl nonce s"
      unfolding Suc.hyps(2) [symmetric]
      using low via agreesD [OF agrees_find_via wf, of nxt reason] agreesD [OF IH wf1]
      by (auto simp: route_tun_data_to_its_destination_detail.simps [of meth data src dst nxt reason level] liftR_def
          liftR_Inr andThen_def split: sum.split option.split)
  qed
qed

lemma agrees_route_top:
  "agrees lib (route_top_sections data src dst reason ttl nonce)
     (route_tun_data_to_its_destination_top meth data src dst reason ttl nonce)"
  using agrees_route_detail [of 0 lib data src dst dst reason ttl nonce meth]
  by (auto simp: agrees_def route_top_sections_def route_tun_data_to_its_destination_top_def alone_attempt liftR_def
      split: prod.split sum.split)

lemma agrees_Finished: "agrees lib (Finished r) (liftR r)"
  by (simp add: agrees_def)

lemma agrees_return: "agrees lib (Finished (Inr a)) (ret a)" and agrees_throw: "agrees lib (Finished (Inl e)) (raise e)"
  and agrees_assert: "agrees lib (Finished (if b then Inr () else Inl Abort)) (assertA b)"
  by (simp_all add: agrees_def liftR_def)

lemma agrees_critical: "agrees lib (critical m) m"
  by (simp add: agrees_def)

lemma agrees_case_prod: "(\<And>a b. agrees lib (f a b) (g a b)) \<Longrightarrow> agrees lib (case_prod f x) (case_prod g x)"
  by (cases x) simp

lemma agrees_if: "agrees lib p m \<Longrightarrow> agrees lib q n \<Longrightarrow> agrees lib (if b then p else q) (if b then m else n)"
  by simp

lemmas agrees_steps = agrees_thenP agrees_return agrees_throw agrees_assert agrees_Finished agrees_critical agrees_case_prod agrees_if

lemma agrees_route:
  "agrees lib (thenP (route_top_sections data src dst reason ttl nonce) (\<lambda>_. Finished (Inr ())))
     (andThen (route_tun_data_to_its_destination_top meth data src dst reason ttl nonce) (\<lambda>_. ret ()))"
  by (intro agrees_thenP agrees_route_top keeps_route_top agrees_return)

lemma agrees_send_own_data: "agrees lib (send_own_data_sections lib buff src dst) (send_own_data lib buff src dst)"
  unfolding send_own_data_sections_def send_own_data_def
  by (intro agrees_steps agrees_route node_keeps)

lemma agrees_tun_packet: "agrees lib (handle_tun_packet_sections lib host buff) (handle_tun_packet lib host buff)"
  unfolding handle_tun_packet_sections_def
  by (rule agrees_readP)
    (auto simp: handle_tun_packet_def liftR_def agreesD [OF agrees_send_own_data] simp del: alone_thenP
      intro!: agreesD [OF agrees_route] split: sum.split)

lemma agrees_tunneled_data:
  "agrees lib (handle_tunneled_data_sections lib host sender buf) (handle_tunneled_data lib host sender buf)"
  unfolding handle_tunneled_data_sections_def handle_tunneled_data_def
  by (intro agrees_thenP agrees_Finished node_keeps agrees_case_prod agrees_readP)
    (auto simp: liftR_def simp del: alone_thenP intro!: agreesD [OF agrees_route])

lemma agrees_hello_body: "agrees lib (hello_body_sections lib host pip hello) (hello_body lib host pip hello)"
  unfolding hello_body_sections_def hello_body_def
  by (intro agrees_case_prod agrees_readP) (simp add: case_prod_unfold)

lemma agrees_public_hi: "agrees lib (handle_public_hi_sections lib host pip buf) (handle_public_hi lib host pip buf)"
proof -
  have "agrees lib (attempt (hello_body_sections lib host pip hello) (\<lambda>r. Finished (case r of
         Inl e \<Rightarrow> if is_invalid_argument e then Inr () else Inl e | Inr _ \<Rightarrow> Inr ())))
      (\<lambda>s. case hello_body lib host pip hello s of
         (Inl e, s') \<Rightarrow> if is_invalid_argument e then (Inr (), s') else (Inl e, s')
       | (Inr _, s') \<Rightarrow> (Inr (), s'))" for hello
    using agrees_hello_body [of lib host pip hello]
    by (auto simp: agrees_def alone_attempt liftR_def split: prod.split sum.split)
  then show ?thesis
    unfolding handle_public_hi_sections_def handle_public_hi_def by (intro agrees_steps node_keeps)
qed

lemma agrees_answer_query:
  "ttl < 128 \<Longrightarrow> agrees lib (answer_query_sections pip sender hip req ttl) (answer_query pip sender hip req ttl)"
  unfolding answer_query_sections_def answer_query_def
  by (intro agrees_steps agrees_get_route node_keeps) simp

lemma agrees_findhip_query:
  "agrees lib (handle_findhip_query_sections pip sender hip buf) (handle_findhip_query pip sender hip buf)"
proof -
  have "agrees lib (thenP (Finished (parse_findhip_query d)) (\<lambda>(req, ttl).
       if ttl < 1 then Finished (Inr ()) else case sender of None \<Rightarrow> Finished (Inl Abort)
         | Some key \<Rightarrow> catch_allP (answer_query_sections pip key hip req ttl)))
     (andThen (liftR (parse_findhip_query d)) (\<lambda>(req, ttl).
       if ttl < 1 then ret () else case sender of None \<Rightarrow> raise Abort
         | Some key \<Rightarrow> catch_all (answer_query pip key hip req ttl)))" for d
  proof (cases "parse_findhip_query d")
    case (Inr q)
    then obtain req ttl where q: "q = (req, ttl)" "ttl < 128" using parse_findhip_query_ttl by (cases q) auto
    from agrees_answer_query [OF this(2), of lib pip _ hip req] show ?thesis
      by (auto simp: Inr q agrees_def andThen_liftR_case liftR_def catch_all_def split: option.split)
  qed (simp add: agrees_def andThen_liftR_case)
  then show ?thesis
    unfolding handle_findhip_query_sections_def handle_findhip_query_def
    by (rule agrees_thenP [OF agrees_assert keeps_steps(4)])
qed

lemma agrees_recognise: "agrees lib (recognise_sender_sections cmd pip n) (recognise_sender cmd pip n)"
  by (simp add: agrees_def recognise_sender_sections_def recognise_sender_def liftR_Inr)

lemma agrees_udp_packet: "agrees lib (handle_udp_packet_sections lib host pip buf) (handle_udp_packet lib host pip buf)"
  unfolding handle_udp_packet_sections_def handle_udp_packet_def
  by (intro agrees_steps agrees_recognise agrees_tunneled_data agrees_public_hi agrees_findhip_query node_keeps)

lemma agrees_event: "agrees lib (handle_event_sections lib host ev) (handle_event lib host ev)"
  by (cases ev) (simp_all add: handle_event_sections_def handle_event_def agrees_tun_packet agrees_udp_packet agrees_return agrees_critical)

lemma alone_maybe_ping:
  "alone (maybe_ping_sections hello_interval l) s = (case maybe_ping hello_interval (l, s) of
     (Inl e, (l', s')) \<Rightarrow> (Inl e, s') | (Inr _, (l', s')) \<Rightarrow> (Inr l', s'))"
  "maybe_ping hello_interval (l, s) = (Inl e, (l', s')) \<Longrightarrow> l' = l"
  by (auto simp: maybe_ping_sections_def maybe_ping_def andThen_def on_snd_def liftR_def Let_def split: prod.splits sum.splits if_splits)

lemma alone_event_loop_pass:
  assumes "node_wf lib s"
  shows "event_loop_pass lib host hello_interval ev (l, s) =
    (case alone (event_loop_pass_sections lib host hello_interval ev l) s of
       (Inl e, s') \<Rightarrow> (Inl Abort, snd (event_loop_pass lib host hello_interval ev (l, s)))
     | (Inr l', s') \<Rightarrow> (Inr (), (l', s')))"
proof -
  obtain r l1 s1 where ping: "maybe_ping hello_interval (l, s) = (r, (l1, s1))" by (metis prod.collapse)
  have wf1: "node_wf lib s1"
    using keepsD [OF keeps_maybe_ping [of lib hello_interval], of "(l, s)"] ping assms by (simp add: wf_pass_def wf_step_def)
  obtain q s2 where ev: "handle_event lib host ev s1 = (q, s2)" by force
  show ?thesis
    using alone_maybe_ping(1) [of hello_interval l s] alone_maybe_ping(2) [of hello_interval l s _ l1 s1] ping ev
      agreesD [OF agrees_event wf1, of host ev]
    by (cases r; cases q)
      (auto simp: event_loop_pass_def event_loop_pass_sections_def alone_attempt catch_all_def andThen_def on_snd_def liftR_def)
qed

end
