(* ===== verification/Node_Threads.thy ===== *)
theory Node_Threads
  imports Node_Alone
begin

text \<open>
  The node with its threads interleaved: the thread of the event loop and the thread of the remote control
  take turns at the borders of their critical sections. \<open>interleaved_reachable\<close> holds of the states any interleaving
  reaches; it lets every section of every method run at any time, so it covers every schedule of any number of threads.
  What survives interleaving is the invariant \<open>shared_wf\<close>: the one of \<open>node_wf\<close> without the black list.
\<close>

section \<open>Interleaved executions\<close>

inductive node_section ::
    "('bx, 'ux) crypto_lib \<Rightarrow> host_lib \<Rightarrow> (('bx, 'ux) c_tunserver \<Rightarrow> ('bx, 'ux) c_tunserver) \<Rightarrow> bool"
  for lib host where
  \<comment> \<open>the main thread: set-up and event loop\<close>
  pass: "section_of (event_loop_pass_sections lib host hello_interval ev l) f \<Longrightarrow> node_section lib host f"
| greet: "section_of (critical peering_ping_all_peers) f \<Longrightarrow> node_section lib host f"
| keys: "section_of (critical (configure_mykey lib host load_string)) f \<Longrightarrow> node_section lib host f"
| socket: "section_of (critical (prepare_socket device_ready)) f \<Longrightarrow> node_section lib host f"
| add: "section_of (add_peer_simplestring_sections host simple) f \<Longrightarrow> node_section lib host f"
| add_new: "section_of (add_peer_simplestring_new_format_sections host simple) f \<Longrightarrow> node_section lib host f"
| delete: "section_of (delete_peer_simplestring_sections host simple is_banned) f \<Longrightarrow> node_section lib host f"
| nice: "section_of (critical (get_my_ipv6_nice lib)) f \<Longrightarrow> node_section lib host f"
| prefix: "node_section lib host (set_prefix prefix)"
| prefix_len: "node_section lib host (set_prefix_len n)"
| name: "node_section lib host (set_my_name text)"
| remove: "node_section lib host enable_remove_peers"
| timeout: "node_section lib host (set_remove_peer_tometout seconds)"
| outside: "node_section lib host (\<lambda>s. s\<lparr>m_world := (m_world s)\<lparr>w_rng := n, g_dbg_level := level\<rparr>\<rparr>)"
  \<comment> \<open>the thread of the remote control\<close>
| rpc_add: "section_of (rpc_add_peer_sections host peer format) f \<Longrightarrow> node_section lib host f"
| rpc_delete: "section_of (rpc_delete_peer_sections host peer) f \<Longrightarrow> node_section lib host f"
| rpc_ban: "section_of (rpc_ban_peer_sections host peer) f \<Longrightarrow> node_section lib host f"
| rpc_all: "section_of (critical (delete_all_peers is_banned)) f \<Longrightarrow> node_section lib host f"
| rpc_exit: "node_section lib host exit_tunserver"
| rpc_test: "section_of (critical (rpc_sending_test host packet_size packet_count)) f \<Longrightarrow> node_section lib host f"

inductive interleaved_reachable :: "('bx, 'ux) crypto_lib \<Rightarrow> host_lib \<Rightarrow> ('bx, 'ux) c_tunserver \<Rightarrow> bool"
  for lib host where
  start: "interleaved_reachable lib host (c_tunserver_new w port peer_timeout0)"
| turn: "interleaved_reachable lib host s \<Longrightarrow> node_section lib host f \<Longrightarrow> interleaved_reachable lib host (f s)"

section \<open>The invariant that survives\<close>

definition peers_filed :: "('bx, 'ux) crypto_lib \<Rightarrow> (c_haship_addr \<times> c_peering) list \<Rightarrow> bool" where
  "peers_filed lib m \<longleftrightarrow> map_sorted m \<and> (\<forall>hip p. find_key hip m = Some p \<longrightarrow> peer_ok lib hip p)"

definition shared_wf :: "('bx, 'ux) crypto_lib \<Rightarrow> ('bx, 'ux) c_tunserver \<Rightarrow> bool" where
  "shared_wf lib s \<longleftrightarrow> peers_filed lib (m_peer s) \<and> map_sorted (m_tunnel s) \<and> routing_wf (m_routing_manager s)"

definition not_banned :: "('bx, 'ux) c_tunserver \<Rightarrow> bool" where
  "not_banned s \<longleftrightarrow> (\<forall>hip p. find_key hip (m_peer s) = Some p \<longrightarrow> hip \<notin> m_peer_black_list s)"

lemma node_wf_shared: "node_wf lib s \<longleftrightarrow> shared_wf lib s \<and> not_banned s"
  by (auto simp: node_wf_def peers_wf_def shared_wf_def peers_filed_def not_banned_def)

abbreviation shared_step :: "('bx, 'ux) crypto_lib \<Rightarrow> ('bx, 'ux) c_tunserver \<Rightarrow> ('bx, 'ux) c_tunserver \<Rightarrow> bool" where
  "shared_step lib s s' \<equiv> shared_wf lib s \<longrightarrow> shared_wf lib s'"

named_theorems shared_keeps \<open>operations that keep the invariant that survives interleaving\<close>

lemma shared_step_reflp: "reflp (shared_step lib)" and shared_step_transp: "transp (shared_step lib)"
  by (auto simp: reflp_def transp_def)

lemmas shared_steps [shared_keeps] =
  keeps_andThen [OF shared_step_transp] keeps_ret [OF shared_step_reflp]
  keeps_raise [OF shared_step_reflp] keeps_if keeps_case_prod

lemma shared_liftR [shared_keeps]: "keeps (shared_step lib) (liftR r)"
  by (simp add: keeps_def)

lemma sharedI: "(\<And>s. shared_wf lib s \<Longrightarrow> shared_wf lib (snd (m s))) \<Longrightarrow> keeps (shared_step lib) m"
  by (simp add: keeps_def)

lemma shared_unchanged:
  assumes "\<And>s. m_peer (snd (m s)) = m_peer s \<and> m_tunnel (snd (m s)) = m_tunnel s
    \<and> m_routing_manager (snd (m s)) = m_routing_manager s"
  shows "keeps (shared_step lib) m"
  using assms by (intro sharedI) (simp add: shared_wf_def)

lemma shared_on_world [shared_keeps]: "keeps (shared_step lib) (on_world m)"
  by (rule shared_unchanged) (simp add: on_world_def split: prod.split)

lemma shared_on_tunnel [shared_keeps]: "keeps (shared_step lib) (on_tunnel hip m)"
  by (rule sharedI) (auto simp: on_tunnel_def shared_wf_def map_sorted_modify split: option.split prod.split)

lemma shared_on_peer:
  assumes "\<And>p w. peer_ok lib hip p \<Longrightarrow> peer_ok lib hip (fst (snd (m (p, w))))"
  shows "keeps (shared_step lib) (on_peer hip m)"
proof (rule sharedI)
  fix s :: "('a, 'b) c_tunserver"
  assume "shared_wf lib s"
  then show "shared_wf lib (snd (on_peer hip m s))"
    using assms [of _ "m_world s"]
    by (auto simp: on_peer_def shared_wf_def peers_filed_def map_sorted_modify split: option.split prod.split
        dest!: smap.find_modifyD) (metis fst_conv snd_conv)
qed

lemma shared_send_cmd [shared_keeps]: "keeps (shared_step lib) (on_peer hip (send_data_udp_cmd cmd data))"
proof (rule shared_on_peer)
  show "peer_ok lib hip (fst (snd (send_data_udp_cmd cmd data (p, w))))" if "peer_ok lib hip p" for p w
    using send_data_udp_cmd_run [of cmd data p w] that by auto
qed

lemma shared_send_data [shared_keeps]: "keeps (shared_step lib) (on_peer hip (send_data_udp data src dst ttl nonce))"
proof (rule shared_on_peer)
  show "peer_ok lib hip (fst (snd (send_data_udp data src dst ttl nonce (p, w))))" if "peer_ok lib hip p" for p w
    using send_data_udp_run [of data src dst ttl nonce p w] that by (auto simp: peer_ok_def)
qed

lemma shared_read_stats [shared_keeps]: "keeps (shared_step lib) (on_peer hip (on_stats (update_read_stats n)))"
  by (rule shared_on_peer) (auto simp: on_stats_def peer_ok_def split: prod.split)

lemma shared_foreach [shared_keeps]: "keeps (shared_step lib) (tun_nodep2p_foreach_cmd cmd data)"
proof -
  have "keeps (shared_step lib) (forA (\<lambda>hip. on_peer hip (send_data_udp_cmd cmd data)) hips)" for hips
    by (intro keeps_forA shared_step_reflp shared_step_transp shared_keeps)
  then show ?thesis unfolding tun_nodep2p_foreach_cmd_def by (intro sharedI) (auto dest: keepsD)
qed

lemma peers_filed_emplace: "peers_filed lib m \<Longrightarrow> peer_ok lib hip p \<Longrightarrow> peers_filed lib (emplace_key hip p m)"
  by (auto simp: peers_filed_def map_sorted_emplace_key dest!: smap.find_emplaceD)

lemma peers_filed_subset: "peers_filed lib m \<Longrightarrow> map_sorted m' \<Longrightarrow> set m' \<subseteq> set m \<Longrightarrow> peers_filed lib m'"
  using in_find_key [of m] by (auto simp: peers_filed_def dest!: find_key_in)

lemma shared_append_pubkey [shared_keeps]: "keeps (shared_step lib) (add_peer_append_pubkey lib ref pub)"
proof (rule sharedI)
  fix s :: "('a, 'b) c_tunserver"
  assume wf: "shared_wf lib s"
  show "shared_wf lib (snd (add_peer_append_pubkey lib ref pub s))"
  proof (cases "\<exists>pub'. c_haship_addr_by_hash_of_pubkey lib pub = (Inr (haship_addr ref), pub')")
    case True
    then obtain pub' where h: "c_haship_addr_by_hash_of_pubkey lib pub = (Inr (haship_addr ref), pub')" by blast
    note ok = by_hash_again [OF h]
    obtain p w' where new: "c_peering_new ref (m_world s) = (Inr p, w')" "m_haship_addr p = haship_addr ref"
      using c_peering_new_run by blast
    have "peer_ok lib (haship_addr ref) (set_pubkey pub' p)" using new(2) ok by (simp add: peer_ok_def set_pubkey_def)
    then have append: "shared_wf lib (snd (append_new_peer ref pub' s))"
      using wf new(1) by (simp add: append_new_peer_def on_world_def shared_wf_def peers_filed_emplace)
    have "keeps (shared_step lib) (on_peer (haship_addr ref) (update_existing_peer ref pub'))"
      by (rule shared_on_peer)
        (use ok in \<open>auto simp: update_existing_peer_def update_last_ping_time_def andThen_def on_snd_def
          steady_now_def Let_def peer_ok_def set_pubkey_def set_pip_def split: sum.split\<close>)
    with wf have update: "shared_wf lib (snd (on_peer (haship_addr ref) (update_existing_peer ref pub') s))" by (simp add: keeps_def)
    show ?thesis
      using append update by (auto simp: add_peer_append_pubkey_def Let_def h andThen_def split: prod.split sum.split)
  qed (use wf in \<open>auto simp: add_peer_append_pubkey_def Let_def split: prod.split sum.split\<close>)
qed

lemma shared_add_tunnel [shared_keeps]: "keeps (shared_step lib) (add_tunnel_to_pubkey lib pub)"
  by (rule sharedI)
    (auto simp: add_tunnel_to_pubkey_def shared_wf_def map_sorted_emplace_key split: prod.split sum.split option.split)

lemma shared_add_peer: "length (haship_addr ref) = 16 \<Longrightarrow> keeps (shared_step lib) (add_peer ref)"
proof (rule sharedI)
  fix s :: "('a, 'b) c_tunserver"
  assume "length (haship_addr ref) = 16" and "shared_wf lib s"
  moreover obtain p w' where "c_peering_new ref (m_world s) = (Inr p, w')" "m_haship_addr p = haship_addr ref" "m_pubkey p = None"
    using c_peering_new_run by blast
  moreover from this calculation(1) have "peer_ok lib (haship_addr ref) p" by (simp add: peer_ok_def)
  ultimately show "shared_wf lib (snd (add_peer ref s))"
    by (simp add: add_peer_def andThen_def on_world_def shared_wf_def peers_filed_emplace)
qed

lemma shared_black_list [shared_keeps]:
  "keeps (shared_step lib) (delete_peer_from_black_list hip)" "keeps (shared_step lib) (add_peer_to_black_list hip)"
  by (rule shared_unchanged; simp add: delete_peer_from_black_list_def add_peer_to_black_list_def)+

lemma shared_delete [shared_keeps]:
  "keeps (shared_step lib) (delete_peer hip)" "keeps (shared_step lib) (delete_all_peers is_banned)"
proof -
  have "peers_filed lib (map_erase hip m)" if "peers_filed lib m" for m
    using that by (rule peers_filed_subset) (use that in \<open>simp_all add: peers_filed_def map_sorted_erase set_map_erase\<close>)
  then show "keeps (shared_step lib) (delete_peer hip)" by (intro sharedI) (simp add: delete_peer_def shared_wf_def)
  show "keeps (shared_step lib) (delete_all_peers is_banned)"
    by (rule sharedI) (simp add: delete_all_peers_def shared_wf_def peers_filed_def map_sorted_def map_find_linorder)
qed

lemma shared_table:
  assumes "\<And>rm s. routing_wf rm \<Longrightarrow> shared_wf lib s \<Longrightarrow> routing_wf (fst (snd (m (rm, s)))) \<and> shared_wf lib (snd (snd (m (rm, s))))"
  shows "keeps (shared_step lib) (on_routing m)"
proof (rule sharedI)
  fix s :: "('a, 'b) c_tunserver"
  assume "shared_wf lib s"
  then show "shared_wf lib (snd (on_routing m s))"
    using assms [of "m_routing_manager s" s] by (auto simp: on_routing_def shared_wf_def split: prod.splits)
qed

lemma shared_add_route [shared_keeps]: "keeps (shared_step lib) (on_routing (on_fst (add_route_info_and_return goal info)))"
  by (rule shared_table) (simp add: on_fst_def case_prod_unfold routing_wf_route)

lemma shared_search:
  assumes "\<And>search w. shared_wf lib w \<Longrightarrow> search_ok dst search
      \<Longrightarrow> search_ok dst (fst (snd (m (search, w)))) \<and> shared_wf lib (snd (snd (m (search, w))))"
  shows "keeps (shared_step lib) (on_routing (on_search dst m))"
proof (rule shared_table)
  fix rm and w :: "('a, 'b) c_tunserver"
  assume wf: "routing_wf rm" "shared_wf lib w"
  show "routing_wf (fst (snd (on_search dst m (rm, w)))) \<and> shared_wf lib (snd (snd (on_search dst m (rm, w))))"
  proof (cases "find_key dst (m_search rm)")
    case (Some search)
    with assms [OF wf(2) routing_wfD(3) [OF wf(1) Some]] wf show ?thesis
      by (simp add: on_search_def case_prod_unfold routing_wf_modify)
  qed (use wf in \<open>simp add: on_search_def\<close>)
qed

lemma shared_clock: "shared_wf lib (s\<lparr>m_world := w\<rparr>) = shared_wf lib s"
  by (simp add: shared_wf_def)

lemma add_request_keeps:
  assumes "shared_wf lib w" and "search_ok dst search" and "ttl \<le> 255"
  shows "search_ok dst (fst (snd (add_request tun_node reason ttl (search, w))))
    \<and> shared_wf lib (snd (snd (add_request tun_node reason ttl (search, w))))"
  using assms by (simp add: add_request_def andThen_def on_snd_def tun_node_def now_run Let_def search_ok_def shared_clock le_max_iff_disj)

lemma shared_searches [shared_keeps]:
  "ttl \<le> 255 \<Longrightarrow> keeps (shared_step lib) (on_routing (on_search dst (add_request tun_node reason ttl)))"
  "keeps (shared_step lib) (on_routing (on_search dst (search_done b)))"
  "ttl \<le> 255 \<Longrightarrow> keeps (shared_step lib) (on_routing (new_search dst reason ttl))"
proof -
  show "ttl \<le> 255 \<Longrightarrow> keeps (shared_step lib) (on_routing (on_search dst (add_request tun_node reason ttl)))"
    by (rule shared_search) (rule add_request_keeps)
  show "keeps (shared_step lib) (on_routing (on_search dst (search_done b)))"
    by (rule shared_search) (simp add: search_done_def andThen_def on_snd_def tun_node_def now_run search_ok_def shared_clock)
  assume ttl: "ttl \<le> 255"
  show "keeps (shared_step lib) (on_routing (new_search dst reason ttl))"
  proof (rule shared_table)
    fix rm and w :: "('a, 'b) c_tunserver"
    assume wf: "routing_wf rm" "shared_wf lib w"
    have "search_ok dst (c_route_search_new dst ttl)" by (simp add: c_route_search_new_def search_ok_def)
    from add_request_keeps [OF wf(2) this ttl, of reason] wf
    show "routing_wf (fst (snd (new_search dst reason ttl (rm, w)))) \<and> shared_wf lib (snd (snd (new_search dst reason ttl (rm, w))))"
      by (auto simp: new_search_def routing_wf_emplace split: prod.split sum.split)
  qed
qed

lemma shared_reads [shared_keeps]:
  "keeps (shared_step lib) (find_peer_by_sender_peering_addr pip)" "keeps (shared_step lib) (tun_get_peer_with_hip dst b)"
  "keeps (shared_step lib) (\<lambda>s. (Inr (g s), s))" "keeps (shared_step lib) (c_route_info_new tun_node hip cost pub)"
proof -
  show "keeps (shared_step lib) (c_route_info_new tun_node hip cost pub)"
    unfolding c_route_info_new_def tun_node_def by (simp add: shared_keeps)
qed (rule shared_unchanged; simp add: find_peer_by_sender_peering_addr_def tun_get_peer_with_hip_def split: option.split)+

lemma shared_set_up [shared_keeps]:
  "keeps (shared_step lib) (prepare_socket device_ready)" "keeps (shared_step lib) (configure_mykey lib host load_string)"
  "keeps (shared_step lib) (get_my_ipv6_nice lib)"
  by (rule shared_unchanged; simp add: prepare_socket_def configure_mykey_def get_my_ipv6_nice_def Let_def
      split: prod.split sum.split)+

lemma shared_sending_test [shared_keeps]: "keeps (shared_step lib) (rpc_sending_test host packet_size packet_count)"
proof -
  have "keeps (shared_step lib) (\<lambda>s. rpc_sending_test host packet_size packet_count s)"
    unfolding rpc_sending_test_def by (rule keeps_state) (intro shared_keeps)
  then show ?thesis .
qed

lemma shared_deliver [shared_keeps]: "keeps (shared_step lib) (deliver_to_tun lib src dst blob nonce)"
  unfolding deliver_to_tun_def
  by (rule keeps_andThen [OF shared_step_transp shared_on_tunnel], rule keeps_state) (intro shared_keeps)

lemma shared_findhip_reply [shared_keeps]: "keeps (shared_step lib) (handle_findhip_reply lib hip buf)"
proof -
  have "keeps (shared_step lib) (\<lambda>s. if ttl < 1 then (Inr (), s) else
         andThen (add_tunnel_to_pubkey lib (f s)) (\<lambda>_.
         andThen (c_route_info_new tun_node hip cost (g s)) (\<lambda>route_info.
         andThen (on_routing (on_fst (add_route_info_and_return goal route_info))) (\<lambda>_. ret ()))) s)"
    for ttl :: int and f g cost goal
  proof (cases "ttl < 1")
    case False
    have "keeps (shared_step lib) (andThen (add_tunnel_to_pubkey lib x) (\<lambda>_.
         andThen (c_route_info_new tun_node hip cost y) (\<lambda>route_info.
         andThen (on_routing (on_fst (add_route_info_and_return goal route_info))) (\<lambda>_. ret ()))))" for x y
      by (intro shared_keeps)
    then show ?thesis by (simp add: False keeps_def)
  qed (simp add: keeps_def)
  then show ?thesis
    unfolding handle_findhip_reply_def Let_def
    by (intro keeps_andThen [OF shared_step_transp] shared_liftR) (simp split: prod.split)
qed

lemma shared_greetings [shared_keeps]: "keeps (shared_step lib) peering_ping_all_peers"
proof -
  have remove: "shared_wf lib (remove_inactive_peers now s)" if "shared_wf lib s" for now and s :: "('a, 'b) c_tunserver"
    using that peers_filed_subset [of lib "m_peer s" "filter f (m_peer s)" for f]
    by (auto simp: remove_inactive_peers_def shared_wf_def peers_filed_def filter_map_sorted)
  have "keeps (shared_step lib) (\<lambda>s. andThen (liftR (hello_data s))
      (\<lambda>cmd_data. on_peer hip (send_data_udp_cmd e_proto_cmd_public_hi cmd_data)) s)" for hip
    by (rule keeps_state) (intro shared_keeps)
  then have "keeps (shared_step lib) (forA (\<lambda>hip s. andThen (liftR (hello_data s))
      (\<lambda>cmd_data. on_peer hip (send_data_udp_cmd e_proto_cmd_public_hi cmd_data)) s) hips)" for hips
    by (intro keeps_forA shared_step_reflp shared_step_transp)
  from keepsD [OF this] show ?thesis
    unfolding peering_ping_all_peers_def
    by (intro keeps_andThen [OF shared_step_transp shared_on_world] sharedI) (simp add: Let_def remove)
qed

section \<open>Every section of every thread keeps it\<close>

named_theorems section_keeps \<open>programs whose sections keep the invariant\<close>

lemma keep_critical [section_keeps]: "keeps (shared_step lib) m \<Longrightarrow> sections_keep (shared_wf lib) (critical m)"
  by (rule sections_keep_critical) (simp add: keeps_def)

lemma keep_case_option [section_keeps]:
  "sections_keep P a \<Longrightarrow> (\<And>x. sections_keep P (f x)) \<Longrightarrow> sections_keep P (case x of None \<Rightarrow> a | Some x \<Rightarrow> f x)"
  by (cases x) simp_all

lemma keep_case_sum [section_keeps]:
  "(\<And>e. sections_keep P (f e)) \<Longrightarrow> (\<And>a. sections_keep P (g a)) \<Longrightarrow> sections_keep P (case r of Inl e \<Rightarrow> f e | Inr a \<Rightarrow> g a)"
  by (cases r) simp_all

lemma keep_case_prod [section_keeps]: "(\<And>a b. sections_keep P (f a b)) \<Longrightarrow> sections_keep P (case_prod f x)"
  by (cases x) simp

lemma keep_if [section_keeps]: "sections_keep P p \<Longrightarrow> sections_keep P q \<Longrightarrow> sections_keep P (if b then p else q)"
  by simp

lemma keep_Finished [section_keeps]: "sections_keep P (Finished r)"
  by simp

lemmas keep_composed [section_keeps] = sections_keep_attempt sections_keep_thenP sections_keep_readP

lemma keep_catch [section_keeps]:
  "sections_keep P p \<Longrightarrow> sections_keep P (catch_exceptionP e p)" "sections_keep P q \<Longrightarrow> sections_keep P (catch_allP q)"
  "sections_keep P a \<Longrightarrow> sections_keep P (catch_bad_peerP cmd a)"
  by (simp_all add: catch_exceptionP_def catch_allP_def catch_bad_peerP_def sections_keep_attempt)

lemma keep_add_reference:
  assumes "\<And>ref. r = Inr ref \<Longrightarrow> length (haship_addr ref) = 16"
  shows "sections_keep (shared_wf lib) (thenP (Finished r) add_and_unban)"
  using assms by (cases r) (auto simp: thenP_def add_and_unban_def intro!: section_keeps shared_keeps shared_add_peer)

lemma keep_add_peer_simplestring [section_keeps]:
  assumes "v6_text_laws host"
  shows "sections_keep (shared_wf lib) (add_peer_simplestring_sections host simple)"
    and "sections_keep (shared_wf lib) (add_peer_simplestring_new_format_sections host simple)"
  by (simp_all add: add_peer_simplestring_sections_def add_peer_simplestring_new_format_sections_def keep_catch
      keep_add_reference [OF simplestring_length [OF assms]] keep_add_reference [OF new_format_length [OF assms]])

lemma keep_delete_peer_simplestring [section_keeps]:
  "sections_keep (shared_wf lib) (delete_peer_simplestring_sections host simple is_banned)"
  unfolding delete_peer_simplestring_sections_def by (intro section_keeps shared_keeps)

lemma keep_rpc:
  shows "v6_text_laws host \<Longrightarrow> sections_keep (shared_wf lib) (rpc_add_peer_sections host peer format)"
    and "sections_keep (shared_wf lib) (rpc_delete_peer_sections host peer)"
    and "sections_keep (shared_wf lib) (rpc_ban_peer_sections host peer)"
  unfolding rpc_add_peer_sections_def rpc_delete_peer_sections_def rpc_ban_peer_sections_def
  by (intro section_keeps shared_keeps; assumption?)+

lemma keep_get_route:
  assumes "ttl \<le> 255"
  shows "sections_keep (shared_wf lib) (get_route_sections dst reason start ttl)"
  unfolding get_route_sections_def get_route_direct_sections_def get_route_known_or_search_sections_def
    search_for_sections_def search_execute_sections_def Let_def
  by (intro section_keeps shared_keeps assms)

lemma keep_route_top [section_keeps]: "sections_keep (shared_wf lib) (route_top_sections data src dst reason ttl nonce)"
proof -
  have via: "sections_keep (shared_wf lib) (find_via_sections hip reason)" for hip
    unfolding find_via_sections_def by (intro section_keeps keep_get_route) (simp add: ttl_max_accepted_def)
  have "sections_keep (shared_wf lib) (route_detail_sections n data src dst nxt reason ttl nonce)" for n nxt
    by (induction n arbitrary: nxt) (simp_all only: route_detail_sections.simps, (intro section_keeps shared_keeps via; assumption?)+)
  then show ?thesis unfolding route_top_sections_def by (intro section_keeps)
qed

lemma keep_hello_body [section_keeps]: "sections_keep (shared_wf lib) (hello_body_sections lib host pip hello)"
  unfolding hello_body_sections_def by (intro section_keeps shared_keeps)

lemma keep_findhip_query [section_keeps]: "sections_keep (shared_wf lib) (handle_findhip_query_sections pip sender hip buf)"
proof -
  have "sections_keep (shared_wf lib) (answer_query_sections pip key hip req ttl)" if "ttl < 128" for key req ttl
    unfolding answer_query_sections_def using that by (intro section_keeps shared_keeps keep_get_route) simp
  then have query: "sections_keep (shared_wf lib) (thenP (Finished (parse_findhip_query d)) (\<lambda>(req, ttl).
       if ttl < 1 then Finished (Inr ()) else case sender of None \<Rightarrow> Finished (Inl Abort)
         | Some key \<Rightarrow> catch_allP (answer_query_sections pip key hip req ttl)))" for d
    using parse_findhip_query_ttl [of d]
    by (cases "parse_findhip_query d") (auto simp: thenP_def intro!: keep_catch split: option.split)
  show ?thesis unfolding handle_findhip_query_sections_def by (rule sections_keep_thenP [OF keep_Finished query])
qed

lemma keep_event_loop_pass: "sections_keep (shared_wf lib) (event_loop_pass_sections lib host hello_interval ev l)"
proof -
  have "sections_keep (shared_wf lib) (handle_event_sections lib host ev)"
    by (cases ev) (simp_all only: handle_event_sections_def event.case handle_tun_packet_sections_def send_own_data_sections_def
      handle_udp_packet_sections_def recognise_sender_sections_def handle_tunneled_data_sections_def handle_public_hi_sections_def,
      (intro section_keeps shared_keeps)+)
  then show ?thesis
    unfolding event_loop_pass_sections_def maybe_ping_sections_def Let_def by (intro section_keeps shared_keeps)
qed

lemma shared_setters:
  "shared_wf lib s \<Longrightarrow> shared_wf lib (set_prefix prefix s)" "shared_wf lib s \<Longrightarrow> shared_wf lib (set_prefix_len n s)"
  "shared_wf lib s \<Longrightarrow> shared_wf lib (set_my_name text s)" "shared_wf lib s \<Longrightarrow> shared_wf lib (enable_remove_peers s)"
  "shared_wf lib s \<Longrightarrow> shared_wf lib (set_remove_peer_tometout seconds s)" "shared_wf lib s \<Longrightarrow> shared_wf lib (exit_tunserver s)"
  by (simp_all add: set_prefix_def set_prefix_len_def set_my_name_def enable_remove_peers_def set_remove_peer_tometout_def
      exit_tunserver_def shared_wf_def)

lemma node_section_keeps:
  assumes "v6_text_laws host" and "node_section lib host f" and "shared_wf lib s"
  shows "shared_wf lib (f s)"
  using assms(2)
proof cases
  case (pass hello_interval ev l)
  then show ?thesis by (rule section_of_keeps [OF _ keep_event_loop_pass assms(3)])
qed (use assms(1,3) in \<open>auto elim!: section_of_keeps intro!: section_keeps keep_rpc shared_keeps simp: shared_setters shared_clock\<close>)

lemma interleaved_wf:
  assumes "v6_text_laws host" and "interleaved_reachable lib host s"
  shows "shared_wf lib s"
  using assms(2)
proof (induction rule: interleaved_reachable.induct)
  case (start w port peer_timeout0)
  show ?case using node_wf_new node_wf_shared by blast
qed (rule node_section_keeps [OF assms(1)])

section \<open>Undisturbed executions are interleaved executions\<close>

lemma section_of_attempt: "section_of (attempt p h) f \<Longrightarrow> section_of p f \<or> (\<exists>r. section_of (h r) f)"
proof (induction p)
  case (Section m)
  from Section.prems have "section_of (Section (\<lambda>s. map_prod (\<lambda>rest. attempt rest h) id (m s))) f" by simp
  then show ?case
  proof (cases rule: section_of.cases)
    case now
    then have "f = (\<lambda>s. snd (m s))" by simp
    then show ?thesis using section_of.now by blast
  next
    case (later s)
    then have "section_of (attempt (fst (m s)) h) f" by simp
    from Section.IH [OF this] show ?thesis by (auto intro: section_of.later)
  qed
qed auto

lemma run_alone_reaches:
  assumes "\<And>f. section_of p f \<Longrightarrow> node_section lib host f" and "interleaved_reachable lib host s" and "snd (alone p s) = s'"
  shows "interleaved_reachable lib host s'"
  using alone_sections [of p "interleaved_reachable lib host" s] assms by (auto intro: interleaved_reachable.turn)

lemma rpc_run_reaches:
  assumes "interleaved_reachable lib host s" and "rpc_run host req s = (r, s')"
  shows "interleaved_reachable lib host s'"
proof (cases req)
  case Rpc_exit
  then show ?thesis using assms interleaved_reachable.turn [OF assms(1) node_section.rpc_exit] by (auto simp: rpc_exit_def)
next
  case (Rpc_add_peer peer format)
  then show ?thesis
    using assms run_alone_reaches [where p = "rpc_add_peer_sections host peer format", OF node_section.rpc_add assms(1)] by simp
next
  case (Rpc_delete_peer peer)
  then show ?thesis using assms run_alone_reaches [where p = "rpc_delete_peer_sections host peer", OF node_section.rpc_delete assms(1)] by simp
next
  case (Rpc_ban_peer peer)
  then show ?thesis using assms run_alone_reaches [where p = "rpc_ban_peer_sections host peer", OF node_section.rpc_ban assms(1)] by simp
next
  case Rpc_ban_all_peers
  then show ?thesis
    using assms run_alone_reaches [where p = "critical (delete_all_peers True)", OF node_section.rpc_all assms(1)]
    by (auto simp: rpc_ban_all_peers_def andThen_def split: prod.splits sum.splits)
next
  case Rpc_delete_all_peers
  then show ?thesis
    using assms run_alone_reaches [where p = "critical (delete_all_peers False)", OF node_section.rpc_all assms(1)]
    by (auto simp: rpc_delete_all_peers_def andThen_def split: prod.splits sum.splits)
qed (use assms in \<open>simp_all add: rpc_ping_def rpc_hello_def\<close>)

lemma run_critical_reaches:
  assumes "interleaved_reachable lib host s" and "m s = (r, s')" and "\<And>f. section_of (critical m) f \<Longrightarrow> node_section lib host f"
  shows "interleaved_reachable lib host s'"
  by (rule run_alone_reaches [of "critical m", OF assms(3,1)]) (simp_all add: assms(2))

lemma node_reachable_interleaved:
  assumes "v6_text_laws host" and "node_reachable lib host s"
  shows "interleaved_reachable lib host s"
  using assms(2)
proof (induction rule: node_reachable.induct)
  case (start w port peer_timeout0)
  show ?case by (rule interleaved_reachable.start)
next
  case (step s s')
  note wf = node_reachable_wf [OF assms(1) step.hyps(1)]
  from step.hyps(2) show ?case
  proof cases
    case (pass hello_interval ev l l')
    then have "alone (event_loop_pass_sections lib host hello_interval ev l) s = (Inr l', s')"
      using alone_event_loop_pass [OF wf, of host hello_interval ev l]
      by (cases "alone (event_loop_pass_sections lib host hello_interval ev l) s"; cases "fst (alone (event_loop_pass_sections lib host hello_interval ev l) s)")
        auto
    then have "snd (alone (event_loop_pass_sections lib host hello_interval ev l) s) = s'" by simp
    from run_alone_reaches [OF _ step.IH this] show ?thesis by (blast intro: node_section.pass)
  next
    case (rpc req r)
    then show ?thesis using rpc_run_reaches [OF step.IH] by blast
  next
    case (greet r)
    from run_critical_reaches [where m = "peering_ping_all_peers", OF step.IH greet(1)] show ?thesis by (blast intro: node_section.greet)
  next
    case (keys load_string r)
    from run_critical_reaches [where m = "configure_mykey lib host load_string", OF step.IH keys(1)] show ?thesis by (blast intro: node_section.keys)
  next
    case (socket device_ready r)
    from run_critical_reaches [where m = "prepare_socket device_ready", OF step.IH socket(1)] show ?thesis by (blast intro: node_section.socket)
  next
    case (add simple r)
    from add(1) have "snd (alone (add_peer_simplestring_sections host simple) s) = s'" by simp
    from run_alone_reaches [OF _ step.IH this] show ?thesis by (blast intro: node_section.add)
  next
    case (add_new simple r)
    from add_new(1) have "snd (alone (add_peer_simplestring_new_format_sections host simple) s) = s'" by simp
    from run_alone_reaches [OF _ step.IH this] show ?thesis by (blast intro: node_section.add_new)
  next
    case (delete simple is_banned r)
    from delete(1) have "snd (alone (delete_peer_simplestring_sections host simple is_banned) s) = s'" by simp
    from run_alone_reaches [OF _ step.IH this] show ?thesis by (blast intro: node_section.delete)
  next
    case (nice r)
    from run_critical_reaches [where m = "get_my_ipv6_nice lib", OF step.IH nice(1)] show ?thesis by (blast intro: node_section.nice)
  next
    case (test packet_size packet_count r)
    from run_critical_reaches [where m = "rpc_sending_test host packet_size packet_count", OF step.IH test(1)] show ?thesis by (blast intro: node_section.rpc_test)
  next
    case (outside n level)
    then show ?thesis using interleaved_reachable.turn [OF step.IH node_section.outside] by simp
  qed (auto intro: interleaved_reachable.turn [OF step.IH] node_section.intros)
qed

end
