(* ===== verification/Node_Theorems.thy ===== *)
theory Node_Theorems
  imports Greeting Tun_Delivery Node_Threads
begin

text \<open>
  What holds of the node in every state it can reach, with its threads interleaved at the borders of their critical
  sections (theory \<open>Node_Threads\<close>), and what single datagrams do to it.
\<close>

section \<open>Malformed datagrams\<close>

lemma pop_varstring_oversized:
  assumes "SANE_MAX_SIZE_FOR_STRING < unat n"
  shows "fst (pop_varstring (parser_of_buffer (uvarint_octets n @ rest))) = Inl Abort"
  using assms readsD [OF reads_pop_integer_uvarint [of n], of "[]" rest]
  by (simp add: pop_varstring_def parser_of_buffer_at andThen_def)

lemma oversized_hello:
  assumes "SANE_MAX_SIZE_FOR_STRING < unat n" and "\<not> current_version < ver"
  shows "handle_udp_packet lib host pip ([ver, proto_cmd_value e_proto_cmd_public_hi] @ uvarint_octets n @ rest) s = (Inl Abort, s)"
proof -
  have "int_to_proto_cmd ([ver, proto_cmd_value e_proto_cmd_public_hi] ! 1) = Inr e_proto_cmd_public_hi"
    unfolding nth_Cons_Suc One_nat_def nth_Cons_0 by (rule int_to_proto_cmd_value)
  moreover obtain p where "pop_varstring (parser_of_buffer (uvarint_octets n @ rest)) = (Inl Abort, p)"
    using pop_varstring_oversized [OF assms(1), of rest] by (metis prod.collapse)
  then have "fst (parse_hello (parser_of_buffer (uvarint_octets n @ rest))) = Inl Abort"
    by (simp add: parse_hello_def)
  ultimately show ?thesis
    using assms(2) by (simp add: handle_udp_packet_def recognise_sender_def command_is_valid_from_unknown_peer_def
        handle_public_hi_def nth_append)
qed

section \<open>Search queries\<close>

lemma find_index_bound: "find_index c xs = Some i \<Longrightarrow> i < length xs"
  by (induction xs arbitrary: i) (auto split: if_splits)

lemma find_index_absent: "c \<notin> set xs \<Longrightarrow> find_index c xs = None"
  by simp

lemma find_index_append: "find_index c (xs @ ys) = (case find_index c xs of Some i \<Rightarrow> Some i
    | None \<Rightarrow> map_option ((+) (length xs)) (find_index c ys))"
proof (induction xs)
  case (Cons x xs)
  then show ?case by (cases "find_index c xs"; cases "find_index c ys") (auto simp del: find_index_None)
next
  case Nil
  show ?case by (cases "find_index c ys") (simp_all del: find_index_None)
qed

lemma findhip_query_parsed:
  assumes "length hip = 16"
  shows "parse_findhip_query (findhip_query_data hip ttl)
    = (if 0x3B \<in> set (drop 2 hip) then Inl Runtime_error else Inr (hip, sint ttl))"
proof (cases "0x3B \<in> set (drop 2 hip)")
  case True
  then obtain i where "find_index 0x3B (drop 2 hip) = Some i" by fastforce
  moreover from find_index_bound [OF this] have "i < 14" using assms by simp
  ultimately show ?thesis
    using True assms by (simp add: parse_findhip_query_def findhip_query_data_def str_find_def find_index_append g_haship_addr_size_def)
next
  case False
  then have "str_find 0x3B 2 (findhip_query_data hip ttl) = Some 16"
    using assms by (simp add: findhip_query_data_def str_find_def find_index_append find_index_absent)
  then show ?thesis
    using False assms by (simp add: parse_findhip_query_def findhip_query_data_def g_haship_addr_size_def substr_from_def)
qed

lemma sint_octet: "sint (w :: byte) = (if w < 128 then uint w else uint w - 256)"
proof -
  have "sint w = (uint w + 128) mod 256 - 128" by (simp add: signed_take_bit_eq_take_bit_shift sint_uint take_bit_eq_mod)
  moreover have "0 \<le> uint w" "uint w < 256" using unsigned_less [of w] by simp_all
  moreover have "(uint w + 128) mod 256 = uint w - 128" if "128 \<le> uint w" "uint w < 256"
    using mod_pos_pos_trivial [of "uint w - 128" 256] mod_add_self2 [of "uint w - 128" 256] that by (simp add: add.commute)
  ultimately show ?thesis by (auto simp: word_less_def)
qed

section \<open>References and the remote control\<close>

lemma new_format_port:
  assumes "new_format_reference host simple = Inr ref"
  shows "get_assigned_port (peering_addr ref) = 9042"
proof -
  have "get_assigned_port addr = 9042" if "c_ip46_addr_of_string host str 9042 = Inr addr" for str addr
    using that by (auto simp: c_ip46_addr_of_string_def create_ipv4_def create_ipv6_def set_ip4_def set_ip6_def
        get_assigned_port_def bindR_eq_Inr_conv split: if_splits)
  then show ?thesis
    using assms by (auto simp: new_format_reference_def bindR_eq_Inr_conv Let_def t_peering_reference_of_addr_def
        split: option.splits)
qed

lemma rpc_add_peer_refuses:
  assumes "\<not> m_unban_if_banned s" and "rpc_add_peer host peer format s = (r, s')"
  shows "s' = s \<and> (\<forall>ans. r = Inr ans \<longrightarrow> rpc_state ans = ''blocked'' \<or> rpc_state ans = ''error'')"
  using assms by (cases "add_peer_hip host peer format")
    (auto simp: rpc_add_peer_def rpc_add_peer_body_def can_i_add_peer_def split: if_splits)

section \<open>Tunnels with identities that only sign\<close>

lemma tunnel_without_common_system:
  assumes hash: "\<And>x. length (crypto_generichash lib x) = 64" and A: "pair_sized (m_my_IDC s)"
    and pub: "systems_known (m_cryptolists_general pub)" "\<And>ix. ix < 32 \<Longrightarrow> fits_size_t (m_cryptolists_general pub ! ix)"
    and none: "\<And>sys. sys < 32 \<Longrightarrow> pubs_of (m_my_IDC s) sys = [] \<or> m_cryptolists_general pub ! sys = []"
    and sorted: "map_sorted (m_tunnel s)"
    and hip: "get_ipv6_string_bin lib pub = (Inr hip, pub')" "length hip = 16" and new: "find_key hip (m_tunnel s) = None"
  shows "\<exists>s' ct st. add_tunnel_to_pubkey lib pub s = (Inr (), s') \<and> find_key hip (m_tunnel s') = Some ct
    \<and> m_stream_crypto_ab ct = Some st \<and> m_KCT st = take 32 (Hash1 lib (replicate 64 0))"
proof -
  let ?B = "c_multikeys_PAIR_init\<lparr>m_pub := pub', m_PRV := c_multikeys_PRV_init\<lparr>m_cryptolists_general := m_cryptolists_general pub\<rparr>\<rparr>"
  have keys: "m_cryptolists_general pub' = m_cryptolists_general pub"
    using keepsD [OF keeps_keys_bin, of pub lib] hip(1) by (simp add: same_keys_def)
  have "pair_sized ?B" using pub keys by (simp add: pair_sized_def systems_known_def)
  moreover have "\<not> common_system (m_my_IDC s) ?B sys" if "sys < 32" for sys
    using none [OF that] keys by (auto simp: common_system_def)
  ultimately obtain sa where sa: "exchange_start lib (m_my_IDC s) pub' True (c_stream_init True, w_rng (m_world s))
      = (Inr (), (sa, w_rng (m_world s)))" "m_KCT sa = take 32 (Hash1 lib (replicate 64 0))"
    using exchange_without_common_system [OF hash A, of ?B True "w_rng (m_world s)"] by auto
  let ?ct = "(tunnel_new True)\<lparr>m_stream_crypto_ab := Some sa\<rparr>"
  have "c_crypto_tunnel_initiator lib (m_my_IDC s) pub' (tunnel_new True, w_rng (m_world s)) = (Inr (), (?ct, w_rng (m_world s)))"
    using sa(1) by (simp add: c_crypto_tunnel_initiator_def andThen_def tunnel_new_def on_ab_def)
  then show ?thesis
    using hip new sa(2) sorted by (simp add: add_tunnel_to_pubkey_def smap.find_emplace_new tunnel_new_def)
qed

section \<open>Properties\<close>

text \<open>
  C10: in every state the node can reach, in any interleaving of the critical sections of its threads, its maps are sorted and without duplicate keys, every address
  of a peer has 16 octets, and every search is filed under the address it looks for, with a TTL
  between 5 and 255, so that the TTL written into the datagrams does not wrap.
\<close>

theorem reachable_well_formed:
  assumes "v6_text_laws host" and "interleaved_reachable lib host s"
  shows "sorted_wrt (<) (map fst (m_peer s)) \<and> sorted_wrt (<) (map fst (m_tunnel s))
    \<and> sorted_wrt (<) (map fst (m_search (m_routing_manager s)))
    \<and> sorted_wrt (<) (map fst (m_route_nexthop (m_routing_manager s)))
    \<and> list_all (\<lambda>(hip, p). length hip = 16) (m_peer s)
    \<and> list_all (\<lambda>(dst, search). m_addr search = dst \<and> 5 \<le> m_ttl_should_use search
         \<and> uint (of_int (m_ttl_should_use search) :: byte) = m_ttl_should_use search) (m_search (m_routing_manager s))"
proof -
  have wf: "peers_filed lib (m_peer s)" "map_sorted (m_tunnel s)" "routing_wf (m_routing_manager s)"
    using interleaved_wf [OF assms] by (simp_all add: shared_wf_def)
  have "length hip = 16" if "(hip, p) \<in> set (m_peer s)" for hip p
    using wf(1) in_find_key [OF _ that] by (auto simp: peers_filed_def peer_ok_def)
  moreover have "search_ok dst search" if "(dst, search) \<in> set (m_search (m_routing_manager s))" for dst search
    using wf(3) in_find_key [OF _ that] by (auto simp: routing_wf_def)
  moreover have "uint (of_int t :: byte) = t" if "5 \<le> t" "t \<le> 255" for t using that by (simp add: uint_word_of_int)
  ultimately show ?thesis
    using wf by (auto simp: peers_filed_def routing_wf_def map_sorted_def list_all_iff search_ok_def)
qed

theorem reachable_well_formed_witness:
  "\<exists>s :: (bytes \<times> nat, bytes \<times> nat) c_tunserver. node_reachable example_lib example_host s \<and> m_peer s \<noteq> []
     \<and> sorted_wrt (<) (map fst (m_peer s)) \<and> list_all (\<lambda>(hip, p). length hip = 16) (m_peer s)"
proof -
  obtain s :: "(bytes \<times> nat, bytes \<times> nat) c_tunserver" and p where
    s: "node_reachable example_lib example_host s" "find_key (example_address 1) (m_peer s) = Some p"
    using example_node [of example_lib] by blast
  then have "m_peer s \<noteq> []" using find_key_in by fastforce
  then show ?thesis using reachable_well_formed [OF v6_text_laws_example node_reachable_interleaved [OF v6_text_laws_example s(1)]] s(1) by blast
qed

text \<open>
  C9: in every state the node can reach, in any interleaving of the critical sections of the event loop, the set-up and the
  remote control, a peer is filed under his own address, which has 16 octets and is the address of his key if his key is
  known. If the methods ran one after another, nobody coming in between the sections of one, the address is not on the black
  list either; a ban that another thread overtakes does leave a black-listed peer (\<open>ban_overtaken\<close> of the theory \<open>Node_Control\<close>).
\<close>

theorem reachable_peers:
  assumes "v6_text_laws host" and "interleaved_reachable lib host s" and "find_key hip (m_peer s) = Some p"
  shows "m_haship_addr p = hip \<and> length hip = 16
    \<and> (\<forall>key \<in> set_option (m_pubkey p). fst (c_haship_addr_by_hash_of_pubkey lib key) = Inr hip)
    \<and> (node_reachable lib host s \<longrightarrow> \<not> peer_on_black_list hip s)"
  using interleaved_wf [OF assms(1,2)] assms(3) node_reachable_wf [OF assms(1), of lib s]
  by (auto simp: shared_wf_def peers_filed_def node_wf_def peers_wf_def peer_ok_def peer_on_black_list_def pub_has_address_def)

theorem reachable_peers_witness:
  "\<exists>(s :: (bytes \<times> nat, bytes \<times> nat) c_tunserver) p. interleaved_reachable example_lib example_host s
     \<and> node_reachable example_lib example_host s \<and> find_key (example_address 1) (m_peer s) = Some p
     \<and> m_haship_addr p = example_address 1 \<and> \<not> peer_on_black_list (example_address 1) s"
proof -
  obtain s :: "(bytes \<times> nat, bytes \<times> nat) c_tunserver" and p where
    s: "node_reachable example_lib example_host s" "find_key (example_address 1) (m_peer s) = Some p"
    using example_node [of example_lib] by blast
  note threads = node_reachable_interleaved [OF v6_text_laws_example s(1)]
  from reachable_peers [OF v6_text_laws_example threads s(2)] s threads show ?thesis by blast
qed

text \<open>
  C12: a greeting whose first field declares a size above the sane maximum ends the process, from any
  state, from any sender and whatever follows: the assertion is no exception that the loop catches.
\<close>

theorem oversized_greeting_aborts:
  assumes "SANE_MAX_SIZE_FOR_STRING < unat n" and "ver \<le> current_version"
  shows "catch_all (handle_event lib host (Ev_udp pip ([ver, proto_cmd_value e_proto_cmd_public_hi] @ uvarint_octets n @ rest))) s
    = (Inl Abort, s)"
  using oversized_hello [OF assms(1), of ver lib host pip rest s] assms(2)
  by (simp add: catch_all_def handle_event_def not_less)

theorem oversized_greeting_aborts_witness:
  "catch_all (handle_event example_lib example_host (Ev_udp (example_endpoint [127, 0, 0, 1])
     ([1, proto_cmd_value e_proto_cmd_public_hi] @ uvarint_octets 50000001 @ []))) (c_tunserver_new example_world 9042 60)
   = (Inl Abort, c_tunserver_new example_world 9042 60)"
  by (rule oversized_greeting_aborts) (simp_all add: SANE_MAX_SIZE_FOR_STRING_def current_version_def)

text \<open>
  C14: a search query is refused by every node that receives it when one of the octets 2 to 15 of the address is the
  separator. Otherwise it is read back with the address it was written with, but its TTL, written as an octet, is read as a
  signed one: up to 127 it is the same, from 128 on it is 256 less, hence negative, and the query is dropped without an effect.
\<close>

theorem findhip_query_roundtrip:
  assumes "length hip = 16" and "length head = 2"
  shows "parse_findhip_query (findhip_query_data hip ttl)
      = (if 0x3B \<in> set (drop 2 hip) then Inl Runtime_error else Inr (hip, if ttl < 128 then uint ttl else uint ttl - 256))
    \<and> (0x3B \<notin> set (drop 2 hip) \<and> 128 \<le> ttl \<longrightarrow>
         handle_findhip_query sender_pip sender sender_hip (head @ findhip_query_data hip ttl) s = (Inr (), s))"
proof -
  have "sint ttl = (if ttl < 128 then uint ttl else uint ttl - 256)" by (rule sint_octet)
  moreover have "uint ttl < 256" using unsigned_less [of ttl] by simp
  ultimately show ?thesis
    using findhip_query_parsed [OF assms(1), of ttl] assms(2)
    by (auto simp: handle_findhip_query_def andThen_def assertA_def ret_def)
qed

theorem findhip_query_roundtrip_witness:
  "parse_findhip_query (findhip_query_data (example_address 1) 5) = Inr (example_address 1, 5)
   \<and> parse_findhip_query (findhip_query_data (example_address 0x3B) 5) = Inl Runtime_error
   \<and> parse_findhip_query (findhip_query_data (example_address 1) 200) = Inr (example_address 1, - 56)
   \<and> handle_findhip_query (example_endpoint [127, 0, 0, 1]) None c_haship_addr_init
        ([1, 2] @ findhip_query_data (example_address 1) 200) (c_tunserver_new example_world 9042 60) = (Inr (), c_tunserver_new example_world 9042 60)"
proof -
  have "length (example_address c) = 16" for c by (simp add: example_address_def)
  note query = findhip_query_roundtrip [OF this, of "[1, 2]"]
  from query [of 1 5] query [of "0x3B" 5]
    query [of 1 200 "example_endpoint [127, 0, 0, 1]" None c_haship_addr_init "c_tunserver_new example_world 9042 60"]
  show ?thesis by (simp add: example_address_def)
qed

text \<open>
  A search is broadcast at most once: in a state with the invariant, which every reachable state
  has, a node that already searched for an address sends nothing when it is asked for a route there
  again, whatever the reason and the TTL.
\<close>

theorem search_broadcast_once:
  assumes "node_wf lib s" and "ttl \<le> 255" and "find_key dst (m_search (m_routing_manager s)) \<noteq> None"
    and "on_routing (get_route_or_maybe_search tun_node dst reason start ttl) s = (r, s')"
  shows "w_sent (m_world s') = w_sent (m_world s)"
proof -
  have "map_sorted (m_peer s)" "routing_wf (m_routing_manager s)" using assms(1) by (simp_all add: node_wf_def peers_wf_def)
  from get_route_sends [OF this assms(2,4)] obtain pkts where "sends pkts s s'" "pkts = []"
    using assms(3) by auto
  then show ?thesis using world_sendsD(1) [OF sendsD(2)] by fastforce
qed

theorem search_broadcast_once_witness:
  "\<exists>s s' :: (bytes \<times> nat, bytes \<times> nat) c_tunserver. node_wf example_lib s
     \<and> find_key (example_address 3) (m_search (m_routing_manager s)) \<noteq> None
     \<and> snd (on_routing (get_route_or_maybe_search tun_node (example_address 3) own_reason True 5) s) = s'
     \<and> w_sent (m_world s') = w_sent (m_world s)"
proof -
  let ?rm = "c_routing_manager_init\<lparr>m_search := [(example_address 3, c_route_search_new (example_address 3) 5)]\<rparr>"
  let ?s = "(c_tunserver_new example_world 9042 60 :: (bytes \<times> nat, bytes \<times> nat) c_tunserver)\<lparr>m_routing_manager := ?rm\<rparr>"
  have "routing_wf ?rm"
    by (simp add: routing_wf_def map_sorted_def c_routing_manager_init_def search_ok_def c_route_search_new_def)
      (metis linorder_less_linear)
  then have wf: "node_wf example_lib ?s" using node_wf_new [of example_lib example_world 9042 60] by (simp add: node_wf_def peers_wf_def)
  have found: "find_key (example_address 3) (m_search (m_routing_manager ?s)) \<noteq> None" by simp
  obtain r s' where "on_routing (get_route_or_maybe_search tun_node (example_address 3) own_reason True 5) ?s = (r, s')" by force
  then show ?thesis using search_broadcast_once [OF wf _ found, of 5] wf found by (intro exI [of _ ?s] exI [of _ s']) simp
qed

text \<open>
  C13: the tunnel to an identity that shares no crypto system with the node's own key, as one with
  signing keys only, gets a key that is the same for everyone: the hash of 64 zero octets.
\<close>

theorem tunnel_key_constant:
  assumes "\<And>x. length (crypto_generichash lib x) = 64" and "pair_sized (m_my_IDC s)"
    and "systems_known (m_cryptolists_general pub)" and "\<And>ix. ix < 32 \<Longrightarrow> fits_size_t (m_cryptolists_general pub ! ix)"
    and "\<And>sys. sys < 32 \<Longrightarrow> m_cryptolists_general (m_pub (m_my_IDC s)) ! sys = [] \<or> m_cryptolists_general pub ! sys = []"
    and "map_sorted (m_tunnel s)" and "get_ipv6_string_bin lib pub = (Inr hip, pub')" and "length hip = 16"
    and "find_key hip (m_tunnel s) = None"
  shows "\<exists>s' ct st. add_tunnel_to_pubkey lib pub s = (Inr (), s') \<and> find_key hip (m_tunnel s') = Some ct
    \<and> m_stream_crypto_ab ct = Some st \<and> m_KCT st = take 32 (Hash1 lib (replicate 64 0))"
  by (rule tunnel_without_common_system) (use assms in auto)

theorem tunnel_key_constant_witness:
  "\<exists>s' ct st hip. add_tunnel_to_pubkey example_lib (m_pub example_sign_pair)
       ((c_tunserver_new example_world 9042 60)\<lparr>m_my_IDC := example_X25519_pair 1\<rparr>) = (Inr (), s')
     \<and> find_key hip (m_tunnel s') = Some ct \<and> m_stream_crypto_ab ct = Some st
     \<and> m_KCT st = take 32 (Hash1 example_lib (replicate 64 0))"
proof -
  let ?s = "(c_tunserver_new example_world 9042 60 :: (bytes \<times> nat, bytes \<times> nat) c_tunserver)\<lparr>m_my_IDC := example_X25519_pair 1\<rparr>"
  have known: "systems_known (m_cryptolists_general (m_pub example_sign_pair))" by (rule keylists_known [OF example_identity_ok])
  have prefix: "string_as_bin_of_hex (m_ipv6_prefix (m_pub example_sign_pair)) = Inr [0xFD, 0x42]"
    by (simp add: example_sign_pair_def c_multikeys_pub_init_def string_as_bin_of_hex_def hex_octet_def hexchar2int_def)
  obtain hip pub' where hip: "get_ipv6_string_bin example_lib (m_pub example_sign_pair) = (Inr hip, pub')" "length hip = 16"
    using address_forms [OF hash_sized_example known _ prefix]
    by (auto simp: example_sign_pair_def c_multikeys_pub_init_def)
  have "\<exists>s' ct st. add_tunnel_to_pubkey example_lib (m_pub example_sign_pair) ?s = (Inr (), s') \<and> find_key hip (m_tunnel s') = Some ct
    \<and> m_stream_crypto_ab ct = Some st \<and> m_KCT st = take 32 (Hash1 example_lib (replicate 64 0))"
  proof (rule tunnel_key_constant [OF _ _ known])
    show "length (crypto_generichash example_lib x) = 64" for x using hash_sized_example by (simp add: hash_sized_def)
    show "pair_sized (m_my_IDC ?s)" using kex_laws_sized(1) [OF example_X25519_laws] by simp
    show "get_ipv6_string_bin example_lib (m_pub example_sign_pair) = (Inr hip, pub')" by (rule hip)
  qed (use hip in \<open>auto simp: example_sign_pair_def example_X25519_pair_def nth_list_update fits_size_t_def
      c_tunserver_new_def map_sorted_def\<close>)
  then show ?thesis by blast
qed

end
