(* ===== verification/Eint.thy ===== *)
theory Eint
  imports Galaxy_Prelude
begin

text \<open>
  The checked integer operations of \<^verbatim>\<open>src/src/stdplus/eint.hpp\<close>, which the buffers and the
  serializer use instead of the built-in operators.

  The functions are templates over the integer types. A type is a value of \<open>int_type\<close> here
  (its signedness and width), a value of the type is an \<open>int\<close> in its range, and the
  built-in operators are written out as the language defines them: integer promotion to the
  32-bit \<open>int\<close>, the usual arithmetic conversions, wrap-around of unsigned results, and no
  meaning at all for a signed result out of range. \<open>bool\<close> is not among the types.
  The theorems say that the operations compute in the unbounded integers or throw, and that
  the comparisons are those of the unbounded integers whatever the two types are.
\<close>

section \<open>The integer types of the language\<close>

record int_type =
  is_signed :: bool
  int_bits :: nat

definition int_type_ok :: "int_type \<Rightarrow> bool" where
  "int_type_ok T \<longleftrightarrow> int_bits T \<in> {8, 16, 32, 64}"

definition int_t :: int_type where
  "int_t = \<lparr>is_signed = True, int_bits = 32\<rparr>"

definition uint8_type :: int_type where
  "uint8_type = \<lparr>is_signed = False, int_bits = 8\<rparr>"

definition int8_type :: int_type where
  "int8_type = \<lparr>is_signed = True, int_bits = 8\<rparr>"

definition size_type :: int_type where
  "size_type = \<lparr>is_signed = False, int_bits = 64\<rparr>"

definition int_min :: "int_type \<Rightarrow> int" where
  "int_min T = (if is_signed T then - (2 ^ (int_bits T - 1)) else 0)"

definition int_max :: "int_type \<Rightarrow> int" where
  "int_max T = (if is_signed T then 2 ^ (int_bits T - 1) - 1 else 2 ^ int_bits T - 1)"

definition int_digits :: "int_type \<Rightarrow> nat" where
  "int_digits T = (if is_signed T then int_bits T - 1 else int_bits T)"

definition in_type :: "int_type \<Rightarrow> int \<Rightarrow> bool" where
  "in_type T v \<longleftrightarrow> int_min T \<le> v \<and> v \<le> int_max T"

definition promote :: "int_type \<Rightarrow> int_type" where
  \<comment> \<open>every value of a narrower type fits \<open>int\<close>\<close>
  "promote T = (if int_bits T < 32 then int_t else T)"

definition common_type :: "int_type \<Rightarrow> int_type \<Rightarrow> int_type" where
  "common_type Ta Tb =
     (let a = promote Ta; b = promote Tb
      in if is_signed a = is_signed b then (if int_bits a < int_bits b then b else a)
         else let (s, u) = (if is_signed a then (a, b) else (b, a))
              in if int_bits u < int_bits s then s else u)"

definition int_conv :: "int_type \<Rightarrow> int \<Rightarrow> int" where
  "int_conv T v =
     (if is_signed T then (v + 2 ^ (int_bits T - 1)) mod 2 ^ int_bits T - 2 ^ (int_bits T - 1)
      else v mod 2 ^ int_bits T)"

definition arith_result :: "int_type \<Rightarrow> int \<Rightarrow> int result" where
  "arith_result T v =
     (if in_type T v then Inr v
      else if is_signed T then Inl Undefined_behaviour
      else Inr (v mod 2 ^ int_bits T))"

definition cpp_plus :: "int_type \<Rightarrow> int \<Rightarrow> int_type \<Rightarrow> int \<Rightarrow> int result" where
  "cpp_plus Ta a Tb b =
     (let T = common_type Ta Tb in arith_result T (int_conv T a + int_conv T b))"

definition cpp_minus :: "int_type \<Rightarrow> int \<Rightarrow> int_type \<Rightarrow> int \<Rightarrow> int result" where
  "cpp_minus Ta a Tb b =
     (let T = common_type Ta Tb in arith_result T (int_conv T a - int_conv T b))"

definition cpp_less :: "int_type \<Rightarrow> int \<Rightarrow> int_type \<Rightarrow> int \<Rightarrow> bool" where
  "cpp_less Ta a Tb b = (let T = common_type Ta Tb in int_conv T a < int_conv T b)"

definition cpp_equal :: "int_type \<Rightarrow> int \<Rightarrow> int_type \<Rightarrow> int \<Rightarrow> bool" where
  "cpp_equal Ta a Tb b = (let T = common_type Ta Tb in int_conv T a = int_conv T b)"

section \<open>The checked operations\<close>

definition eint_minus :: "int_type \<Rightarrow> int \<Rightarrow> int \<Rightarrow> int result" where
  "eint_minus T a b =
     bindR (if cpp_less T b int_t 0
            then bindR (cpp_plus T (int_max T) T b) (\<lambda>s. Inr (cpp_less (promote T) s T a))
            else if cpp_less int_t 0 T b
            then bindR (cpp_plus T (int_min T) T b) (\<lambda>s. Inr (cpp_less T a (promote T) s))
            else Inr False) (\<lambda>is_overflow.
     if is_overflow then Inl Range_error
     else bindR (cpp_minus T a T b) (\<lambda>d. Inr (int_conv T d)))"

definition eint_plus :: "int_type \<Rightarrow> int \<Rightarrow> int \<Rightarrow> int result" where
  "eint_plus T a b =
     bindR (if cpp_less int_t 0 T a
            then bindR (cpp_minus T (int_max T) T a) (\<lambda>d. Inr (cpp_less (promote T) d T b))
            else if cpp_less T a int_t 0
            then bindR (cpp_minus T (int_min T) T a) (\<lambda>d. Inr (cpp_less T b (promote T) d))
            else Inr False) (\<lambda>is_overflow.
     if is_overflow then Inl Range_error
     else bindR (cpp_plus T a T b) (\<lambda>s. Inr (int_conv T s)))"

definition eint_less :: "int_type \<Rightarrow> int \<Rightarrow> int_type \<Rightarrow> int \<Rightarrow> bool" where
  \<comment> \<open>the three overloads, chosen by the signedness of the types\<close>
  "eint_less Ta a Tb b =
     (if \<not> is_signed Ta \<and> is_signed Tb then
        (if cpp_less Tb b int_t 0 then False
         else if int_digits Ta \<ge> int_digits Tb then cpp_less Ta a Ta (int_conv Ta b)
         else cpp_less Tb (int_conv Tb a) Tb b)
      else if is_signed Ta \<and> \<not> is_signed Tb then
        (if cpp_less Ta a int_t 0 then True
         else if int_digits Tb \<ge> int_digits Ta then cpp_less Tb (int_conv Tb a) Tb b
         else cpp_less Ta a Ta (int_conv Ta b))
      else cpp_less Ta a Tb b)"

definition eint_equal :: "int_type \<Rightarrow> int \<Rightarrow> int_type \<Rightarrow> int \<Rightarrow> bool" where
  "eint_equal Ta a Tb b =
     (if \<not> is_signed Ta \<and> is_signed Tb then
        (if cpp_less Tb b int_t 0 then False
         else if int_digits Ta \<ge> int_digits Tb then cpp_equal Ta a Ta (int_conv Ta b)
         else cpp_equal Tb (int_conv Tb a) Tb b)
      else if is_signed Ta \<and> \<not> is_signed Tb then
        (if cpp_less Ta a int_t 0 then False
         else if int_digits Tb \<ge> int_digits Ta then cpp_equal Tb (int_conv Tb a) Tb b
         else cpp_equal Ta a Ta (int_conv Ta b))
      else cpp_equal Ta a Tb b)"

definition eint_greater :: "int_type \<Rightarrow> int \<Rightarrow> int_type \<Rightarrow> int \<Rightarrow> bool" where
  "eint_greater Ta a Tb b \<longleftrightarrow> \<not> (eint_less Ta a Tb b \<or> eint_equal Ta a Tb b)"

section \<open>Conversions that keep the value\<close>

named_theorems int_type_simps \<open>types of a known width\<close>

lemmas int_type_defs = int_min_def int_max_def in_type_def int_digits_def promote_def int_t_def

lemma int_type_cases [consumes 1, case_names narrow word wide]:
  assumes "int_type_ok T"
  obtains "int_bits T = 8 \<or> int_bits T = 16" | "int_bits T = 32" | "int_bits T = 64"
  using assms by (auto simp: int_type_ok_def)

lemma int_type_ok_int_t [simp]: "int_type_ok int_t"
  by (simp add: int_type_ok_def int_t_def)

lemma int_type_ok_promote [simp]: "int_type_ok T \<Longrightarrow> int_type_ok (promote T)"
  by (simp add: promote_def)

lemma int_type_ok_common [simp]: "int_type_ok Ta \<Longrightarrow> int_type_ok Tb \<Longrightarrow> int_type_ok (common_type Ta Tb)"
  by (simp add: common_type_def Let_def)

lemma int_conv_id:
  assumes "int_type_ok T" and "in_type T v"
  shows "int_conv T v = v"
proof -
  have "(2 :: int) ^ int_bits T = 2 * 2 ^ (int_bits T - 1)"
    using assms(1) by (auto simp: int_type_ok_def)
  with assms(2) show ?thesis
    by (auto simp: int_conv_def in_type_def int_min_def int_max_def mod_pos_pos_trivial)
qed

lemma in_type_nonneg: "\<not> is_signed T \<Longrightarrow> in_type T v \<Longrightarrow> 0 \<le> v"
  by (simp add: in_type_def int_min_def)

lemma in_type_zero [simp]: "in_type T 0"
  by (simp add: in_type_def int_min_def int_max_def)

lemma in_type_wider_nonneg:
  assumes "in_type T v" and "0 \<le> v" and "int_digits T \<le> int_digits T'"
  shows "in_type T' v"
proof -
  have "v \<le> 2 ^ int_digits T - 1"
    using assms(1) by (auto simp: in_type_def int_max_def int_digits_def split: if_splits)
  also have "\<dots> \<le> 2 ^ int_digits T' - 1"
    using power_increasing [OF assms(3), of "2 :: int"] by linarith
  also have "\<dots> = int_max T'" by (simp add: int_max_def int_digits_def)
  finally show ?thesis
    using order_trans [OF _ assms(2)] by (simp add: in_type_def int_min_def)
qed

lemma in_type_wider_signed:
  assumes "in_type T v" and "is_signed T" and "is_signed T'" and "int_bits T \<le> int_bits T'"
  shows "in_type T' v"
proof -
  have "(2 :: int) ^ (int_bits T - 1) \<le> 2 ^ (int_bits T' - 1)"
    using assms(4) by (intro power_increasing) auto
  then show ?thesis
    using assms(1) unfolding in_type_def int_min_def int_max_def if_P [OF assms(2)] if_P [OF assms(3)] by linarith
qed

lemma digits_common:
  assumes "int_type_ok Ta" and "int_type_ok Tb"
  shows "int_digits Ta \<le> int_digits (common_type Ta Tb)"
    and "int_digits Tb \<le> int_digits (common_type Ta Tb)"
  using assms by (auto simp: int_type_ok_def int_digits_def common_type_def promote_def int_t_def Let_def)

lemma signed_common:
  assumes "int_type_ok Ta" and "int_type_ok Tb" and "is_signed Ta" and "is_signed Tb"
  shows "is_signed (common_type Ta Tb)"
    and "int_bits Ta \<le> int_bits (common_type Ta Tb)"
    and "int_bits Tb \<le> int_bits (common_type Ta Tb)"
  using assms by (auto simp: int_type_ok_def common_type_def promote_def int_t_def Let_def)

lemma common_type_self [simp]: "common_type T T = promote T"
  by (simp add: common_type_def)

lemma common_exact:
  assumes "int_type_ok Ta" "int_type_ok Tb" and "in_type Ta a" "in_type Tb b"
    and "is_signed Ta \<and> is_signed Tb \<or> 0 \<le> a \<and> 0 \<le> b"
  shows "in_type (common_type Ta Tb) a" and "in_type (common_type Ta Tb) b"
    and "int_conv (common_type Ta Tb) a = a" and "int_conv (common_type Ta Tb) b = b"
proof -
  show a: "in_type (common_type Ta Tb) a"
    using assms signed_common [OF assms(1,2)] digits_common [OF assms(1,2)]
    by (blast intro: in_type_wider_signed in_type_wider_nonneg)
  show b: "in_type (common_type Ta Tb) b"
    using assms signed_common [OF assms(1,2)] digits_common [OF assms(1,2)]
    by (blast intro: in_type_wider_signed in_type_wider_nonneg)
  show "int_conv (common_type Ta Tb) a = a" "int_conv (common_type Ta Tb) b = b"
    using a b assms(1,2) by (simp_all add: int_conv_id)
qed

lemma cpp_less_exact:
  assumes "int_type_ok Ta" "int_type_ok Tb" and "in_type Ta a" "in_type Tb b"
    and "is_signed Ta \<and> is_signed Tb \<or> 0 \<le> a \<and> 0 \<le> b"
  shows "cpp_less Ta a Tb b \<longleftrightarrow> a < b" and "cpp_equal Ta a Tb b \<longleftrightarrow> a = b"
  using common_exact [OF assms] by (simp_all add: cpp_less_def cpp_equal_def Let_def)

lemma cpp_sign_test:
  assumes "int_type_ok T" and "in_type T v"
  shows "cpp_less T v int_t 0 \<longleftrightarrow> v < 0" and "cpp_less int_t 0 T v \<longleftrightarrow> 0 < v"
proof -
  have "is_signed T \<and> is_signed int_t \<or> 0 \<le> v"
    using assms(2) by (cases "is_signed T") (simp_all add: int_t_def in_type_nonneg)
  then show "cpp_less T v int_t 0 \<longleftrightarrow> v < 0" and "cpp_less int_t 0 T v \<longleftrightarrow> 0 < v"
    using assms by (auto simp: cpp_less_exact)
qed

lemma same_type_exact:
  assumes "int_type_ok T" and "in_type T v"
  shows "in_type (promote T) v" and "int_conv (promote T) v = v"
  using common_exact [of T T v v] assms in_type_nonneg [of T v] by (cases "is_signed T"; simp)+

lemma promote_less:
  assumes "int_type_ok T" and "in_type (promote T) s" and "in_type T a"
  shows "cpp_less (promote T) s T a \<longleftrightarrow> s < a" and "cpp_less T a (promote T) s \<longleftrightarrow> a < s"
proof -
  have "common_type (promote T) T = promote T" "common_type T (promote T) = promote T"
    by (simp_all add: common_type_def promote_def int_t_def)
  moreover have "int_conv (promote T) s = s" "int_conv (promote T) a = a"
    using assms by (simp_all add: int_conv_id same_type_exact)
  ultimately show "cpp_less (promote T) s T a \<longleftrightarrow> s < a" and "cpp_less T a (promote T) s \<longleftrightarrow> a < s"
    by (simp_all add: cpp_less_def)
qed

lemma same_type_arith:
  assumes "int_type_ok T" and "in_type T a" and "in_type T b"
  shows "in_type (promote T) (a + b) \<Longrightarrow> cpp_plus T a T b = Inr (a + b)"
    and "in_type (promote T) (a - b) \<Longrightarrow> cpp_minus T a T b = Inr (a - b)"
  using assms by (simp_all add: cpp_plus_def cpp_minus_def Let_def same_type_exact arith_result_def)

lemma in_type_bounds [simp]: "int_type_ok T \<Longrightarrow> in_type T (int_min T)" "int_type_ok T \<Longrightarrow> in_type T (int_max T)"
  by (auto simp: in_type_def int_min_def int_max_def int_type_ok_def)

section \<open>What the checked operations compute\<close>

lemma eint_sums:
  assumes "int_type_ok T" and "in_type T a" and "in_type T b"
  shows "eint_plus T a b = (if in_type T (a + b) then Inr (a + b) else Inl Range_error) \<and>
         eint_minus T a b = (if in_type T (a - b) then Inr (a - b) else Inl Range_error)"
proof -
  note [simp] = cpp_sign_test [OF assms(1)] promote_less [OF assms(1)] same_type_arith [OF assms(1)]
  have T: "in_type T v \<Longrightarrow> in_type (promote T) v" for v
    by (rule same_type_exact [OF assms(1)])
  have "b < 0 \<Longrightarrow> in_type T (int_max T + b)" "0 < b \<Longrightarrow> in_type T (int_min T + b)"
    "0 < a \<Longrightarrow> in_type T (int_max T - a)" "a < 0 \<Longrightarrow> in_type T (int_min T - a)"
    using assms in_type_bounds [OF assms(1)]
    by (auto simp: in_type_def int_min_def int_max_def split: if_splits)
  note in_T = this [THEN T]
  have ov: "b < 0 \<Longrightarrow> \<not> int_max T + b < a \<longleftrightarrow> in_type T (a - b)"
    "0 < b \<Longrightarrow> \<not> a < int_min T + b \<longleftrightarrow> in_type T (a - b)"
    "0 < a \<Longrightarrow> \<not> int_max T - a < b \<longleftrightarrow> in_type T (a + b)"
    "a < 0 \<Longrightarrow> \<not> b < int_min T - a \<longleftrightarrow> in_type T (a + b)"
    using assms(2,3) by (auto simp: in_type_def)
  have "eint_minus T a b = (if in_type T (a - b) then Inr (a - b) else Inl Range_error)"
    using assms in_T ov by (cases b "0 :: int" rule: linorder_cases) (auto simp: eint_minus_def int_conv_id T)
  moreover have "eint_plus T a b = (if in_type T (a + b) then Inr (a + b) else Inl Range_error)"
    using assms in_T ov by (cases a "0 :: int" rule: linorder_cases) (auto simp: eint_plus_def int_conv_id T)
  ultimately show ?thesis by blast
qed

lemmas eint_sum = eint_sums [THEN conjunct1]

text \<open>
  C33: \<open>eint_plus\<close> and \<open>eint_minus\<close> return the mathematical sum and difference of any two
  values of any integer type whenever these are values of the type, and throw
  \<open>std::range_error\<close> otherwise; their own overflow tests never overflow.
\<close>

theorem eint_exact:
  assumes "int_type_ok T" and "in_type T a" and "in_type T b"
  shows "eint_plus T a b = (if in_type T (a + b) then Inr (a + b) else Inl Range_error) \<and>
         eint_minus T a b = (if in_type T (a - b) then Inr (a - b) else Inl Range_error)"
  by (rule eint_sums [OF assms])

theorem eint_exact_witness:
  "eint_plus int8_type 100 27 = Inr 127 \<and> eint_minus int8_type 100 (- 28) = Inl Range_error"
proof -
  have "int_type_ok int8_type" "in_type int8_type 100" "in_type int8_type 27" "in_type int8_type (- 28)"
    by (simp_all add: int_type_ok_def int8_type_def in_type_def int_min_def int_max_def)
  then show ?thesis
    using eint_exact [of int8_type 100 27] eint_exact [of int8_type 100 "- 28"]
    by (simp add: int8_type_def in_type_def int_min_def int_max_def)
qed

lemma eint_less_exact:
  assumes "int_type_ok Ta" "int_type_ok Tb" and "in_type Ta a" "in_type Tb b"
  shows "eint_less Ta a Tb b \<longleftrightarrow> a < b" and "eint_equal Ta a Tb b \<longleftrightarrow> a = b"
proof -
  have to_a: "in_type Ta b \<and> int_conv Ta b = b" if "0 \<le> b" "int_digits Tb \<le> int_digits Ta"
    using in_type_wider_nonneg [OF assms(4) that] int_conv_id [OF assms(1)] by blast
  have to_b: "in_type Tb a \<and> int_conv Tb a = a" if "0 \<le> a" "int_digits Ta \<le> int_digits Tb"
    using in_type_wider_nonneg [OF assms(3) that] int_conv_id [OF assms(2)] by blast
  note sign = cpp_sign_test(1) [OF assms(1,3)] cpp_sign_test(1) [OF assms(2,4)]
  have cmp: "(cpp_less Ta a Ta b \<longleftrightarrow> a < b) \<and> (cpp_equal Ta a Ta b \<longleftrightarrow> a = b)"
    if "0 \<le> a" "0 \<le> b" "int_digits Tb \<le> int_digits Ta"
    using to_a that by (simp add: cpp_less_exact assms)
  have cmp': "(cpp_less Tb a Tb b \<longleftrightarrow> a < b) \<and> (cpp_equal Tb a Tb b \<longleftrightarrow> a = b)"
    if "0 \<le> a" "0 \<le> b" "int_digits Ta \<le> int_digits Tb"
    using to_b that by (simp add: cpp_less_exact assms)
  have "(eint_less Ta a Tb b \<longleftrightarrow> a < b) \<and> (eint_equal Ta a Tb b \<longleftrightarrow> a = b)"
  proof (cases "is_signed Ta = is_signed Tb")
    case True
    then have "is_signed Ta \<and> is_signed Tb \<or> 0 \<le> a \<and> 0 \<le> b"
      using assms(3,4) in_type_nonneg by blast
    then show ?thesis
      using True cpp_less_exact [OF assms] by (simp add: eint_less_def eint_equal_def)
  next
    case False
    then consider (unsigned) "\<not> is_signed Ta" "is_signed Tb" "0 \<le> a" | (signed) "is_signed Ta" "\<not> is_signed Tb" "0 \<le> b"
      using assms(3,4) in_type_nonneg by blast
    then show ?thesis
      by cases (cases "int_digits Tb \<le> int_digits Ta";
                simp add: eint_less_def eint_equal_def sign to_a to_b cmp cmp' linorder_not_less not_le; fail)+
  qed
  then show "eint_less Ta a Tb b \<longleftrightarrow> a < b" and "eint_equal Ta a Tb b \<longleftrightarrow> a = b" by blast+
qed

text \<open>
  C34: the comparisons of \<open>eint\<close> are those of the unbounded integers for values of any two
  integer types, whatever their widths and signedness.
\<close>

theorem eint_compare_exact:
  assumes "int_type_ok Ta" "int_type_ok Tb" and "in_type Ta a" "in_type Tb b"
  shows "(eint_less Ta a Tb b \<longleftrightarrow> a < b) \<and> (eint_equal Ta a Tb b \<longleftrightarrow> a = b) \<and>
         (eint_greater Ta a Tb b \<longleftrightarrow> a > b)"
  using eint_less_exact [OF assms] by (auto simp: eint_greater_def)

theorem eint_compare_exact_witness:
  "eint_less int_t (- 1) size_type 1 \<and> \<not> cpp_less int_t (- 1) size_type 1 \<and>
   eint_greater size_type 200 int8_type (- 56)"
proof -
  have ok: "int_type_ok size_type" "int_type_ok int8_type" "in_type int_t (- 1)" "in_type size_type 1"
    "in_type size_type 200" "in_type int8_type (- 56)"
    by (simp_all add: int_type_ok_def int8_type_def size_type_def int_t_def in_type_def int_min_def int_max_def)
  have "\<not> cpp_less int_t (- 1) size_type 1"
    by (simp add: cpp_less_def common_type_def promote_def int_t_def size_type_def int_conv_def)
  then show ?thesis
    using eint_compare_exact [of int_t size_type "- 1" 1] eint_compare_exact [of size_type int8_type 200 "- 56"] ok
    by simp
qed

end
