(* ===== verification/Tab.thy ===== *)
theory Tab
  imports Trivialserialize
begin

text \<open>
  Linear containers: \<^verbatim>\<open>src/src/stdplus/tab.hpp\<close>.

  \<open>copy_safe_apart\<close> works on iterators of two containers, so it is modelled over the flat
  memory of the serializer, a container being the address of its first element and its size.
  \<open>copy_apart\<close> is what it means for the values of two containers that do not share memory;
  \<open>copy_safe_apart_refines\<close> says that the iterator code implements it. \<open>tab_view\<close> is the
  view class; the writable \<open>tab_range\<close> has the same constructors and tests and adds a write.
\<close>

definition container_get_or_default :: "'a list \<Rightarrow> nat \<Rightarrow> 'a \<Rightarrow> 'a" where
  "container_get_or_default tab ix dflt = (if ix \<ge> length tab then dflt else tab ! ix)"

definition copy_safe_apart ::
    "nat \<Rightarrow> nat \<times> nat \<Rightarrow> nat \<times> nat \<Rightarrow> nat \<Rightarrow> nat \<Rightarrow> (memory, nat) action" where
  "copy_safe_apart n tab_src tab_dst offset_src offset_dst mem =
     (let (src_begin, src_size) = tab_src; (dst_begin, dst_size) = tab_dst;
          src_rb = src_begin + offset_src; src_rl = src_begin + offset_src + n - 1;
          dst_rb = dst_begin + offset_dst; dst_rl = dst_begin + offset_dst + n - 1
      in if n < 1 then (Inr dst_begin, mem)
         else if \<not> offset_src < src_size then (Inl Err_check_input, mem)
         else if \<not> n \<le> src_size - offset_src then (Inl Err_check_input, mem)
         else if \<not> src_rl \<le> src_begin + src_size then (Inl Abort, mem)
         else if \<not> offset_dst < dst_size then (Inl Err_check_input, mem)
         else if \<not> n \<le> dst_size - offset_dst then (Inl Err_check_input, mem)
         else if \<not> dst_rl \<le> dst_begin + dst_size then (Inl Abort, mem)
         else case test_ranges_overlap_inclusive_noempty src_rb src_rl dst_rb dst_rl of
                Inl e \<Rightarrow> (Inl e, mem)
              | Inr overlap \<Rightarrow>
                  if overlap then (Inl Err_check_input, mem)
                  else case copy_iter_and_check_no_overlap src_rb src_rl dst_rb n mem of
                         Inl e \<Rightarrow> (Inl e, mem)
                       | Inr mem' \<Rightarrow> (Inr dst_rb, mem'))"

definition copy_apart :: "nat \<Rightarrow> 'a list \<Rightarrow> 'a list \<Rightarrow> nat \<Rightarrow> nat \<Rightarrow> 'a list result" where
  \<comment> \<open>the contents of the destination afterwards\<close>
  "copy_apart n src dst offset_src offset_dst =
     (if n < 1 then Inr dst
      else if \<not> (offset_src < length src \<and> n \<le> length src - offset_src) then Inl Err_check_input
      else if \<not> (offset_dst < length dst \<and> n \<le> length dst - offset_dst) then Inl Err_check_input
      else Inr (take offset_dst dst @ take n (drop offset_src src) @ drop (offset_dst + n) dst))"

record tab_view =
  view_begin :: nat
  view_end :: nat
  view_size :: nat

definition tab_view_range :: "nat \<Rightarrow> nat \<Rightarrow> tab_view result" where
  "tab_view_range begin_it end_it =
     (if end_it < begin_it then Inl Invalid_argument
      else Inr \<lparr>view_begin = begin_it, view_end = end_it, view_size = end_it - begin_it\<rparr>)"

definition tab_view_sized :: "nat \<Rightarrow> nat \<Rightarrow> tab_view" where
  "tab_view_sized begin_it sz = \<lparr>view_begin = begin_it, view_end = begin_it + sz, view_size = sz\<rparr>"

definition tab_view_all :: "nat \<times> nat \<Rightarrow> tab_view" where
  "tab_view_all obj =
     (let b = (if snd obj \<noteq> 0 then fst obj else 0)
      in \<lparr>view_begin = b, view_end = b + snd obj, view_size = snd obj\<rparr>)"

definition tab_view_part :: "nat \<times> nat \<Rightarrow> nat \<Rightarrow> nat \<Rightarrow> tab_view result" where
  \<comment> \<open>for \<open>end = 0\<close> the index \<open>end-1\<close> is the largest \<open>size_t\<close>\<close>
  "tab_view_part obj begin_ix end_ix =
     (if end_ix < begin_ix then Inl Invalid_argument
      else if \<not> begin_ix < snd obj then Inl Out_of_range
      else if end_ix = 0 \<or> \<not> end_ix - 1 < snd obj then Inl Out_of_range
      else Inr \<lparr>view_begin = fst obj + begin_ix, view_end = fst obj + (end_ix - 1) + 1,
                view_size = end_ix - begin_ix\<rparr>)"

definition tab_view_at :: "tab_view \<Rightarrow> memory \<Rightarrow> nat \<Rightarrow> byte result" where
  "tab_view_at v mem ix = (if ix \<ge> view_size v then Inl Out_of_range else Inr (mem (view_begin v + ix)))"

definition tab_range_write :: "tab_view \<Rightarrow> nat \<Rightarrow> byte \<Rightarrow> (memory, unit) action" where
  \<comment> \<open>an assignment through the reference that \<open>tab_range::at\<close> returns\<close>
  "tab_range_write v ix x mem =
     (if ix \<ge> view_size v then (Inl Out_of_range, mem) else (Inr (), mem(view_begin v + ix := x)))"

section \<open>Copying between containers\<close>

definition contents :: "memory \<Rightarrow> nat \<times> nat \<Rightarrow> bytes" where
  "contents mem obj = map mem [fst obj..<fst obj + snd obj]"

definition apart :: "nat \<times> nat \<Rightarrow> nat \<times> nat \<Rightarrow> bool" where
  "apart a b \<longleftrightarrow> fst a + snd a \<le> fst b \<or> fst b + snd b \<le> fst a"

lemma length_contents [simp]: "length (contents mem obj) = snd obj"
  by (simp add: contents_def)

lemma nth_contents [simp]: "i < snd obj \<Longrightarrow> contents mem obj ! i = mem (fst obj + i)"
  by (simp add: contents_def)

lemma copy_apart_length: "copy_apart n src dst os od = Inr dst' \<Longrightarrow> length dst' = length dst"
  by (auto simp: copy_apart_def split: if_splits)

lemma contents_std_copy:
  assumes "os + n \<le> snd src" and "od + n \<le> snd dst"
  shows "contents (std_copy (fst src + os) (fst src + os + n) (fst dst + od) mem) dst =
         take od (contents mem dst) @ take n (drop os (contents mem src)) @ drop (od + n) (contents mem dst)"
proof (rule nth_equalityI)
  fix i
  assume "i < length (contents (std_copy (fst src + os) (fst src + os + n) (fst dst + od) mem) dst)"
  then have i: "i < snd dst" by simp
  consider "i < od" | "od \<le> i" "i < od + n" | "od + n \<le> i" by linarith
  then show "contents (std_copy (fst src + os) (fst src + os + n) (fst dst + od) mem) dst ! i =
      (take od (contents mem dst) @ take n (drop os (contents mem src)) @ drop (od + n) (contents mem dst)) ! i"
    using i assms by cases (auto simp: std_copy_def nth_append algebra_simps)
qed (use assms in auto)

text \<open>
  For containers that do not share memory \<open>copy_safe_apart\<close> does what \<open>copy_apart\<close> says of
  their values: it throws \<open>err_check_input\<close> in the same cases, without having written, and
  otherwise changes the octets of the destination range to those of the source range and
  nothing else in memory.
\<close>

theorem copy_safe_apart_refines:
  assumes "apart src dst"
  shows "case copy_apart n (contents mem src) (contents mem dst) os od of
           Inl e \<Rightarrow> copy_safe_apart n src dst os od mem = (Inl e, mem)
         | Inr dst' \<Rightarrow> \<exists>mem'. copy_safe_apart n src dst os od mem = (Inr (fst dst + (if n < 1 then 0 else od)), mem')
                       \<and> contents mem' dst = dst'
                       \<and> (\<forall>a. \<not> (fst dst + od \<le> a \<and> a < fst dst + od + n) \<longrightarrow> mem' a = mem a)"
proof (cases "n < 1 \<or> \<not> (os < snd src \<and> n \<le> snd src - os) \<or> \<not> (od < snd dst \<and> n \<le> snd dst - od)")
  case True
  then show ?thesis
    by (auto simp: copy_apart_def copy_safe_apart_def Let_def split: prod.split)
next
  case False
  obtain sb ss where src: "src = (sb, ss)" by force
  obtain db ds where dst: "dst = (db, ds)" by force
  from False have n: "1 \<le> n" "os + n \<le> ss" "od + n \<le> ds" by (auto simp: src dst)
  then have end_it: "Suc (sb + os + n - 1) = sb + os + n" by linarith
  have no: "\<not> (sb + os \<le> db + od + n - 1 \<and> db + od \<le> sb + os + n - 1)"
    using assms n by (auto simp: apart_def src dst)
  have bounds: "n \<le> ss - os" "n \<le> ds - od" "os < ss" "od < ds" "sb + os \<le> sb + os + n - 1"
    "db + od \<le> db + od + n - 1" "sb + os + n - 1 \<le> sb + ss" "db + od + n - 1 \<le> db + ds"
    using n by linarith+
  have run: "copy_safe_apart n src dst os od mem =
               (Inr (db + od), std_copy (sb + os) (sb + os + n) (db + od) mem)"
    using n(1) no end_it bounds
    by (auto simp: copy_safe_apart_def src dst Let_def copy_iter_and_check_no_overlap_def
        test_ranges_overlap_inclusive_noempty_def)
  show ?thesis
    using n run contents_std_copy [of os n src od dst mem]
    by (auto simp: copy_apart_def src dst std_copy_def)
qed

theorem copy_safe_apart_refines_witness:
  "\<exists>mem'. copy_safe_apart 2 (100, 4) (200, 3) 1 1 (\<lambda>a. of_nat a) = (Inr 201, mem')
      \<and> contents mem' (200, 3) = [200, 101, 102]"
  using copy_safe_apart_refines [where src = "(100, 4)" and dst = "(200, 3)" and n = 2 and mem = "\<lambda>a. of_nat a"
      and os = 1 and od = 1]
  by (auto simp: apart_def contents_def copy_apart_def upt_conv_Cons)

section \<open>Views\<close>

text \<open>A view that was constructed covers elements of the container only, and \<open>at\<close> reads those.\<close>

lemma tab_view_part_inside:
  assumes "tab_view_part obj b e = Inr v"
  shows "b \<le> e" and "e \<le> snd obj" and "view_begin v = fst obj + b" and "view_end v = fst obj + e"
    and "view_size v = e - b"
  using assms by (auto simp: tab_view_part_def split: if_splits)

lemma tab_view_part_at:
  assumes "tab_view_part obj b e = Inr v"
  shows "tab_view_at v mem ix =
           (if b + ix < e then Inr (contents mem obj ! (b + ix)) else Inl Out_of_range)"
  using tab_view_part_inside [OF assms] by (auto simp: tab_view_at_def add.assoc)

lemma tab_view_part_empty: "\<nexists>v. tab_view_part obj 0 0 = Inr v"
  by (auto simp: tab_view_part_def)

lemma tab_range_write_then_at:
  "ix < view_size v \<Longrightarrow> jx < view_size v \<Longrightarrow>
   tab_view_at v (snd (tab_range_write v ix x mem)) jx = (if ix = jx then Inr x else tab_view_at v mem jx)"
  by (auto simp: tab_view_at_def tab_range_write_def)

end
