(* ===== verification/Ndp.thy ===== *)
theory Ndp
  imports Tab
begin

text \<open>
  Neighbour discovery for the TAP device of Windows: \<^verbatim>\<open>src/src/c_ndp.hpp\<close> and
  \<^verbatim>\<open>src/src/c_ndp.cpp\<close>. The node answers the neighbour solicitations of its own kernel.

  There are two generations of the code: the deprecated functions work on the array of the old
  device class through pointers, the new ones on views, and \<open>generate_neighbor_advertisement_new\<close>
  fills in a static template which it keeps between calls; the template is the state here.
  \<open>little_edian\<close> (so spelled in the code) is the byte order of the host. Sums are natural
  numbers: at most \<open>2^15\<close> pairs of octets are added, far from the width of the 64-bit
  accumulator (\<open>checksum_total_fits\<close>).
\<close>

section \<open>The code\<close>

definition array_read :: "bytes \<Rightarrow> nat \<Rightarrow> byte result" where
  \<comment> \<open>a read through a pointer into an array\<close>
  "array_read a i = (if i < length a then Inr (a ! i) else Inl Undefined_behaviour)"

definition ndp_eth_and_ip :: bytes where
  "ndp_eth_and_ip = [0xFC, 0x00, 0x00, 0x00, 0x00, 0x00, 0x86, 0xDD,
                     0x60, 0x00, 0x00, 0x00, 0x00, 0x28, 0x3A, 0xFF]"

definition ndp_options :: bytes where
  "ndp_options = [0x02, 0x01, 0xFC, 0x00, 0x00, 0x00, 0x00, 0x00, 0x01, 0x01]"

definition m_generate_neighbor_advertisement_packet :: bytes where
  "m_generate_neighbor_advertisement_packet =
     [0x00, 0x00, 0x00, 0x00, 0x00, 0x00,
      0xFC, 0x00, 0x00, 0x00, 0x00, 0x00,
      0x86, 0xDD,
      0x60, 0x00, 0x00, 0x00,
      0x00, 0x28,
      0x3A,
      0xFF,
      0x00, 0x00, 0x00, 0x00, 0x00, 0x00, 0x00, 0x00,
      0x00, 0x00, 0x00, 0x00, 0x00, 0x00, 0x00, 0x00,
      0x00, 0x00, 0x00, 0x00, 0x00, 0x00, 0x00, 0x00,
      0x00, 0x00, 0x00, 0x00, 0x00, 0x00, 0x00, 0x00,
      0x88,
      0x00,
      0x00, 0x00,
      0xE0,
      0x00, 0x00, 0x00,
      0x00, 0x00, 0x00, 0x00, 0x00, 0x00, 0x00, 0x00,
      0x00, 0x00, 0x00, 0x00, 0x00, 0x00, 0x00, 0x00,
      0x02, 0x01,
      0xFC, 0x00, 0x00, 0x00, 0x00, 0x00,
      0x01,
      0x01,
      0x00, 0x00, 0x00, 0x00, 0x00, 0x00]"

definition is_packet_neighbor_solicitation_array :: "bytes \<Rightarrow> bool result" where
  "is_packet_neighbor_solicitation_array packet_data =
     bindR (array_read packet_data (14 + 40)) (\<lambda>packet_type. Inr (packet_type = 135))"

definition is_packet_neighbor_solicitation :: "bytes \<Rightarrow> nat \<Rightarrow> bool result" where
  \<comment> \<open>\<open>sz\<close> octets of \<open>data\<close> hold the frame\<close>
  "is_packet_neighbor_solicitation data sz =
     (let offset_icmpv6_type = 14 + 40 + 0
      in if sz \<le> offset_icmpv6_type then Inr False
         else bindR (array_read data offset_icmpv6_type) (\<lambda>packet_type. Inr (packet_type = 135)))"

definition htonl_swap :: "nat \<Rightarrow> nat" where
  \<comment> \<open>\<open>htonl\<close> of a little-endian host on a 32-bit value\<close>
  "htonl_swap v = (v mod 256) * 2 ^ 24 + (v div 256 mod 256) * 2 ^ 16 + (v div 2 ^ 16 mod 256) * 256 + v div 2 ^ 24 mod 256"

function (sequential) checksum_loop :: "(nat \<Rightarrow> byte result) \<Rightarrow> nat \<Rightarrow> nat \<Rightarrow> nat \<Rightarrow> nat result" where
  "checksum_loop read_at limit i res =
     (if i < limit then
        bindR (read_at i) (\<lambda>x. bindR (read_at (i + 1)) (\<lambda>y.
          checksum_loop read_at limit (i + 2) (res + unat x + unat y * 256)))
      else Inr res)"
  by pat_completeness auto

termination
  by (relation "measure (\<lambda>(read_at, limit, i, res). limit - i)") auto

function (sequential) checksum_fold :: "nat \<Rightarrow> nat" where
  "checksum_fold res =
     (if res div 2 ^ 16 \<noteq> 0 then checksum_fold (res div 2 ^ 16 + res mod 2 ^ 16) else res)"
  by pat_completeness auto

termination
proof (relation "measure id")
  fix r :: nat
  assume "r div 2 ^ 16 \<noteq> 0"
  then have "r div 2 ^ 16 * 1 < r div 2 ^ 16 * 2 ^ 16" by simp
  also have "\<dots> + r mod 2 ^ 16 = r" by (rule div_mult_mod_eq)
  finally have "r div 2 ^ 16 + r mod 2 ^ 16 < r" by simp
  then show "(r div 2 ^ 16 + r mod 2 ^ 16, r) \<in> measure id" by simp
qed simp

definition checksum_not :: "nat \<Rightarrow> nat" where
  \<comment> \<open>\<open>~result\<close> of the 64-bit accumulator, returned as \<open>uint16_t\<close>\<close>
  "checksum_not res = unat (ucast (NOT (of_nat res :: 64 word)) :: 16 word)"

definition checksum_of :: "bool \<Rightarrow> (nat \<Rightarrow> byte result) \<Rightarrow> (nat \<Rightarrow> byte result) \<Rightarrow> nat \<Rightarrow> nat \<Rightarrow> nat result" where
  \<comment> \<open>the common text of both overloads; they differ in how an octet is read\<close>
  "checksum_of little_edian addr_at content_at len next_hvalue =
     (if \<not> len > 0 then Inl Abort
      else
        let next_h = (if little_edian then htonl_swap next_hvalue else next_hvalue) in
        bindR (checksum_loop addr_at 32 0 0) (\<lambda>r1.
        bindR (checksum_loop content_at len 0 r1) (\<lambda>r2.
        bindR (if odd len then bindR (content_at (len - 1)) (\<lambda>x. Inr (r2 + (if little_edian then unat x * 256 else unat x)))
               else Inr r2) (\<lambda>r3.
        let length_bigendian = (if little_edian then htonl_swap len else len);
            r4 = r3 + (length_bigendian div 2 ^ 16 + length_bigendian mod 2 ^ 16) + (next_h div 2 ^ 16 + next_h mod 2 ^ 16)
        in Inr (checksum_not (checksum_fold r4))))))"

definition checksum_ipv6_packet_ptr :: "bool \<Rightarrow> bytes \<Rightarrow> nat \<Rightarrow> nat \<Rightarrow> nat \<Rightarrow> nat \<Rightarrow> nat result" where
  \<comment> \<open>the deprecated overload; both pointers point into the array \<open>a\<close>\<close>
  "checksum_ipv6_packet_ptr little_edian a source_destination_addr header_with_content len next_hvalue =
     checksum_of little_edian (\<lambda>i. array_read a (source_destination_addr + i))
       (\<lambda>i. array_read a (header_with_content + i)) len next_hvalue"

definition checksum_ipv6_packet :: "bool \<Rightarrow> memory \<Rightarrow> tab_view \<Rightarrow> tab_view \<Rightarrow> nat \<Rightarrow> nat result" where
  "checksum_ipv6_packet little_edian mem source_destination_addr header_with_content next_hvalue =
     checksum_of little_edian (tab_view_at source_destination_addr mem) (tab_view_at header_with_content mem)
       (view_size header_with_content mod 2 ^ 16) next_hvalue"

definition generate_neighbor_advertisement :: "bool \<Rightarrow> bytes \<Rightarrow> bytes result" where
  "generate_neighbor_advertisement little_edian solicitation =
     bindR (mapR (array_read solicitation) [6..<12]) (\<lambda>input_src_mac_address.
     bindR (mapR (array_read solicitation) [62..<78]) (\<lambda>input_icmp_target_address.
     bindR (mapR (array_read solicitation) [22..<38]) (\<lambda>input_source_ipv6_address.
     let return_packet =
           input_src_mac_address @ [0xFC] @ replicate 5 0x00 @ [0x86, 0xDD] @
           [0x60, 0x00, 0x00, 0x00] @ [0x00, 0x28] @ [0x3A] @ [0xFF] @
           input_icmp_target_address @ input_source_ipv6_address @
           [136, 0] @ [0x00, 0x00] @ [0xE0] @ [0x00, 0x00, 0x00] @ input_icmp_target_address @
           [0x02, 0x01] @ [0xFC] @ replicate 5 0x00 @ [0x01, 0x01] @ input_src_mac_address
     in bindR (checksum_ipv6_packet_ptr little_edian return_packet 22 54 40 58) (\<lambda>checksum.
        let low = of_nat checksum; high = of_nat (checksum div 256)
        in Inr (if little_edian then return_packet[56 := low, 57 := high]
                else return_packet[56 := high, 57 := low])))))"

definition template_copy :: "nat \<Rightarrow> bytes \<Rightarrow> nat \<Rightarrow> nat \<Rightarrow> (bytes, unit) action" where
  \<comment> \<open>\<open>copy_safe_apart\<close> into the static template, whose memory nobody else has\<close>
  "template_copy n src offset_src offset_dst tpl =
     (case copy_apart n src tpl offset_src offset_dst of Inl e \<Rightarrow> (Inl e, tpl) | Inr tpl' \<Rightarrow> (Inr (), tpl'))"

definition template_store :: "nat \<Rightarrow> byte \<Rightarrow> (bytes, unit) action" where
  "template_store i x tpl = (if i < length tpl then (Inr (), tpl[i := x]) else (Inl Out_of_range, tpl))"

definition template_checksum :: "bool \<Rightarrow> (bytes, nat) action" where
  \<comment> \<open>the two views and the checksum over them; addresses count from the start of the template\<close>
  "template_checksum little_edian tpl =
     (bindR (tab_view_part (0, length tpl) 22 (22 + 32)) (\<lambda>source_destination_addr.
      bindR (tab_view_part (0, length tpl) 54 (54 + 40)) (\<lambda>header_with_content.
      checksum_ipv6_packet little_edian (\<lambda>a. tpl ! a) source_destination_addr header_with_content 58)), tpl)"

definition generate_neighbor_advertisement_new :: "bool \<Rightarrow> bytes \<Rightarrow> bytes \<Rightarrow> (bytes, bytes) action" where
  "generate_neighbor_advertisement_new little_edian mac_address_container packet_container =
     andThen (template_copy 6 mac_address_container 0 0) (\<lambda>_.
     andThen (template_copy 16 packet_container 62 22) (\<lambda>_.
     andThen (template_copy 16 packet_container 22 38) (\<lambda>_.
     andThen (template_copy 16 packet_container 62 62) (\<lambda>_.
     andThen (template_copy 6 mac_address_container 0 88) (\<lambda>_.
     andThen (template_store 56 0x00) (\<lambda>_.
     andThen (template_store 57 0x00) (\<lambda>_.
     andThen (template_checksum little_edian) (\<lambda>checksum.
     andThen (template_store 56 (of_nat (checksum mod 256))) (\<lambda>_.
     andThen (template_store 57 (of_nat (checksum div 256))) (\<lambda>_ tpl. (Inr tpl, tpl)))))))))))"


section \<open>One's complement sums\<close>

fun le_sum :: "bytes \<Rightarrow> nat" where
  "le_sum (x # y # r) = unat x + unat y * 256 + le_sum r"
| "le_sum _ = 0"

fun be_sum :: "bytes \<Rightarrow> nat" where
  \<comment> \<open>the sum of 16-bit words in network order\<close>
  "be_sum (x # y # r) = unat x * 256 + unat y + be_sum r"
| "be_sum _ = 0"

lemma le_sum_append [simp]: "even (length xs) \<Longrightarrow> le_sum (xs @ ys) = le_sum xs + le_sum ys"
  by (induction xs rule: le_sum.induct) auto

lemma be_sum_append [simp]: "even (length xs) \<Longrightarrow> be_sum (xs @ ys) = be_sum xs + be_sum ys"
  by (induction xs rule: be_sum.induct) auto

lemma be_sum_swapped: "256 * le_sum xs mod 65535 = be_sum xs mod 65535"
proof (induction xs rule: le_sum.induct)
  case (1 x y r)
  have "256 * le_sum (x # y # r) = (256 * unat x + unat y + 256 * le_sum r) + 65535 * unat y"
    by simp
  also have "\<dots> mod 65535 = (256 * unat x + unat y + 256 * le_sum r) mod 65535" by (rule mod_mult_self2)
  also have "\<dots> = (256 * unat x + unat y + be_sum r) mod 65535" by (metis 1 mod_add_right_eq)
  finally show ?case by (simp add: mult.commute)
qed auto

lemma le_sum_bound: "le_sum xs \<le> 65535 * (length xs div 2)"
proof (induction xs rule: le_sum.induct)
  case (1 x y r)
  have "unat x < 256" "unat y < 256" 
    using unsigned_less [where 'a = nat, of x] unsigned_less [where 'a = nat, of y] by simp_all
  with 1 show ?case by simp
qed auto

declare checksum_loop.simps [simp del] checksum_fold.simps [simp del]

lemma checksum_loop_list:
  assumes "\<And>k. k < length xs \<Longrightarrow> read_at k = Inr (xs ! k)" and "even (length xs)"
  shows "even i \<Longrightarrow> i \<le> length xs \<Longrightarrow> checksum_loop read_at (length xs) i acc = Inr (acc + le_sum (drop i xs))"
proof (induction "length xs - i" arbitrary: i acc rule: less_induct)
  case less
  show ?case
  proof (cases "i < length xs")
    case True
    with less.prems assms(2) have "Suc i < length xs" by presburger
    then have "drop i xs = xs ! i # xs ! Suc i # drop (i + 2) xs"
      by (simp add: Cons_nth_drop_Suc)
    with less True \<open>Suc i < length xs\<close> assms(1) show ?thesis
      by (subst checksum_loop.simps) simp
  next
    case False
    with less show ?thesis by (subst checksum_loop.simps) simp
  qed
qed

lemma checksum_fold_props:
  "checksum_fold r < 65536 \<and> checksum_fold r mod 65535 = r mod 65535 \<and> (checksum_fold r = 0 \<longleftrightarrow> r = 0)"
proof (induction r rule: checksum_fold.induct)
  case (1 r)
  show ?case
  proof (cases "r div 2 ^ 16 = 0")
    case True
    then show ?thesis by (subst (1 2 3) checksum_fold.simps) (auto simp: div_eq_0_iff)
  next
    case False
    let ?s = "r div 2 ^ 16 + r mod 2 ^ 16"
    have fold: "checksum_fold r = checksum_fold ?s" using False by (subst checksum_fold.simps) simp
    have "r = ?s + 65535 * (r div 2 ^ 16)" using div_mult_mod_eq [of r "2 ^ 16"] by simp
    then have "r mod 65535 = ?s mod 65535" by (metis mod_mult_self2)
    with 1 [OF False] False fold show ?thesis by auto
  qed
qed

lemma checksum_fold_full:
  assumes "r mod 65535 = 0" and "r > 0"
  shows "checksum_fold r = 65535"
proof -
  have "checksum_fold r < 65536" "checksum_fold r mod 65535 = 0" "checksum_fold r \<noteq> 0"
    using checksum_fold_props [of r] assms by auto
  then show ?thesis by (auto simp: mod_eq_0_iff_dvd elim!: dvdE)
qed

lemma checksum_not_value:
  assumes "r < 65536"
  shows "checksum_not r = 65535 - r"
proof -
  have "(ucast (NOT (of_nat r :: 64 word)) :: 16 word) = NOT (of_nat r)"
    by (rule bit_word_eqI) (simp add: bit_simps)
  moreover have "unat (NOT (of_nat r :: 16 word)) = 65535 - r"
  proof -
    have "NOT (of_nat r :: 16 word) = of_nat 65535 - of_nat r" by (simp add: not_eq_complement)
    also have "\<dots> = of_nat (65535 - r)" using assms by (simp add: of_nat_diff)
    finally show ?thesis by (simp add: unat_of_nat)
  qed
  ultimately show ?thesis by (simp add: checksum_not_def)
qed


section \<open>The layout of the advertisement\<close>

definition ndp_message :: "bytes \<Rightarrow> bytes \<Rightarrow> bytes \<Rightarrow> bytes" where
  \<comment> \<open>the ICMPv6 message: checksum, target address, link-layer address\<close>
  "ndp_message ck target link = [0x88, 0x00] @ ck @ [0xE0, 0x00, 0x00, 0x00] @ target @ ndp_options @ link"

definition ndp_frame :: "bytes \<Rightarrow> bytes \<Rightarrow> bytes \<Rightarrow> bytes \<Rightarrow> bytes \<Rightarrow> bytes \<Rightarrow> bytes" where
  "ndp_frame mac src dst ck target link = mac @ ndp_eth_and_ip @ src @ dst @ ndp_message ck target link"

definition ndp_sized :: "bytes \<Rightarrow> bytes \<Rightarrow> bytes \<Rightarrow> bytes \<Rightarrow> bytes \<Rightarrow> bytes \<Rightarrow> bool" where
  "ndp_sized mac src dst ck target link \<longleftrightarrow>
     length mac = 6 \<and> length src = 16 \<and> length dst = 16 \<and> length ck = 2 \<and> length target = 16 \<and> length link = 6"

definition ndp_template :: "bytes \<Rightarrow> bool" where
  \<comment> \<open>a template whose constant octets are those of the initial one\<close>
  "ndp_template tpl \<longleftrightarrow> (\<exists>mac src dst ck target link.
     tpl = ndp_frame mac src dst ck target link \<and> ndp_sized mac src dst ck target link)"

definition le_octets :: "nat \<Rightarrow> bytes" where
  "le_octets c = [of_nat (c mod 256), of_nat (c div 256)]"

definition ndp_total :: "bytes \<Rightarrow> bytes \<Rightarrow> nat" where
  \<comment> \<open>what the code adds up on a little-endian host, with a checksum field of zero\<close>
  "ndp_total addresses message = le_sum addresses + le_sum message + 40 * 256 + 58 * 256"

lemma length_ndp_parts [simp]: "length ndp_eth_and_ip = 16" "length ndp_options = 10"
  by (simp_all add: ndp_eth_and_ip_def ndp_options_def)

lemma ndp_sized_lengths:
  assumes "ndp_sized mac src dst ck target link"
  shows "length mac = 6" "length src = 16" "length dst = 16" "length ck = 2" "length target = 16" "length link = 6"
  using assms by (simp_all add: ndp_sized_def)

lemma length_ndp_message: "length ck = 2 \<Longrightarrow> length target = 16 \<Longrightarrow> length link = 6 \<Longrightarrow> length (ndp_message ck target link) = 40"
  by (simp add: ndp_message_def)

lemma length_ndp_frame: "ndp_sized mac src dst ck target link \<Longrightarrow> length (ndp_frame mac src dst ck target link) = 94"
  by (simp add: ndp_frame_def ndp_message_def ndp_sized_def)

lemma ndp_frame_addresses:
  "ndp_sized mac src dst ck target link \<Longrightarrow>
   take 32 (drop 22 (ndp_frame mac src dst ck target link)) = src @ dst"
  by (simp add: ndp_frame_def ndp_sized_def)

lemma ndp_frame_message:
  "ndp_sized mac src dst ck target link \<Longrightarrow>
   drop 54 (ndp_frame mac src dst ck target link) = ndp_message ck target link"
  by (simp add: ndp_frame_def ndp_sized_def)

lemma initial_ndp_template: "ndp_template m_generate_neighbor_advertisement_packet"
proof -
  have "m_generate_neighbor_advertisement_packet =
      ndp_frame (replicate 6 0) (replicate 16 0) (replicate 16 0) (replicate 2 0) (replicate 16 0) (replicate 6 0)"
    by (simp add: m_generate_neighbor_advertisement_packet_def ndp_frame_def ndp_message_def
        ndp_eth_and_ip_def ndp_options_def numeral_eq_Suc)
  moreover have "ndp_sized (replicate 6 0) (replicate 16 0) (replicate 16 0) (replicate 2 0) (replicate 16 0) (replicate 6 0)"
    by (simp add: ndp_sized_def)
  ultimately show ?thesis unfolding ndp_template_def by blast
qed

lemma copy_apart_segment:
  assumes "length pre = od" and "length mid = n" and "os + n \<le> length src" and "n > 0"
  shows "copy_apart n src (pre @ mid @ post) os od = Inr (pre @ take n (drop os src) @ post)"
  using assms by (auto simp: copy_apart_def)

lemma copy_apart_short: "\<not> os + n \<le> length src \<Longrightarrow> n > 0 \<Longrightarrow> copy_apart n src dst os od = Inl Err_check_input"
  by (auto simp: copy_apart_def)

lemma template_copies:
  assumes "ndp_sized mac src dst ck target link"
  shows "6 \<le> length m \<Longrightarrow> template_copy 6 m 0 0 (ndp_frame mac src dst ck target link) =
           (Inr (), ndp_frame (take 6 m) src dst ck target link)"
    and "78 \<le> length p \<Longrightarrow> template_copy 16 p 62 22 (ndp_frame mac src dst ck target link) =
           (Inr (), ndp_frame mac (take 16 (drop 62 p)) dst ck target link)"
    and "38 \<le> length p \<Longrightarrow> template_copy 16 p 22 38 (ndp_frame mac src dst ck target link) =
           (Inr (), ndp_frame mac src (take 16 (drop 22 p)) ck target link)"
    and "78 \<le> length p \<Longrightarrow> template_copy 16 p 62 62 (ndp_frame mac src dst ck target link) =
           (Inr (), ndp_frame mac src dst ck (take 16 (drop 62 p)) link)"
    and "6 \<le> length m \<Longrightarrow> template_copy 6 m 0 88 (ndp_frame mac src dst ck target link) =
           (Inr (), ndp_frame mac src dst ck target (take 6 m))"
  using assms
    copy_apart_segment [of "[]" 0 mac 6 0 m "ndp_eth_and_ip @ src @ dst @ ndp_message ck target link"]
    copy_apart_segment [of "mac @ ndp_eth_and_ip" 22 src 16 62 p "dst @ ndp_message ck target link"]
    copy_apart_segment [of "mac @ ndp_eth_and_ip @ src" 38 dst 16 22 p "ndp_message ck target link"]
    copy_apart_segment [of "mac @ ndp_eth_and_ip @ src @ dst @ [0x88, 0x00] @ ck @ [0xE0, 0x00, 0x00, 0x00]" 62
      target 16 62 p "ndp_options @ link"]
    copy_apart_segment [of "mac @ ndp_eth_and_ip @ src @ dst @ [0x88, 0x00] @ ck @ [0xE0, 0x00, 0x00, 0x00] @ target @ ndp_options" 88
      link 6 0 m "[]"]
  by (simp_all add: template_copy_def ndp_frame_def ndp_message_def ndp_sized_def)

lemma template_copy_throws:
  "\<not> os + n \<le> length src \<Longrightarrow> n > 0 \<Longrightarrow> template_copy n src os od tpl = (Inl Err_check_input, tpl)"
  by (simp add: template_copy_def copy_apart_short)

lemma template_store_checksum:
  assumes "ndp_sized mac src dst [c0, c1] target link"
  shows "template_store 56 x (ndp_frame mac src dst [c0, c1] target link) =
           (Inr (), ndp_frame mac src dst [x, c1] target link)"
    and "template_store 57 x (ndp_frame mac src dst [c0, c1] target link) =
           (Inr (), ndp_frame mac src dst [c0, x] target link)"
  using assms by (simp_all add: template_store_def ndp_frame_def ndp_message_def ndp_sized_def list_update_append)

section \<open>The checksum of a frame\<close>

lemma checksum_of_even:
  assumes "\<And>k. k < 32 \<Longrightarrow> addr_at k = Inr (addrs ! k)" and "length addrs = 32"
    and "\<And>k. k < length msg \<Longrightarrow> content_at k = Inr (msg ! k)" and "even (length msg)" and "msg \<noteq> []"
  shows "checksum_of True addr_at content_at (length msg) h =
     Inr (checksum_not (checksum_fold (le_sum addrs + le_sum msg
       + (htonl_swap (length msg) div 2 ^ 16 + htonl_swap (length msg) mod 2 ^ 16)
       + (htonl_swap h div 2 ^ 16 + htonl_swap h mod 2 ^ 16))))"
proof -
  have "checksum_loop addr_at 32 0 0 = Inr (le_sum addrs)"
    using checksum_loop_list [of addrs addr_at 0 0] assms(1,2) by simp
  moreover have "checksum_loop content_at (length msg) 0 (le_sum addrs) = Inr (le_sum addrs + le_sum msg)"
    using checksum_loop_list [of msg content_at 0 "le_sum addrs"] assms(3,4) by simp
  ultimately show ?thesis using assms(4,5) by (simp add: checksum_of_def Let_def)
qed

lemma checksum_frame:
  assumes "ndp_sized mac src dst ck target link"
  defines "frame \<equiv> ndp_frame mac src dst ck target link"
  defines "c \<equiv> checksum_not (checksum_fold (ndp_total (src @ dst) (ndp_message ck target link)))"
  shows "checksum_ipv6_packet_ptr True frame 22 54 40 58 = Inr c"
    and "template_checksum True frame = (Inr c, frame)"
proof -
  let ?msg = "ndp_message ck target link"
  have len: "length frame = 94" using assms(1) by (simp add: frame_def length_ndp_frame)
  have nth: "k < 32 \<Longrightarrow> frame ! (22 + k) = (src @ dst) ! k" "k < 40 \<Longrightarrow> frame ! (54 + k) = ?msg ! k" for k
    using assms(1) arg_cong [OF ndp_frame_addresses [OF assms(1)], of "\<lambda>xs. xs ! k"]
      arg_cong [OF ndp_frame_message [OF assms(1)], of "\<lambda>xs. xs ! k"] len
    by (simp_all add: frame_def)
  have msg: "length ?msg = 40" "?msg \<noteq> []" using assms(1) by (auto simp: ndp_message_def ndp_sized_def)
  have addrs: "length (src @ dst) = 32" using assms(1) by (simp add: ndp_sized_def)
  have sum: "checksum_of True addr_at content_at 40 58 = Inr c"
    if "\<And>k. k < 32 \<Longrightarrow> addr_at k = Inr (frame ! (22 + k))" "\<And>k. k < 40 \<Longrightarrow> content_at k = Inr (frame ! (54 + k))"
    for addr_at content_at
    using checksum_of_even [of addr_at "src @ dst" ?msg content_at 58] that nth msg addrs
    by (simp add: c_def ndp_total_def htonl_swap_def)
  show "checksum_ipv6_packet_ptr True frame 22 54 40 58 = Inr c"
    unfolding checksum_ipv6_packet_ptr_def by (rule sum) (simp_all add: array_read_def len)
  show "template_checksum True frame = (Inr c, frame)"
    by (simp add: template_checksum_def tab_view_part_def len checksum_ipv6_packet_def sum tab_view_at_def)
qed


section \<open>Both generators\<close>

inductive ndp_reachable :: "bytes \<Rightarrow> bool" where
  initial: "ndp_reachable m_generate_neighbor_advertisement_packet"
| generated: "ndp_reachable tpl \<Longrightarrow> ndp_reachable (snd (generate_neighbor_advertisement_new le m p tpl))"

abbreviation keeps_template :: "(bytes, 'a) action \<Rightarrow> bool" where
  "keeps_template \<equiv> keeps (\<lambda>s t. ndp_template s \<longrightarrow> ndp_template t)"

lemma template_step_transp: "transp (\<lambda>s t. ndp_template s \<longrightarrow> ndp_template t)"
  by (rule transpI) blast

lemma ndp_template_frame: "ndp_sized mac src dst ck target link \<Longrightarrow> ndp_template (ndp_frame mac src dst ck target link)"
  unfolding ndp_template_def by blast

lemma ndp_sized_update:
  assumes "ndp_sized mac src dst ck target link"
  shows "6 \<le> length m \<Longrightarrow> ndp_sized (take 6 m) src dst ck target link"
    and "78 \<le> length p \<Longrightarrow> ndp_sized mac (take 16 (drop 62 p)) dst ck target link"
    and "38 \<le> length p \<Longrightarrow> ndp_sized mac src (take 16 (drop 22 p)) ck target link"
    and "78 \<le> length p \<Longrightarrow> ndp_sized mac src dst ck (take 16 (drop 62 p)) link"
    and "6 \<le> length m \<Longrightarrow> ndp_sized mac src dst ck target (take 6 m)"
    and "ndp_sized mac src dst [x, y] target link"
  using assms by (simp_all add: ndp_sized_def)

lemma keeps_template_copies:
  "keeps_template (template_copy 6 m 0 0)" "keeps_template (template_copy 16 p 62 22)"
  "keeps_template (template_copy 16 p 22 38)" "keeps_template (template_copy 16 p 62 62)"
  "keeps_template (template_copy 6 m 0 88)"
proof -
  have copy: "keeps_template (template_copy n q os od)"
    if "n > 0" and "\<And>mac src dst ck target link. os + n \<le> length q \<Longrightarrow> ndp_sized mac src dst ck target link \<Longrightarrow>
          ndp_template (snd (template_copy n q os od (ndp_frame mac src dst ck target link)))"
    for n q os od
    using that by (cases "os + n \<le> length q") (auto simp: keeps_def ndp_template_def template_copy_throws)
  show "keeps_template (template_copy 6 m 0 0)" "keeps_template (template_copy 16 p 62 22)"
    "keeps_template (template_copy 16 p 22 38)" "keeps_template (template_copy 16 p 62 62)"
    "keeps_template (template_copy 6 m 0 88)"
    by (rule copy; simp add: template_copies ndp_template_frame ndp_sized_update)+
qed

lemma keeps_template_store: "i = 56 \<or> i = 57 \<Longrightarrow> keeps_template (template_store i x)"
proof (rule keepsI, rule impI)
  fix s
  assume i: "i = 56 \<or> i = 57" and "ndp_template s"
  then obtain mac src dst ck target link
    where s: "s = ndp_frame mac src dst ck target link" and sized: "ndp_sized mac src dst ck target link"
    by (auto simp: ndp_template_def)
  from sized obtain c0 c1 where ck: "ck = [c0, c1]"
    by (auto simp: ndp_sized_def numeral_eq_Suc length_Suc_conv)
  show "ndp_template (snd (template_store i x s))"
    using i sized unfolding s ck by (auto simp: template_store_checksum ndp_sized_def intro!: ndp_template_frame)
qed

lemma keeps_template_rest:
  "keeps_template (template_checksum le)" "keeps_template (\<lambda>tpl. (Inr tpl, tpl))"
  by (simp_all add: keeps_def template_checksum_def)

lemma ndp_reachable_template: "ndp_reachable tpl \<Longrightarrow> ndp_template tpl"
proof (induction rule: ndp_reachable.induct)
  case initial
  show ?case by (rule initial_ndp_template)
next
  case (generated tpl le m p)
  have "keeps_template (generate_neighbor_advertisement_new le m p)"
    unfolding generate_neighbor_advertisement_new_def
    by (intro keeps_andThen [OF template_step_transp] keeps_template_copies keeps_template_rest keeps_template_store) auto
  from keepsD [OF this] generated.IH show ?case by blast
qed

definition advertisement :: "bytes \<Rightarrow> bytes \<Rightarrow> bytes" where
  \<comment> \<open>the answer to the solicitation \<open>p\<close> for the device with the address \<open>m\<close>\<close>
  "advertisement m p =
     (let target = take 16 (drop 62 p); asker = take 16 (drop 22 p); mac = take 6 m;
          c = checksum_not (checksum_fold (ndp_total (target @ asker) (ndp_message [0, 0] target mac)))
      in ndp_frame mac target asker (le_octets c) target mac)"

lemma advertisement_sized:
  "6 \<le> length m \<Longrightarrow> 78 \<le> length p \<Longrightarrow>
   ndp_sized (take 6 m) (take 16 (drop 62 p)) (take 16 (drop 22 p)) [x, y] (take 16 (drop 62 p)) (take 6 m)"
  by (simp add: ndp_sized_def)

lemma generate_new_run:
  assumes "ndp_template tpl" and "6 \<le> length m" and "78 \<le> length p"
  shows "generate_neighbor_advertisement_new True m p tpl = (Inr (advertisement m p), advertisement m p)"
proof -
  obtain mac src dst ck target link
    where tpl: "tpl = ndp_frame mac src dst ck target link" and sized: "ndp_sized mac src dst ck target link"
    using assms(1) by (auto simp: ndp_template_def)
  from sized obtain c0 c1 where ck: "ck = [c0, c1]"
    by (auto simp: ndp_sized_def numeral_eq_Suc length_Suc_conv)
  have copied: "andThen (template_copy 6 m 0 0) (\<lambda>_. andThen (template_copy 16 p 62 22) (\<lambda>_.
      andThen (template_copy 16 p 22 38) (\<lambda>_. andThen (template_copy 16 p 62 62) (\<lambda>_.
      andThen (template_copy 6 m 0 88) rest)))) tpl =
      rest () (ndp_frame (take 6 m) (take 16 (drop 62 p)) (take 16 (drop 22 p)) [c0, c1] (take 16 (drop 62 p)) (take 6 m))"
    for rest :: "unit \<Rightarrow> (bytes, bytes) action"
    using assms(2,3) sized by (simp add: tpl ck template_copies ndp_sized_def)
  define F where "F c = ndp_frame (take 6 m) (take 16 (drop 62 p)) (take 16 (drop 22 p)) c (take 16 (drop 62 p)) (take 6 m)" for c
  define c where "c = checksum_not (checksum_fold (ndp_total (take 16 (drop 62 p) @ take 16 (drop 22 p))
      (ndp_message [0, 0] (take 16 (drop 62 p)) (take 6 m))))"
  have "template_store 56 z (F [x, y]) = (Inr (), F [z, y])" "template_store 57 z (F [x, y]) = (Inr (), F [x, z])"
    "template_checksum True (F [0, 0]) = (Inr c, F [0, 0])" for x y z
    unfolding F_def c_def by (rule template_store_checksum checksum_frame(2), rule advertisement_sized [OF assms(2,3)])+
  moreover have "advertisement m p = F [of_nat (c mod 256), of_nat (c div 256)]"
    by (simp add: advertisement_def Let_def le_octets_def F_def c_def)
  ultimately show ?thesis
    by (simp add: generate_neighbor_advertisement_new_def copied F_def [symmetric])
qed

lemma mapR_array_read:
  assumes "a + n \<le> length p"
  shows "mapR (array_read p) [a..<a + n] = Inr (take n (drop a p))"
  using assms by (auto simp: mapR_Inr_iff list_all2_conv_all_nth array_read_def)

lemma generate_old_run:
  assumes "78 \<le> length p"
  shows "generate_neighbor_advertisement True p = Inr (advertisement (take 6 (drop 6 p)) p)"
proof -
  let ?t = "take 16 (drop 62 p)" let ?a = "take 16 (drop 22 p)" let ?m = "take 6 (drop 6 p)"
  have reads: "mapR (array_read p) [6..<12] = Inr ?m" "mapR (array_read p) [62..<78] = Inr ?t"
    "mapR (array_read p) [22..<38] = Inr ?a"
    using mapR_array_read [of 6 6 p] mapR_array_read [of 62 16 p] mapR_array_read [of 22 16 p] assms by simp_all
  have packet: "?m @ [0xFC] @ replicate 5 0x00 @ [0x86, 0xDD] @ [0x60, 0x00, 0x00, 0x00] @ [0x00, 0x28] @ [0x3A] @ [0xFF] @
      ?t @ ?a @ [136, 0] @ [0x00, 0x00] @ [0xE0] @ [0x00, 0x00, 0x00] @ ?t @
      [0x02, 0x01] @ [0xFC] @ replicate 5 0x00 @ [0x01, 0x01] @ ?m = ndp_frame ?m ?t ?a [0, 0] ?t ?m"
    by (simp add: ndp_frame_def ndp_message_def ndp_eth_and_ip_def ndp_options_def numeral_eq_Suc)
  have sized: "ndp_sized ?m ?t ?a [x, y] ?t ?m" for x y
    using assms by (simp add: ndp_sized_def)
  have stores: "(ndp_frame ?m ?t ?a [0, 0] ?t ?m)[56 := x, 57 := y] = ndp_frame ?m ?t ?a [x, y] ?t ?m" for x y
    using template_store_checksum(1) [OF sized, of x 0 0] template_store_checksum(2) [OF sized, of y x 0]
      length_ndp_frame [OF sized] by (simp add: template_store_def)
  have low: "(of_nat (c mod 256) :: byte) = of_nat c" for c
    by (rule word_unat_eq_iff [THEN iffD2]) (simp add: unat_of_nat)
  show ?thesis
    unfolding generate_neighbor_advertisement_def reads bindR_simps packet Let_def
    by (simp add: checksum_frame(1) [OF sized] stores advertisement_def Let_def le_octets_def low)
qed


section \<open>What the advertisement says\<close>

text \<open>
  The deprecated generator and the one that fills in the static template answer a
  solicitation with the same frame, whatever calls the template has seen before, when the
  device has the address the solicitation was sent from.
\<close>

theorem advertisement_generators_agree:
  assumes "ndp_reachable tpl" and "78 \<le> length p"
  shows "\<exists>q. generate_neighbor_advertisement True p = Inr q \<and>
             generate_neighbor_advertisement_new True (take 6 (drop 6 p)) p tpl = (Inr q, q)"
  using generate_old_run [OF assms(2)] generate_new_run [OF ndp_reachable_template [OF assms(1)] _ assms(2)] assms(2)
  by simp

theorem advertisement_generators_agree_witness:
  "\<exists>q. generate_neighbor_advertisement True (replicate 78 7) = Inr q \<and>
       generate_neighbor_advertisement_new True (replicate 6 7) (replicate 78 7)
         (snd (generate_neighbor_advertisement_new False [1, 2] [] m_generate_neighbor_advertisement_packet)) = (Inr q, q)"
  using advertisement_generators_agree [OF ndp_reachable.generated [OF ndp_reachable.initial, of False "[1, 2]" "[]"],
      of "replicate 78 7"]
  by simp

lemma checksum_field:
  assumes "ndp_sized mac src dst ck target link" and "c < 65536"
  shows "le_sum (ndp_message (le_octets c) target link) = le_sum (ndp_message [0, 0] target link) + c"
proof -
  have "unat (of_nat (c mod 256) :: byte) = c mod 256" "unat (of_nat (c div 256) :: byte) = c div 256"
    using assms(2) by (simp_all add: unat_of_nat)
  then show ?thesis by (simp add: ndp_message_def le_octets_def)
qed

lemma checksum_verifies:
  fixes src dst target link :: bytes
  assumes "ndp_sized mac src dst ck target link"
  defines "c \<equiv> checksum_not (checksum_fold (ndp_total (src @ dst) (ndp_message [0, 0] target link)))"
  shows "checksum_fold (be_sum (src @ dst) + 40 + 58 + be_sum (ndp_message (le_octets c) target link)) = 65535"
proof -
  let ?T = "ndp_total (src @ dst) (ndp_message [0, 0] target link)"
  let ?A = "src @ dst" let ?M = "ndp_message (le_octets c) target link"
  have fold: "checksum_fold ?T < 65536" "checksum_fold ?T mod 65535 = ?T mod 65535"
    using checksum_fold_props by auto
  have c: "c = 65535 - checksum_fold ?T" using fold(1) by (simp add: c_def checksum_not_value)
  have "(?T + c) mod 65535 = (checksum_fold ?T + c) mod 65535" 
    by (rule mod_add_cong [OF fold(2) [symmetric] refl])
  also have "\<dots> = 0" using c fold(1) by simp
  finally have 0: "(?T + c) mod 65535 = 0" .
  have "?T + c = le_sum ?A + le_sum ?M + 98 * 256"
    using checksum_field [OF assms(1), of c] c by (simp add: ndp_total_def)
  with 0 have "256 * (le_sum ?A + le_sum ?M + 98 * 256) mod 65535 = 0"
    by (metis mod_mult_right_eq mult_0_right mod_0)
  moreover have "even (length ?A)" using assms(1) by (simp add: ndp_sized_def)
  then have "256 * (le_sum ?A + le_sum ?M + 98 * 256) = 256 * le_sum (?A @ ?M) + 98 + 65535 * 98"
    by (simp only: le_sum_append) simp
  ultimately have "(256 * le_sum (?A @ ?M) + 98) mod 65535 = 0" by (metis mod_mult_self2)
  then have "(be_sum (?A @ ?M) + 98) mod 65535 = 0"
    using mod_add_cong [OF be_sum_swapped [of "?A @ ?M"] refl, of 98] by argo
  then have "(be_sum ?A + 40 + 58 + be_sum ?M) mod 65535 = 0"
    using be_sum_append [OF \<open>even (length ?A)\<close>, of ?M] by (simp add: algebra_simps)
  then show ?thesis by (rule checksum_fold_full) simp
qed

text \<open>
  C32: the advertisement is an Ethernet frame from the card's made-up address to the device with an IPv6 packet of hop limit
  255 and an ICMPv6 message of 40 octets, from the solicited address to the asking one; the message is a neighbour
  advertisement (type 136, code 0, with the router, solicited and override flags), its target is the solicited address, its
  options give the made-up address as the link-layer address of the target and the address of the device as that of the source;
  and its checksum is valid: the one's complement sum, in network order, of its addresses, its length, the number of the
  protocol and its message is 0xFFFF, as RFC 4443 wants it.
\<close>

theorem advertisement_valid:
  assumes "ndp_reachable tpl" and "6 \<le> length m" and "78 \<le> length p"
  shows "\<exists>q. generate_neighbor_advertisement_new True m p tpl = (Inr q, q) \<and> length q = 94 \<and>
             take 22 q = take 6 m @ [0xFC, 0, 0, 0, 0, 0] @ [0x86, 0xDD] @ [0x60, 0, 0, 0, 0, 40, 58, 255] \<and>
             take 16 (drop 22 q) = take 16 (drop 62 p) \<and> take 16 (drop 38 q) = take 16 (drop 22 p) \<and>
             take 2 (drop 54 q) = [136, 0] \<and> take 4 (drop 58 q) = [0xE0, 0, 0, 0] \<and>
             take 16 (drop 62 q) = take 16 (drop 62 p) \<and>
             drop 78 q = [2, 1] @ [0xFC, 0, 0, 0, 0, 0] @ [1, 1] @ take 6 m \<and>
             checksum_fold (be_sum (take 32 (drop 22 q)) + 40 + 58 + be_sum (drop 54 q)) = 0xFFFF"
proof -
  let ?q = "advertisement m p"
  let ?t = "take 16 (drop 62 p)" let ?a = "take 16 (drop 22 p)"
  obtain ck where q: "?q = ndp_frame (take 6 m) ?t ?a ck ?t (take 6 m)" and ck: "length ck = 2"
    and ok: "checksum_fold (be_sum (?t @ ?a) + 40 + 58 + be_sum (ndp_message ck ?t (take 6 m))) = 65535"
    using checksum_verifies [OF advertisement_sized [OF assms(2,3)]]
    by (simp add: advertisement_def Let_def le_octets_def)
  have sized: "ndp_sized (take 6 m) ?t ?a ck ?t (take 6 m)" using assms(2,3) ck by (simp add: ndp_sized_def)
  have "take 16 (drop 22 ?q) = ?t" "take 16 (drop 38 ?q) = ?a" "take 16 (drop 62 ?q) = ?t"
    "take 22 ?q = take 6 m @ [0xFC, 0, 0, 0, 0, 0] @ [0x86, 0xDD] @ [0x60, 0, 0, 0, 0, 40, 58, 255]"
    "take 2 (drop 54 ?q) = [136, 0]" "take 4 (drop 58 ?q) = [0xE0, 0, 0, 0]"
    "drop 78 ?q = [2, 1] @ [0xFC, 0, 0, 0, 0, 0] @ [1, 1] @ take 6 m"
    using assms(2,3) ck by (simp_all add: q ndp_frame_def ndp_message_def ndp_eth_and_ip_def ndp_options_def)
  moreover have "length ?q = 94" unfolding q by (rule length_ndp_frame [OF sized])
  moreover have "checksum_fold (be_sum (take 32 (drop 22 ?q)) + 40 + 58 + be_sum (drop 54 ?q)) = 0xFFFF"
    using ok by (simp only: q ndp_frame_addresses [OF sized] ndp_frame_message [OF sized])
  ultimately show ?thesis
    using generate_new_run [OF ndp_reachable_template [OF assms(1)] assms(2,3)] by blast
qed

theorem advertisement_valid_witness:
  "\<exists>q. generate_neighbor_advertisement_new True [1, 2, 3, 4, 5, 6] (replicate 62 9 @ replicate 16 7) m_generate_neighbor_advertisement_packet = (Inr q, q)
     \<and> take 2 (drop 54 q) = [136, 0] \<and> take 16 (drop 62 q) = replicate 16 7
     \<and> drop 78 q = [2, 1, 0xFC, 0, 0, 0, 0, 0, 1, 1, 1, 2, 3, 4, 5, 6]
     \<and> checksum_fold (be_sum (take 32 (drop 22 q)) + 40 + 58 + be_sum (drop 54 q)) = 0xFFFF"
  using advertisement_valid [OF ndp_reachable.initial, of "[1, 2, 3, 4, 5, 6]" "replicate 62 9 @ replicate 16 7"] by auto

section \<open>Limits of the checksum\<close>

lemma checksum_total_fits:
  assumes "length addrs = 32" and "length msg < 2 ^ 16"
  shows "le_sum addrs + le_sum msg + 2 * 2 ^ 17 < 2 ^ 64"
proof -
  have "length msg div 2 \<le> 32768" using assms(2) by simp
  then have "le_sum msg \<le> 65535 * 32768" using le_sum_bound [of msg] by (meson le_trans mult_le_mono2)
  moreover have "le_sum addrs \<le> 65535 * 16" using le_sum_bound [of addrs] assms(1) by simp
  ultimately show ?thesis by simp
qed

text \<open>
  The loop over the message reads pairs, so for an odd length it asks the view for the octet
  after the last one: the branch for odd lengths is never reached.
\<close>

lemma checksum_loop_odd:
  assumes "odd len" and "\<And>k. k < len \<Longrightarrow> \<exists>x. read_at k = Inr x" and "read_at len = Inl e"
  shows "even i \<Longrightarrow> i < len \<Longrightarrow> checksum_loop read_at len i acc = Inl e"
proof (induction "len - i" arbitrary: i acc rule: less_induct)
  case less
  obtain x where x: "read_at i = Inr x" using assms(2) less.prems by blast
  show ?case
  proof (cases "Suc i = len")
    case True
    then show ?thesis using less.prems x assms(3) by (subst checksum_loop.simps) simp
  next
    case False
    with less.prems assms(1) have "i + 2 < len" by presburger
    moreover obtain y where "read_at (i + 1) = Inr y" using assms(2) calculation by force
    ultimately show ?thesis using less x by (subst checksum_loop.simps) simp
  qed
qed

lemma checksum_view_odd_throws:
  assumes "odd (view_size msg)" and "view_size msg < 2 ^ 16" and "view_size addrs = 32"
  shows "checksum_ipv6_packet le mem addrs msg h = Inl Out_of_range"
proof -
  have pos: "view_size msg > 0" using assms(1) by (rule odd_pos)
  have "checksum_loop (tab_view_at addrs mem) 32 0 0 =
        Inr (le_sum (map (\<lambda>i. mem (view_begin addrs + i)) [0..<32]))"
    using checksum_loop_list [of "map (\<lambda>i. mem (view_begin addrs + i)) [0..<32]" "tab_view_at addrs mem" 0 0] assms(3)
    by (simp add: tab_view_at_def)
  moreover have "checksum_loop (tab_view_at msg mem) (view_size msg) 0 acc = Inl Out_of_range" for acc
    by (rule checksum_loop_odd) (use assms(1) pos in \<open>simp_all add: tab_view_at_def\<close>)
  ultimately show ?thesis using assms(2) pos by (simp add: checksum_ipv6_packet_def checksum_of_def Let_def)
qed

end
