(* ===== verification/Netbuf.thy ===== *)
theory Netbuf
  imports Tab Eint
begin

text \<open>
  Buffers of the new event loop: \<^verbatim>\<open>src/src/netbuf.hpp\<close> and \<^verbatim>\<open>src/src/netbuf.cpp\<close>.

  \<open>c_netbuf\<close> owns a block of the heap through a raw pointer, \<open>c_netchunk\<close> points into one.
  The heap (\<open>new[]\<close> and \<open>delete[]\<close> of the language) keeps the size of every live block; deleting
  an address that is not live is undefined behaviour, and an allocation beyond the room that is
  left throws \<open>std::bad_alloc\<close>. Which object a move assignment writes to matters, so buffers
  live in a store of objects, and the life of a program's buffers is a sequence of
  \<open>netbuf_op\<close>s. Shown: no sequence frees a block twice, an access stays in the object's own live
  block, chunks lie inside their buffer for all offsets and sizes, and what move assignment leaks.
\<close>

section \<open>The heap\<close>

record heap =
  live :: "nat \<rightharpoonup> nat"     \<comment> \<open>address of a live block, and its size\<close>
  heap_mem :: memory
  next_block :: nat
  room :: nat

definition heap_new :: "nat \<Rightarrow> (heap, nat) action" where
  "heap_new n h =
     (if n > room h then (Inl Bad_alloc, h)
      else (Inr (next_block h),
            h\<lparr>live := (live h)(next_block h \<mapsto> n), next_block := next_block h + max 1 n, room := room h - n\<rparr>))"

definition heap_delete :: "nat \<Rightarrow> (heap, unit) action" where
  "heap_delete a h =
     (case live h a of
        None \<Rightarrow> (Inl Undefined_behaviour, h)
      | Some n \<Rightarrow> (Inr (), h\<lparr>live := (live h)(a := None), room := room h + n\<rparr>))"

section \<open>Chunks\<close>

record c_netchunk =
  chunk_data :: nat
  chunk_size :: nat

definition c_netchunk_new :: "nat \<Rightarrow> nat \<Rightarrow> c_netchunk" where
  "c_netchunk_new d n = \<lparr>chunk_data = d, chunk_size = n\<rparr>"

definition c_netchunk_move :: "c_netchunk \<Rightarrow> c_netchunk \<times> c_netchunk" where
  \<comment> \<open>the new chunk and what is left of the old one\<close>
  "c_netchunk_move rhs =
     (\<lparr>chunk_data = chunk_data rhs, chunk_size = chunk_size rhs\<rparr>, rhs\<lparr>chunk_data := 0, chunk_size := 0\<rparr>)"

definition chunk_to_tab_view :: "c_netchunk \<Rightarrow> tab_view" where
  "chunk_to_tab_view c = tab_view_sized (chunk_data c) (chunk_size c)"

definition shrink_to :: "nat \<Rightarrow> (c_netchunk, unit) action" where
  "shrink_to smaller_size c =
     (if \<not> smaller_size \<le> chunk_size c then (Inl Err_check_prog, c) else (Inr (), c\<lparr>chunk_size := smaller_size\<rparr>))"

section \<open>Buffers\<close>

record c_netbuf =
  m_buf :: nat        \<comment> \<open>\<open>m_data\<close>; 0 is the null pointer\<close>
  m_size :: nat

definition netbuf_clear :: "(heap \<times> c_netbuf, unit) action" where
  "netbuf_clear = (\<lambda>(h, b).
     if m_buf b \<noteq> 0 then
       (case heap_delete (m_buf b) h of
          (Inl e, h') \<Rightarrow> (Inl e, (h', b))
        | (Inr _, h') \<Rightarrow> (Inr (), (h', b\<lparr>m_buf := 0, m_size := 0\<rparr>)))
     else (Inr (), (h, b\<lparr>m_size := 0\<rparr>)))"

definition c_netbuf_new :: "nat \<Rightarrow> (heap, c_netbuf) action" where
  "c_netbuf_new n h =
     (let b = \<lparr>m_buf = 0, m_size = 0\<rparr>
      in case heap_new n h of
           (Inr d, h') \<Rightarrow> (Inr (b\<lparr>m_buf := d, m_size := n\<rparr>), h')
         | (Inl e, h') \<Rightarrow>
             (case netbuf_clear (h', b) of
                (Inl e', (h'', _)) \<Rightarrow> (Inl e', h'')
              | (Inr _, (h'', _)) \<Rightarrow> (Inl e, h'')))"

definition netbuf_move :: "c_netbuf \<Rightarrow> c_netbuf \<times> c_netbuf" where
  "netbuf_move brother =
     (\<lparr>m_buf = m_buf brother, m_size = m_size brother\<rparr>, brother\<lparr>m_buf := 0, m_size := 0\<rparr>)"

definition netbuf_assign :: "c_netbuf \<Rightarrow> c_netbuf \<Rightarrow> c_netbuf \<times> c_netbuf" where
  \<comment> \<open>move assignment between different objects: the target and what is left of the source\<close>
  "netbuf_assign this brother =
     (this\<lparr>m_buf := m_buf brother, m_size := m_size brother\<rparr>, brother\<lparr>m_buf := 0, m_size := 0\<rparr>)"

definition netbuf_at :: "c_netbuf \<Rightarrow> nat \<Rightarrow> nat result" where
  \<comment> \<open>the address of the element the returned reference refers to\<close>
  "netbuf_at b ix = (if \<not> ix < m_size b then Inl Err_check_input else Inr (m_buf b + ix))"

definition netbuf_to_tab_view :: "c_netbuf \<Rightarrow> tab_view" where
  "netbuf_to_tab_view b = tab_view_sized (m_buf b) (m_size b)"

definition get_chunk :: "c_netbuf \<Rightarrow> nat \<Rightarrow> nat \<Rightarrow> c_netchunk result" where
  "get_chunk b offset n =
     bindR (eint_plus size_type (int offset) (int n)) (\<lambda>s.
       if \<not> s \<le> int (m_size b) then Inl Abort else Inr (c_netchunk_new (m_buf b + offset) n))"

section \<open>The life of buffers\<close>

datatype netbuf_op =
    Construct nat nat        \<comment> \<open>object, size\<close>
  | Destroy nat
  | Clear nat
  | Move_construct nat nat   \<comment> \<open>new object, source\<close>
  | Move_assign nat nat      \<comment> \<open>target, source\<close>

record netbuf_state =
  the_heap :: heap
  objects :: "nat \<rightharpoonup> c_netbuf"

definition with_object :: "nat \<Rightarrow> (c_netbuf \<Rightarrow> (netbuf_state, unit) action) \<Rightarrow> (netbuf_state, unit) action" where
  \<comment> \<open>a program does not touch an object before its construction or after its destruction\<close>
  "with_object i f s = (case objects s i of None \<Rightarrow> (Inr (), s) | Some b \<Rightarrow> f b s)"

definition netbuf_step :: "netbuf_op \<Rightarrow> (netbuf_state, unit) action" where
  "netbuf_step op s =
     (case op of
        Construct i n \<Rightarrow>
          if objects s i \<noteq> None then (Inr (), s)
          else (case c_netbuf_new n (the_heap s) of
                  (Inl e, h) \<Rightarrow> (Inl e, s\<lparr>the_heap := h\<rparr>)
                | (Inr b, h) \<Rightarrow> (Inr (), s\<lparr>the_heap := h, objects := (objects s)(i \<mapsto> b)\<rparr>))
      | Destroy i \<Rightarrow> with_object i (\<lambda>b s.
          case netbuf_clear (the_heap s, b) of
            (Inl e, (h, b')) \<Rightarrow> (Inl e, s\<lparr>the_heap := h, objects := (objects s)(i \<mapsto> b')\<rparr>)
          | (Inr _, (h, _)) \<Rightarrow> (Inr (), s\<lparr>the_heap := h, objects := (objects s)(i := None)\<rparr>)) s
      | Clear i \<Rightarrow> with_object i (\<lambda>b s.
          case netbuf_clear (the_heap s, b) of
            (r, (h, b')) \<Rightarrow> (r, s\<lparr>the_heap := h, objects := (objects s)(i \<mapsto> b')\<rparr>)) s
      | Move_construct i j \<Rightarrow> with_object j (\<lambda>b s.
          if objects s i \<noteq> None then (Inr (), s)
          else (Inr (), s\<lparr>objects := (objects s)(i \<mapsto> fst (netbuf_move b), j \<mapsto> snd (netbuf_move b))\<rparr>)) s
      | Move_assign i j \<Rightarrow> with_object i (\<lambda>this. with_object j (\<lambda>brother s.
          if i = j then (Inr (), s)
          else (Inr (), s\<lparr>objects := (objects s)(i \<mapsto> fst (netbuf_assign this brother),
                                                 j \<mapsto> snd (netbuf_assign this brother))\<rparr>))) s)"

definition heap_empty :: "nat \<Rightarrow> heap" where
  "heap_empty r = \<lparr>live = (\<lambda>_. None), heap_mem = (\<lambda>_. 0), next_block = 1, room = r\<rparr>"

definition netbuf_init :: "nat \<Rightarrow> netbuf_state" where
  "netbuf_init r = \<lparr>the_heap = heap_empty r, objects = (\<lambda>_. None)\<rparr>"

fun netbuf_run :: "netbuf_op list \<Rightarrow> netbuf_state \<Rightarrow> netbuf_state" where
  \<comment> \<open>a program that goes on after an exception\<close>
  "netbuf_run [] s = s"
| "netbuf_run (op # ops) s = netbuf_run ops (snd (netbuf_step op s))"

section \<open>Ownership\<close>

definition heap_ok :: "heap \<Rightarrow> bool" where
  "heap_ok h \<longleftrightarrow> 0 < next_block h \<and>
     (\<forall>a n. live h a = Some n \<longrightarrow> 0 < a \<and> a + max 1 n \<le> next_block h) \<and>
     (\<forall>a n a' n'. live h a = Some n \<longrightarrow> live h a' = Some n' \<longrightarrow> a < a' \<longrightarrow> a + n \<le> a')"

definition owns_ok :: "netbuf_state \<Rightarrow> bool" where
  "owns_ok s \<longleftrightarrow>
     (\<forall>i b. objects s i = Some b \<longrightarrow>
        (if m_buf b = 0 then m_size b = 0 else live (the_heap s) (m_buf b) = Some (m_size b))) \<and>
     (\<forall>i j b b'. objects s i = Some b \<longrightarrow> objects s j = Some b' \<longrightarrow> m_buf b = m_buf b' \<longrightarrow> m_buf b \<noteq> 0 \<longrightarrow> i = j)"

definition netbuf_inv :: "netbuf_state \<Rightarrow> bool" where
  "netbuf_inv s \<longleftrightarrow> heap_ok (the_heap s) \<and> owns_ok s"

lemma heap_ok_new: "heap_ok h \<Longrightarrow> heap_ok (snd (heap_new n h))"
  by (fastforce simp: heap_ok_def heap_new_def split: if_splits)

lemma heap_ok_delete: "heap_ok h \<Longrightarrow> heap_ok (snd (heap_delete a h))"
  by (auto simp: heap_ok_def heap_delete_def split: option.splits if_splits)

lemma live_below: "heap_ok h \<Longrightarrow> live h a = Some n \<Longrightarrow> a < next_block h"
  unfolding heap_ok_def by (metis le_trans less_eq_Suc_le max.cobounded1 add_Suc_right add.right_neutral One_nat_def add_le_cancel_left)


definition heap_without :: "nat \<Rightarrow> heap \<Rightarrow> heap" where
  "heap_without a h = (if a = 0 then h else snd (heap_delete a h))"

definition null_buf :: "c_netbuf" where
  "null_buf = \<lparr>m_buf = 0, m_size = 0\<rparr>"

lemma m_buf_null [simp]: "m_buf null_buf = 0" "m_size null_buf = 0"
  by (simp_all add: null_buf_def)

lemma netbuf_clear_owned:
  assumes "netbuf_inv s" and "objects s i = Some b"
  shows "netbuf_clear (the_heap s, b) = (Inr (), (heap_without (m_buf b) (the_heap s), null_buf))"
proof (cases "m_buf b = 0")
  case True
  then show ?thesis by (simp add: netbuf_clear_def heap_without_def null_buf_def)
next
  case False
  with assms have "live (the_heap s) (m_buf b) = Some (m_size b)"
    unfolding netbuf_inv_def owns_ok_def by metis
  with False show ?thesis by (simp add: netbuf_clear_def heap_without_def heap_delete_def null_buf_def)
qed

lemma heap_ok_without: "heap_ok h \<Longrightarrow> heap_ok (heap_without a h)"
  by (simp add: heap_without_def heap_ok_delete)

lemma live_without: "live (heap_without a h) = (if a = 0 then live h else (live h)(a := None))"
  by (cases "live h a") (auto simp: heap_without_def heap_delete_def fun_eq_iff)

lemma owns_ok_dropped:
  \<comment> \<open>an object gives its block back, and is empty or gone\<close>
  assumes "netbuf_inv s" and "objects s i = Some b" and "b' = None \<or> b' = Some null_buf"
  shows "netbuf_inv (s\<lparr>the_heap := heap_without (m_buf b) (the_heap s), objects := (objects s)(i := b')\<rparr>)"
proof -
  have other: "m_buf c \<noteq> m_buf b" if "objects s j = Some c" "j \<noteq> i" "m_buf c \<noteq> 0" for j c
    using assms(1,2) that unfolding netbuf_inv_def owns_ok_def by metis
  have "owns_ok (s\<lparr>the_heap := heap_without (m_buf b) (the_heap s), objects := (objects s)(i := b')\<rparr>)"
    using assms other unfolding netbuf_inv_def owns_ok_def
    by (auto simp: live_without split: if_splits; metis)
  with assms(1) show ?thesis by (simp add: netbuf_inv_def heap_ok_without)
qed

lemma owns_ok_moved:
  \<comment> \<open>one object takes over the pointer of another, which is left empty\<close>
  assumes "netbuf_inv s" and "objects s j = Some b" and "i \<noteq> j"
  shows "netbuf_inv (s\<lparr>objects := (objects s)(i \<mapsto> b, j \<mapsto> null_buf)\<rparr>)"
proof -
  have "owns_ok (s\<lparr>objects := (objects s)(i \<mapsto> b, j \<mapsto> null_buf)\<rparr>)"
    using assms unfolding netbuf_inv_def owns_ok_def
    by (auto split: if_splits; metis)
  with assms(1) show ?thesis by (simp add: netbuf_inv_def)
qed

lemma netbuf_moves: "netbuf_move b = (b, null_buf)" "netbuf_assign a b = (b, null_buf)"
  by (simp_all add: netbuf_move_def netbuf_assign_def null_buf_def)

lemma c_netbuf_new_run:
  "c_netbuf_new n h =
     (if n > room h then (Inl Bad_alloc, h)
      else (Inr \<lparr>m_buf = next_block h, m_size = n\<rparr>, snd (heap_new n h)))"
  by (simp add: c_netbuf_new_def heap_new_def netbuf_clear_def)

lemma netbuf_inv_constructed:
  assumes "netbuf_inv s" and "objects s i = None" and "\<not> n > room (the_heap s)"
  shows "netbuf_inv (s\<lparr>the_heap := snd (heap_new n (the_heap s)),
                      objects := (objects s)(i \<mapsto> \<lparr>m_buf = next_block (the_heap s), m_size = n\<rparr>)\<rparr>)"
proof -
  let ?a = "next_block (the_heap s)"
  have heap: "heap_ok (the_heap s)" and owns: "owns_ok s" using assms(1) by (simp_all add: netbuf_inv_def)
  have fresh: "m_buf c \<noteq> ?a" if "objects s j = Some c" "m_buf c \<noteq> 0" for j c
    using that owns live_below [OF heap] unfolding owns_ok_def by (metis less_irrefl)
  have pos: "0 < ?a" using heap by (simp add: heap_ok_def)
  have live: "live (snd (heap_new n (the_heap s))) = (live (the_heap s))(?a \<mapsto> n)"
    using assms(3) by (simp add: heap_new_def)
  have "owns_ok (s\<lparr>the_heap := snd (heap_new n (the_heap s)),
                   objects := (objects s)(i \<mapsto> \<lparr>m_buf = ?a, m_size = n\<rparr>)\<rparr>)"
    using owns fresh pos unfolding owns_ok_def by (auto simp: live split: if_splits; metis)
  with heap show ?thesis by (simp add: netbuf_inv_def heap_ok_new)
qed

lemma netbuf_step_inv:
  assumes "netbuf_inv s"
  shows "netbuf_inv (snd (netbuf_step op s)) \<and> fst (netbuf_step op s) \<in> {Inr (), Inl Bad_alloc}"
proof (cases op)
  case (Construct i n)
  then show ?thesis
    using assms netbuf_inv_constructed [of s i n] by (auto simp: netbuf_step_def c_netbuf_new_run)
next
  case (Destroy i)
  then show ?thesis
    using assms netbuf_clear_owned owns_ok_dropped [of s i _ None]
    by (cases "objects s i") (auto simp: netbuf_step_def with_object_def)
next
  case (Clear i)
  then show ?thesis
    using assms netbuf_clear_owned owns_ok_dropped [of s i _ "Some null_buf"]
    by (cases "objects s i") (auto simp: netbuf_step_def with_object_def)
next
  case (Move_construct i j)
  then show ?thesis
    using assms owns_ok_moved [of s j _ i]
    by (cases "objects s j"; cases "i = j") (auto simp: netbuf_step_def with_object_def netbuf_moves)
next
  case (Move_assign i j)
  then show ?thesis
    using assms owns_ok_moved [of s j _ i]
    by (cases "objects s i"; cases "objects s j") (auto simp: netbuf_step_def with_object_def netbuf_moves)
qed

lemma netbuf_init_inv: "netbuf_inv (netbuf_init r)"
  by (simp add: netbuf_inv_def heap_ok_def owns_ok_def netbuf_init_def heap_empty_def)

lemma netbuf_run_inv: "netbuf_inv s \<Longrightarrow> netbuf_inv (netbuf_run ops s)"
  by (induction ops arbitrary: s) (auto simp: netbuf_step_inv)

text \<open>
  C27: however buffers are constructed, moved, cleared and destroyed, the next operation never
  deletes a block that is not live (it returns, or throws \<open>std::bad_alloc\<close>), and the element
  that \<open>at\<close> refers to lies in a live block which no other buffer's \<open>at\<close> reaches.
\<close>

theorem netbuf_memory_safe:
  fixes r :: nat and ops :: "netbuf_op list"
  defines "s \<equiv> netbuf_run ops (netbuf_init r)"
  shows "fst (netbuf_step op s) \<in> {Inr (), Inl Bad_alloc} \<and>
    (objects s i = Some b \<and> netbuf_at b ix = Inr a \<longrightarrow>
       live (the_heap s) (m_buf b) = Some (m_size b) \<and> m_buf b \<le> a \<and> a < m_buf b + m_size b \<and>
       (\<forall>j c jx. objects s j = Some c \<and> netbuf_at c jx = Inr a \<longrightarrow> j = i))"
proof -
  have inv: "netbuf_inv s" unfolding s_def by (rule netbuf_run_inv [OF netbuf_init_inv])
  have block: "live (the_heap s) (m_buf c) = Some (m_size c) \<and> m_buf c \<le> a \<and> a < m_buf c + m_size c \<and> m_buf c \<noteq> 0"
    if "objects s j = Some c" "netbuf_at c jx = Inr a" for j c jx
  proof -
    have "jx < m_size c" "a = m_buf c + jx" using that(2) by (auto simp: netbuf_at_def split: if_splits)
    moreover have "m_buf c \<noteq> 0 \<and> live (the_heap s) (m_buf c) = Some (m_size c)"
      using inv that(1) \<open>jx < m_size c\<close> unfolding netbuf_inv_def owns_ok_def by (metis not_less_zero)
    ultimately show ?thesis by simp
  qed
  have same: "j = i" if "objects s i = Some b" "netbuf_at b ix = Inr a" "objects s j = Some c" "netbuf_at c jx = Inr a" for j c jx
  proof -
    note b = block [OF that(1,2)] and c = block [OF that(3,4)]
    have "m_buf b = m_buf c"
    proof (rule ccontr)
      assume "m_buf b \<noteq> m_buf c"
      with b c inv have "m_buf b + m_size b \<le> m_buf c \<or> m_buf c + m_size c \<le> m_buf b"
        unfolding netbuf_inv_def heap_ok_def by (meson linorder_neqE_nat)
      with b c show False by linarith
    qed
    with inv that(1,3) b show "j = i" unfolding netbuf_inv_def owns_ok_def by metis
  qed
  show ?thesis using netbuf_step_inv [OF inv] block same by blast
qed

theorem netbuf_memory_safe_witness:
  "let s = netbuf_run [Construct 0 10, Construct 1 20, Move_assign 0 1, Destroy 1] (netbuf_init 100)
   in fst (netbuf_step (Destroy 0) s) \<in> {Inr (), Inl Bad_alloc} \<and>
      live (the_heap s) 11 = Some 20"
proof -
  let ?s = "netbuf_run [Construct 0 10, Construct 1 20, Move_assign 0 1, Destroy 1] (netbuf_init 100)"
  have b: "objects ?s 0 = Some \<lparr>m_buf = 11, m_size = 20\<rparr>"
    by (simp add: netbuf_step_def c_netbuf_new_run with_object_def netbuf_moves heap_new_def netbuf_init_def
        heap_empty_def netbuf_clear_def null_buf_def)
  show ?thesis
    using netbuf_memory_safe [of "Destroy 0" "[Construct 0 10, Construct 1 20, Move_assign 0 1, Destroy 1]" 100 0
        "\<lparr>m_buf = 11, m_size = 20\<rparr>" 5 16] b
    by (simp add: netbuf_at_def Let_def)
qed


section \<open>What move assignment leaks\<close>

definition leaked :: "nat \<Rightarrow> netbuf_state \<Rightarrow> bool" where
  "leaked a s \<longleftrightarrow> live (the_heap s) a \<noteq> None \<and> (\<forall>i b. objects s i = Some b \<longrightarrow> m_buf b \<noteq> a)"

lemma leaked_step:
  assumes "netbuf_inv s" and "leaked a s" and "a \<noteq> 0"
  shows "leaked a (snd (netbuf_step op s))"
proof -
  have new: "next_block (the_heap s) \<noteq> a"
    using assms(1,2) live_below [of "the_heap s" a] by (auto simp: netbuf_inv_def leaked_def)
  show ?thesis
  proof (cases op)
    case (Construct i n)
    then show ?thesis
      using assms new by (auto simp: netbuf_step_def c_netbuf_new_run heap_new_def leaked_def)
  next
    case (Destroy i)
    then show ?thesis
      using assms netbuf_clear_owned [OF assms(1)]
      by (cases "objects s i") (auto simp: netbuf_step_def with_object_def leaked_def live_without)
  next
    case (Clear i)
    then show ?thesis
      using assms netbuf_clear_owned [OF assms(1)]
      by (cases "objects s i") (auto simp: netbuf_step_def with_object_def leaked_def live_without)
  next
    case (Move_construct i j)
    then show ?thesis
      using assms by (cases "objects s j") (auto simp: netbuf_step_def with_object_def netbuf_moves leaked_def)
  next
    case (Move_assign i j)
    then show ?thesis
      using assms
      by (cases "objects s i"; cases "objects s j") (auto simp: netbuf_step_def with_object_def netbuf_moves leaked_def)
  qed
qed

lemma leaked_run: "netbuf_inv s \<Longrightarrow> leaked a s \<Longrightarrow> a \<noteq> 0 \<Longrightarrow> leaked a (netbuf_run ops s)"
  by (induction ops arbitrary: s) (auto simp: leaked_step netbuf_step_inv)

lemma netbuf_run_append: "netbuf_run (xs @ ys) s = netbuf_run ys (netbuf_run xs s)"
  by (induction xs arbitrary: s) auto

text \<open>
  Move assignment to a buffer that owns a block loses that block: nothing the program does
  afterwards frees it, destroying every buffer included.
\<close>

theorem netbuf_assign_leaks:
  fixes r :: nat and ops :: "netbuf_op list"
  defines "s \<equiv> netbuf_run ops (netbuf_init r)"
  assumes "objects s i = Some b" and "m_buf b \<noteq> 0" and "objects s j = Some c" and "i \<noteq> j"
  shows "live (the_heap (netbuf_run (ops @ [Move_assign i j] @ later) (netbuf_init r))) (m_buf b) \<noteq> None \<and>
         (\<forall>k d. objects (netbuf_run (ops @ [Move_assign i j] @ later) (netbuf_init r)) k = Some d \<longrightarrow> m_buf d \<noteq> m_buf b)"
proof -
  have inv: "netbuf_inv s" unfolding s_def by (rule netbuf_run_inv [OF netbuf_init_inv])
  let ?t = "snd (netbuf_step (Move_assign i j) s)"
  have live: "live (the_heap s) (m_buf b) = Some (m_size b)"
    and other: "objects s k = Some d \<Longrightarrow> k \<noteq> i \<Longrightarrow> m_buf d \<noteq> m_buf b" for k d
    using inv assms(2,3) unfolding netbuf_inv_def owns_ok_def by metis+
  have "leaked (m_buf b) ?t"
    using live other [OF assms(4)] other assms(2-5) by (auto simp: netbuf_step_def with_object_def netbuf_moves leaked_def)
  then have "leaked (m_buf b) (netbuf_run later ?t)"
    using netbuf_step_inv [OF inv] assms(3) by (simp add: leaked_run)
  then show ?thesis by (simp add: netbuf_run_append leaked_def s_def)
qed

theorem netbuf_assign_leaks_witness:
  "live (the_heap (netbuf_run ([Construct 0 10, Construct 1 20] @ [Move_assign 0 1] @ [Destroy 0, Destroy 1]) (netbuf_init 100))) 1 \<noteq> None"
proof -
  have "objects (netbuf_run [Construct 0 10, Construct 1 20] (netbuf_init 100)) 0 = Some \<lparr>m_buf = 1, m_size = 10\<rparr>"
    "objects (netbuf_run [Construct 0 10, Construct 1 20] (netbuf_init 100)) 1 = Some \<lparr>m_buf = 11, m_size = 20\<rparr>"
    by (simp_all add: netbuf_step_def c_netbuf_new_run heap_new_def netbuf_init_def heap_empty_def)
  then show ?thesis
    using netbuf_assign_leaks [of "[Construct 0 10, Construct 1 20]" 100 0 "\<lparr>m_buf = 1, m_size = 10\<rparr>" 1 _ "[Destroy 0, Destroy 1]"]
    by simp
qed

section \<open>Chunks lie inside their buffer\<close>

lemma in_size_type: "n < 2 ^ 64 \<Longrightarrow> in_type size_type (int n)"
  by (simp add: in_type_def size_type_def int_min_def int_max_def)

lemma chunk_inside:
  assumes "offset < 2 ^ 64" and "n < 2 ^ 64" and "m_size b < 2 ^ 64"
  shows "get_chunk b offset n =
     (if offset + n \<ge> 2 ^ 64 then Inl Range_error
      else if offset + n > m_size b then Inl Abort
      else Inr \<lparr>chunk_data = m_buf b + offset, chunk_size = n\<rparr>)"
proof -
  have ok: "int_type_ok size_type" by (simp add: int_type_ok_def size_type_def)
  have "in_type size_type (int offset + int n) \<longleftrightarrow> int (offset + n) \<le> int (2 ^ 64 - 1)"
    by (simp add: in_type_def size_type_def int_min_def int_max_def)
  also have "\<dots> \<longleftrightarrow> offset + n < 2 ^ 64" by simp linarith
  finally have fits: "in_type size_type (int offset + int n) \<longleftrightarrow> offset + n < 2 ^ 64" .
  show ?thesis
    using eint_sum [OF ok in_size_type [OF assms(1)] in_size_type [OF assms(2)]] fits
    by (auto simp: get_chunk_def c_netchunk_new_def)
qed

text \<open>
  For all 64-bit offsets and sizes \<open>get_chunk\<close> gives a chunk that lies inside the buffer,
  or throws when offset and size cannot be added, or aborts when they reach past the end; a
  sum that wraps around is never taken for a small one.
\<close>

theorem get_chunk_inside:
  assumes "offset < 2 ^ 64" and "n < 2 ^ 64" and "m_size b < 2 ^ 64"
  shows "get_chunk b offset n =
     (if offset + n \<ge> 2 ^ 64 then Inl Range_error
      else if offset + n > m_size b then Inl Abort
      else Inr \<lparr>chunk_data = m_buf b + offset, chunk_size = n\<rparr>)"
  by (rule chunk_inside [OF assms])

theorem get_chunk_inside_witness:
  "get_chunk \<lparr>m_buf = 4096, m_size = 100\<rparr> (2 ^ 64 - 8) 16 = Inl Range_error \<and>
   get_chunk \<lparr>m_buf = 4096, m_size = 100\<rparr> 90 10 = Inr \<lparr>chunk_data = 4186, chunk_size = 10\<rparr>"
  using get_chunk_inside [of "2 ^ 64 - 8" 16 "\<lparr>m_buf = 4096, m_size = 100\<rparr>"]
    get_chunk_inside [of 90 10 "\<lparr>m_buf = 4096, m_size = 100\<rparr>"]
  by simp

end
