(* ===== verification/Rpc_Server.thy ===== *)
theory Rpc_Server
  imports Galaxy_Prelude
begin

text \<open>
  The server of the remote control: \<open>c_rpc_server\<close> and its sessions in
  \<^verbatim>\<open>src/src/rpc/rpc.hpp\<close> and \<^verbatim>\<open>src/src/rpc/rpc.cpp\<close>.

  A session is a chain of asynchronous operations of the network library: read two octets of
  size, read the message, read its authenticator, execute, write the answer, read again. The
  operation a session waits for is \<open>pending\<close>; the library then calls the handler with an error
  flag and the octets it put into the session's buffer. One thread runs the handlers one after
  the other, so the server is a state machine over these events. A handler that lets an
  exception escape ends the thread: \<open>rpc_running\<close> becomes false for good.
  Closing a socket that has lost its connection throws in \<open>shutdown\<close>, hence \<open>socket_connected\<close>.

  The JSON library and the authentication function of libsodium are parameters (\<open>rpc_lib\<close>), and
  so are the functions that are called, which act on a state of their own. So is \<open>write_some\<close>: the answer is handed to
  \<open>async_write_some\<close> once, which may take a part of it only, and the buffer of the authenticator is a local
  variable that may be gone before it is sent. \<open>takes_frame\<close> says that an answer goes out whole.
\<close>

section \<open>The code\<close>

datatype rpc_pending = Wait_size | Wait_data | Wait_hmac | Wait_write

record rpc_session =
  m_session_id :: nat
  m_rpc_command_counter :: nat
  m_data_size :: bytes
  m_received_data :: bytes
  m_hmac_authenticator :: bytes
  m_session_hmac_key :: bytes
  m_write_data :: bytes
  socket_connected :: bool
  pending :: rpc_pending

record 'j rpc_lib =
  json_parse :: "bytes \<Rightarrow> 'j result"
  json_cmd :: "'j \<Rightarrow> bytes result"             \<comment> \<open>\<open>j["cmd"]\<close> as a string\<close>
  json_find_id :: "'j \<Rightarrow> 'j option"           \<comment> \<open>\<open>j.find("id")\<close>\<close>
  json_set_id :: "nat \<times> nat \<Rightarrow> 'j \<Rightarrow> 'j"    \<comment> \<open>set \<open>"id"\<close> to the text made of both numbers\<close>
  json_set_re :: "'j \<Rightarrow> 'j \<Rightarrow> 'j"
  json_dump :: "'j \<Rightarrow> bytes"
  hmacsha512 :: "bytes \<Rightarrow> bytes \<Rightarrow> bytes"        \<comment> \<open>message, key\<close>
  hmacsha512_verify :: "bytes \<Rightarrow> bytes \<Rightarrow> bytes \<Rightarrow> bool"   \<comment> \<open>authenticator, message, key\<close>
  write_some :: "bytes \<Rightarrow> bytes \<Rightarrow> bytes"        \<comment> \<open>what \<open>async_write_some\<close> puts on the connection, of \<open>m_write_data\<close> and \<open>hash\<close>\<close>

record ('j, 'w) c_rpc_server =
  m_session_list :: "rpc_session list"
  m_session_counter :: nat
  m_hmac_key :: bytes
  m_rpc_functions_map :: "bytes \<rightharpoonup> (bytes \<Rightarrow> ('w, 'j) action)"
  rpc_running :: bool
  rpc_sent :: "(nat \<times> bytes) list"     \<comment> \<open>what was written, by session\<close>
  rpc_world :: 'w                        \<comment> \<open>the state the functions act on\<close>

definition c_rpc_server_new :: "'w \<Rightarrow> ('j, 'w) c_rpc_server" where
  "c_rpc_server_new w =
     \<lparr>m_session_list = [], m_session_counter = 0, m_hmac_key = replicate 32 0x42,
      m_rpc_functions_map = (\<lambda>_. None), rpc_running = True, rpc_sent = [], rpc_world = w\<rparr>"

definition add_rpc_function ::
    "bytes \<Rightarrow> (bytes \<Rightarrow> ('w, 'j) action) \<Rightarrow> ('j, 'w) c_rpc_server \<Rightarrow> ('j, 'w) c_rpc_server" where
  \<comment> \<open>\<open>emplace\<close>: a name that is taken keeps its function\<close>
  "add_rpc_function name f srv =
     (if m_rpc_functions_map srv name = None
      then srv\<lparr>m_rpc_functions_map := (m_rpc_functions_map srv)(name \<mapsto> f)\<rparr> else srv)"

definition c_session_new :: "bytes \<Rightarrow> nat \<Rightarrow> rpc_session" where
  "c_session_new key sid =
     \<lparr>m_session_id = sid, m_rpc_command_counter = 499, m_data_size = [0, 0], m_received_data = [],
      m_hmac_authenticator = replicate 64 0, m_session_hmac_key = key, m_write_data = [],
      socket_connected = True, pending = Wait_size\<rparr>"

definition accept_handler :: "bool \<Rightarrow> (('j, 'w) c_rpc_server, unit) action" where
  "accept_handler error srv =
     (Inr (), if \<not> error
              then srv\<lparr>m_session_counter := m_session_counter srv + 1,
                       m_session_list := m_session_list srv @ [c_session_new (m_hmac_key srv) (m_session_counter srv + 1)]\<rparr>
              else srv)"

definition find_session :: "nat \<Rightarrow> ('j, 'w) c_rpc_server \<Rightarrow> rpc_session option" where
  "find_session sid srv = find (\<lambda>s. m_session_id s = sid) (m_session_list srv)"

definition set_session :: "rpc_session \<Rightarrow> ('j, 'w) c_rpc_server \<Rightarrow> ('j, 'w) c_rpc_server" where
  \<comment> \<open>the session object after a handler wrote to it\<close>
  "set_session ses srv =
     srv\<lparr>m_session_list := map (\<lambda>s. if m_session_id s = m_session_id ses then ses else s) (m_session_list srv)\<rparr>"

definition remove_session_from_vector :: "nat \<Rightarrow> ('j, 'w) c_rpc_server \<Rightarrow> ('j, 'w) c_rpc_server" where
  "remove_session_from_vector sid srv =
     srv\<lparr>m_session_list := filter (\<lambda>s. m_session_id s \<noteq> sid) (m_session_list srv)\<rparr>"

definition delete_me :: "rpc_session \<Rightarrow> (('j, 'w) c_rpc_server, unit) action" where
  "delete_me ses srv =
     (if \<not> socket_connected ses then (Inl System_error, srv)
      else (Inr (), remove_session_from_vector (m_session_id ses) srv))"

definition send_response :: "'j rpc_lib \<Rightarrow> rpc_session \<Rightarrow> 'j \<Rightarrow> (('j, 'w) c_rpc_server, unit) action" where
  "send_response lib ses json_response srv =
     (let response = json_dump lib json_response
      in if \<not> length response \<le> 65535 then (Inl Abort, srv)
         else
           let sz = length response;
               ses' = ses\<lparr>m_write_data := [of_nat (sz div 256), of_nat (sz mod 256)] @ response, pending := Wait_write\<rparr>;
               hash = hmacsha512 lib response (m_hmac_key srv)
           in (Inr (), (set_session ses' srv)\<lparr>rpc_sent := rpc_sent srv @ [(m_session_id ses, write_some lib (m_write_data ses') hash)]\<rparr>))"

definition execute_body :: "'j rpc_lib \<Rightarrow> rpc_session \<Rightarrow> bytes \<Rightarrow> (('j, 'w) c_rpc_server, unit) action" where
  \<comment> \<open>the body of the \<open>try\<close> of \<open>execute_rpc_command\<close>\<close>
  "execute_body lib ses input_message =
     andThen (liftR (json_parse lib input_message)) (\<lambda>j.
     andThen (liftR (json_cmd lib j)) (\<lambda>cmd_name.
     andThen (\<lambda>srv. case m_rpc_functions_map srv cmd_name of
                None \<Rightarrow> (Inl Out_of_range, srv)
              | Some f \<Rightarrow> (case f input_message (rpc_world srv) of (r, w) \<Rightarrow> (r, srv\<lparr>rpc_world := w\<rparr>))) (\<lambda>json_response.
     let ses' = ses\<lparr>m_rpc_command_counter := m_rpc_command_counter ses + 1\<rparr>;
         resp = json_set_id lib (m_session_id ses, m_rpc_command_counter ses + 1) json_response;
         resp' = (case json_find_id lib j of None \<Rightarrow> resp | Some i \<Rightarrow> json_set_re lib i resp)
     in send_response lib ses' resp')))"

definition catch_delete_me ::
    "rpc_session \<Rightarrow> (('j, 'w) c_rpc_server, unit) action \<Rightarrow> (('j, 'w) c_rpc_server, unit) action" where
  \<comment> \<open>\<open>catch (const std::exception &e) { delete_me(); return; }\<close>\<close>
  "catch_delete_me ses m srv =
     (case m srv of
        (Inl e, srv') \<Rightarrow> if e = Abort then (Inl Abort, srv') else delete_me ses srv'
      | (Inr _, srv') \<Rightarrow> (Inr (), srv'))"

definition execute_rpc_command :: "'j rpc_lib \<Rightarrow> rpc_session \<Rightarrow> bytes \<Rightarrow> (('j, 'w) c_rpc_server, unit) action" where
  "execute_rpc_command lib ses input_message = catch_delete_me ses (execute_body lib ses input_message)"

definition read_handler_size :: "bool \<Rightarrow> bytes \<Rightarrow> rpc_session \<Rightarrow> (('j, 'w) c_rpc_server, unit) action" where
  \<comment> \<open>\<open>octets\<close>: what was read into \<open>m_data_size\<close>\<close>
  "read_handler_size error octets ses srv =
     (if error then delete_me ses srv
      else if length octets \<noteq> 2 then delete_me ses srv
      else
        let message_size = (unat (octets ! 0) * 256 + unat (octets ! 1)) mod 65536;
            old = m_received_data ses;
            ses' = ses\<lparr>m_data_size := octets,
                       m_received_data := take message_size old @ replicate (message_size - length old) 0\<rparr>
        in if message_size = 0 then (Inl Out_of_range, set_session ses' srv)   \<comment> \<open>\<open>m_received_data.at(0)\<close>\<close>
           else (Inr (), set_session (ses'\<lparr>pending := Wait_data\<rparr>) srv))"

definition read_handler_data :: "bool \<Rightarrow> bytes \<Rightarrow> rpc_session \<Rightarrow> (('j, 'w) c_rpc_server, unit) action" where
  "read_handler_data error octets ses srv =
     (let ses' = ses\<lparr>m_received_data := octets @ drop (length octets) (m_received_data ses)\<rparr>
      in if error then delete_me ses' (set_session ses' srv)
         else (Inr (), set_session (ses'\<lparr>pending := Wait_hmac\<rparr>) srv))"

definition read_handler_hmac :: "'j rpc_lib \<Rightarrow> bool \<Rightarrow> bytes \<Rightarrow> rpc_session \<Rightarrow> (('j, 'w) c_rpc_server, unit) action" where
  "read_handler_hmac lib error octets ses srv =
     (let ses' = ses\<lparr>m_hmac_authenticator := octets\<rparr>; srv' = set_session ses' srv
      in if error then delete_me ses' srv'
         else if \<not> hmacsha512_verify lib octets (m_received_data ses) (m_session_hmac_key ses) then delete_me ses' srv'
         else catch_delete_me ses' (execute_rpc_command lib ses' (m_received_data ses)) srv')"

definition write_handler :: "bool \<Rightarrow> rpc_session \<Rightarrow> (('j, 'w) c_rpc_server, unit) action" where
  "write_handler error ses =
     catch_delete_me ses (\<lambda>srv. if error then delete_me ses srv else (Inr (), set_session (ses\<lparr>pending := Wait_size\<rparr>) srv))"

section \<open>The thread that runs the handlers\<close>

datatype rpc_event =
    Accepted bool                  \<comment> \<open>error flag\<close>
  | Completed nat bool bytes       \<comment> \<open>session, error flag, octets put into the buffer it waits for\<close>
  | Connection_lost nat

definition run_handler :: "'j rpc_lib \<Rightarrow> bool \<Rightarrow> bytes \<Rightarrow> rpc_session \<Rightarrow> (('j, 'w) c_rpc_server, unit) action" where
  "run_handler lib error octets ses =
     (case pending ses of
        Wait_size \<Rightarrow> read_handler_size error octets ses
      | Wait_data \<Rightarrow> read_handler_data error octets ses
      | Wait_hmac \<Rightarrow> read_handler_hmac lib error octets ses
      | Wait_write \<Rightarrow> write_handler error ses)"

definition expected_size :: "rpc_session \<Rightarrow> nat" where
  \<comment> \<open>the size of the buffer that \<open>async_read\<close> fills before it reports success\<close>
  "expected_size ses =
     (case pending ses of Wait_size \<Rightarrow> 2 | Wait_data \<Rightarrow> length (m_received_data ses) | Wait_hmac \<Rightarrow> 64 | Wait_write \<Rightarrow> 0)"

definition event_possible :: "bool \<Rightarrow> bytes \<Rightarrow> rpc_session \<Rightarrow> bool" where
  "event_possible error octets ses \<longleftrightarrow>
     length octets \<le> expected_size ses \<and> (\<not> error \<longrightarrow> length octets = expected_size ses)"

definition rpc_dispatch :: "'j rpc_lib \<Rightarrow> rpc_event \<Rightarrow> (('j, 'w) c_rpc_server, unit) action" where
  "rpc_dispatch lib ev srv =
     (case ev of
        Accepted error \<Rightarrow> accept_handler error srv
      | Connection_lost sid \<Rightarrow>
          (case find_session sid srv of
             None \<Rightarrow> (Inr (), srv)
           | Some ses \<Rightarrow> (Inr (), set_session (ses\<lparr>socket_connected := False\<rparr>) srv))
      | Completed sid error octets \<Rightarrow>
          (case find_session sid srv of
             None \<Rightarrow> (Inr (), srv)
           | Some ses \<Rightarrow> if event_possible error octets ses then run_handler lib error octets ses srv else (Inr (), srv)))"

definition rpc_step :: "'j rpc_lib \<Rightarrow> rpc_event \<Rightarrow> (('j, 'w) c_rpc_server, unit) action" where
  \<comment> \<open>\<open>m_io_service.run\<close> in the thread of \<open>rpc_start\<close>: an exception ends it, a failed assert the process\<close>
  "rpc_step lib ev srv =
     (if \<not> rpc_running srv then (Inr (), srv)
      else case rpc_dispatch lib ev srv of
             (Inr _, srv') \<Rightarrow> (Inr (), srv')
           | (Inl e, srv') \<Rightarrow> if e = Abort then (Inl Abort, srv') else (Inr (), srv'\<lparr>rpc_running := False\<rparr>))"

fun rpc_steps :: "'j rpc_lib \<Rightarrow> rpc_event list \<Rightarrow> (('j, 'w) c_rpc_server, unit) action" where
  "rpc_steps lib [] = ret ()"
| "rpc_steps lib (ev # evs) = andThen (rpc_step lib ev) (\<lambda>_. rpc_steps lib evs)"


section \<open>Sessions and what the handlers leave alone\<close>

lemma set_session_fields [simp]:
  "m_hmac_key (set_session ses srv) = m_hmac_key srv" "rpc_world (set_session ses srv) = rpc_world srv"
  "rpc_running (set_session ses srv) = rpc_running srv" "rpc_sent (set_session ses srv) = rpc_sent srv"
  "m_rpc_functions_map (set_session ses srv) = m_rpc_functions_map srv"
  by (simp_all add: set_session_def)

lemma remove_session_fields [simp]:
  "m_hmac_key (remove_session_from_vector sid srv) = m_hmac_key srv"
  "rpc_world (remove_session_from_vector sid srv) = rpc_world srv"
  "rpc_running (remove_session_from_vector sid srv) = rpc_running srv"
  by (simp_all add: remove_session_from_vector_def)

lemma find_session_id: "find_session sid srv = Some ses \<Longrightarrow> m_session_id ses = sid"
  by (auto simp: find_session_def find_Some_iff)

lemma find_session_member: "find_session sid srv = Some ses \<Longrightarrow> ses \<in> set (m_session_list srv)"
  by (auto simp: find_session_def find_Some_iff)

lemma find_session_set [simp]:
  assumes "find_session sid srv = Some ses" and "m_session_id ses' = sid"
  shows "find_session sid (set_session ses' srv) = Some ses'"
proof -
  have "find (\<lambda>s. m_session_id s = sid) xs = Some ses \<Longrightarrow>
        find (\<lambda>s. m_session_id s = sid) (map (\<lambda>s. if m_session_id s = m_session_id ses' then ses' else s) xs) = Some ses'" for xs
    using assms(2) by (induction xs) (auto split: if_splits)
  with assms(1) show ?thesis by (simp add: find_session_def set_session_def)
qed

lemma find_session_fields [simp]:
  "find_session sid (srv\<lparr>rpc_sent := x\<rparr>) = find_session sid srv"
  "find_session sid (srv\<lparr>rpc_world := w\<rparr>) = find_session sid srv"
  by (simp_all add: find_session_def)

definition same_key :: "bytes \<Rightarrow> ('j, 'w) c_rpc_server \<Rightarrow> bool" where
  "same_key key srv \<longleftrightarrow> m_hmac_key srv = key \<and> (\<forall>ses \<in> set (m_session_list srv). m_session_hmac_key ses = key)"

lemma same_key_set: "same_key key srv \<Longrightarrow> m_session_hmac_key ses = key \<Longrightarrow> same_key key (set_session ses srv)"
  by (auto simp: same_key_def set_session_def)

lemma same_key_delete: "same_key key srv \<Longrightarrow> same_key key (snd (delete_me ses srv))"
  by (auto simp: same_key_def delete_me_def remove_session_from_vector_def)

lemma same_key_fields [simp]:
  "same_key key (srv\<lparr>rpc_sent := x\<rparr>) = same_key key srv" "same_key key (srv\<lparr>rpc_world := w\<rparr>) = same_key key srv"
  "same_key key (srv\<lparr>rpc_running := b\<rparr>) = same_key key srv"
  by (simp_all add: same_key_def)

lemma same_key_send:
  assumes "same_key key srv" and "m_session_hmac_key ses = key"
  shows "same_key key (snd (send_response lib ses r srv))"
  using assms by (auto simp: send_response_def Let_def intro!: same_key_set)

lemma same_key_catch:
  assumes "same_key key srv" and "same_key key (snd (m srv))"
  shows "same_key key (snd (catch_delete_me ses m srv))"
  using assms same_key_delete
  by (cases "m srv") (auto simp: catch_delete_me_def split: sum.split)

abbreviation keeps_key :: "bytes \<Rightarrow> (('j, 'w) c_rpc_server, 'a) action \<Rightarrow> bool" where
  "keeps_key key \<equiv> keeps (\<lambda>s t. same_key key s \<longrightarrow> same_key key t)"

lemma key_step_transp: "transp (\<lambda>s t. same_key key s \<longrightarrow> same_key key t)"
  by (rule transpI) blast

lemma key_step_reflp: "reflp (\<lambda>s t. same_key key s \<longrightarrow> same_key key t)"
  by (rule reflpI) blast

lemma keeps_key_call:
  "keeps_key key (\<lambda>srv. case m_rpc_functions_map srv c of None \<Rightarrow> (Inl Out_of_range, srv)
      | Some f \<Rightarrow> (case f msg (rpc_world srv) of (r, w) \<Rightarrow> (r, srv\<lparr>rpc_world := w\<rparr>)))"
  by (rule keepsI) (auto split: option.split prod.split)

lemma keeps_key_send: "m_session_hmac_key ses = key \<Longrightarrow> keeps_key key (send_response lib ses r)"
  by (intro keepsI) (simp add: same_key_send)

lemma keeps_key_execute:
  assumes "m_session_hmac_key ses = key"
  shows "keeps_key key (execute_body lib ses msg)"
  unfolding execute_body_def Let_def using assms
  by (intro keeps_andThen [OF key_step_transp] keeps_liftR [OF key_step_reflp] keeps_key_call keeps_key_send) simp_all

lemma same_key_execute:
  "same_key key srv \<Longrightarrow> m_session_hmac_key ses = key \<Longrightarrow> same_key key (snd (execute_body lib ses msg srv))"
  using keepsD [OF keeps_key_execute] by blast

lemma same_key_handler:
  assumes "same_key key srv" and "m_session_hmac_key ses = key"
  shows "same_key key (snd (run_handler lib error octets ses srv))"
proof (cases "pending ses")
  case Wait_size
  then show ?thesis
    using assms by (auto simp: run_handler_def read_handler_size_def Let_def intro!: same_key_set same_key_delete)
next
  case Wait_data
  then show ?thesis
    using assms by (auto simp: run_handler_def read_handler_data_def Let_def intro!: same_key_set same_key_delete)
next
  case Wait_hmac
  then show ?thesis
    using assms
    by (auto simp: run_handler_def read_handler_hmac_def execute_rpc_command_def Let_def
        intro!: same_key_set same_key_delete same_key_catch same_key_execute)
next
  case Wait_write
  then show ?thesis
    using assms by (auto simp: run_handler_def write_handler_def intro!: same_key_set same_key_delete same_key_catch)
qed

lemma same_key_step:
  assumes "same_key key srv"
  shows "same_key key (snd (rpc_step lib ev srv))"
proof -
  have ses: "m_session_hmac_key ses = key" if "find_session sid srv = Some ses" for sid ses
    using assms find_session_member [OF that] by (simp add: same_key_def)
  have "same_key key (snd (accept_handler e srv))" for e
    using assms by (auto simp: accept_handler_def same_key_def c_session_new_def)
  then have "same_key key (snd (rpc_dispatch lib ev srv))"
    using assms ses by (auto simp: rpc_dispatch_def same_key_handler same_key_set split: rpc_event.split option.split)
  then show ?thesis
    using assms by (cases "rpc_dispatch lib ev srv") (auto simp: rpc_step_def split: sum.split)
qed

lemma same_key_steps: "same_key key srv \<Longrightarrow> same_key key (snd (rpc_steps lib evs srv))"
proof (induction evs arbitrary: srv)
  case (Cons ev evs)
  then show ?case
    using same_key_step [OF Cons.prems, of lib ev] by (cases "rpc_step lib ev srv") (auto simp: andThen_def split: sum.split)
qed simp


section \<open>Commands are authenticated, with a key everybody knows\<close>

definition rpc_started :: "(bytes \<times> (bytes \<Rightarrow> ('w, 'j) action)) list \<Rightarrow> 'w \<Rightarrow> ('j, 'w) c_rpc_server" where
  \<comment> \<open>a server to which functions were added\<close>
  "rpc_started fs w = fold (\<lambda>(name, f). add_rpc_function name f) fs (c_rpc_server_new w)"

lemma same_key_add: "same_key key srv \<Longrightarrow> same_key key (add_rpc_function name f srv)"
  by (simp add: add_rpc_function_def same_key_def)

lemma same_key_adds: "same_key key srv \<Longrightarrow> same_key key (fold (\<lambda>(name, f). add_rpc_function name f) fs srv)"
  by (induction fs arbitrary: srv) (auto simp: same_key_add)

lemma same_key_started: "same_key (replicate 32 0x42) (rpc_started fs w)"
  unfolding rpc_started_def by (rule same_key_adds) (simp add: same_key_def c_rpc_server_new_def)

section \<open>A session on a concrete server\<close>

definition example_rpc_lib :: "bytes rpc_lib" where
  \<comment> \<open>a library whose documents are their own text and whose authenticator is a sum of octets\<close>
  "example_rpc_lib =
     \<lparr>json_parse = (\<lambda>m. Inr m), json_cmd = (\<lambda>j. Inr j), json_find_id = (\<lambda>_. None), json_set_id = (\<lambda>_ j. j),
      json_set_re = (\<lambda>_ j. j), json_dump = (\<lambda>j. j), hmacsha512 = (\<lambda>m k. replicate 64 (sum_list m + sum_list k)),
      hmacsha512_verify = (\<lambda>a m k. a = replicate 64 (sum_list m + sum_list k)), write_some = (@)\<rparr>"

definition example_rpc_server :: "(bytes, nat) c_rpc_server" where
  "example_rpc_server = rpc_started [([1, 2], \<lambda>m n. (Inr [9], n + 1))] 0"

definition example_rpc_session :: "(bytes, nat) c_rpc_server" where
  "example_rpc_session = snd (rpc_steps example_rpc_lib [Accepted False] example_rpc_server)"

lemma example_rpc_session_fields:
  "rpc_running example_rpc_session" "find_session 1 example_rpc_session = Some (c_session_new (replicate 32 0x42) 1)"
  "m_hmac_key example_rpc_session = replicate 32 0x42" "rpc_world example_rpc_session = 0" "rpc_sent example_rpc_session = []"
  "m_rpc_functions_map example_rpc_session [1, 2] = Some (\<lambda>m n. (Inr [9], n + 1))"
  by (simp_all add: example_rpc_session_def example_rpc_server_def rpc_started_def add_rpc_function_def c_rpc_server_new_def
      rpc_step_def rpc_dispatch_def accept_handler_def find_session_def c_session_new_def)

section \<open>What runs a function\<close>

lemma world_delete [simp]: "rpc_world (snd (delete_me ses srv)) = rpc_world srv"
  by (simp add: delete_me_def)

lemma world_handler:
  assumes "rpc_world (snd (run_handler lib error octets ses srv)) \<noteq> rpc_world srv"
  shows "pending ses = Wait_hmac \<and> \<not> error \<and> hmacsha512_verify lib octets (m_received_data ses) (m_session_hmac_key ses)"
proof (cases "pending ses")
  case Wait_size
  with assms show ?thesis by (auto simp: run_handler_def read_handler_size_def Let_def split: if_splits)
next
  case Wait_data
  with assms show ?thesis by (auto simp: run_handler_def read_handler_data_def Let_def split: if_splits)
next
  case Wait_hmac
  with assms show ?thesis by (auto simp: run_handler_def read_handler_hmac_def Let_def split: if_splits)
next
  case Wait_write
  with assms show ?thesis
    by (auto simp: run_handler_def write_handler_def catch_delete_me_def delete_me_def split: if_splits)
qed

lemma world_step:
  assumes "rpc_world (snd (rpc_step lib ev srv)) \<noteq> rpc_world srv"
  shows "\<exists>sid octets ses. ev = Completed sid False octets \<and> find_session sid srv = Some ses \<and> pending ses = Wait_hmac \<and>
           hmacsha512_verify lib octets (m_received_data ses) (m_session_hmac_key ses)"
proof -
  have "rpc_world (snd (rpc_dispatch lib ev srv)) \<noteq> rpc_world srv"
    using assms by (cases "rpc_dispatch lib ev srv") (auto simp: rpc_step_def split: sum.splits if_splits)
  then show ?thesis
    by (cases ev) (auto simp: rpc_dispatch_def accept_handler_def split: option.splits if_splits dest!: world_handler)
qed

text \<open>
  C18: a function of the remote control runs only for a message whose authenticator was
  verified, and it was verified with a key of 32 octets 0x42, the same in every installation.
\<close>

theorem rpc_executes_authenticated:
  fixes fs :: "(bytes \<times> (bytes \<Rightarrow> ('w, 'j) action)) list"
  defines "srv evs w lib \<equiv> snd (rpc_steps lib evs (rpc_started fs w))"
  assumes "rpc_world (snd (rpc_step lib ev (srv evs w lib))) \<noteq> rpc_world (srv evs w lib)"
  shows "\<exists>sid octets ses. ev = Completed sid False octets \<and> find_session sid (srv evs w lib) = Some ses \<and>
           pending ses = Wait_hmac \<and> hmacsha512_verify lib octets (m_received_data ses) (replicate 32 0x42)"
proof -
  have "same_key (replicate 32 0x42) (srv evs w lib)"
    unfolding srv_def by (rule same_key_steps [OF same_key_started])
  then have "m_session_hmac_key ses = replicate 32 0x42" if "find_session sid (srv evs w lib) = Some ses" for sid ses
    using find_session_member [OF that] by (simp add: same_key_def)
  with world_step [OF assms(2)] show ?thesis by fastforce
qed

section \<open>A call from its frame to the frame of the answer\<close>

definition size_octets :: "nat \<Rightarrow> bytes" where
  "size_octets n = [of_nat (n div 256), of_nat (n mod 256)]"

definition frame_of :: "'j rpc_lib \<Rightarrow> bytes \<Rightarrow> bytes \<Rightarrow> bytes" where
  "frame_of lib key msg = size_octets (length msg) @ msg @ hmacsha512 lib msg key"

definition sent_octets :: "'j rpc_lib \<Rightarrow> bytes \<Rightarrow> bytes \<Rightarrow> bytes" where
  \<comment> \<open>what of the frame of an answer goes out\<close>
  "sent_octets lib key msg = write_some lib (size_octets (length msg) @ msg) (hmacsha512 lib msg key)"

definition takes_frame :: "'j rpc_lib \<Rightarrow> bytes \<Rightarrow> bytes \<Rightarrow> bool" where
  "takes_frame lib key msg \<longleftrightarrow> sent_octets lib key msg = frame_of lib key msg"

lemma size_octets_value:
  assumes "n < 65536"
  shows "(unat (size_octets n ! 0) * 256 + unat (size_octets n ! 1)) mod 65536 = n"
proof -
  have "unat (of_nat (n div 256) :: byte) = n div 256" "unat (of_nat (n mod 256) :: byte) = n mod 256"
    using assms by (simp_all add: unat_of_nat)
  then show ?thesis using assms by (simp add: size_octets_def)
qed

lemma rpc_step_completed:
  assumes "rpc_running srv" and "find_session sid srv = Some ses" and "event_possible False octets ses"
    and "run_handler lib False octets ses srv = (Inr (), srv')"
  shows "rpc_step lib (Completed sid False octets) srv = (Inr (), srv')"
  using assms by (simp add: rpc_step_def rpc_dispatch_def)

definition rpc_response :: "'j rpc_lib \<Rightarrow> rpc_session \<Rightarrow> 'j \<Rightarrow> 'j \<Rightarrow> bytes" where
  \<comment> \<open>the text of the answer to the request \<open>j\<close>\<close>
  "rpc_response lib ses j answer =
     (let r = json_set_id lib (m_session_id ses, m_rpc_command_counter ses + 1) answer
      in json_dump lib (case json_find_id lib j of None \<Rightarrow> r | Some i \<Rightarrow> json_set_re lib i r))"

lemma rpc_frame_read:
  assumes "rpc_running srv" and ses: "find_session sid srv = Some ses" and "pending ses = Wait_size"
    and "0 < length msg" and "length msg < 65536"
  shows "rpc_steps lib [Completed sid False (size_octets (length msg)), Completed sid False msg] srv =
           (Inr (), set_session (ses\<lparr>m_data_size := size_octets (length msg), m_received_data := msg, pending := Wait_hmac\<rparr>) srv)"
proof -
  let ?n = "length msg"
  define ses1 where "ses1 = ses\<lparr>m_data_size := size_octets ?n,
      m_received_data := take ?n (m_received_data ses) @ replicate (?n - length (m_received_data ses)) 0, pending := Wait_data\<rparr>"
  have id: "m_session_id ses = sid" by (rule find_session_id [OF ses])
  have len: "length (m_received_data ses1) = ?n" by (simp add: ses1_def)
  have "rpc_step lib (Completed sid False (size_octets ?n)) srv = (Inr (), set_session ses1 srv)"
    using assms size_octets_value [OF assms(5)]
    by (intro rpc_step_completed [where ses = ses])
       (simp_all add: event_possible_def expected_size_def size_octets_def run_handler_def read_handler_size_def Let_def ses1_def)
  moreover have "rpc_step lib (Completed sid False msg) (set_session ses1 srv) =
      (Inr (), set_session (ses1\<lparr>m_received_data := msg, pending := Wait_hmac\<rparr>) (set_session ses1 srv))"
    using assms id len
    by (intro rpc_step_completed [where ses = ses1])
       (simp_all add: event_possible_def expected_size_def run_handler_def read_handler_data_def Let_def ses1_def)
  moreover have "set_session (ses1\<lparr>m_received_data := msg, pending := Wait_hmac\<rparr>) (set_session ses1 srv) =
      set_session (ses\<lparr>m_data_size := size_octets ?n, m_received_data := msg, pending := Wait_hmac\<rparr>) srv"
    by (auto simp: set_session_def ses1_def)
  ultimately show ?thesis by simp
qed

lemma send_response_run:
  assumes "length (json_dump lib r) \<le> 65535"
  shows "send_response lib ses r srv =
    (Inr (), (set_session (ses\<lparr>m_write_data := size_octets (length (json_dump lib r)) @ json_dump lib r, pending := Wait_write\<rparr>) srv)
       \<lparr>rpc_sent := rpc_sent srv @ [(m_session_id ses, sent_octets lib (m_hmac_key srv) (json_dump lib r))]\<rparr>)"
  using assms by (simp add: send_response_def Let_def sent_octets_def size_octets_def)

lemma set_session_world: "set_session ses (srv\<lparr>rpc_world := w\<rparr>) = (set_session ses srv)\<lparr>rpc_world := w\<rparr>"
  by (simp add: set_session_def)

lemma execute_answers:
  assumes "json_parse lib msg = Inr j" and "json_cmd lib j = Inr cmd" and "m_rpc_functions_map srv cmd = Some f"
    and "f msg (rpc_world srv) = (Inr answer, w')" and "length (rpc_response lib ses j answer) \<le> 65535"
  shows "\<exists>ses'. execute_body lib ses msg srv =
      (Inr (), (set_session ses' srv)\<lparr>rpc_world := w', rpc_sent := rpc_sent srv @
        [(m_session_id ses, sent_octets lib (m_hmac_key srv) (rpc_response lib ses j answer))]\<rparr>)
      \<and> m_session_id ses' = m_session_id ses \<and> pending ses' = Wait_write"
proof -
  define ses1 where "ses1 = ses\<lparr>m_rpc_command_counter := m_rpc_command_counter ses + 1\<rparr>"
  define r where "r = (let x = json_set_id lib (m_session_id ses, m_rpc_command_counter ses + 1) answer
                       in case json_find_id lib j of None \<Rightarrow> x | Some i \<Rightarrow> json_set_re lib i x)"
  have r: "rpc_response lib ses j answer = json_dump lib r" by (simp add: rpc_response_def r_def Let_def)
  have "execute_body lib ses msg srv = send_response lib ses1 r (srv\<lparr>rpc_world := w'\<rparr>)"
    using assms(1-4) by (simp add: execute_body_def andThen_def liftR_def Let_def r_def ses1_def)
  also have "\<dots> = (Inr (), (set_session (ses1\<lparr>m_write_data := size_octets (length (json_dump lib r)) @ json_dump lib r, pending := Wait_write\<rparr>) srv)
       \<lparr>rpc_world := w', rpc_sent := rpc_sent srv @ [(m_session_id ses, sent_octets lib (m_hmac_key srv) (json_dump lib r))]\<rparr>)"
    using assms(5) by (simp add: r send_response_run set_session_world) (simp add: ses1_def)
  finally show ?thesis
    by (intro exI [of _ "ses1\<lparr>m_write_data := size_octets (length (json_dump lib r)) @ json_dump lib r, pending := Wait_write\<rparr>"])
       (simp add: r, simp add: ses1_def)
qed

text \<open>The premise of \<open>rpc_executes_authenticated\<close> on the example: the function runs.\<close>

lemma example_rpc_runs:
  "rpc_world (snd (rpc_step example_rpc_lib (Completed 1 False (replicate 64 67))
      (snd (rpc_steps example_rpc_lib [Accepted False, Completed 1 False [0, 2], Completed 1 False [1, 2]] example_rpc_server)))) \<noteq>
   rpc_world (snd (rpc_steps example_rpc_lib [Accepted False, Completed 1 False [0, 2], Completed 1 False [1, 2]] example_rpc_server))"
proof -
  define ses where "ses = (c_session_new (replicate 32 0x42) 1)\<lparr>m_data_size := [0, 2], m_received_data := [1, 2], pending := Wait_hmac\<rparr>"
  have "rpc_steps example_rpc_lib [Completed 1 False (size_octets (length [1, 2 :: byte])), Completed 1 False [1, 2]] example_rpc_session =
      (Inr (), set_session ((c_session_new (replicate 32 0x42) 1)\<lparr>m_data_size := size_octets (length [1, 2 :: byte]),
         m_received_data := [1, 2], pending := Wait_hmac\<rparr>) example_rpc_session)"
    by (rule rpc_frame_read [OF example_rpc_session_fields(1,2)]) (simp_all add: c_session_new_def)
  then have read: "rpc_steps example_rpc_lib [Completed 1 False [0, 2], Completed 1 False [1, 2]] example_rpc_session =
      (Inr (), set_session ses example_rpc_session)"
    by (simp add: size_octets_def ses_def del: rpc_steps.simps)
  have state: "snd (rpc_steps example_rpc_lib [Accepted False, Completed 1 False [0, 2], Completed 1 False [1, 2]] example_rpc_server) =
      set_session ses example_rpc_session"
  proof -
    have "rpc_step example_rpc_lib (Accepted False) example_rpc_server = (Inr (), example_rpc_session)"
      by (simp add: example_rpc_session_def rpc_step_def rpc_dispatch_def accept_handler_def)
    with read show ?thesis by (simp add: andThen_def)
  qed
  define srv where "srv = set_session (ses\<lparr>m_hmac_authenticator := replicate 64 67\<rparr>) (set_session ses example_rpc_session)"
  have "find_session 1 (set_session ses example_rpc_session) = Some ses"
    by (rule find_session_set [OF example_rpc_session_fields(2)]) (simp add: ses_def c_session_new_def)
  moreover have "\<exists>ses'. execute_body example_rpc_lib (ses\<lparr>m_hmac_authenticator := replicate 64 67\<rparr>) [1, 2] srv =
      (Inr (), (set_session ses' srv)\<lparr>rpc_world := 1, rpc_sent := rpc_sent srv @
        [(m_session_id (ses\<lparr>m_hmac_authenticator := replicate 64 67\<rparr>), sent_octets example_rpc_lib (m_hmac_key srv)
           (rpc_response example_rpc_lib (ses\<lparr>m_hmac_authenticator := replicate 64 67\<rparr>) [1, 2] [9]))]\<rparr>)
      \<and> m_session_id ses' = m_session_id (ses\<lparr>m_hmac_authenticator := replicate 64 67\<rparr>) \<and> pending ses' = Wait_write"
    by (rule execute_answers [where cmd = "[1, 2]" and f = "\<lambda>m n. (Inr [9], n + 1)"])
       (simp_all add: srv_def example_rpc_lib_def example_rpc_session_fields rpc_response_def)
  ultimately show ?thesis
    unfolding state
    by (auto simp: rpc_step_def rpc_dispatch_def example_rpc_session_fields event_possible_def expected_size_def ses_def
        run_handler_def read_handler_hmac_def execute_rpc_command_def catch_delete_me_def Let_def srv_def
        example_rpc_lib_def c_session_new_def sum_list_replicate)
qed

theorem rpc_executes_authenticated_witness:
  "\<exists>ses. find_session 1 (snd (rpc_steps example_rpc_lib [Accepted False, Completed 1 False [0, 2], Completed 1 False [1, 2]]
            example_rpc_server)) = Some ses \<and> pending ses = Wait_hmac \<and>
     hmacsha512_verify example_rpc_lib (replicate 64 67) (m_received_data ses) (replicate 32 0x42)"
  using rpc_executes_authenticated [OF example_rpc_runs [unfolded example_rpc_server_def]]
  unfolding example_rpc_server_def by auto

lemma rpc_call_run:
  assumes "rpc_running srv" and "find_session sid srv = Some ses" and "pending ses = Wait_size"
    and "m_session_hmac_key ses = m_hmac_key srv"
    and "hmacsha512_verify lib (hmacsha512 lib msg (m_hmac_key srv)) msg (m_hmac_key srv)"
    and "length (hmacsha512 lib msg (m_hmac_key srv)) = 64"
    and "0 < length msg" and "length msg < 65536"
    and "json_parse lib msg = Inr j" and "json_cmd lib j = Inr cmd" and "m_rpc_functions_map srv cmd = Some f"
    and "f msg (rpc_world srv) = (Inr answer, w')" and "length (rpc_response lib ses j answer) \<le> 65535"
  shows "\<exists>srv' ses'. rpc_steps lib
      [Completed sid False (size_octets (length msg)), Completed sid False msg,
       Completed sid False (hmacsha512 lib msg (m_hmac_key srv)), Completed sid False []] srv = (Inr (), srv')
     \<and> rpc_world srv' = w' \<and> rpc_running srv'
     \<and> rpc_sent srv' = rpc_sent srv @ [(sid, sent_octets lib (m_hmac_key srv) (rpc_response lib ses j answer))]
     \<and> find_session sid srv' = Some ses' \<and> pending ses' = Wait_size"
proof -
  let ?mac = "hmacsha512 lib msg (m_hmac_key srv)"
  define ses2 where "ses2 = ses\<lparr>m_data_size := size_octets (length msg), m_received_data := msg, pending := Wait_hmac\<rparr>"
  define srv2 where "srv2 = set_session ses2 srv"
  define ses3 where "ses3 = ses2\<lparr>m_hmac_authenticator := ?mac\<rparr>"
  define srv3 where "srv3 = set_session ses3 srv2"
  have id: "m_session_id ses = sid" by (rule find_session_id [OF assms(2)])
  have at2: "find_session sid srv2 = Some ses2" unfolding srv2_def by (rule find_session_set [OF assms(2)]) (simp add: ses2_def id)
  have at3: "find_session sid srv3 = Some ses3" unfolding srv3_def by (rule find_session_set [OF at2]) (simp add: ses3_def ses2_def id)
  have id3: "m_session_id ses3 = sid" by (simp add: ses3_def ses2_def id)
  have resp: "rpc_response lib ses3 j answer = rpc_response lib ses j answer"
    by (simp add: rpc_response_def ses3_def ses2_def)
  have srv3: "m_rpc_functions_map srv3 = m_rpc_functions_map srv" "rpc_world srv3 = rpc_world srv" "rpc_sent srv3 = rpc_sent srv"
    "m_hmac_key srv3 = m_hmac_key srv" "rpc_running srv3 = rpc_running srv"
    by (simp_all add: srv3_def srv2_def)
  obtain ses4 where run: "execute_body lib ses3 msg srv3 =
      (Inr (), (set_session ses4 srv3)\<lparr>rpc_world := w', rpc_sent := rpc_sent srv @
        [(sid, sent_octets lib (m_hmac_key srv) (rpc_response lib ses j answer))]\<rparr>)"
    and ses4: "m_session_id ses4 = sid" "pending ses4 = Wait_write"
    using execute_answers [of lib msg j cmd srv3 f answer w' ses3] assms(9-13) id3
    by (auto simp: srv3 resp)
  define srv4 where "srv4 = (set_session ses4 srv3)\<lparr>rpc_world := w', rpc_sent := rpc_sent srv @
        [(sid, sent_octets lib (m_hmac_key srv) (rpc_response lib ses j answer))]\<rparr>"
  have at4: "find_session sid srv4 = Some ses4" by (simp add: srv4_def find_session_set [OF at3 ses4(1)])
  have frame: "rpc_steps lib [Completed sid False (size_octets (length msg)), Completed sid False msg] srv = (Inr (), srv2)"
    unfolding srv2_def ses2_def by (rule rpc_frame_read [OF assms(1-3,7,8)])
  have auth: "rpc_step lib (Completed sid False ?mac) srv2 = (Inr (), srv4)"
  proof (rule rpc_step_completed [OF _ at2])
    show "rpc_running srv2" using assms(1) by (simp add: srv2_def)
    show "event_possible False ?mac ses2" using assms(6) by (simp add: event_possible_def expected_size_def ses2_def)
    show "run_handler lib False ?mac ses2 srv2 = (Inr (), srv4)"
    proof -
      have "pending ses2 = Wait_hmac" "m_received_data ses2 = msg" "m_session_hmac_key ses2 = m_hmac_key srv"
        using assms(4) by (simp_all add: ses2_def)
      then show ?thesis
        using run assms(5) unfolding srv4_def
        by (simp add: run_handler_def read_handler_hmac_def execute_rpc_command_def catch_delete_me_def Let_def
            srv3_def [symmetric] ses3_def [symmetric])
    qed
  qed
  have written: "rpc_step lib (Completed sid False []) srv4 = (Inr (), set_session (ses4\<lparr>pending := Wait_size\<rparr>) srv4)"
    by (rule rpc_step_completed [OF _ at4])
       (simp_all add: srv4_def srv3 assms(1) event_possible_def expected_size_def ses4 run_handler_def write_handler_def catch_delete_me_def)
  have "find_session sid (set_session (ses4\<lparr>pending := Wait_size\<rparr>) srv4) = Some (ses4\<lparr>pending := Wait_size\<rparr>)"
    by (rule find_session_set [OF at4]) (simp add: ses4)
  moreover have "rpc_steps lib [Completed sid False (size_octets (length msg)), Completed sid False msg,
       Completed sid False ?mac, Completed sid False []] srv = (Inr (), set_session (ses4\<lparr>pending := Wait_size\<rparr>) srv4)"
    using frame auth written by (auto simp: andThen_def split: prod.splits sum.splits)
  ultimately show ?thesis using srv4_def assms(1) by (simp add: srv3)
qed

text \<open>
  Who knows the key calls the functions: after the frame of a message (size, message,
  authenticator) on a session that waits for one, the function the message names has run on
  the state, and what the connection takes of one frame was written back to the session: the size of the answer, the answer
  and its authenticator. The session then waits for the write to complete, and after that for
  the next frame.
\<close>

theorem rpc_call_answered:
  assumes "rpc_running srv" and "find_session sid srv = Some ses" and "pending ses = Wait_size"
    and "m_session_hmac_key ses = m_hmac_key srv"
    and "hmacsha512_verify lib (hmacsha512 lib msg (m_hmac_key srv)) msg (m_hmac_key srv)"
    and "length (hmacsha512 lib msg (m_hmac_key srv)) = 64"
    and "0 < length msg" and "length msg < 65536"
    and "json_parse lib msg = Inr j" and "json_cmd lib j = Inr cmd" and "m_rpc_functions_map srv cmd = Some f"
    and "f msg (rpc_world srv) = (Inr answer, w')" and "length (rpc_response lib ses j answer) \<le> 65535"
  shows "\<exists>srv' ses'. rpc_steps lib
      [Completed sid False (size_octets (length msg)), Completed sid False msg,
       Completed sid False (hmacsha512 lib msg (m_hmac_key srv)), Completed sid False []] srv = (Inr (), srv')
     \<and> rpc_world srv' = w' \<and> rpc_running srv'
     \<and> rpc_sent srv' = rpc_sent srv @ [(sid, sent_octets lib (m_hmac_key srv) (rpc_response lib ses j answer))]
     \<and> find_session sid srv' = Some ses' \<and> pending ses' = Wait_size"
  using assms by (rule rpc_call_run)

theorem rpc_call_answered_witness:
  "\<exists>srv' ses'. rpc_steps example_rpc_lib
      [Completed 1 False (size_octets (length [1, 2 :: byte])), Completed 1 False [1, 2],
       Completed 1 False (hmacsha512 example_rpc_lib [1, 2] (m_hmac_key example_rpc_session)), Completed 1 False []]
      example_rpc_session = (Inr (), srv')
     \<and> rpc_world srv' = 1 \<and> rpc_running srv'
     \<and> rpc_sent srv' = rpc_sent example_rpc_session @ [(1, sent_octets example_rpc_lib (m_hmac_key example_rpc_session)
          (rpc_response example_rpc_lib (c_session_new (replicate 32 0x42) 1) [1, 2] [9]))]
     \<and> find_session 1 srv' = Some ses' \<and> pending ses' = Wait_size"
  by (rule rpc_call_answered [OF example_rpc_session_fields(1,2), where f = "\<lambda>m n. (Inr [9], n + 1)" and cmd = "[1, 2]"])
     (simp_all add: example_rpc_session_fields c_session_new_def example_rpc_lib_def rpc_response_def)

section \<open>The server as its functions see it\<close>

lemma world_send [simp]: "rpc_world (snd (send_response lib ses r srv)) = rpc_world srv"
  by (simp add: send_response_def Let_def)

lemma execute_function:
  assumes "execute_body lib ses msg srv = (r, srv')"
  shows "rpc_world srv' = rpc_world srv \<or>
         (\<exists>cmd f q. m_rpc_functions_map srv cmd = Some f \<and> f msg (rpc_world srv) = (q, rpc_world srv') \<and> (q = Inl Abort \<longrightarrow> r = Inl Abort))"
proof (cases "bindR (json_parse lib msg) (\<lambda>j. bindR (json_cmd lib j) (\<lambda>cmd. Inr (j, cmd)))")
  case (Inl e)
  then have "srv' = srv"
    using assms by (cases "json_parse lib msg") (auto simp: execute_body_def raise_def andThen_def liftR_def split: sum.splits)
  then show ?thesis by simp
next
  case (Inr jc)
  then obtain j cmd where j: "json_parse lib msg = Inr j" "json_cmd lib j = Inr cmd" by (auto simp: bindR_eq_Inr_conv)
  show ?thesis
  proof (cases "m_rpc_functions_map srv cmd")
    case None
    with assms j show ?thesis by (auto simp: execute_body_def andThen_def)
  next
    case (Some f)
    obtain q w where q: "f msg (rpc_world srv) = (q, w)" by force
    show ?thesis
    proof (cases q)
      case (Inl e)
      with assms j Some q have "r = Inl e" "rpc_world srv' = w" by (auto simp: execute_body_def andThen_def)
      with Inl Some q show ?thesis by blast
    next
      case (Inr answer)
      with assms j Some q obtain ses' x where "send_response lib ses' x (srv\<lparr>rpc_world := w\<rparr>) = (r, srv')"
        by (auto simp: execute_body_def andThen_def Let_def)
      then have "rpc_world srv' = w" using world_send [of lib ses' x "srv\<lparr>rpc_world := w\<rparr>"] by simp
      with Inr Some q show ?thesis by blast
    qed
  qed
qed

lemma catch_delete_world: "rpc_world (snd (catch_delete_me ses m srv)) = rpc_world (snd (m srv))"
  by (cases "m srv") (auto simp: catch_delete_me_def split: sum.split)

lemma catch_delete_Abort: "fst (m srv) = Inl Abort \<Longrightarrow> fst (catch_delete_me ses m srv) = Inl Abort"
  by (cases "m srv") (auto simp: catch_delete_me_def)

lemma handler_function:
  assumes "run_handler lib error octets ses srv = (r, srv')"
  shows "rpc_world srv' = rpc_world srv \<or>
         (\<exists>cmd f msg q. m_rpc_functions_map srv cmd = Some f \<and> f msg (rpc_world srv) = (q, rpc_world srv') \<and> (q = Inl Abort \<longrightarrow> r = Inl Abort))"
proof (cases "rpc_world srv' = rpc_world srv")
  case False
  let ?ses = "ses\<lparr>m_hmac_authenticator := octets\<rparr>" and ?msg = "m_received_data ses"
  let ?srv = "set_session ?ses srv"
  have "rpc_world (snd (run_handler lib error octets ses srv)) \<noteq> rpc_world srv" using False assms by simp
  from world_handler [OF this] have run: "catch_delete_me ?ses (execute_rpc_command lib ?ses ?msg) ?srv = (r, srv')"
    using assms by (simp add: run_handler_def read_handler_hmac_def Let_def)
  obtain x srv1 where body: "execute_body lib ?ses ?msg ?srv = (x, srv1)" by force
  have "rpc_world srv' = rpc_world srv1"
    using run body catch_delete_world [of ?ses "execute_rpc_command lib ?ses ?msg" ?srv]
      catch_delete_world [of ?ses "execute_body lib ?ses ?msg" ?srv]
    by (simp add: execute_rpc_command_def)
  moreover have "r = Inl Abort" if "x = Inl Abort"
    using run body that catch_delete_Abort [of "execute_body lib ?ses ?msg" ?srv ?ses]
      catch_delete_Abort [of "execute_rpc_command lib ?ses ?msg" ?srv ?ses]
    by (simp add: execute_rpc_command_def)
  ultimately show ?thesis using execute_function [OF body] False by auto
qed simp

lemma step_function:
  assumes "rpc_step lib ev srv = (Inr u, srv')"
  shows "rpc_world srv' = rpc_world srv \<or>
         (\<exists>cmd f msg q. m_rpc_functions_map srv cmd = Some f \<and> f msg (rpc_world srv) = (q, rpc_world srv') \<and> q \<noteq> Inl Abort)"
proof -
  obtain r srv1 where run: "rpc_dispatch lib ev srv = (r, srv1)" by force
  have "rpc_world srv1 = rpc_world srv \<or>
        (\<exists>cmd f msg q. m_rpc_functions_map srv cmd = Some f \<and> f msg (rpc_world srv) = (q, rpc_world srv1) \<and> (q = Inl Abort \<longrightarrow> r = Inl Abort))"
  proof (cases ev)
    case (Completed sid error octets)
    with run show ?thesis
      by (auto simp: rpc_dispatch_def split: option.splits if_splits dest!: handler_function)
  qed (use run in \<open>auto simp: rpc_dispatch_def accept_handler_def split: option.splits\<close>)
  moreover have "rpc_world srv' = rpc_world srv1 \<and> r \<noteq> Inl Abort \<or> rpc_world srv' = rpc_world srv"
    using assms run by (auto simp: rpc_step_def split: sum.splits if_splits)
  ultimately show ?thesis by auto
qed

lemma rpc_call_aborts:
  assumes "rpc_running srv" and "find_session sid srv = Some ses" and "pending ses = Wait_size"
    and "m_session_hmac_key ses = key" and "hmacsha512_verify lib mac msg key" and "length mac = 64"
    and "0 < length msg" and "length msg < 65536"
    and "json_parse lib msg = Inr j" and "json_cmd lib j = Inr cmd" and "m_rpc_functions_map srv cmd = Some f"
    and "f msg (rpc_world srv) = (Inl Abort, w')"
  shows "\<exists>srv'. rpc_steps lib [Completed sid False (size_octets (length msg)), Completed sid False msg, Completed sid False mac] srv = (Inl Abort, srv')"
proof -
  define ses2 where "ses2 = ses\<lparr>m_data_size := size_octets (length msg), m_received_data := msg, pending := Wait_hmac\<rparr>"
  define srv2 where "srv2 = set_session ses2 srv"
  define ses3 where "ses3 = ses2\<lparr>m_hmac_authenticator := mac\<rparr>"
  have at2: "find_session sid srv2 = Some ses2"
    unfolding srv2_def by (rule find_session_set [OF assms(2)]) (simp add: ses2_def find_session_id [OF assms(2)])
  have fields: "pending ses2 = Wait_hmac" "m_received_data ses2 = msg" "m_session_hmac_key ses2 = key" "rpc_running srv2"
    using assms(1,4) by (simp_all add: ses2_def srv2_def)
  have frame: "rpc_steps lib [Completed sid False (size_octets (length msg)), Completed sid False msg] srv = (Inr (), srv2)"
    unfolding srv2_def ses2_def by (rule rpc_frame_read [OF assms(1-3,7,8)])
  have "fst (execute_body lib ses3 msg (set_session ses3 srv2)) = Inl Abort"
    using assms(9-12) by (simp add: execute_body_def andThen_def srv2_def)
  then have "fst (catch_delete_me ses3 (execute_rpc_command lib ses3 msg) (set_session ses3 srv2)) = Inl Abort"
    unfolding execute_rpc_command_def by (intro catch_delete_Abort)
  then have "fst (run_handler lib False mac ses2 srv2) = Inl Abort"
    using fields assms(5) by (simp add: run_handler_def read_handler_hmac_def Let_def ses3_def)
  then obtain srv3 where "run_handler lib False mac ses2 srv2 = (Inl Abort, srv3)" by (metis prod.collapse)
  then have "rpc_step lib (Completed sid False mac) srv2 = (Inl Abort, srv3)"
    using at2 fields assms(6) by (simp add: rpc_step_def rpc_dispatch_def event_possible_def expected_size_def)
  with frame show ?thesis by (auto simp: andThen_def split: prod.splits sum.splits)
qed

abbreviation same_functions :: "('j, 'w) c_rpc_server \<Rightarrow> ('j, 'w) c_rpc_server \<Rightarrow> bool" where
  "same_functions \<equiv> \<lambda>s t. m_rpc_functions_map t = m_rpc_functions_map s"

lemma same_functions_order: "reflp same_functions" "transp same_functions"
  by (auto intro: reflpI transpI)

lemma keeps_functions_simps:
  "keeps same_functions (delete_me ses)" "keeps same_functions (send_response lib ses r)"
  by (auto intro!: keepsI simp: delete_me_def remove_session_from_vector_def send_response_def Let_def)

lemma keeps_functions_catch: "keeps same_functions m \<Longrightarrow> keeps same_functions (catch_delete_me ses m)"
proof (rule keepsI)
  fix srv :: "('a, 'b) c_rpc_server"
  assume "keeps same_functions m"
  from keepsD [OF this, of srv] show "same_functions srv (snd (catch_delete_me ses m srv))"
    using keepsD [OF keeps_functions_simps(1), of ses "snd (m srv)"]
    by (cases "m srv") (auto simp: catch_delete_me_def split: sum.split)
qed

lemma keeps_functions_execute: "keeps same_functions (execute_rpc_command lib ses msg)"
proof -
  have call: "keeps same_functions (\<lambda>srv. case m_rpc_functions_map srv c of None \<Rightarrow> (Inl Out_of_range, srv)
      | Some f \<Rightarrow> (case f msg (rpc_world srv) of (r, w) \<Rightarrow> (r, srv\<lparr>rpc_world := w\<rparr>)))" for c
    by (rule keepsI) (auto split: option.split prod.split)
  show ?thesis
    unfolding execute_rpc_command_def execute_body_def Let_def
    by (intro keeps_functions_catch keeps_andThen [OF same_functions_order(2)] keeps_liftR [OF same_functions_order(1)]
        call keeps_functions_simps(2))
qed

lemma keeps_functions_handler: "keeps same_functions (run_handler lib error octets ses)"
proof (rule keepsI)
  fix srv :: "('a, 'b) c_rpc_server"
  note deleted = keepsD [OF keeps_functions_simps(1)]
  note ran = keepsD [OF keeps_functions_catch [OF keeps_functions_execute]]
  show "same_functions srv (snd (run_handler lib error octets ses srv))"
  proof (cases "pending ses")
    case Wait_write
    then show ?thesis
      by (auto simp: run_handler_def write_handler_def deleted intro!: keepsD [OF keeps_functions_catch] keepsI)
  qed (simp_all add: run_handler_def read_handler_size_def read_handler_data_def read_handler_hmac_def Let_def deleted ran)
qed

lemma step_keeps_functions: "m_rpc_functions_map (snd (rpc_step lib ev srv)) = m_rpc_functions_map srv"
proof -
  have "m_rpc_functions_map (snd (rpc_dispatch lib ev srv)) = m_rpc_functions_map srv"
    using keepsD [OF keeps_functions_handler]
    by (cases ev) (auto simp: rpc_dispatch_def accept_handler_def split: option.split)
  then show ?thesis by (cases "rpc_dispatch lib ev srv") (auto simp: rpc_step_def split: sum.split)
qed

lemma add_rpc_function_fields [simp]:
  "rpc_running (add_rpc_function name f srv) = rpc_running srv" "m_session_list (add_rpc_function name f srv) = m_session_list srv"
  "m_session_counter (add_rpc_function name f srv) = m_session_counter srv" "m_hmac_key (add_rpc_function name f srv) = m_hmac_key srv"
  "rpc_world (add_rpc_function name f srv) = rpc_world srv"
  by (simp_all add: add_rpc_function_def)

lemma add_functions_fields:
  "rpc_running (fold (\<lambda>(name, f). add_rpc_function name f) fs srv) = rpc_running srv"
  "m_session_list (fold (\<lambda>(name, f). add_rpc_function name f) fs srv) = m_session_list srv"
  "m_session_counter (fold (\<lambda>(name, f). add_rpc_function name f) fs srv) = m_session_counter srv"
  "m_hmac_key (fold (\<lambda>(name, f). add_rpc_function name f) fs srv) = m_hmac_key srv"
  "rpc_world (fold (\<lambda>(name, f). add_rpc_function name f) fs srv) = rpc_world srv"
  by (induction fs arbitrary: srv) (simp_all add: case_prod_unfold)

lemma rpc_started_fields:
  "rpc_running (rpc_started fs w)" "m_session_list (rpc_started fs w) = []" "m_session_counter (rpc_started fs w) = 0"
  "m_hmac_key (rpc_started fs w) = replicate 32 0x42" "rpc_world (rpc_started fs w) = w"
  by (simp_all add: rpc_started_def add_functions_fields) (simp_all add: c_rpc_server_new_def)

lemma add_function_map:
  "m_rpc_functions_map (add_rpc_function name f srv) k =
     (case m_rpc_functions_map srv k of None \<Rightarrow> if k = name then Some f else None | Some g \<Rightarrow> Some g)"
  by (cases "m_rpc_functions_map srv name"; cases "k = name") (auto simp: add_rpc_function_def split: option.split)

lemma add_functions_map:
  "m_rpc_functions_map (fold (\<lambda>(name, f). add_rpc_function name f) fs srv) k =
     (case m_rpc_functions_map srv k of None \<Rightarrow> map_of fs k | Some g \<Rightarrow> Some g)"
proof (induction fs arbitrary: srv)
  case (Cons p fs)
  then show ?case by (cases p; cases "m_rpc_functions_map srv k") (auto simp: add_function_map)
qed (simp split: option.split)

lemma started_functions: "m_rpc_functions_map (rpc_started fs w) k = map_of fs k"
  by (simp add: rpc_started_def add_functions_map) (simp add: c_rpc_server_new_def)

section \<open>What a service keeps\<close>

text \<open>
  The contract between the server and the functions it is given: a predicate on their state that each function keeps
  unless it ends the process is kept by the server, whatever its sessions receive.
\<close>

locale rpc_service =
  fixes fs :: "(bytes \<times> (bytes \<Rightarrow> ('w, 'j) action)) list" and inv :: "'w \<Rightarrow> bool"
  assumes function_keeps: "(name, f) \<in> set fs \<Longrightarrow> inv w \<Longrightarrow> f msg w = (r, w') \<Longrightarrow> r \<noteq> Inl Abort \<Longrightarrow> inv w'"
begin

lemma served_keeps:
  assumes "\<forall>name. m_rpc_functions_map srv name = map_of fs name" and "inv (rpc_world srv)" and "rpc_step lib ev srv = (Inr u, srv')"
  shows "(\<forall>name. m_rpc_functions_map srv' name = map_of fs name) \<and> inv (rpc_world srv')"
proof -
  have "inv (rpc_world srv')"
    using step_function [OF assms(3)] assms(1,2) by (metis function_keeps map_of_SomeD)
  then show ?thesis using assms(1,3) step_keeps_functions [of lib ev srv] by simp
qed

lemma served_all_keep:
  "\<forall>name. m_rpc_functions_map srv name = map_of fs name \<Longrightarrow> inv (rpc_world srv) \<Longrightarrow> rpc_steps lib evs srv = (Inr u, srv') \<Longrightarrow>
   inv (rpc_world srv')"
proof (induction evs arbitrary: srv)
  case (Cons ev evs)
  obtain srv1 where "rpc_step lib ev srv = (Inr (), srv1)" "rpc_steps lib evs srv1 = (Inr u, srv')"
    using Cons.prems(3) by (auto simp: andThen_def split: prod.splits sum.splits)
  with Cons.IH served_keeps [OF Cons.prems(1,2)] show ?case by blast
qed (simp add: ret_def)

end

section \<open>One empty message stops the server\<close>

lemma rpc_stopped: "\<not> rpc_running srv \<Longrightarrow> rpc_steps lib evs srv = (Inr (), srv)"
  by (induction evs) (simp_all add: rpc_step_def)

text \<open>
  C22: two zero octets from anyone who connects, with no authenticator, stop the server: the
  handler asks the empty message for its first octet, the exception ends the thread, and from
  then on no event of any session is served.
\<close>

theorem rpc_empty_message_stops:
  assumes "rpc_running srv" and "find_session sid srv = Some ses" and "pending ses = Wait_size"
  shows "\<exists>srv'. rpc_steps lib (Completed sid False [0, 0] # evs) srv = (Inr (), srv') \<and> \<not> rpc_running srv' \<and>
           rpc_world srv' = rpc_world srv \<and> rpc_sent srv' = rpc_sent srv"
proof -
  have "\<exists>srv'. rpc_step lib (Completed sid False [0, 0]) srv = (Inr (), srv') \<and> \<not> rpc_running srv' \<and>
          rpc_world srv' = rpc_world srv \<and> rpc_sent srv' = rpc_sent srv"
    using assms
    by (simp add: rpc_step_def rpc_dispatch_def event_possible_def expected_size_def run_handler_def read_handler_size_def Let_def)
  then show ?thesis by (auto simp: andThen_def rpc_stopped)
qed


theorem rpc_empty_message_stops_witness:
  "\<exists>srv'. rpc_steps example_rpc_lib (Completed 1 False [0, 0] # [Accepted False, Completed 2 False [0, 2]]) example_rpc_session = (Inr (), srv')
      \<and> \<not> rpc_running srv' \<and> rpc_world srv' = rpc_world example_rpc_session \<and> rpc_sent srv' = rpc_sent example_rpc_session"
  by (rule rpc_empty_message_stops [OF example_rpc_session_fields(1,2)]) (simp add: c_session_new_def)

end
