(* ===== verification/Datastore.thy ===== *)
theory Datastore
  imports Multisign
begin

text \<open>
  The files of a node: \<^verbatim>\<open>src/src/datastore.cpp\<close>, the question to the user of
  \<^verbatim>\<open>src/src/text_ui.cpp\<close>, and \<^verbatim>\<open>src/src/generate_crypto.cpp\<close>, which creates keys and
  stores them.

  The file system is a parameter: \<open>fs_ops\<close> are the operations of boost and of the C library that
  the code calls, over an abstract file system, and \<open>fs_laws\<close> what their documentation
  promises. A path is its text. The state is the file system, the static \<open>home_dir\<close>, and the
  lines the user will type. \<open>dbg2\<close> tells whether the log prints messages of level 2: their
  arguments are only evaluated then, and one of them can throw.
\<close>

section \<open>The code\<close>

record 'fs fs_ops =
  fs_exists :: "'fs \<Rightarrow> string \<Rightarrow> bool result"
  fs_is_regular :: "'fs \<Rightarrow> string \<Rightarrow> bool result"
  fs_is_directory :: "'fs \<Rightarrow> string \<Rightarrow> bool result"
  fs_is_empty :: "'fs \<Rightarrow> string \<Rightarrow> bool result"
  fs_canonical :: "'fs \<Rightarrow> string \<Rightarrow> string result"
  fs_create_directories :: "string \<Rightarrow> 'fs \<Rightarrow> bool result \<times> 'fs"
  fs_touch :: "string \<Rightarrow> 'fs \<Rightarrow> 'fs"                         \<comment> \<open>open for appending, and close\<close>
  fs_write :: "string \<Rightarrow> bytes \<Rightarrow> 'fs \<Rightarrow> bool \<times> 'fs"        \<comment> \<open>open for writing; when opened, write\<close>
  fs_read :: "'fs \<Rightarrow> string \<Rightarrow> bytes"
  fs_fopen :: "'fs \<Rightarrow> string \<Rightarrow> (nat \<times> bytes) option"      \<comment> \<open>size and what can be read\<close>
  fs_remove :: "string \<Rightarrow> 'fs \<Rightarrow> bool result \<times> 'fs"
  fs_list :: "'fs \<Rightarrow> string \<Rightarrow> string list result"           \<comment> \<open>canonical paths below a directory\<close>
  path_filename :: "string \<Rightarrow> string"
  path_parent :: "string \<Rightarrow> string"
  env_HOME :: "string option"

record 'fs datastore =
  ds_files :: 'fs
  home_dir :: string
  user_lines :: "string list"

definition on_files :: "('fs \<Rightarrow> 'a result \<times> 'fs) \<Rightarrow> ('fs datastore, 'a) action" where
  "on_files f s = (case f (ds_files s) of (r, fs) \<Rightarrow> (r, s\<lparr>ds_files := fs\<rparr>))"

definition ask_user_forpermission :: "('fs datastore, bool) action" where
  "ask_user_forpermission s =
     (let answer = (case user_lines s of [] \<Rightarrow> '''' | l # _ \<Rightarrow> l)
      in (Inr (answer = ''Y'' \<or> answer = ''YES'' \<or> answer = ''Yes'' \<or> answer = ''y'' \<or> answer = ''yes''),
          s\<lparr>user_lines := tl (user_lines s)\<rparr>))"

definition set_home :: "string \<Rightarrow> 'fs datastore \<Rightarrow> 'fs datastore" where
  "set_home home s = s\<lparr>home_dir := home\<rparr>"

definition get_parent_path :: "'fs fs_ops \<Rightarrow> 'fs datastore \<Rightarrow> t_datastore \<Rightarrow> string \<Rightarrow> string result" where
  "get_parent_path ops s file_type filename =
     bindR (if length (home_dir s) = 0 then (case env_HOME ops of None \<Rightarrow> Inl Runtime_error | Some h \<Rightarrow> Inr h)
            else Inr (home_dir s)) (\<lambda>user_home.
       Inr (case file_type of
              e_datastore_galaxy_wallet_PRV \<Rightarrow> user_home @ ''/.config/antinet/galaxy42/wallet/''
            | e_datastore_galaxy_pub \<Rightarrow> user_home @ ''/.config/antinet/galaxy42/public/''
            | e_datastore_galaxy_sig \<Rightarrow> user_home @ ''/.config/antinet/galaxy42/public/''
            | e_datastore_galaxy_instalation_key_conf \<Rightarrow> user_home @ ''/.config/antinet/galaxy42/config/''
            | e_datastore_local_path \<Rightarrow> path_parent ops filename))"

definition get_full_path :: "'fs fs_ops \<Rightarrow> 'fs datastore \<Rightarrow> t_datastore \<Rightarrow> string \<Rightarrow> string result" where
  "get_full_path ops s file_type filename =
     bindR (get_parent_path ops s file_type filename) (\<lambda>parent.
       Inr (parent @ filename @
            (case file_type of
               e_datastore_galaxy_wallet_PRV \<Rightarrow> ''.PRV''
             | e_datastore_galaxy_pub \<Rightarrow> ''.pub''
             | e_datastore_galaxy_sig \<Rightarrow> ''.sig''
             | e_datastore_galaxy_instalation_key_conf \<Rightarrow> ''.conf''
             | e_datastore_local_path \<Rightarrow> '''')))"

definition is_file_ok :: "'fs fs_ops \<Rightarrow> 'fs datastore \<Rightarrow> string \<Rightarrow> bool result" where
  "is_file_ok ops s path =
     (let r = bindR (fs_exists ops (ds_files s) path) (\<lambda>ex.
                if ex then
                  bindR (fs_is_regular ops (ds_files s) path) (\<lambda>regular.
                    if regular then Inr True
                    else bindR (fs_is_directory ops (ds_files s) path) (\<lambda>_. Inr False))
                else Inl Expected_not_found)
      in if r = Inl Filesystem_error then Inr False else r)"

definition create_parent_dir :: "'fs fs_ops \<Rightarrow> string \<Rightarrow> ('fs datastore, bool) action" where
  "create_parent_dir ops file_path s =
     (let parent = path_parent ops file_path
      in if parent = '''' then (Inr True, s)
         else case fs_exists ops (ds_files s) parent of
                Inl e \<Rightarrow> (Inl e, s)
              | Inr True \<Rightarrow> (Inr False, s)
              | Inr False \<Rightarrow>
                  andThen (on_files (fs_create_directories ops parent))
                    (\<lambda>success. if \<not> success then raise Invalid_argument else ret True) s)"

definition create_path_for :: "'fs fs_ops \<Rightarrow> t_datastore \<Rightarrow> string \<Rightarrow> ('fs datastore, string) action" where
  "create_path_for ops file_type filename s =
     (case get_full_path ops s file_type filename of
        Inl e \<Rightarrow> (Inl e, s)
      | Inr full_path \<Rightarrow> andThen (create_parent_dir ops full_path) (\<lambda>_. ret full_path) s)"

definition prepare_path_for_write :: "'fs fs_ops \<Rightarrow> t_datastore \<Rightarrow> string \<Rightarrow> bool \<Rightarrow> ('fs datastore, string) action" where
  "prepare_path_for_write ops file_type input_name overwrite =
     andThen (create_path_for ops file_type (path_filename ops input_name)) (\<lambda>file_with_path s.
       let s' = s\<lparr>ds_files := fs_touch ops file_with_path (ds_files s)\<rparr>
       in (bindR (is_file_ok ops s' file_with_path) (\<lambda>ok.
           if \<not> ok then Inl Invalid_argument
           else bindR (is_file_ok ops s' file_with_path) (\<lambda>ok2.
             if \<not> ok2 then Inr file_with_path
             else bindR (fs_is_empty ops (ds_files s') file_with_path) (\<lambda>empty.
               if \<not> empty \<and> \<not> overwrite then Inl Overwrite_error else Inr file_with_path))), s'))"

definition write_file :: "'fs fs_ops \<Rightarrow> string \<Rightarrow> bytes \<Rightarrow> ('fs datastore, bool) action" where
  "write_file ops path data = on_files (\<lambda>fs. case fs_write ops path data fs of (opened, fs') \<Rightarrow> (Inr opened, fs'))"

definition save_body :: "'fs fs_ops \<Rightarrow> bool \<Rightarrow> t_datastore \<Rightarrow> string \<Rightarrow> bytes \<Rightarrow> bool \<Rightarrow> ('fs datastore, unit) action" where
  \<comment> \<open>the body of the \<open>try\<close> of \<open>save_string\<close>\<close>
  "save_body ops dbg2 file_type filename data overwrite =
     andThen (prepare_path_for_write ops file_type filename overwrite) (\<lambda>file_with_path.
     andThen (write_file ops file_with_path data) (\<lambda>opened s.
       if \<not> opened then (Inl Invalid_argument, s)
       else if dbg2 then (bindR (fs_canonical ops (ds_files s) file_with_path) (\<lambda>_. Inr ()), s)
       else (Inr (), s)))"

definition save_body_mlocked :: "'fs fs_ops \<Rightarrow> bool \<Rightarrow> t_datastore \<Rightarrow> string \<Rightarrow> bytes \<Rightarrow> bool \<Rightarrow> ('fs datastore, unit) action" where
  \<comment> \<open>the body of the \<open>try\<close> of \<open>save_string_mlocked\<close>; the result of \<open>fopen\<close> is not tested\<close>
  "save_body_mlocked ops dbg2 file_type filename data overwrite =
     andThen (prepare_path_for_write ops file_type filename overwrite) (\<lambda>file_with_path.
     andThen (write_file ops file_with_path []) (\<lambda>_ s.
       case fs_canonical ops (ds_files s) file_with_path of
         Inl e \<Rightarrow> (Inl e, s)
       | Inr canonical \<Rightarrow>
           andThen (write_file ops canonical data) (\<lambda>opened s.
             if \<not> opened then (Inl Undefined_behaviour, s)
             else if dbg2 then (bindR (fs_canonical ops (ds_files s) file_with_path) (\<lambda>_. Inr ()), s)
             else (Inr (), s)) s))"

text \<open>Only the question to the user reads a line, which bounds the recursion of the save operations.\<close>

abbreviation keeps_lines :: "('fs datastore, 'a) action \<Rightarrow> bool" where
  "keeps_lines \<equiv> keeps (\<lambda>s t. user_lines t = user_lines s \<and> home_dir t = home_dir s)"

lemma lines_transp: "transp (\<lambda>s t. user_lines t = user_lines s \<and> home_dir t = home_dir s)"
  by (rule transpI) simp

lemma keeps_lines_on_files: "keeps_lines (on_files f)"
  by (rule keepsI) (simp add: on_files_def split: prod.split)

lemma keeps_lines_create_parent_dir: "keeps_lines (create_parent_dir ops p)"
proof (rule keepsI)
  fix s :: "'a datastore"
  have "keeps_lines (andThen (on_files (fs_create_directories ops (path_parent ops p)))
          (\<lambda>success. if \<not> success then raise Invalid_argument else ret True))"
    by (rule keeps_andThen [OF lines_transp keeps_lines_on_files]) (simp add: keeps_def)
  from keepsD [OF this, of s] show "user_lines (snd (create_parent_dir ops p s)) = user_lines s \<and> home_dir (snd (create_parent_dir ops p s)) = home_dir s"
    by (auto simp: create_parent_dir_def Let_def split: sum.split bool.split)
qed

lemma keeps_lines_prepare: "keeps_lines (prepare_path_for_write ops ft fn ov)"
proof -
  have "keeps_lines (create_path_for ops ft n)" for n
  proof (rule keepsI)
    fix s :: "'a datastore"
    have "keeps_lines (andThen (create_parent_dir ops p) (\<lambda>_. ret p))" for p
      by (rule keeps_andThen [OF lines_transp keeps_lines_create_parent_dir]) (simp add: keeps_def)
    from keepsD [OF this] show "user_lines (snd (create_path_for ops ft n s)) = user_lines s \<and> home_dir (snd (create_path_for ops ft n s)) = home_dir s"
      by (auto simp: create_path_for_def split: sum.split)
  qed
  then show ?thesis
    unfolding prepare_path_for_write_def
    by (rule keeps_andThen [OF lines_transp]) (simp add: keeps_def Let_def)
qed

lemma keeps_lines_save_body: "keeps_lines (save_body ops dbg2 ft fn d ov)"
  unfolding save_body_def write_file_def
  by (intro keeps_andThen [OF lines_transp] keeps_lines_prepare keeps_lines_on_files) (simp add: keeps_def)

lemma keeps_lines_save_body_mlocked: "keeps_lines (save_body_mlocked ops dbg2 ft fn d ov)"
proof -
  have "keeps_lines (andThen (write_file ops c d) (\<lambda>opened s. if \<not> opened then (Inl Undefined_behaviour, s)
          else if dbg2 then (bindR (fs_canonical ops (ds_files s) p) (\<lambda>_. Inr ()), s) else (Inr (), s)))" for c p
    unfolding write_file_def by (intro keeps_andThen [OF lines_transp] keeps_lines_on_files) (simp add: keeps_def)
  note rest = keepsD [OF this]
  have "keeps_lines (\<lambda>s. case fs_canonical ops (ds_files s) p of Inl e \<Rightarrow> (Inl e, s)
       | Inr canonical \<Rightarrow> andThen (write_file ops canonical d) (\<lambda>opened s. if \<not> opened then (Inl Undefined_behaviour, s)
          else if dbg2 then (bindR (fs_canonical ops (ds_files s) p) (\<lambda>_. Inr ()), s) else (Inr (), s)) s)" for p
    by (rule keepsI) (auto simp: rest split: sum.split)
  then show ?thesis
    unfolding save_body_mlocked_def write_file_def
    by (intro keeps_andThen [OF lines_transp] keeps_lines_prepare keeps_lines_on_files)
qed

definition catch_save :: "cpp_error \<Rightarrow> cpp_error" where
  \<comment> \<open>\<open>catch(...)\<close> of the save operations\<close>
  "catch_save e = (if e = Abort \<or> e = Undefined_behaviour then e else Runtime_error)"

function save_string :: "'fs fs_ops \<Rightarrow> bool \<Rightarrow> t_datastore \<Rightarrow> string \<Rightarrow> bytes \<Rightarrow> bool \<Rightarrow> 'fs datastore \<Rightarrow> unit result \<times> 'fs datastore" where
  "save_string ops dbg2 file_type filename data overwrite s =
     (if filename = '''' then (Inl Invalid_argument, s)
      else case save_body ops dbg2 file_type filename data overwrite s of
             (Inr _, s') \<Rightarrow> (Inr (), s')
           | (Inl e, s') \<Rightarrow>
               if e = Overwrite_error then
                 (case ask_user_forpermission s' of
                    (Inr True, s'') \<Rightarrow> save_string ops dbg2 file_type filename data True s''
                  | (_, s'') \<Rightarrow> (Inr (), s''))
               else (Inl (catch_save e), s'))"
  by pat_completeness auto

termination
proof (relation "measure (\<lambda>(ops, dbg2, ft, fn, d, ov, s). length (user_lines s))", goal_cases)
  case (2 ops dbg2 ft fn d ov s r s' e r' s'' b)
  have "user_lines s' = user_lines s" using keepsD [OF keeps_lines_save_body, of ops dbg2 ft fn d ov s] 2 by (metis snd_conv)
  moreover have "user_lines s' \<noteq> []" "user_lines s'' = tl (user_lines s')"
    using 2 by (auto simp: ask_user_forpermission_def Let_def)
  ultimately show ?case by simp
qed simp

function save_string_mlocked ::
    "'fs fs_ops \<Rightarrow> bool \<Rightarrow> t_datastore \<Rightarrow> string \<Rightarrow> bytes \<Rightarrow> bool \<Rightarrow> 'fs datastore \<Rightarrow> unit result \<times> 'fs datastore" where
  "save_string_mlocked ops dbg2 file_type filename locked_data overwrite s =
     (if filename = '''' then (Inl Invalid_argument, s)
      else case save_body_mlocked ops dbg2 file_type filename locked_data overwrite s of
             (Inr _, s') \<Rightarrow> (Inr (), s')
           | (Inl e, s') \<Rightarrow>
               if e = Overwrite_error then
                 (case ask_user_forpermission s' of
                    (Inr True, s'') \<Rightarrow> save_string_mlocked ops dbg2 file_type filename locked_data True s''
                  | (_, s'') \<Rightarrow> (Inr (), s''))
               else (Inl (catch_save e), s'))"
  by pat_completeness auto

termination
proof (relation "measure (\<lambda>(ops, dbg2, ft, fn, d, ov, s). length (user_lines s))", goal_cases)
  case (2 ops dbg2 ft fn d ov s r s' e r' s'' b)
  have "user_lines s' = user_lines s" using keepsD [OF keeps_lines_save_body_mlocked, of ops dbg2 ft fn d ov s] 2 by (metis snd_conv)
  moreover have "user_lines s' \<noteq> []" "user_lines s'' = tl (user_lines s')"
    using 2 by (auto simp: ask_user_forpermission_def Let_def)
  ultimately show ?case by simp
qed simp

definition load_string :: "'fs fs_ops \<Rightarrow> bool \<Rightarrow> 'fs datastore \<Rightarrow> t_datastore \<Rightarrow> string \<Rightarrow> bytes result" where
  "load_string ops dbg2 s file_type filename =
     (let r = bindR (get_full_path ops s file_type filename) (\<lambda>file_with_path.
              bindR (if dbg2 then bindR (fs_canonical ops (ds_files s) file_with_path) (\<lambda>_. Inr ()) else Inr ()) (\<lambda>_.
              bindR (is_file_ok ops s file_with_path) (\<lambda>ok.
                if \<not> ok then Inl Invalid_argument
                else bindR (fs_canonical ops (ds_files s) file_with_path) (\<lambda>_.
                       Inr (fs_read ops (ds_files s) file_with_path)))))
      in if r = Inl Filesystem_error then Inl Invalid_argument else r)"

definition load_string_mlocked :: "'fs fs_ops \<Rightarrow> bool \<Rightarrow> 'fs datastore \<Rightarrow> t_datastore \<Rightarrow> string \<Rightarrow> bytes result" where
  "load_string_mlocked ops dbg2 s file_type filename =
     (let r = bindR (get_full_path ops s file_type filename) (\<lambda>file_with_path.
              bindR (is_file_ok ops s file_with_path) (\<lambda>ok.
                if \<not> ok then Inl Invalid_argument
                else bindR (fs_canonical ops (ds_files s) file_with_path) (\<lambda>canonical.
                  case fs_fopen ops (ds_files s) canonical of
                    None \<Rightarrow> Inl Invalid_argument
                  | Some (content_size, content) \<Rightarrow>
                      if length content \<noteq> content_size then Inl Invalid_argument else Inr content)))
      in if r = Inl Filesystem_error then Inl Invalid_argument else r)"

definition remove_file :: "'fs fs_ops \<Rightarrow> t_datastore \<Rightarrow> string \<Rightarrow> ('fs datastore, bool) action" where
  "remove_file ops file_type p s =
     (case get_full_path ops s file_type p of
        Inl e \<Rightarrow> (Inl e, s)
      | Inr path_to_remove \<Rightarrow> on_files (fs_remove ops path_to_remove) s)"

definition get_file_list :: "'fs fs_ops \<Rightarrow> 'fs datastore \<Rightarrow> string \<Rightarrow> string list result" where
  "get_file_list ops s path =
     (if path = '''' then Inr []
      else bindR (fs_list ops (ds_files s) path) (\<lambda>entries. Inr (map (path_filename ops) entries)))"


section \<open>What is saved can be loaded\<close>

definition fs_throws :: "'fs fs_ops \<Rightarrow> bool" where
  \<comment> \<open>the operations throw \<open>filesystem_error\<close> only\<close>
  "fs_throws ops \<longleftrightarrow> (\<forall>fs p e.
     (fs_exists ops fs p = Inl e \<longrightarrow> e = Filesystem_error) \<and> (fs_is_regular ops fs p = Inl e \<longrightarrow> e = Filesystem_error) \<and>
     (fs_is_directory ops fs p = Inl e \<longrightarrow> e = Filesystem_error) \<and> (fs_is_empty ops fs p = Inl e \<longrightarrow> e = Filesystem_error) \<and>
     (fs_canonical ops fs p = Inl e \<longrightarrow> e = Filesystem_error) \<and>
     (fst (fs_create_directories ops p fs) = Inl e \<longrightarrow> e = Filesystem_error))"

definition fs_laws :: "'fs fs_ops \<Rightarrow> bool" where
  \<comment> \<open>a file that was written, under its name or its canonical name, is there with its contents\<close>
  "fs_laws ops \<longleftrightarrow> fs_throws ops \<and>
     (\<forall>p q d fs fs'. fs_write ops q d fs = (True, fs') \<longrightarrow> q = p \<or> fs_canonical ops fs p = Inr q \<longrightarrow>
        fs_exists ops fs' p = Inr True \<and> fs_is_regular ops fs' p = Inr True \<and> fs_read ops fs' p = d \<and>
        (\<exists>c. fs_canonical ops fs' p = Inr c \<and> fs_fopen ops fs' c = Some (length d, d)))"

declare save_string.simps [simp del] save_string_mlocked.simps [simp del]

lemma get_full_path_home: "home_dir t = home_dir s \<Longrightarrow> get_full_path ops t ft fn = get_full_path ops s ft fn"
  by (simp add: get_full_path_def get_parent_path_def)

lemma create_path_for_Inr:
  "create_path_for ops ft n s = (Inr p, s') \<Longrightarrow> get_full_path ops s ft n = Inr p"
  by (auto simp: create_path_for_def andThen_def split: sum.splits prod.splits)

lemma prepare_path_Inr:
  assumes "prepare_path_for_write ops ft fn ov s = (Inr p, s')"
  shows "get_full_path ops s ft (path_filename ops fn) = Inr p"
proof -
  obtain s1 where "create_path_for ops ft (path_filename ops fn) s = (Inr p, s1)"
    using assms unfolding prepare_path_for_write_def
    by (auto dest!: andThen_eq_InrD simp: Let_def bindR_eq_Inr_conv split: if_splits)
  then show ?thesis by (rule create_path_for_Inr)
qed

lemma create_path_error:
  assumes "fs_throws ops" and "create_path_for ops ft n s = (Inl e, s')"
  shows "e \<noteq> Overwrite_error"
proof -
  have "e \<noteq> Overwrite_error" if "create_parent_dir ops p s = (Inl e, s')" for p
    using that assms(1)
    by (auto simp: create_parent_dir_def Let_def andThen_def on_files_def fs_throws_def split: sum.splits bool.splits prod.splits if_splits)
       (metis cpp_error.distinct fst_conv)+
  moreover have "get_full_path ops s ft n \<noteq> Inl Overwrite_error"
    by (auto simp: get_full_path_def get_parent_path_def bindR_def split: option.split)
  ultimately show ?thesis
    using assms(2) by (auto simp: create_path_for_def andThen_def split: sum.splits prod.splits)
qed

lemma is_file_ok_error: "fs_throws ops \<Longrightarrow> is_file_ok ops s p \<noteq> Inl Overwrite_error"
  unfolding is_file_ok_def fs_throws_def Let_def
  by (auto simp: bindR_def split: sum.splits)

lemma prepare_overwrite_error:
  assumes "fs_throws ops" and "prepare_path_for_write ops ft fn True s = (Inl e, s')"
  shows "e \<noteq> Overwrite_error"
proof -
  have "fs_is_empty ops fs p \<noteq> Inl Overwrite_error" for fs p
    using assms(1) by (auto simp: fs_throws_def)
  then show ?thesis
    using assms create_path_error [OF assms(1)] is_file_ok_error [OF assms(1)]
    unfolding prepare_path_for_write_def
    by (auto simp: andThen_def Let_def bindR_eq_Inl_conv split: prod.splits sum.splits if_splits)
qed

lemma save_body_overwrite_error:
  assumes "fs_throws ops"
  shows "save_body ops dbg2 ft fn d True s = (Inl e, s') \<Longrightarrow> e \<noteq> Overwrite_error"
    and "save_body_mlocked ops dbg2 ft fn d True s = (Inl e, s') \<Longrightarrow> e \<noteq> Overwrite_error"
proof -
  have c: "fs_canonical ops fs p \<noteq> Inl Overwrite_error" for fs p
    using assms by (auto simp: fs_throws_def)
  show "save_body ops dbg2 ft fn d True s = (Inl e, s') \<Longrightarrow> e \<noteq> Overwrite_error"
    using c prepare_overwrite_error [OF assms]
    by (auto simp: save_body_def andThen_def write_file_def on_files_def bindR_eq_Inl_conv split: prod.splits sum.splits if_splits)
  show "save_body_mlocked ops dbg2 ft fn d True s = (Inl e, s') \<Longrightarrow> e \<noteq> Overwrite_error"
    using c prepare_overwrite_error [OF assms]
    by (auto simp: save_body_mlocked_def andThen_def write_file_def on_files_def bindR_eq_Inl_conv split: prod.splits sum.splits if_splits)
qed

definition holds :: "'fs fs_ops \<Rightarrow> 'fs \<Rightarrow> string \<Rightarrow> bytes \<Rightarrow> bool" where
  \<comment> \<open>the file of that path has these contents, however it is read\<close>
  "holds ops fs p d \<longleftrightarrow> fs_exists ops fs p = Inr True \<and> fs_is_regular ops fs p = Inr True \<and> fs_read ops fs p = d \<and>
     (\<exists>c. fs_canonical ops fs p = Inr c \<and> fs_fopen ops fs c = Some (length d, d))"

lemma holds_written: "fs_laws ops \<Longrightarrow> fs_write ops q d fs = (True, fs') \<Longrightarrow> q = p \<or> fs_canonical ops fs p = Inr q \<Longrightarrow> holds ops fs' p d"
  unfolding fs_laws_def holds_def by blast

lemma save_body_holds:
  assumes "fs_laws ops"
  shows "save_body ops dbg2 ft fn d ov s = (Inr (), s') \<Longrightarrow>
           \<exists>p. get_full_path ops s ft (path_filename ops fn) = Inr p \<and> holds ops (ds_files s') p d"
    and "save_body_mlocked ops dbg2 ft fn d ov s = (Inr (), s') \<Longrightarrow>
           \<exists>p. get_full_path ops s ft (path_filename ops fn) = Inr p \<and> holds ops (ds_files s') p d"
proof -
  assume "save_body ops dbg2 ft fn d ov s = (Inr (), s')"
  then obtain p s1 where "prepare_path_for_write ops ft fn ov s = (Inr p, s1)" "fs_write ops p d (ds_files s1) = (True, ds_files s')"
    unfolding save_body_def write_file_def
    by (auto dest!: andThen_eq_InrD simp: on_files_def split: if_splits prod.splits)
  then show "\<exists>p. get_full_path ops s ft (path_filename ops fn) = Inr p \<and> holds ops (ds_files s') p d"
    using prepare_path_Inr holds_written [OF assms] by blast
next
  assume "save_body_mlocked ops dbg2 ft fn d ov s = (Inr (), s')"
  then obtain p s1 fs2 c where "prepare_path_for_write ops ft fn ov s = (Inr p, s1)" "fs_canonical ops fs2 p = Inr c"
      "fs_write ops c d fs2 = (True, ds_files s')"
    unfolding save_body_mlocked_def write_file_def
    by (auto dest!: andThen_eq_InrD simp: on_files_def split: if_splits prod.splits sum.splits)
  then show "\<exists>p. get_full_path ops s ft (path_filename ops fn) = Inr p \<and> holds ops (ds_files s') p d"
    using prepare_path_Inr holds_written [OF assms] by blast
qed

lemma load_holds:
  assumes "get_full_path ops s ft fn = Inr p" and "holds ops (ds_files s) p d"
  shows "load_string ops dbg2 s ft fn = Inr d" and "load_string_mlocked ops dbg2 s ft fn = Inr d"
  using assms by (auto simp: load_string_def load_string_mlocked_def holds_def is_file_ok_def Let_def)

lemma save_holds:
  assumes "fs_laws ops"
  shows "save_string ops dbg2 ft fn d True s = (Inr (), s') \<Longrightarrow>
           home_dir s' = home_dir s \<and> (\<exists>p. get_full_path ops s ft (path_filename ops fn) = Inr p \<and> holds ops (ds_files s') p d)"
    and "save_string_mlocked ops dbg2 ft fn d True s = (Inr (), s') \<Longrightarrow>
           home_dir s' = home_dir s \<and> (\<exists>p. get_full_path ops s ft (path_filename ops fn) = Inr p \<and> holds ops (ds_files s') p d)"
proof -
  have throws: "fs_throws ops" using assms by (simp add: fs_laws_def)
  {
    assume "save_string ops dbg2 ft fn d True s = (Inr (), s')"
    then have "save_body ops dbg2 ft fn d True s = (Inr (), s')"
      using save_body_overwrite_error(1) [OF throws, of dbg2 ft fn d s]
      by (subst (asm) save_string.simps) (auto split: if_splits prod.splits sum.splits)
    then show "home_dir s' = home_dir s \<and> (\<exists>p. get_full_path ops s ft (path_filename ops fn) = Inr p \<and> holds ops (ds_files s') p d)"
      using save_body_holds(1) [OF assms] keepsD [OF keeps_lines_save_body, of ops dbg2 ft fn d True s] by auto
  }
  {
    assume "save_string_mlocked ops dbg2 ft fn d True s = (Inr (), s')"
    then have "save_body_mlocked ops dbg2 ft fn d True s = (Inr (), s')"
      using save_body_overwrite_error(2) [OF throws, of dbg2 ft fn d s]
      by (subst (asm) save_string_mlocked.simps) (auto split: if_splits prod.splits sum.splits)
    then show "home_dir s' = home_dir s \<and> (\<exists>p. get_full_path ops s ft (path_filename ops fn) = Inr p \<and> holds ops (ds_files s') p d)"
      using save_body_holds(2) [OF assms] keepsD [OF keeps_lines_save_body_mlocked, of ops dbg2 ft fn d True s] by auto
  }
qed


section \<open>A file system for the examples\<close>

definition example_fs :: "(string \<Rightarrow> bytes option) fs_ops" where
  \<comment> \<open>files in a map from paths, directories everywhere\<close>
  "example_fs =
     \<lparr>fs_exists = (\<lambda>fs p. Inr (fs p \<noteq> None)), fs_is_regular = (\<lambda>fs p. Inr (fs p \<noteq> None)),
      fs_is_directory = (\<lambda>fs p. Inr False), fs_is_empty = (\<lambda>fs p. Inr (fs p = Some [])),
      fs_canonical = (\<lambda>fs p. if fs p = None then Inl Filesystem_error else Inr p),
      fs_create_directories = (\<lambda>p fs. (Inr True, fs)),
      fs_touch = (\<lambda>p fs. if fs p = None then fs(p \<mapsto> []) else fs),
      fs_write = (\<lambda>p d fs. (True, fs(p \<mapsto> d))), fs_read = (\<lambda>fs p. case fs p of None \<Rightarrow> [] | Some d \<Rightarrow> d),
      fs_fopen = (\<lambda>fs p. map_option (\<lambda>d. (length d, d)) (fs p)),
      fs_remove = (\<lambda>p fs. (Inr (fs p \<noteq> None), fs(p := None))), fs_list = (\<lambda>fs p. Inr []),
      path_filename = (\<lambda>p. rev (takeWhile (\<lambda>c. c \<noteq> CHR ''/'') (rev p))),
      path_parent = (\<lambda>p. rev (tl (dropWhile (\<lambda>c. c \<noteq> CHR ''/'') (rev p)))), env_HOME = Some ''/root''\<rparr>"

definition example_store :: "(string \<Rightarrow> bytes option) datastore" where
  "example_store = \<lparr>ds_files = (\<lambda>_. None), home_dir = '''', user_lines = []\<rparr>"

lemma example_fs_laws: "fs_laws example_fs"
  by (auto simp: fs_laws_def fs_throws_def example_fs_def split: if_splits)

section \<open>The properties\<close>

text \<open>
  C26: a string that was saved, by either save operation, is what both load operations return
  for the same kind of file and name, at any level of the log, when the name is a plain file
  name.
\<close>

theorem datastore_roundtrip:
  assumes "fs_laws ops" and "path_filename ops fn = fn"
    and "save_string ops dbg2 ft fn d True s = (Inr (), s') \<or> save_string_mlocked ops dbg2 ft fn d True s = (Inr (), s')"
  shows "load_string ops dbg2' s' ft fn = Inr d \<and> load_string_mlocked ops dbg2' s' ft fn = Inr d"
proof -
  obtain p where "home_dir s' = home_dir s" "get_full_path ops s ft fn = Inr p" "holds ops (ds_files s') p d"
    using save_holds [OF assms(1), of dbg2 ft fn d s s'] assms(2,3) by auto
  then show ?thesis using load_holds [of ops s' ft fn p d] by (simp add: get_full_path_home [of s' s])
qed

theorem datastore_roundtrip_witness:
  "load_string_mlocked example_fs True (snd (save_string_mlocked example_fs False e_datastore_galaxy_wallet_PRV ''key'' [1, 2, 3] True example_store))
     e_datastore_galaxy_wallet_PRV ''key'' = Inr [1, 2, 3]"
proof -
  have "fst (save_string_mlocked example_fs False e_datastore_galaxy_wallet_PRV ''key'' [1, 2, 3] True example_store) = Inr ()"
    by (subst save_string_mlocked.simps)
       (simp add: save_body_mlocked_def prepare_path_for_write_def create_path_for_def create_parent_dir_def get_full_path_def
         get_parent_path_def is_file_ok_def write_file_def on_files_def example_fs_def example_store_def andThen_def Let_def)
  then have "save_string_mlocked example_fs False e_datastore_galaxy_wallet_PRV ''key'' [1, 2, 3] True example_store =
      (Inr (), snd (save_string_mlocked example_fs False e_datastore_galaxy_wallet_PRV ''key'' [1, 2, 3] True example_store))"
    by (metis prod.collapse)
  moreover have "path_filename example_fs ''key'' = ''key''" by (simp add: example_fs_def)
  ultimately show ?thesis using datastore_roundtrip [OF example_fs_laws, of "''key''"] by blast
qed

text \<open>
  A file that has contents is not overwritten without the permission of the user: when he
  does not answer yes the operation writes nothing, and it returns as if it had saved.
\<close>

theorem datastore_keeps_without_permission:
  assumes "fn \<noteq> ''''" and "get_full_path ops s ft (path_filename ops fn) = Inr p"
    and "path_parent ops p = '''' \<or> fs_exists ops (ds_files s) (path_parent ops p) = Inr True"
    and "fs_touch ops p (ds_files s) = ds_files s"
    and "fs_exists ops (ds_files s) p = Inr True" "fs_is_regular ops (ds_files s) p = Inr True"
    and "fs_is_empty ops (ds_files s) p = Inr False"
    and "user_lines s = [] \<or> hd (user_lines s) \<notin> {''Y'', ''YES'', ''Yes'', ''y'', ''yes''}"
  shows "save_string ops dbg2 ft fn d False s = (Inr (), s\<lparr>user_lines := tl (user_lines s)\<rparr>) \<and>
         save_string_mlocked ops dbg2 ft fn d False s = (Inr (), s\<lparr>user_lines := tl (user_lines s)\<rparr>)"
proof -
  have "create_path_for ops ft (path_filename ops fn) s = (Inr p, s)"
    using assms(2,3)
    by (cases "path_parent ops p = ''''") (simp_all add: create_path_for_def create_parent_dir_def Let_def andThen_def)
  then have prep: "prepare_path_for_write ops ft fn False s = (Inl Overwrite_error, s)"
    using assms(4-7) by (simp add: prepare_path_for_write_def is_file_ok_def Let_def)
  have ask: "ask_user_forpermission s = (Inr False, s\<lparr>user_lines := tl (user_lines s)\<rparr>)"
    using assms(8) by (cases "user_lines s") (auto simp: ask_user_forpermission_def)
  show ?thesis
    using assms(1) prep ask
    by (subst save_string.simps, subst save_string_mlocked.simps) (simp add: save_body_def save_body_mlocked_def)
qed

theorem datastore_keeps_without_permission_witness:
  "let s = example_store\<lparr>ds_files := [''/root/.config/antinet/galaxy42/public/key.pub'' \<mapsto> [7], ''/root/.config/antinet/galaxy42/public'' \<mapsto> []],
                         user_lines := [''no'']\<rparr>
   in save_string example_fs False e_datastore_galaxy_pub ''key'' [1, 2] False s = (Inr (), s\<lparr>user_lines := []\<rparr>)"
  unfolding Let_def
  by (subst datastore_keeps_without_permission [where p = "''/root/.config/antinet/galaxy42/public/key.pub''", THEN conjunct1])
     (simp_all add: example_fs_def example_store_def get_full_path_def get_parent_path_def)

text \<open>
  A path given for the kind \<open>e_datastore_local_path\<close> loses its directory when it is saved:
  a key file for another directory is written to the current one.
\<close>

theorem local_path_loses_directory:
  assumes "fn \<noteq> ''''" and "path_filename ops fn \<noteq> ''''"
    and "path_filename ops (path_filename ops fn) = path_filename ops fn"
    and "path_parent ops (path_filename ops fn) = ''''" and "env_HOME ops \<noteq> None"
  shows "save_string ops dbg2 e_datastore_local_path fn d ov s = save_string ops dbg2 e_datastore_local_path (path_filename ops fn) d ov s \<and>
         get_full_path ops s e_datastore_local_path (path_filename ops fn) = Inr (path_filename ops fn)"
proof -
  have body: "save_body ops dbg2 e_datastore_local_path fn d ov s = save_body ops dbg2 e_datastore_local_path (path_filename ops fn) d ov s" for ov s
    by (simp add: save_body_def prepare_path_for_write_def assms(3))
  have "save_string ops dbg2 e_datastore_local_path fn d ov s = save_string ops dbg2 e_datastore_local_path (path_filename ops fn) d ov s"
  proof (induction "length (user_lines s)" arbitrary: ov s rule: less_induct)
    case less
    obtain r s' where run: "save_body ops dbg2 e_datastore_local_path fn d ov s = (r, s')" by force
    obtain y s'' where ask: "ask_user_forpermission s' = (Inr y, s'')" by (simp add: ask_user_forpermission_def Let_def)
    have "user_lines s' = user_lines s"
      using keepsD [OF keeps_lines_save_body, of ops dbg2 e_datastore_local_path fn d ov s] run by simp
    then have "y \<Longrightarrow> length (user_lines s'') < length (user_lines s)"
      using ask by (cases "user_lines s") (auto simp: ask_user_forpermission_def Let_def)
    with less [of s'' True] show ?case
      using assms(1,2) run ask body [of ov s]
      by (subst (1 2) save_string.simps) (auto split: sum.split bool.split)
  qed
  with assms(4,5) show ?thesis
    by (auto simp: get_full_path_def get_parent_path_def)
qed

theorem local_path_loses_directory_witness:
  "save_string example_fs False e_datastore_local_path ''backup/key.pub'' [1] True example_store =
   save_string example_fs False e_datastore_local_path ''key.pub'' [1] True example_store"
  using local_path_loses_directory [of "''backup/key.pub''" example_fs False "[1]" True example_store]
  by (simp add: example_fs_def)

end
