(* ===== verification/Key_Tools.thy ===== *)
theory Key_Tools
  imports Datastore Peer_Reference
begin

text \<open>
  The actions of the program on keys: \<^verbatim>\<open>src/src/generate_crypto.cpp\<close> and the
  \<open>program_action_\<close> methods of \<open>c_tunserver\<close> in \<^verbatim>\<open>src/src/tunserver.cpp\<close>, which
  \<open>c_galaxysrv\<close> repeats word for word. They generate a pair of key collections, store it in
  files, and choose the identity of the node. The state is the data store and the source of
  randomness of key generation.
\<close>

section \<open>Creating keys\<close>

definition create_keys ::
    "('bx, 'ux) crypto_lib \<Rightarrow> 'fs fs_ops \<Rightarrow> bool \<Rightarrow> string \<Rightarrow> (t_crypto_system_type \<times> int) list \<Rightarrow> bool \<Rightarrow>
     ('fs datastore \<times> nat, unit) action" where
  "create_keys lib ops dbg2 filename keys default_location = (\<lambda>(ds, n).
     case forA (\<lambda>(sys, how_many). generate_system lib sys how_many) keys (c_multikeys_PAIR_init, n) of
       (Inl e, (_, n')) \<Rightarrow> (Inl e, (ds, n'))
     | (Inr _, (keypair, n')) \<Rightarrow>
         (case (if \<not> default_location then
                  andThen (liftR (serialize_bin push_varstring (m_pub keypair))) (\<lambda>pub_data.
                  andThen (save_string ops dbg2 e_datastore_local_path (filename @ ''.pub'') pub_data True) (\<lambda>_.
                  andThen (liftR (serialize_bin obj_serialize_locked_string (m_PRV keypair))) (\<lambda>data_PRV.
                    save_string_mlocked ops dbg2 e_datastore_local_path (filename @ ''.PRV'') data_PRV True))) ds
                else datastore_save_PRV_and_pub
                       (\<lambda>kind. if kind = e_datastore_galaxy_wallet_PRV then save_string_mlocked ops dbg2 kind
                               else save_string ops dbg2 kind) filename keypair ds) of
            (r, ds') \<Rightarrow> (r, (ds', n'))))"

datatype e_crypto_strength = lowest | fast | normal | high | highest

definition crypto_sign_systems :: "e_crypto_strength \<Rightarrow> t_crypto_system_type list" where
  \<comment> \<open>the cases of the \<open>switch\<close> fall through\<close>
  "crypto_sign_systems strength =
     (if strength = highest then [e_crypto_system_type_Ed25519, e_crypto_system_type_SIDH, e_crypto_system_type_NTRU_sign] else []) @
     (if strength \<in> {highest, high} then [e_crypto_system_type_SIDH] else []) @
     (if strength \<in> {highest, high, normal, fast} then [e_crypto_system_type_NTRU_sign] else []) @
     [e_crypto_system_type_Ed25519]"

definition crypto_exchange_systems :: "e_crypto_strength \<Rightarrow> t_crypto_system_type list" where
  "crypto_exchange_systems strength =
     (if strength = highest then [e_crypto_system_type_X25519, e_crypto_system_type_SIDH, e_crypto_system_type_NTRU_EES439EP1] else []) @
     (if strength \<in> {highest, high} then [e_crypto_system_type_SIDH] else []) @
     (if strength \<in> {highest, high, normal, fast} then [e_crypto_system_type_NTRU_EES439EP1] else []) @
     [e_crypto_system_type_X25519]"

definition crypto_sign ::
    "('bx, 'ux) crypto_lib \<Rightarrow> 'fs fs_ops \<Rightarrow> bool \<Rightarrow> string \<Rightarrow> e_crypto_strength \<Rightarrow> ('fs datastore \<times> nat, unit) action" where
  "crypto_sign lib ops dbg2 filename strength =
     create_keys lib ops dbg2 filename (map (\<lambda>sys. (sys, 1)) (crypto_sign_systems strength)) True"

definition crypto_exchange ::
    "('bx, 'ux) crypto_lib \<Rightarrow> 'fs fs_ops \<Rightarrow> bool \<Rightarrow> string \<Rightarrow> e_crypto_strength \<Rightarrow> ('fs datastore \<times> nat, unit) action" where
  "crypto_exchange lib ops dbg2 filename strength =
     create_keys lib ops dbg2 filename (map (\<lambda>sys. (sys, 1)) (crypto_exchange_systems strength)) True"

section \<open>Actions chosen on the command line\<close>

definition text_of :: "bytes \<Rightarrow> string" where
  "text_of bs = map (\<lambda>b. char_of (unat b)) bs"

definition next_word :: "bytes \<Rightarrow> bytes \<Rightarrow> bytes \<times> bytes" where
  \<comment> \<open>\<open>iss >> str\<close>: the new value of \<open>str\<close>, which stays as it was at the end of the stream, and the rest\<close>
  "next_word str iss =
     (let rest = dropWhile is_space iss
      in if rest = [] then (str, []) else (takeWhile (\<lambda>c. \<not> is_space c) rest, dropWhile (\<lambda>c. \<not> is_space c) rest))"

definition parse_key_type :: "bytes \<Rightarrow> (t_crypto_system_type \<times> int) result" where
  \<comment> \<open>for example \<open>ed25519:x2\<close>; \<open>str[0]\<close> of an empty string is the terminating zero\<close>
  "parse_key_type argument =
     (let iss = map (\<lambda>c. if c = 0x3A then 0x20 else c) argument;
          (str, iss') = next_word [] iss
      in bindR (t_crypto_system_type_from_string (text_of str)) (\<lambda>sys.
         let (str', _) = next_word str iss'
         in if str' = [] \<or> hd str' \<noteq> 0x78 then Inl Abort
            else bindR (stoi (tl str')) (\<lambda>number_of_keys. Inr (sys, number_of_keys))))"

record key_options =
  opt_key_type :: "bytes list option"
  opt_new_key :: "string option"
  opt_new_key_file :: "string option"

definition program_action_gen_key ::
    "('bx, 'ux) crypto_lib \<Rightarrow> 'fs fs_ops \<Rightarrow> bool \<Rightarrow> key_options \<Rightarrow> ('fs datastore \<times> nat, unit) action" where
  "program_action_gen_key lib ops dbg2 argm =
     (case opt_key_type argm of
        None \<Rightarrow> raise Invalid_argument
      | Some arguments \<Rightarrow>
          andThen (liftR (mapR parse_key_type arguments)) (\<lambda>keys.
            case opt_new_key argm of
              Some output_file \<Rightarrow> create_keys lib ops dbg2 output_file keys True
            | None \<Rightarrow>
                (case opt_new_key_file argm of
                   Some output_file \<Rightarrow> create_keys lib ops dbg2 output_file keys False
                 | None \<Rightarrow> raise Invalid_argument)))"

definition program_action_gen_key_simple ::
    "('bx, 'ux) crypto_lib \<Rightarrow> 'fs fs_ops \<Rightarrow> bool \<Rightarrow> ('fs datastore \<times> nat, string) action" where
  "program_action_gen_key_simple lib ops dbg2 =
     andThen (liftR (t_crypto_system_type_from_string ''ed25519'')) (\<lambda>sys.
     andThen (create_keys lib ops dbg2 ''IDI'' [(sys, 1)] True) (\<lambda>_. ret ''IDI''))"

fun find_text :: "'a list \<Rightarrow> 'a list \<Rightarrow> nat option" where
  \<comment> \<open>\<open>std::string::find\<close>\<close>
  "find_text pat [] = (if pat = [] then Some 0 else None)"
| "find_text pat (c # cs) = (if take (length pat) (c # cs) = pat then Some 0 else map_option Suc (find_text pat cs))"

definition key_name_without_extension :: "string \<Rightarrow> string" where
  "key_name_without_extension key_name =
     (case find_text ''.PRV'' key_name of None \<Rightarrow> key_name | Some pos \<Rightarrow> take pos key_name)"

definition program_action_set_IDI :: "'fs fs_ops \<Rightarrow> bool \<Rightarrow> bytes \<Rightarrow> ('fs datastore, unit) action" where
  \<comment> \<open>when the key is not found an error is logged and the action goes on\<close>
  "program_action_set_IDI ops dbg2 keyname s =
     (case get_parent_path ops s e_datastore_galaxy_wallet_PRV '''' of
        Inl e \<Rightarrow> (Inl e, s)
      | Inr keys_path \<Rightarrow>
          (case get_file_list ops s keys_path of
             Inl e \<Rightarrow> (Inl e, s)
           | Inr keys \<Rightarrow>
               let found = list_ex (\<lambda>key_name. text_of keyname = key_name_without_extension key_name) keys
               in save_string ops dbg2 e_datastore_galaxy_instalation_key_conf ''IDI'' keyname True s))"

section \<open>Properties\<close>

text \<open>
  An argument without a count is read twice, since a failed extraction leaves the word as it
  was: \<open>x25519\<close> asks for 25519 keys, any other system aborts the program.
\<close>

lemma key_type_without_count:
  "parse_key_type (octets_of ''x25519'') = Inr (e_crypto_system_type_X25519, 25519)"
  "parse_key_type (octets_of ''ed25519'') = Inl Abort"
  "parse_key_type (octets_of ''ed25519:x2'') = Inr (e_crypto_system_type_Ed25519, 2)"
  by code_simp+

text \<open>
  The name given for the identity is stored and will be used at the next start, whether or
  not there is a key of that name.
\<close>

theorem set_IDI_unchecked:
  assumes "fs_laws ops" and "path_filename ops ''IDI'' = ''IDI''" and "program_action_set_IDI ops dbg2 keyname s = (Inr (), s')"
  shows "load_string ops dbg2' s' e_datastore_galaxy_instalation_key_conf ''IDI'' = Inr keyname"
proof -
  have "save_string ops dbg2 e_datastore_galaxy_instalation_key_conf ''IDI'' keyname True s = (Inr (), s')"
    using assms(3) by (auto simp: program_action_set_IDI_def split: sum.splits)
  then obtain p where "home_dir s' = home_dir s" "get_full_path ops s e_datastore_galaxy_instalation_key_conf ''IDI'' = Inr p"
      "holds ops (ds_files s') p keyname"
    using save_holds(1) [OF assms(1)] assms(2) by fastforce
  then show ?thesis
    using load_holds(1) [of ops s' e_datastore_galaxy_instalation_key_conf "''IDI''" p keyname]
    by (simp add: get_full_path_home [of s' s])
qed

theorem set_IDI_unchecked_witness:
  "load_string example_fs False (snd (program_action_set_IDI example_fs False [0x41] example_store))
     e_datastore_galaxy_instalation_key_conf ''IDI'' = Inr [0x41]"
proof -
  have "fst (program_action_set_IDI example_fs False [0x41] example_store) = Inr ()"
    unfolding program_action_set_IDI_def
    by (simp add: get_parent_path_def get_file_list_def example_fs_def example_store_def)
       (subst save_string.simps, simp add: save_body_def prepare_path_for_write_def create_path_for_def create_parent_dir_def
         get_full_path_def get_parent_path_def is_file_ok_def write_file_def on_files_def andThen_def Let_def)
  then have run: "program_action_set_IDI example_fs False [0x41] example_store =
      (Inr (), snd (program_action_set_IDI example_fs False [0x41] example_store))"
    by (metis prod.collapse)
  have "path_filename example_fs ''IDI'' = ''IDI''" by (simp add: example_fs_def)
  from set_IDI_unchecked [OF example_fs_laws this run] show ?thesis .
qed

text \<open>The strongest kind of key has every system twice, since the cases of the \<open>switch\<close> fall through.\<close>

lemma highest_twice:
  "count_list (crypto_sign_systems highest) sys = (if sys \<in> set (crypto_sign_systems highest) then 2 else 0)"
  "count_list (crypto_exchange_systems highest) sys = (if sys \<in> set (crypto_exchange_systems highest) then 2 else 0)"
  by (auto simp: crypto_sign_systems_def crypto_exchange_systems_def)

end
