(* ===== verification/Tuntap.thy ===== *)
theory Tuntap
  imports Ndp Eint
begin

text \<open>
  The virtual network card of the new program: the interface of
  \<^verbatim>\<open>src/src/tuntap/base/tuntap_base.hpp\<close> and its implementations for Linux, Mac OS X and
  Windows (\<^verbatim>\<open>src/src/tuntap/\<close>), and the packet sizes of \<^verbatim>\<open>src/src/ipv6.cpp\<close>.

  The stream of the operating system is a parameter: \<open>read_some\<close> gets the next packet, cut to
  the size of the buffers, \<open>write_some\<close> takes one, and both may throw. A buffer is its contents
  before the call; the read operations return the contents after it. What the implementations
  have in common is the locale \<open>tuntap_device\<close>: the driver puts a header before the packet
  (none on Linux, four octets on Mac OS X, an Ethernet header on Windows), and reading with separated
  addresses takes the packet apart. It is interpreted for the three of them.
\<close>

section \<open>The code\<close>

record 'd tun_stream =
  read_some :: "nat \<Rightarrow> ('d, bytes) action"
  write_some :: "bytes \<Rightarrow> ('d, nat) action"

fun scatter :: "bytes \<Rightarrow> bytes list \<Rightarrow> bytes list" where
  \<comment> \<open>a packet read into a sequence of buffers\<close>
  "scatter p [] = []"
| "scatter p (b # bs) = (take (length b) p @ drop (length p) b) # scatter (drop (length b) p) bs"

definition size_minus :: "nat \<Rightarrow> nat \<Rightarrow> nat" where
  \<comment> \<open>subtraction of \<open>size_t\<close>, which wraps around\<close>
  "size_minus a b = (if b \<le> a then a - b else a + 2 ^ 64 - b)"

type_synonym tun_read = "nat \<times> bytes \<times> bytes \<times> bytes"   \<comment> \<open>returned size, data, source, destination\<close>

definition ipv6_size_payload_from_header :: "memory \<Rightarrow> tab_view \<Rightarrow> nat result" where
  "ipv6_size_payload_from_header mem tab =
     bindR (tab_view_at tab mem 4) (\<lambda>v_high. bindR (tab_view_at tab mem 5) (\<lambda>v_low.
       Inr (unat v_low + unat v_high * 256)))"

definition ipv6_size_entireip_from_header :: "memory \<Rightarrow> tab_view \<Rightarrow> nat result" where
  "ipv6_size_entireip_from_header mem tab = bindR (ipv6_size_payload_from_header mem tab) (\<lambda>n. Inr (n + 40))"

subsection \<open>Linux\<close>

definition linux_send_to_tun :: "'d tun_stream \<Rightarrow> bytes \<Rightarrow> ('d, nat) action" where
  "linux_send_to_tun st data d = (case write_some st data d of (Inl e, d') \<Rightarrow> (Inr 0, d') | (Inr n, d') \<Rightarrow> (Inr n, d'))"

definition linux_send_separated :: "'d tun_stream \<Rightarrow> bytes \<Rightarrow> bytes \<Rightarrow> bytes \<Rightarrow> ('d, nat) action" where
  "linux_send_separated st data src dst d =
     (if \<not> length data \<ge> 8 then (Inl Err_check_input, d)
      else case write_some st (take 8 data @ src @ dst @ drop 8 data) d of
             (Inl e, d') \<Rightarrow> (Inr 0, d') | (Inr n, d') \<Rightarrow> (Inr n, d'))"

definition linux_read_from_tun :: "'d tun_stream \<Rightarrow> bytes \<Rightarrow> ('d, nat \<times> bytes) action" where
  "linux_read_from_tun st data d =
     (case read_some st (length data) d of
        (Inl e, d') \<Rightarrow> (Inr (0, data), d')
      | (Inr p, d') \<Rightarrow> (Inr (length p, p @ drop (length p) data), d'))"

definition linux_read_separated :: "'d tun_stream \<Rightarrow> bytes \<Rightarrow> bytes \<Rightarrow> bytes \<Rightarrow> ('d, tun_read) action" where
  "linux_read_separated st data src dst d =
     (if \<not> length data \<ge> 8 then (Inl Err_check_input, d)
      else case read_some st (length data + length src + length dst) d of
             (Inl e, d') \<Rightarrow> (Inr (0, data, src, dst), d')
           | (Inr p, d') \<Rightarrow>
               (let bufs = scatter p [take 8 data, src, dst, drop 8 data]
                in (Inr (size_minus (size_minus (length p) (length src)) (length dst),
                         bufs ! 0 @ bufs ! 3, bufs ! 1, bufs ! 2), d')))"

subsection \<open>Mac OS X\<close>

definition macosx_header :: bytes where
  "macosx_header = [0x00, 0x00, 0x00, 0x1E]"

definition macosx_read_from_tun :: "'d tun_stream \<Rightarrow> bytes \<Rightarrow> ('d, nat \<times> bytes) action" where
  "macosx_read_from_tun st data d =
     (case read_some st (4 + length data) d of
        (Inl e, d') \<Rightarrow> (Inr (0, data), d')
      | (Inr p, d') \<Rightarrow>
          (let bufs = scatter p [replicate 4 0, data]
           in if length p < 4 then (Inr (0, data), d') else (Inr (length p - 4, bufs ! 1), d')))"

definition macosx_send_to_tun :: "'d tun_stream \<Rightarrow> bytes \<Rightarrow> ('d, nat) action" where
  "macosx_send_to_tun st data d =
     (case write_some st (macosx_header @ data) d of
        (Inl e, d') \<Rightarrow> (Inr 0, d')
      | (Inr n, d') \<Rightarrow> if n < 4 then (Inr 0, d') else (Inr (n - 4), d'))"

definition macosx_send_separated :: "'d tun_stream \<Rightarrow> bytes \<Rightarrow> bytes \<Rightarrow> bytes \<Rightarrow> ('d, nat) action" where
  "macosx_send_separated st data src dst d =
     (if \<not> length data \<ge> 8 then (Inl Err_check_input, d)
      else case write_some st (macosx_header @ take 8 data @ src @ dst @ drop 8 data) d of
             (Inl e, d') \<Rightarrow> (Inr 0, d')
           | (Inr n, d') \<Rightarrow> if n < 4 then (Inr 0, d') else (Inr (n - 4), d'))"

definition macosx_read_separated :: "'d tun_stream \<Rightarrow> bytes \<Rightarrow> bytes \<Rightarrow> bytes \<Rightarrow> ('d, tun_read) action" where
  "macosx_read_separated st data src dst d =
     (if \<not> length data > 8 then (Inl Err_check_input, d)
      else case read_some st (4 + length data + length src + length dst) d of
             (Inl e, d') \<Rightarrow> (Inr (0, data, src, dst), d')
           | (Inr p, d') \<Rightarrow>
               (let bufs = scatter p [replicate 4 0, take 8 data, src, dst, drop 8 data];
                    readed_bytes = size_minus (size_minus (length p) (length src)) (length dst)
                in (Inr (if readed_bytes < 4 then 0 else readed_bytes - 4, bufs ! 1 @ bufs ! 4, bufs ! 2, bufs ! 3), d')))"

subsection \<open>Windows\<close>

definition windows_buffer_size :: nat where
  "windows_buffer_size = 14 + 40 + 65535"

definition windows_send_to_tun :: "'d tun_stream \<Rightarrow> bytes \<Rightarrow> bytes \<Rightarrow> ('d, nat) action" where
  \<comment> \<open>the packet is copied behind the header into an array without a test of its size\<close>
  "windows_send_to_tun st mac data d =
     (if 14 + length data > windows_buffer_size then (Inl Undefined_behaviour, d)
      else write_some st (mac @ [0xFC, 0x00, 0x00, 0x00, 0x00, 0x00, 0x86, 0xDD] @ data) d)"

definition windows_read_from_tun :: "bool \<Rightarrow> 'd tun_stream \<Rightarrow> bytes \<Rightarrow> bytes \<Rightarrow> ('d \<times> bytes, nat \<times> bytes) action" where
  \<comment> \<open>the second part of the state is the template of the neighbour advertisement; octets that were not
      read are zero here, undetermined in the code, and only looked at by the advertisement\<close>
  "windows_read_from_tun little_edian st mac data = (\<lambda>(d, tpl).
     case read_some st windows_buffer_size d of
       (Inl e, d') \<Rightarrow> (Inl e, (d', tpl))
     | (Inr p, d') \<Rightarrow>
         (let input_buffer = p @ replicate (windows_buffer_size - length p) 0; readed_size = length p
          in if readed_size < 14 + 40 then (Inr (0, data), (d', tpl))
             else case is_packet_neighbor_solicitation input_buffer readed_size of
               Inl e \<Rightarrow> (Inl e, (d', tpl))
             | Inr True \<Rightarrow>
                 (case generate_neighbor_advertisement_new little_edian mac input_buffer tpl of
                    (Inl e, tpl') \<Rightarrow> (Inl e, (d', tpl'))
                  | (Inr adv, tpl') \<Rightarrow>
                      (case write_some st adv d' of
                         (Inl e, d'') \<Rightarrow> (Inl e, (d'', tpl')) | (Inr _, d'') \<Rightarrow> (Inr (0, data), (d'', tpl'))))
             | Inr False \<Rightarrow>
                 if input_buffer ! 22 \<noteq> 0xFD \<or> input_buffer ! 23 \<noteq> 0x42 then (Inr (0, data), (d', tpl))
                 else if input_buffer ! 38 \<noteq> 0xFD \<or> input_buffer ! 39 \<noteq> 0x42 then (Inr (0, data), (d', tpl))
                 else if readed_size - 14 > length data then (Inl Undefined_behaviour, (d', tpl))
                 else (Inr (readed_size - 14, drop 14 p @ drop (readed_size - 14) data), (d', tpl))))"

definition windows_read_separated ::
    "bool \<Rightarrow> 'd tun_stream \<Rightarrow> bytes \<Rightarrow> bytes \<Rightarrow> bytes \<Rightarrow> bytes \<Rightarrow> ('d \<times> bytes, tun_read) action" where
  "windows_read_separated little_edian st mac data src dst s =
     (case windows_read_from_tun little_edian st mac (replicate windows_buffer_size 0) s of
        (Inl e, s') \<Rightarrow> (Inl e, s')
      | (Inr (readed_bytes, input_buffer), s') \<Rightarrow>
          if readed_bytes = 0 then (Inr (0, data, src, dst), s')
          else
            let ipv6_payload_size = size_minus readed_bytes 40
            in if \<not> 40 + ipv6_payload_size < windows_buffer_size then (Inl Out_of_range, s')
               else if 8 + ipv6_payload_size > length data then (Inl Undefined_behaviour, s')
               else (Inr (size_minus (size_minus readed_bytes (length src)) (length dst),
                          take 8 input_buffer @ take ipv6_payload_size (drop 40 input_buffer) @ drop (8 + ipv6_payload_size) data,
                          take 16 (drop 8 input_buffer), take 16 (drop 24 input_buffer)), s'))"


section \<open>The interface\<close>

definition merit_data :: "bytes \<Rightarrow> bytes \<Rightarrow> bytes" where
  \<comment> \<open>a packet without its addresses, in the buffer \<open>data\<close>\<close>
  "merit_data p data = take 8 p @ drop 40 p @ drop (length p - 32) data"

locale tuntap_device =
  fixes raw_read :: "'d tun_stream \<Rightarrow> nat \<Rightarrow> ('s, bytes) action"   \<comment> \<open>the stream, in the state of the device\<close>
    and max_read :: "bytes \<Rightarrow> nat"                                  \<comment> \<open>how much is read for a buffer\<close>
    and header :: "bytes \<Rightarrow> bool"                                   \<comment> \<open>what the driver puts before a packet\<close>
    and accepted :: "bytes \<Rightarrow> bool"                                 \<comment> \<open>the packets that are passed on\<close>
    and read_separated :: "'d tun_stream \<Rightarrow> bytes \<Rightarrow> bytes \<Rightarrow> bytes \<Rightarrow> ('s, tun_read) action"
  assumes takes_apart:
    "raw_read st (max_read data) s = (Inr (hdr @ p), s') \<Longrightarrow> header hdr \<Longrightarrow> accepted p \<Longrightarrow>
     length src = 16 \<Longrightarrow> length dst = 16 \<Longrightarrow> 40 \<le> length p \<Longrightarrow> length p \<le> length data + 32 \<Longrightarrow> length p \<le> 65575 \<Longrightarrow> 8 < length data \<Longrightarrow>
     read_separated st data src dst s =
       (Inr (length p - 32, merit_data p data, take 16 (drop 8 p), take 16 (drop 24 p)), s')"
begin

lemma rejoined:
  assumes "40 \<le> length p"
  shows "take 8 (take (length p - 32) (merit_data p data)) @ take 16 (drop 8 p) @ take 16 (drop 24 p) @
         drop 8 (take (length p - 32) (merit_data p data)) = p"
proof -
  have "take (length p - 32) (merit_data p data) = take 8 p @ drop 40 p"
    using assms by (simp add: merit_data_def)
  moreover have "p = take 8 p @ take 16 (drop 8 p) @ take 16 (drop 24 p) @ drop 40 p"
  proof -
    have "drop 24 p = take 16 (drop 24 p) @ drop 40 p" using append_take_drop_id [of 16 "drop 24 p"] by simp
    moreover have "drop 8 p = take 16 (drop 8 p) @ drop 24 p" using append_take_drop_id [of 16 "drop 8 p"] by simp
    ultimately show ?thesis using append_take_drop_id [of 8 p] by metis
  qed
  ultimately show ?thesis using assms by simp
qed

lemma read_then_joined:
  assumes "raw_read st (max_read data) s = (Inr (hdr @ p), s')" "header hdr" "accepted p"
    and "length src = 16" "length dst = 16" "40 \<le> length p" "length p \<le> length data + 32" "length p \<le> 65575" "8 < length data"
  shows "\<exists>n data' a b. read_separated st data src dst s = (Inr (n, data', a, b), s') \<and> n = length p - 32 \<and>
           length a = 16 \<and> length b = 16 \<and> take 8 (take n data') @ a @ b @ drop 8 (take n data') = p"
  using takes_apart [OF assms] rejoined [OF assms(6), of data] assms(6) by auto

end

lemma scatter_packet:
  assumes "40 \<le> length p" "length p \<le> length data + 32" "length src = 16" "length dst = 16" "8 < length data"
  shows "scatter p [take 8 data, src, dst, drop 8 data] =
           [take 8 p, take 16 (drop 8 p), take 16 (drop 24 p), drop 40 p @ drop (length p - 32) data]"
  using assms by (simp add: min_def)

lemma merit_data_split: "40 \<le> length p \<Longrightarrow> take 8 p @ drop 40 p @ drop (length p - 32) data = merit_data p data"
  by (simp add: merit_data_def)

interpretation linux_tun: tuntap_device read_some "\<lambda>data. length data + 32" "\<lambda>hdr. hdr = []" "\<lambda>_. True" linux_read_separated
proof
  fix st :: "'a tun_stream" and s s' and data hdr p src dst :: bytes
  assume "read_some st (length data + 32) s = (Inr (hdr @ p), s')" "hdr = []"
    and sizes: "length src = 16" "length dst = 16" "40 \<le> length p" "length p \<le> length data + 32" "8 < length data"
  then have "read_some st (length data + 32) s = (Inr p, s')" by simp
  then show "linux_read_separated st data src dst s =
      (Inr (length p - 32, merit_data p data, take 16 (drop 8 p), take 16 (drop 24 p)), s')"
    using sizes scatter_packet [OF sizes(3,4,1,2,5)]
    by (simp add: linux_read_separated_def Let_def merit_data_def size_minus_def add.assoc)
qed

interpretation macosx_tun: tuntap_device read_some "\<lambda>data. 4 + length data + 32" "\<lambda>hdr. length hdr = 4" "\<lambda>_. True" macosx_read_separated
proof
  fix st :: "'a tun_stream" and s s' and data hdr p src dst :: bytes
  assume run: "read_some st (4 + length data + 32) s = (Inr (hdr @ p), s')" and hdr: "length hdr = 4"
    and sizes: "length src = 16" "length dst = 16" "40 \<le> length p" "length p \<le> length data + 32" "8 < length data"
  have "scatter (hdr @ p) (replicate 4 0 # bs) = hdr # scatter p bs" for bs
    using hdr by simp
  then show "macosx_read_separated st data src dst s =
      (Inr (length p - 32, merit_data p data, take 16 (drop 8 p), take 16 (drop 24 p)), s')"
    using run hdr sizes scatter_packet [OF sizes(3,4,1,2,5)]
    by (simp add: macosx_read_separated_def Let_def merit_data_def size_minus_def add.assoc) arith
qed

definition windows_accepts :: "bytes \<Rightarrow> bool" where
  \<comment> \<open>from and to addresses that start with \<open>fd42\<close>, and octet 40 is not 135, the type of a neighbour solicitation: the code takes
     any packet with this octet for one, whatever its next header is\<close>
  "windows_accepts p \<longleftrightarrow> p ! 8 = 0xFD \<and> p ! 9 = 0x42 \<and> p ! 24 = 0xFD \<and> p ! 25 = 0x42 \<and> (length p = 40 \<or> p ! 40 \<noteq> 135)"

definition windows_raw_read :: "'d tun_stream \<Rightarrow> nat \<Rightarrow> ('d \<times> bytes, bytes) action" where
  "windows_raw_read st n = (\<lambda>(d, tpl). case read_some st n d of (r, d') \<Rightarrow> (r, (d', tpl)))"

lemma windows_read_packet:
  assumes "read_some st windows_buffer_size d = (Inr (hdr @ p), d')" and "length hdr = 14" and "windows_accepts p"
    and "40 \<le> length p" and "length p \<le> 65575"
  shows "windows_read_from_tun le st mac (replicate windows_buffer_size 0) (d, tpl) =
           (Inr (length p, p @ replicate (windows_buffer_size - length p) 0), (d', tpl))"
proof -
  let ?buf = "(hdr @ p) @ replicate (windows_buffer_size - length (hdr @ p)) 0"
  have nth: "?buf ! (14 + k) = p ! k" if "k < length p" for k
    using that assms(2) by (simp add: nth_append)
  have "is_packet_neighbor_solicitation ?buf (length (hdr @ p)) = Inr False"
    using assms(2-5) nth [of 40]
    by (auto simp: is_packet_neighbor_solicitation_def array_read_def windows_accepts_def windows_buffer_size_def)
  moreover have "?buf ! 22 = 0xFD" "?buf ! 23 = 0x42" "?buf ! 38 = 0xFD" "?buf ! 39 = 0x42"
    using assms(3,4) nth [of 8] nth [of 9] nth [of 24] nth [of 25] by (simp_all add: windows_accepts_def)
  ultimately show ?thesis
    using assms(1,2,4,5) by (simp add: windows_read_from_tun_def Let_def) (simp add: windows_buffer_size_def)
qed

interpretation windows_tun: tuntap_device windows_raw_read "\<lambda>_. windows_buffer_size" "\<lambda>hdr. length hdr = 14" windows_accepts
  "\<lambda>st. windows_read_separated le st mac"
proof
  fix st :: "'a tun_stream" and s s' and data hdr p src dst :: bytes
  assume run: "windows_raw_read st windows_buffer_size s = (Inr (hdr @ p), s')" and hdr: "length hdr = 14" and acc: "windows_accepts p"
    and sizes: "length src = 16" "length dst = 16" "40 \<le> length p" "length p \<le> length data + 32" "length p \<le> 65575" "8 < length data"
  obtain d tpl d' where s: "s = (d, tpl)" "s' = (d', tpl)" "read_some st windows_buffer_size d = (Inr (hdr @ p), d')"
    using run by (cases s) (auto simp: windows_raw_read_def split: prod.splits)
  have "take 8 (p @ z) = take 8 p" "take (length p - 40) (drop 40 (p @ z)) = drop 40 p"
    "take 16 (drop 8 (p @ z)) = take 16 (drop 8 p)" "take 16 (drop 24 (p @ z)) = take 16 (drop 24 p)" for z :: bytes
    using sizes(3) by simp_all
  then show "windows_read_separated le st mac data src dst s =
      (Inr (length p - 32, merit_data p data, take 16 (drop 8 p), take 16 (drop 24 p)), s')"
    using windows_read_packet [OF s(3) hdr acc sizes(3,5), of le mac tpl] sizes
    by (auto simp: windows_read_separated_def s(1,2) Let_def size_minus_def merit_data_def windows_buffer_size_def)
qed


section \<open>The platforms agree\<close>

lemma windows_refuses:
  assumes "read_some st windows_buffer_size d = (Inr (hdr @ p), d')" and "length hdr = 14" and "\<not> windows_accepts p"
    and "40 \<le> length p" and "length p \<le> 65575" and "ndp_reachable tpl" and "6 \<le> length mac"
    and "\<And>adv d. \<exists>n. fst (write_some st adv d) = Inr n"
  shows "fst (windows_read_separated True st mac data src dst (d, tpl)) = Inr (0, data, src, dst)"
proof -
  let ?f = "hdr @ p"
  let ?buf = "?f @ replicate (windows_buffer_size - length ?f) 0"
  have nth: "?buf ! (14 + k) = p ! k" if "k < length p" for k
    using that assms(2) by (simp add: nth_append)
  have buf: "78 \<le> length ?buf" "?buf ! 22 = p ! 8" "?buf ! 23 = p ! 9" "?buf ! 38 = p ! 24" "?buf ! 39 = p ! 25"
    using assms(2,4) nth [of 8] nth [of 9] nth [of 24] nth [of 25] by (simp_all add: windows_buffer_size_def)
  have "fst (windows_read_from_tun True st mac (replicate windows_buffer_size 0) (d, tpl)) = Inr (0, replicate windows_buffer_size 0)"
  proof (cases "length p > 40 \<and> p ! 40 = 135")
    case True
    then have "is_packet_neighbor_solicitation ?buf (length ?f) = Inr True"
      using assms(2,5) nth [of 40] by (simp add: is_packet_neighbor_solicitation_def array_read_def windows_buffer_size_def)
    moreover have "generate_neighbor_advertisement_new True mac ?buf tpl = (Inr (advertisement mac ?buf), advertisement mac ?buf)"
      by (rule generate_new_run [OF ndp_reachable_template [OF assms(6)] assms(7) buf(1)])
    ultimately show ?thesis
      using assms(1,2,4) assms(8) [of "advertisement mac ?buf" d']
      by (auto simp: windows_read_from_tun_def Let_def split: prod.split)
  next
    case False
    then have "is_packet_neighbor_solicitation ?buf (length ?f) = Inr False"
      using assms(2,4,5) nth [of 40] by (auto simp: is_packet_neighbor_solicitation_def array_read_def windows_buffer_size_def)
    moreover have "p ! 8 \<noteq> 0xFD \<or> p ! 9 \<noteq> 0x42 \<or> p ! 24 \<noteq> 0xFD \<or> p ! 25 \<noteq> 0x42"
      using assms(3,4) False by (auto simp: windows_accepts_def)
    ultimately show ?thesis using assms(1,2,4) buf by (auto simp: windows_read_from_tun_def Let_def)
  qed
  then show ?thesis by (auto simp: windows_read_separated_def split: prod.splits)
qed

text \<open>
  C31: the cards of Linux and Mac OS X take every IPv6 packet apart in the same way, whatever header the driver puts before
  it: they return the same size, the same data without addresses and the same two addresses, from which the packet can be put
  together again. The card of Windows does the same with the packets it passes on; it reports nothing, size 0, for a packet
  with an address outside \<open>fd42\<close> and for every packet whose octet 40 is 135, also if that is no neighbour solicitation.
\<close>

theorem tuntap_platforms_agree:
  assumes "read_some linux (length data + 32) dl = (Inr p, dl')"
    and "read_some mac (4 + length data + 32) dm = (Inr (hdr4 @ p), dm')" "length hdr4 = 4"
    and "read_some win windows_buffer_size dw = (Inr (eth @ p), dw')" "length eth = 14"
    and "length src = 16" "length dst = 16"
    and "40 \<le> length p" "length p \<le> length data + 32" "length p \<le> 65575" "8 < length data"
    and "ndp_reachable tpl" and "6 \<le> length hwaddr" and "\<And>adv d. \<exists>n. fst (write_some win adv d) = Inr n"
  shows "\<exists>n data' a b.
     linux_read_separated linux data src dst dl = (Inr (n, data', a, b), dl') \<and>
     macosx_read_separated mac data src dst dm = (Inr (n, data', a, b), dm') \<and>
     n = length p - 32 \<and> take 8 (take n data') @ a @ b @ drop 8 (take n data') = p \<and>
     (windows_accepts p \<longrightarrow>
        (\<forall>le. windows_read_separated le win hwaddr data src dst (dw, tpl) = (Inr (n, data', a, b), (dw', tpl)))) \<and>
     (\<not> windows_accepts p \<longrightarrow> fst (windows_read_separated True win hwaddr data src dst (dw, tpl)) = Inr (0, data, src, dst))"
proof -
  have win: "windows_raw_read win windows_buffer_size (dw, tpl) = (Inr (eth @ p), (dw', tpl))"
    using assms(4) by (simp add: windows_raw_read_def)
  have "linux_read_separated linux data src dst dl =
      (Inr (length p - 32, merit_data p data, take 16 (drop 8 p), take 16 (drop 24 p)), dl')"
    using linux_tun.takes_apart [of linux data dl "[]" p dl' src dst] assms by simp
  moreover have "macosx_read_separated mac data src dst dm =
      (Inr (length p - 32, merit_data p data, take 16 (drop 8 p), take 16 (drop 24 p)), dm')"
    by (rule macosx_tun.takes_apart [OF assms(2)]) (use assms in simp_all)
  moreover have "windows_read_separated le win hwaddr data src dst (dw, tpl) =
      (Inr (length p - 32, merit_data p data, take 16 (drop 8 p), take 16 (drop 24 p)), (dw', tpl))"
    if "windows_accepts p" for le
    by (rule windows_tun.takes_apart [OF win _ that]) (use assms in simp_all)
  moreover have "fst (windows_read_separated True win hwaddr data src dst (dw, tpl)) = Inr (0, data, src, dst)" if "\<not> windows_accepts p"
    by (rule windows_refuses [OF assms(4,5) that assms(8,10,12,13,14)])
  ultimately show ?thesis using linux_tun.rejoined [OF assms(8), of data] by blast
qed

definition example_stream :: "bytes tun_stream" where
  \<comment> \<open>a device that gives its contents as one packet\<close>
  "example_stream = \<lparr>read_some = (\<lambda>n d. (Inr (take n d), [])), write_some = (\<lambda>p d. (Inr (length p), d))\<rparr>"

definition example_ip6 :: bytes where
  "example_ip6 = [0x60, 0, 0, 0, 0, 4, 17, 64, 0xFD, 0x42] @ replicate 14 1 @ [0xFD, 0x42] @ replicate 14 2 @ [7, 8, 9, 10]"

definition example_udp_135 :: bytes where
  \<comment> \<open>a UDP packet that only looks like a neighbour solicitation\<close>
  "example_udp_135 = take 40 example_ip6 @ [135, 8, 9, 10]"

theorem tuntap_platforms_agree_witness:
  "(\<exists>n data' a b. linux_read_separated example_stream (replicate 100 0) (replicate 16 0) (replicate 16 0) example_ip6 = (Inr (n, data', a, b), [])
     \<and> windows_read_separated True example_stream (replicate 6 0) (replicate 100 0) (replicate 16 0) (replicate 16 0)
         (replicate 14 0 @ example_ip6, m_generate_neighbor_advertisement_packet)
       = (Inr (n, data', a, b), ([], m_generate_neighbor_advertisement_packet))
     \<and> n = 12) \<and>
   fst (windows_read_separated True example_stream (replicate 6 0) (replicate 100 0) (replicate 16 0) (replicate 16 0)
         (replicate 14 0 @ example_udp_135, m_generate_neighbor_advertisement_packet)) = Inr (0, replicate 100 0, replicate 16 0, replicate 16 0)"
proof -
  have p: "length example_ip6 = 44" "windows_accepts example_ip6" "length example_udp_135 = 44" "\<not> windows_accepts example_udp_135"
    by (simp_all add: example_ip6_def example_udp_135_def windows_accepts_def nth_append)
  have reads: "read_some example_stream (length (replicate 100 (0 :: byte)) + 32) q = (Inr q, [])"
    "read_some example_stream (4 + length (replicate 100 (0 :: byte)) + 32) (replicate 4 0 @ q) = (Inr (replicate 4 0 @ q), [])"
    "read_some example_stream windows_buffer_size (replicate 14 0 @ q) = (Inr (replicate 14 0 @ q), [])" if "length q = 44" for q
    using that by (simp_all add: example_stream_def windows_buffer_size_def)
  have "\<exists>n. fst (write_some example_stream adv d) = Inr n" for adv d by (simp add: example_stream_def)
  note agree = tuntap_platforms_agree [OF reads(1,2) _ reads(3) _ _ _ _ _ _ _ ndp_reachable.initial _ this,
      of _ "replicate 16 0" "replicate 16 0" "replicate 6 0"]
  from agree [of example_ip6] agree [of example_udp_135] show ?thesis using p by auto
qed

text \<open>
  A packet of fewer than 32 octets makes the card of Linux report a size of almost
  \<open>2^64\<close> octets, since the lengths of the two addresses are subtracted from what was read; the
  documentation promises the size, or 0 on an error.
\<close>

theorem linux_short_read_wraps:
  assumes "read_some st (length data + 32) d = (Inr p, d')" and "length p < 32"
    and "8 \<le> length data" "length src = 16" "length dst = 16"
  shows "\<exists>n rest. linux_read_separated st data src dst d = (Inr (n, rest), d') \<and> n = 2 ^ 64 - (32 - length p)"
proof -
  have "size_minus (size_minus (length p) 16) 16 = 2 ^ 64 - (32 - length p)"
    using assms(2) by (simp add: size_minus_def) arith
  then show ?thesis using assms(1,3-5) by (simp add: linux_read_separated_def Let_def add.assoc)
qed

theorem linux_short_read_wraps_witness:
  "\<exists>n rest. linux_read_separated example_stream (replicate 100 0) (replicate 16 0) (replicate 16 0) [1, 2, 3] = (Inr (n, rest), []) \<and> n = 2 ^ 64 - 29"
  using linux_short_read_wraps [of example_stream "replicate 100 0" "[1, 2, 3]" "[1, 2, 3]" "[]" "replicate 16 0" "replicate 16 0"]
  by (simp add: example_stream_def)

section \<open>The size in the header\<close>

lemma entire_size_of_merit:
  assumes "40 \<le> length p" "length p < 65536"
    and "unat (p ! 5) + unat (p ! 4) * 256 = length p - 40" \<comment> \<open>the payload length of the header\<close>
    and "contents mem (b, length p - 32) = take (length p - 32) (merit_data p data)"
  shows "bindR (ipv6_size_entireip_from_header mem (tab_view_sized b (length p - 32))) (\<lambda>n. eint_minus size_type (int n) 32) =
         Inr (int (length p - 32))"
proof -
  have merit: "take (length p - 32) (merit_data p data) = take 8 p @ drop 40 p"
    using assms(1) by (simp add: merit_data_def)
  have "mem (b + k) = p ! k" if "k < 8" for k
    using nth_contents [of k "(b, length p - 32)" mem] that assms(1) merit assms(4) by (simp add: nth_append)
  then have n: "ipv6_size_entireip_from_header mem (tab_view_sized b (length p - 32)) = Inr (length p)"
    using assms(1,3) by (simp add: ipv6_size_entireip_from_header_def ipv6_size_payload_from_header_def tab_view_at_def tab_view_sized_def)
  have "int_type_ok size_type" "in_type size_type (int (length p))" "in_type size_type 32" "in_type size_type (int (length p) - 32)"
    using assms(1,2) by (auto simp: int_type_ok_def size_type_def in_type_def int_min_def int_max_def)
  with eint_sums [of size_type "int (length p)" 32] have "eint_minus size_type (int (length p)) 32 = Inr (int (length p) - 32)" by simp
  with n assms(1) show ?thesis by (simp add: of_nat_diff)
qed

end
