(* ===== verification/Engine.thy ===== *)
theory Engine
  imports Netbuf
begin

text \<open>
  Parts of the engine of the new loop: the bounded vector of
  \<^verbatim>\<open>src/src/stdplus/arrayvector.hpp\<close> and the welds of
  \<^verbatim>\<open>src/src/galaxysrv_engine.cpp\<close>, buffers that are filled from the virtual card.

  The elements of an \<open>arrayvector\<close> live in an array of fixed size; reading or writing the array
  outside its bounds is undefined behaviour. The abstract view is the list of its elements.
\<close>

section \<open>\<open>arrayvector\<close>\<close>

record 'a arrayvector =
  m_current_size :: nat
  m_array :: "'a list"      \<comment> \<open>always \<open>TMax\<close> elements\<close>

definition assert_access :: "nat \<Rightarrow> 'a arrayvector \<Rightarrow> unit result" where
  "assert_access ix v = (if ix \<ge> m_current_size v then Inl Out_of_range else Inr ())"

definition av_at :: "nat \<Rightarrow> 'a arrayvector \<Rightarrow> 'a result" where
  "av_at ix v =
     bindR (assert_access ix v) (\<lambda>_.
       if ix < length (m_array v) then Inr (m_array v ! ix) else Inl Undefined_behaviour)"

definition av_store :: "nat \<Rightarrow> 'a \<Rightarrow> ('a arrayvector, unit) action" where
  \<comment> \<open>an assignment through the reference that \<open>at\<close> or \<open>operator[]\<close> returns\<close>
  "av_store ix x v =
     (case assert_access ix v of
        Inl e \<Rightarrow> (Inl e, v)
      | Inr _ \<Rightarrow> if ix < length (m_array v) then (Inr (), v\<lparr>m_array := (m_array v)[ix := x]\<rparr>) else (Inl Undefined_behaviour, v))"

definition av_push_back :: "'a \<Rightarrow> ('a arrayvector, unit) action" where
  \<comment> \<open>when the array is full a message is composed, but nothing is thrown\<close>
  "av_push_back x v =
     (if m_current_size v < length (m_array v)
      then (Inr (), v\<lparr>m_array := (m_array v)[m_current_size v := x], m_current_size := m_current_size v + 1\<rparr>)
      else (Inl Undefined_behaviour, v))"

definition av_pop_back :: "('a arrayvector, unit) action" where
  \<comment> \<open>the size is an unsigned 64-bit number\<close>
  "av_pop_back v =
     (Inr (), v\<lparr>m_current_size := (if m_current_size v > 0 then m_current_size v - 1 else 2 ^ 64 - 1)\<rparr>)"

definition av_elements :: "'a arrayvector \<Rightarrow> 'a list" where
  "av_elements v = take (m_current_size v) (m_array v)"

definition av_ok :: "'a arrayvector \<Rightarrow> bool" where
  "av_ok v \<longleftrightarrow> m_current_size v \<le> length (m_array v)"

lemma length_av_elements [simp]: "av_ok v \<Longrightarrow> length (av_elements v) = m_current_size v"
  by (simp add: av_elements_def av_ok_def)

text \<open>
  As long as it is not filled beyond its capacity or popped when it is empty, the vector in
  an array behaves as the list of its elements: reads and writes by index, appending and
  removing at the end; the capacity never changes.
\<close>

theorem arrayvector_refines_list:
  assumes "av_ok v"
  shows "av_at ix v = (if ix < length (av_elements v) then Inr (av_elements v ! ix) else Inl Out_of_range) \<and>
         (ix < length (av_elements v) \<longrightarrow> (\<exists>v'. av_store ix x v = (Inr (), v') \<and> av_ok v' \<and> av_elements v' = (av_elements v)[ix := x])) \<and>
         (length (av_elements v) < length (m_array v) \<longrightarrow>
            (\<exists>v'. av_push_back x v = (Inr (), v') \<and> av_ok v' \<and> av_elements v' = av_elements v @ [x] \<and> length (m_array v') = length (m_array v))) \<and>
         (av_elements v \<noteq> [] \<longrightarrow>
            (\<exists>v'. av_pop_back v = (Inr (), v') \<and> av_ok v' \<and> av_elements v' = butlast (av_elements v)))"
proof -
  let ?n = "m_current_size v"
  have n: "?n \<le> length (m_array v)" using assms by (simp add: av_ok_def)
  have "take (Suc ?n) ((m_array v)[?n := x]) = take ?n (m_array v) @ [x]" if "?n < length (m_array v)"
    using that by (simp add: take_Suc_conv_app_nth)
  moreover have "take (?n - 1) (m_array v) = butlast (take ?n (m_array v))"
    using n by (simp add: butlast_take)
  ultimately show ?thesis
    using n by (auto simp: av_at_def assert_access_def av_store_def av_push_back_def av_pop_back_def av_elements_def av_ok_def take_update_swap)
qed

theorem arrayvector_refines_list_witness:
  "\<exists>v'. av_push_back (7 :: nat) \<lparr>m_current_size = 1, m_array = [5, 0, 0]\<rparr> = (Inr (), v') \<and> av_elements v' = [5] @ [7]"
  using arrayvector_refines_list [of "\<lparr>m_current_size = 1, m_array = [5, 0, 0 :: nat]\<rparr>" 0 7]
  by (auto simp: av_ok_def av_elements_def)

text \<open>
  What is beyond: a push to a full vector writes behind the array, and a pop from an empty one
  leaves a size that lets every access through.
\<close>

lemma arrayvector_beyond:
  "m_current_size v = length (m_array v) \<Longrightarrow> av_push_back x v = (Inl Undefined_behaviour, v)"
  "m_current_size v = 0 \<Longrightarrow> length (m_array v) \<le> ix \<Longrightarrow> ix < 2 ^ 64 - 1 \<Longrightarrow>
     av_at ix (snd (av_pop_back v)) = Inl Undefined_behaviour"
  by (simp_all add: av_push_back_def av_pop_back_def av_at_def assert_access_def)

section \<open>Welds\<close>

record c_weld =
  m_empty :: bool
  m_weld_buf :: c_netbuf
  m_bufWrite :: nat
  m_bufRead :: nat

definition weld_clear :: "c_weld \<Rightarrow> c_weld" where
  "weld_clear w = w\<lparr>m_empty := True, m_bufRead := 0, m_bufWrite := 0\<rparr>"

definition c_weld_new :: "nat \<Rightarrow> (heap, c_weld) action" where
  "c_weld_new memsize h =
     (case c_netbuf_new memsize h of
        (Inl e, h') \<Rightarrow> (Inl e, h')
      | (Inr b, h') \<Rightarrow> (Inr (weld_clear \<lparr>m_empty = True, m_weld_buf = b, m_bufWrite = 0, m_bufRead = 0\<rparr>), h'))"

definition get_free_size :: "c_weld \<Rightarrow> nat result" where
  "get_free_size w = bindR (eint_minus size_type (int (m_size (m_weld_buf w))) (int (m_bufWrite w))) (\<lambda>n. Inr (nat n))"

definition adjust_bufWrite :: "nat \<Rightarrow> (c_weld, unit) action" where
  "adjust_bufWrite new_bufWrite w =
     (if \<not> new_bufWrite \<le> m_size (m_weld_buf w) then (Inl Err_check_prog, w) else (Inr (), w\<lparr>m_bufWrite := new_bufWrite\<rparr>))"

definition weld_ok :: "c_weld \<Rightarrow> bool" where
  "weld_ok w \<longleftrightarrow> m_bufWrite w \<le> m_size (m_weld_buf w) \<and> m_size (m_weld_buf w) < 2 ^ 64"

lemma weld_ok_ops:
  "weld_ok w \<Longrightarrow> weld_ok (weld_clear w)" "weld_ok w \<Longrightarrow> weld_ok (snd (adjust_bufWrite n w))"
  "memsize < 2 ^ 64 \<Longrightarrow> c_weld_new memsize h = (Inr w, h') \<Longrightarrow> weld_ok w"
  by (auto simp: weld_ok_def weld_clear_def adjust_bufWrite_def c_weld_new_def c_netbuf_new_run split: if_splits)

lemma get_free_size_exact:
  assumes "weld_ok w"
  shows "get_free_size w = Inr (m_size (m_weld_buf w) - m_bufWrite w)"
proof -
  let ?a = "int (m_size (m_weld_buf w))" and ?b = "int (m_bufWrite w)"
  have "int_type_ok size_type" "in_type size_type ?a" "in_type size_type ?b" "in_type size_type (?a - ?b)"
    using assms by (auto simp: weld_ok_def int_type_ok_def size_type_def in_type_def int_min_def int_max_def)
  with eint_sums [of size_type ?a ?b] assms show ?thesis by (simp add: get_free_size_def weld_ok_def nat_diff_distrib)
qed

text \<open>
  When a weld has room for a packet, the chunk of that size at its write position exists and
  lies behind everything written before; after the write position was moved by what was
  read, the weld still is well-formed.
\<close>

theorem weld_reserve:
  assumes "weld_ok w" and "get_free_size w = Inr free" and "packet_max \<le> free" and "merit \<le> packet_max"
  shows "get_chunk (m_weld_buf w) (m_bufWrite w) packet_max =
           Inr \<lparr>chunk_data = m_buf (m_weld_buf w) + m_bufWrite w, chunk_size = packet_max\<rparr> \<and>
         (\<exists>w'. adjust_bufWrite (m_bufWrite w + merit) w = (Inr (), w') \<and> weld_ok w' \<and>
           get_free_size w' = Inr (free - merit))"
proof -
  have free: "free = m_size (m_weld_buf w) - m_bufWrite w" using get_free_size_exact [OF assms(1)] assms(2) by simp
  have chunk: "get_chunk (m_weld_buf w) (m_bufWrite w) packet_max =
      Inr \<lparr>chunk_data = m_buf (m_weld_buf w) + m_bufWrite w, chunk_size = packet_max\<rparr>"
    by (subst chunk_inside) (use assms(1,3) free in \<open>auto simp: weld_ok_def\<close>)
  let ?w = "w\<lparr>m_bufWrite := m_bufWrite w + merit\<rparr>"
  have "adjust_bufWrite (m_bufWrite w + merit) w = (Inr (), ?w)" "weld_ok ?w"
    using assms free by (auto simp: adjust_bufWrite_def weld_ok_def)
  moreover have "get_free_size ?w = Inr (free - merit)"
    using get_free_size_exact [OF \<open>weld_ok ?w\<close>] free by simp
  ultimately show ?thesis using chunk by blast
qed

theorem weld_reserve_witness:
  "let w = \<lparr>m_empty = True, m_weld_buf = \<lparr>m_buf = 4096, m_size = 3000\<rparr>, m_bufWrite = 1000, m_bufRead = 0\<rparr>
   in get_chunk (m_weld_buf w) (m_bufWrite w) 1500 = Inr \<lparr>chunk_data = 5096, chunk_size = 1500\<rparr>"
proof -
  let ?w = "\<lparr>m_empty = True, m_weld_buf = \<lparr>m_buf = 4096, m_size = 3000\<rparr>, m_bufWrite = 1000, m_bufRead = 0\<rparr>"
  have ok: "weld_ok ?w" by (simp add: weld_ok_def)
  from get_free_size_exact [OF ok] have "get_free_size ?w = Inr 2000" by simp
  from weld_reserve [OF ok this, of 1500 100] show ?thesis by simp
qed

end
