(* ===== verification/Capabilities.thy ===== *)
theory Capabilities
  imports Std_Map
begin

text \<open>
  Capabilities of the process: \<^verbatim>\<open>src/src/utils/capmodpp.cpp\<close> and its header, a layer
  over libcap-ng.

  The library is a parameter, the record \<open>capng\<close> over an abstract state that has both the
  capabilities the kernel gives the process and the copy the library keeps; its results are the
  integers of its C interface. An enumeration of the library may hold any integer, hence the
  last constructor of each. \<open>capng_laws\<close> is what the manual pages promise: reading copies
  the kernel's sets, an update changes one bit of the copy, applying makes the kernel's sets the
  copy; nothing is promised of calls that report an error.

  Printing of states and changes is modelled as far as it can throw: the names it asks for.
\<close>

section \<open>The code\<close>

datatype capng_type_t = CAPNG_EFFECTIVE | CAPNG_PERMITTED | CAPNG_INHERITABLE | CAPNG_BOUNDING_SET | Other_type int
datatype capng_act_t = CAPNG_DROP | CAPNG_ADD | Other_act int
datatype capng_select_t = CAPNG_SELECT_CAPS | CAPNG_SELECT_BOUNDS | CAPNG_SELECT_BOTH | Other_select int

definition CAPNG_FAIL :: int where "CAPNG_FAIL = -1"
definition CAPNG_NONE :: int where "CAPNG_NONE = 0"
definition CAPNG_PARTIAL :: int where "CAPNG_PARTIAL = 1"
definition CAPNG_FULL :: int where "CAPNG_FULL = 2"

record 'k capng =
  CAP_LAST_CAP :: nat
  capng_have_capability :: "capng_type_t \<Rightarrow> nat \<Rightarrow> 'k \<Rightarrow> int"
  capng_have_capabilities :: "capng_select_t \<Rightarrow> 'k \<Rightarrow> int"
  capng_get_caps_process :: "'k \<Rightarrow> int \<times> 'k"
  capng_update :: "capng_act_t \<Rightarrow> capng_type_t \<Rightarrow> nat \<Rightarrow> 'k \<Rightarrow> int \<times> 'k"
  capng_apply :: "capng_select_t \<Rightarrow> 'k \<Rightarrow> int \<times> 'k"
  capng_name_to_capability :: "string \<Rightarrow> int"
  capng_capability_to_name :: "nat \<Rightarrow> string option"

subsection \<open>The calls of the library, with errors as exceptions\<close>

definition secure_capng_have_capability :: "('k, 'z) capng_scheme \<Rightarrow> capng_type_t \<Rightarrow> nat \<Rightarrow> 'k \<Rightarrow> int result" where
  "secure_capng_have_capability lib which capability k =
     (let rv = capng_have_capability lib which capability k;
          fail = (rv = CAPNG_FAIL);
          badval = (\<not> (rv = 0 \<or> rv = 1))
      in if fail \<or> badval then Inl Capmodpp_error else Inr rv)"

definition secure_capng_have_capabilities :: "('k, 'z) capng_scheme \<Rightarrow> capng_select_t \<Rightarrow> 'k \<Rightarrow> int result" where
  "secure_capng_have_capabilities lib sel k =
     (if \<not> (sel = CAPNG_SELECT_CAPS \<or> sel = CAPNG_SELECT_BOUNDS \<or> sel = CAPNG_SELECT_BOTH) then Inl Capmodpp_error
      else
        let rv = capng_have_capabilities lib sel k;
            fail = (rv = CAPNG_FAIL);
            badval = (\<not> (rv = CAPNG_NONE \<or> rv = CAPNG_PARTIAL \<or> rv = CAPNG_FULL))
        in if fail \<or> badval then Inl Capmodpp_error
           else if rv \<noteq> CAPNG_FAIL \<and> \<not> rv \<ge> 0 then Inl Capmodpp_error
           else Inr rv)"

definition safe_less_eq_than :: "int \<Rightarrow> nat \<Rightarrow> bool" where
  "safe_less_eq_than a b = (if a < 0 then True else nat a \<le> b)"

definition get_last_cap_nr :: "('k, 'z) capng_scheme \<Rightarrow> nat" where
  "get_last_cap_nr lib = CAP_LAST_CAP lib"

definition get_cap_size :: "('k, 'z) capng_scheme \<Rightarrow> nat" where
  "get_cap_size lib = CAP_LAST_CAP lib + 1"

definition secure_capng_capability_to_name :: "('k, 'z) capng_scheme \<Rightarrow> nat \<Rightarrow> string result" where
  "secure_capng_capability_to_name lib capability =
     (if \<not> capability \<le> get_last_cap_nr lib then Inl Capmodpp_error
      else case capng_capability_to_name lib capability of None \<Rightarrow> Inl Capmodpp_error | Some name \<Rightarrow> Inr name)"

definition max_expected_cap_name_length :: nat where
  "max_expected_cap_name_length = 256"

definition secure_capng_name_to_capability :: "('k, 'z) capng_scheme \<Rightarrow> string \<Rightarrow> int result" where
  \<comment> \<open>\<open>name\<close> is not a null pointer: the one caller passes \<open>c_str()\<close>\<close>
  "secure_capng_name_to_capability lib name =
     (let len = length name
      in if len \<le> 0 \<or> len > max_expected_cap_name_length then Inl Capmodpp_error
         else
           let rv = capng_name_to_capability lib name;
               fail = (rv = -1);
               badval = (\<not> (rv \<ge> 0 \<and> safe_less_eq_than rv (get_last_cap_nr lib)))
           in if fail \<or> badval then Inl Capmodpp_error else Inr rv)"

definition secure_capng_get_caps_process :: "('k, 'z) capng_scheme \<Rightarrow> ('k, unit) action" where
  "secure_capng_get_caps_process lib k =
     (case capng_get_caps_process lib k of (rv, k') \<Rightarrow> (if rv \<noteq> 0 then Inl Capmodpp_error else Inr (), k'))"

definition secure_capng_update :: "('k, 'z) capng_scheme \<Rightarrow> capng_act_t \<Rightarrow> capng_type_t \<Rightarrow> nat \<Rightarrow> ('k, unit) action" where
  "secure_capng_update lib act ty capability k =
     (if \<not> (act = CAPNG_DROP \<or> act = CAPNG_ADD) then (Inl Capmodpp_error, k)
      else if \<not> (ty = CAPNG_EFFECTIVE \<or> ty = CAPNG_PERMITTED \<or> ty = CAPNG_INHERITABLE \<or> ty = CAPNG_BOUNDING_SET)
      then (Inl Capmodpp_error, k)
      else if \<not> capability \<le> get_last_cap_nr lib then (Inl Capmodpp_error, k)
      else case capng_update lib act ty capability k of (rv, k') \<Rightarrow> (if rv \<noteq> 0 then Inl Capmodpp_error else Inr (), k'))"

definition secure_capng_apply :: "('k, 'z) capng_scheme \<Rightarrow> capng_select_t \<Rightarrow> ('k, unit) action" where
  "secure_capng_apply lib sel k =
     (if \<not> (sel = CAPNG_SELECT_CAPS \<or> sel = CAPNG_SELECT_BOUNDS \<or> sel = CAPNG_SELECT_BOTH) then (Inl Capmodpp_error, k)
      else case capng_apply lib sel k of (rv, k') \<Rightarrow> (if rv \<noteq> 0 then Inl Capmodpp_error else Inr (), k'))"

subsection \<open>States and changes\<close>

datatype cap_perm = perm_no | perm_yes
datatype cap_permchange = perm_disable | perm_enable | perm_unchanged
datatype cap_area_type = area_eff | area_permit | area_inherit | area_bounding

record cap_state =
  eff :: cap_perm
  permit :: cap_perm
  inherit :: cap_perm
  bounding :: cap_perm

record cap_statechange =
  ch_eff :: cap_permchange
  ch_permit :: cap_permchange
  ch_inherit :: cap_permchange
  ch_bounding :: cap_permchange

type_synonym cap_state_map = "(nat \<times> cap_state) list"

record cap_statechange_full =
  given :: "(nat \<times> cap_statechange) list"
  all_others :: cap_statechange

definition is_true :: "cap_perm \<Rightarrow> bool" where
  "is_true v \<longleftrightarrow> v = perm_yes"

definition cap_nr_to_name :: "('k, 'z) capng_scheme \<Rightarrow> nat \<Rightarrow> string result" where
  "cap_nr_to_name lib nr = (if nr > CAP_LAST_CAP lib then Inl Runtime_error else secure_capng_capability_to_name lib nr)"

definition c_str :: "string \<Rightarrow> string" where
  "c_str s = takeWhile (\<lambda>c. c \<noteq> CHR 0x00) s"

definition cap_name_to_nr :: "('k, 'z) capng_scheme \<Rightarrow> string \<Rightarrow> nat result" where
  "cap_name_to_nr lib name =
     bindR (secure_capng_name_to_capability lib (c_str name)) (\<lambda>nr.
       if nr \<ge> int (get_last_cap_nr lib) \<or> nr < 0 then Inl Runtime_error else Inr (nat nr))"

definition cap_state_new :: cap_state where
  "cap_state_new = \<lparr>eff = perm_no, permit = perm_no, inherit = perm_no, bounding = perm_no\<rparr>"

definition is_usable :: "cap_state \<Rightarrow> bool" where
  "is_usable s = (if eff s = perm_yes then True else if permit s = perm_yes then True
                  else if inherit s = perm_yes then True else False)"

definition is_any :: "cap_state \<Rightarrow> bool" where
  "is_any s = (if eff s = perm_yes then True else if permit s = perm_yes then True
               else if inherit s = perm_yes then True else if bounding s = perm_yes then True else False)"

definition apply_change_perm :: "cap_perm \<Rightarrow> cap_permchange \<Rightarrow> cap_perm" where
  "apply_change_perm perm change =
     (case change of perm_enable \<Rightarrow> perm_yes | perm_disable \<Rightarrow> perm_no | perm_unchanged \<Rightarrow> perm)"

definition apply_change :: "cap_statechange \<Rightarrow> cap_state \<Rightarrow> cap_state" where
  "apply_change change s =
     \<lparr>eff = apply_change_perm (eff s) (ch_eff change), permit = apply_change_perm (permit s) (ch_permit change),
      inherit = apply_change_perm (inherit s) (ch_inherit change), bounding = apply_change_perm (bounding s) (ch_bounding change)\<rparr>"

definition cap_statechange_none :: cap_statechange where
  "cap_statechange_none =
     \<lparr>ch_eff = perm_unchanged, ch_permit = perm_unchanged, ch_inherit = perm_unchanged, ch_bounding = perm_unchanged\<rparr>"

definition cap_statechange_new :: "cap_permchange \<Rightarrow> cap_permchange \<Rightarrow> cap_permchange \<Rightarrow> cap_statechange" where
  "cap_statechange_new given_eff given_permit given_inherit =
     \<lparr>ch_eff = given_eff, ch_permit = given_permit, ch_inherit = given_inherit, ch_bounding = perm_unchanged\<rparr>"

definition statechange_set :: "cap_area_type \<Rightarrow> cap_permchange \<Rightarrow> cap_statechange \<Rightarrow> cap_statechange" where
  "statechange_set area v ch =
     (case area of
        area_eff \<Rightarrow> ch\<lparr>ch_eff := v\<rparr> | area_permit \<Rightarrow> ch\<lparr>ch_permit := v\<rparr>
      | area_inherit \<Rightarrow> ch\<lparr>ch_inherit := v\<rparr> | area_bounding \<Rightarrow> ch\<lparr>ch_bounding := v\<rparr>)"

definition is_change :: "cap_statechange \<Rightarrow> bool" where
  "is_change ch =
     (if ch_eff ch \<noteq> perm_unchanged then True else if ch_permit ch \<noteq> perm_unchanged then True
      else if ch_inherit ch = perm_unchanged then True else if ch_bounding ch = perm_unchanged then True else False)"

definition print_state_names :: "('k, 'z) capng_scheme \<Rightarrow> int \<Rightarrow> cap_state_map \<Rightarrow> string list result" where
  \<comment> \<open>the names that \<open>cap_state_map::print\<close> shows at a level\<close>
  "print_state_names lib level m =
     (if level = 0 then mapR (\<lambda>item. secure_capng_capability_to_name lib (fst item))
                          (filter (\<lambda>item. is_usable (snd item) \<or> is_any (snd item)) m)
      else mapR (\<lambda>item. cap_nr_to_name lib (fst item)) (filter (\<lambda>item. level \<ge> 20 \<or> is_usable (snd item)) m))"

definition print_change_names :: "('k, 'z) capng_scheme \<Rightarrow> int \<Rightarrow> (nat \<times> cap_statechange) list \<Rightarrow> string list result" where
  "print_change_names lib level m =
     mapR (\<lambda>item. cap_nr_to_name lib (fst item)) (filter (\<lambda>item. level \<ge> 20 \<or> is_change (snd item)) m)"

definition cap_perm_of :: "int \<Rightarrow> cap_perm" where
  "cap_perm_of v = (if v > 0 then perm_yes else perm_no)"

definition read_cap_state :: "('k, 'z) capng_scheme \<Rightarrow> nat \<Rightarrow> 'k \<Rightarrow> cap_state result" where
  "read_cap_state lib nr k =
     bindR (secure_capng_have_capability lib CAPNG_EFFECTIVE nr k) (\<lambda>e.
     bindR (secure_capng_have_capability lib CAPNG_PERMITTED nr k) (\<lambda>p.
     bindR (secure_capng_have_capability lib CAPNG_INHERITABLE nr k) (\<lambda>i.
     bindR (secure_capng_have_capability lib CAPNG_BOUNDING_SET nr k) (\<lambda>b.
       Inr \<lparr>eff = cap_perm_of e, permit = cap_perm_of p, inherit = cap_perm_of i, bounding = cap_perm_of b\<rparr>))))"

definition read_process_caps :: "('k, 'z) capng_scheme \<Rightarrow> ('k, cap_state_map) action" where
  "read_process_caps lib =
     andThen (secure_capng_get_caps_process lib) (\<lambda>_ k.
       (foldR (\<lambda>nr statemap. bindR (read_cap_state lib nr k) (\<lambda>state. Inr (emplace_key nr state statemap)))
          [0..<Suc (CAP_LAST_CAP lib)] [], k))"

definition set_given_cap ::
    "('k, 'z) capng_scheme \<Rightarrow> string \<Rightarrow> cap_statechange \<Rightarrow> cap_statechange_full \<Rightarrow> cap_statechange_full result" where
  "set_given_cap lib capname change full =
     bindR (cap_name_to_nr lib capname) (\<lambda>nr. Inr (full\<lparr>given := emplace_key nr change (given full)\<rparr>))"

definition set_all_others :: "cap_statechange \<Rightarrow> cap_statechange_full \<Rightarrow> cap_statechange_full" where
  "set_all_others change full = full\<lparr>all_others := change\<rparr>"

definition cap_statechange_full_new :: cap_statechange_full where
  "cap_statechange_full_new = \<lparr>given = [], all_others = cap_statechange_none\<rparr>"

definition change_for :: "cap_statechange_full \<Rightarrow> nat \<Rightarrow> cap_statechange" where
  \<comment> \<open>the rule for a capability: its own, or the one for all others\<close>
  "change_for full nr = (case find_key nr (given full) of Some change \<Rightarrow> change | None \<Rightarrow> all_others full)"

definition update_area :: "('k, 'z) capng_scheme \<Rightarrow> capng_type_t \<Rightarrow> nat \<Rightarrow> cap_perm \<Rightarrow> cap_perm \<Rightarrow> ('k, unit) action" where
  "update_area lib ty nr perm_new perm_old =
     (if perm_new \<noteq> perm_old
      then secure_capng_update lib (if perm_new = perm_yes then CAPNG_ADD else CAPNG_DROP) ty nr
      else ret ())"

definition update_cap :: "('k, 'z) capng_scheme \<Rightarrow> cap_state_map \<Rightarrow> nat \<times> cap_state \<Rightarrow> ('k, unit) action" where
  "update_cap lib state_old item =
     (let nr = fst item; cap_new = snd item
      in andThen (liftR (case find_key nr state_old of None \<Rightarrow> Inl Out_of_range | Some cap \<Rightarrow> Inr cap)) (\<lambda>cap_old.
         andThen (update_area lib CAPNG_BOUNDING_SET nr (bounding cap_new) (bounding cap_old)) (\<lambda>_.
         andThen (update_area lib CAPNG_PERMITTED nr (permit cap_new) (permit cap_old)) (\<lambda>_.
         andThen (update_area lib CAPNG_EFFECTIVE nr (eff cap_new) (eff cap_old)) (\<lambda>_.
         update_area lib CAPNG_INHERITABLE nr (inherit cap_new) (inherit cap_old))))))"

definition security_apply_now :: "('k, 'z) capng_scheme \<Rightarrow> cap_statechange_full \<Rightarrow> ('k, unit) action" where
  "security_apply_now lib full =
     andThen (read_process_caps lib) (\<lambda>state_old.
       let state_new = map (\<lambda>item. (fst item, apply_change (change_for full (fst item)) (snd item))) state_old
       in andThen (secure_capng_get_caps_process lib) (\<lambda>_.
          andThen (forA (update_cap lib state_old) state_new) (\<lambda>_.
          secure_capng_apply lib CAPNG_SELECT_BOTH)))"


section \<open>What the library promises\<close>

type_synonym cap_sets = "capng_type_t \<Rightarrow> nat \<Rightarrow> bool"

definition capng_laws :: "('k, 'z) capng_scheme \<Rightarrow> ('k \<Rightarrow> cap_sets) \<Rightarrow> ('k \<Rightarrow> cap_sets) \<Rightarrow> bool" where
  \<comment> \<open>\<open>caps\<close> are the sets of the process in the kernel, \<open>cached\<close> the copy of the library\<close>
  "capng_laws lib caps cached \<longleftrightarrow>
     (\<forall>ty nr k. capng_have_capability lib ty nr k \<in> {0, 1} \<longrightarrow> (capng_have_capability lib ty nr k = 1 \<longleftrightarrow> cached k ty nr)) \<and>
     (\<forall>k k'. capng_get_caps_process lib k = (0, k') \<longrightarrow> caps k' = caps k \<and> cached k' = caps k) \<and>
     (\<forall>act ty nr k k'. capng_update lib act ty nr k = (0, k') \<longrightarrow>
        caps k' = caps k \<and> cached k' = (cached k)(ty := (cached k ty)(nr := (act = CAPNG_ADD)))) \<and>
     (\<forall>k k'. capng_apply lib CAPNG_SELECT_BOTH k = (0, k') \<longrightarrow> caps k' = cached k \<and> cached k' = cached k) \<and>
     (\<forall>k. (\<forall>ty nr. ty \<in> {CAPNG_EFFECTIVE, CAPNG_PERMITTED, CAPNG_INHERITABLE} \<longrightarrow> nr \<le> CAP_LAST_CAP lib \<longrightarrow> \<not> cached k ty nr) \<longrightarrow>
        capng_have_capabilities lib CAPNG_SELECT_CAPS k = CAPNG_NONE)"

definition perm_if :: "bool \<Rightarrow> cap_perm" where
  "perm_if b = (if b then perm_yes else perm_no)"

definition state_of :: "cap_sets \<Rightarrow> nat \<Rightarrow> cap_state" where
  "state_of c nr = \<lparr>eff = perm_if (c CAPNG_EFFECTIVE nr), permit = perm_if (c CAPNG_PERMITTED nr),
                    inherit = perm_if (c CAPNG_INHERITABLE nr), bounding = perm_if (c CAPNG_BOUNDING_SET nr)\<rparr>"

lemma perm_if_simps [simp]: "perm_if b = perm_yes \<longleftrightarrow> b" "perm_if b = perm_no \<longleftrightarrow> \<not> b"
  "perm_if (p = perm_yes) = p"
  by (cases p; simp add: perm_if_def)+

lemma emplace_key_last:
  "\<forall>k' \<in> fst ` set m. k' < k \<Longrightarrow> emplace_key k v m = m @ [(k, v)]" for k :: "'k::linorder"
  by (induction m) (auto dest: order.asym)

lemma read_cap_state_laws:
  "capng_laws lib caps cached \<Longrightarrow> read_cap_state lib nr k = Inr s \<Longrightarrow> s = state_of (cached k) nr"
  by (auto simp: capng_laws_def read_cap_state_def secure_capng_have_capability_def Let_def bindR_eq_Inr_conv state_of_def
      cap_perm_of_def perm_if_def split: if_splits)

lemma read_loop_run:
  assumes "capng_laws lib caps cached"
  shows "foldR (\<lambda>nr m. bindR (read_cap_state lib nr k) (\<lambda>s. Inr (emplace_key nr s m))) [0..<n] [] = Inr m \<Longrightarrow>
    m = map (\<lambda>nr. (nr, state_of (cached k) nr)) [0..<n]"
proof (induction n arbitrary: m)
  case (Suc n)
  then obtain m0 s where m0: "foldR (\<lambda>nr m. bindR (read_cap_state lib nr k) (\<lambda>s. Inr (emplace_key nr s m))) [0..<n] [] = Inr m0"
    and s: "read_cap_state lib n k = Inr s" and m: "m = emplace_key n s m0"
    by (auto simp: foldR_append bindR_eq_Inr_conv)
  show ?case
    using Suc.IH [OF m0] read_cap_state_laws [OF assms s] m emplace_key_last [of m0 n s] by simp
qed simp

lemma get_caps_process_run:
  "capng_laws lib caps cached \<Longrightarrow> secure_capng_get_caps_process lib k = (Inr u, k') \<Longrightarrow>
     caps k' = caps k \<and> cached k' = caps k"
  by (auto simp: capng_laws_def secure_capng_get_caps_process_def split: prod.splits if_splits)

lemma read_process_caps_run:
  assumes "capng_laws lib caps cached" and "read_process_caps lib k = (Inr m, k')"
  shows "caps k' = caps k" "cached k' = caps k"
    "m = map (\<lambda>nr. (nr, state_of (caps k) nr)) [0..<Suc (CAP_LAST_CAP lib)]"
proof -
  obtain u where get: "secure_capng_get_caps_process lib k = (Inr u, k')"
    and loop: "foldR (\<lambda>nr m. bindR (read_cap_state lib nr k') (\<lambda>s. Inr (emplace_key nr s m))) [0..<Suc (CAP_LAST_CAP lib)] [] = Inr m"
    using assms(2) by (auto simp: read_process_caps_def dest!: andThen_eq_InrD)
  from get_caps_process_run [OF assms(1) get] show "caps k' = caps k" "cached k' = caps k" by auto
  with read_loop_run [OF assms(1) loop] show "m = map (\<lambda>nr. (nr, state_of (caps k) nr)) [0..<Suc (CAP_LAST_CAP lib)]" by simp
qed

section \<open>Applying a change\<close>

lemma update_area_run:
  assumes "capng_laws lib caps cached" and "update_area lib ty nr perm_new (perm_if (cached k ty nr)) k = (Inr u, k')"
  shows "caps k' = caps k \<and> cached k' = (cached k)(ty := (cached k ty)(nr := (perm_new = perm_yes)))"
proof (cases "perm_new = perm_if (cached k ty nr)")
  case True
  then show ?thesis using assms(2) by (auto simp: update_area_def)
next
  case False
  have law: "capng_update lib act ty nr k = (0, k') \<Longrightarrow>
      caps k' = caps k \<and> cached k' = (cached k)(ty := (cached k ty)(nr := (act = CAPNG_ADD)))" for act
    using assms(1) by (simp add: capng_laws_def)
  from False assms(2) show ?thesis
    using law [of CAPNG_ADD] law [of CAPNG_DROP]
    by (auto simp: update_area_def secure_capng_update_def split: prod.splits if_splits)
qed

lemma update_cap_run:
  assumes laws: "capng_laws lib caps cached"
    and old: "find_key nr state_old = Some (state_of (cached k) nr)"
    and run: "update_cap lib state_old (nr, cap_new) k = (Inr u, k')"
  shows "caps k' = caps k \<and> (\<forall>n. state_of (cached k') n = (if n = nr then cap_new else state_of (cached k) n))"
proof -
  obtain u1 k1 u2 k2 u3 k3 where
      b: "update_area lib CAPNG_BOUNDING_SET nr (bounding cap_new) (perm_if (cached k CAPNG_BOUNDING_SET nr)) k = (Inr u1, k1)"
    and p: "update_area lib CAPNG_PERMITTED nr (permit cap_new) (perm_if (cached k CAPNG_PERMITTED nr)) k1 = (Inr u2, k2)"
    and e: "update_area lib CAPNG_EFFECTIVE nr (eff cap_new) (perm_if (cached k CAPNG_EFFECTIVE nr)) k2 = (Inr u3, k3)"
    and i: "update_area lib CAPNG_INHERITABLE nr (inherit cap_new) (perm_if (cached k CAPNG_INHERITABLE nr)) k3 = (Inr u, k')"
    using run by (auto simp: update_cap_def old Let_def state_of_def dest!: andThen_eq_InrD)
  note 1 = update_area_run [OF laws b]
  have 2: "caps k2 = caps k1 \<and> cached k2 = (cached k1)(CAPNG_PERMITTED := (cached k1 CAPNG_PERMITTED)(nr := (permit cap_new = perm_yes)))"
    by (rule update_area_run [OF laws]) (use 1 p in simp)
  have 3: "caps k3 = caps k2 \<and> cached k3 = (cached k2)(CAPNG_EFFECTIVE := (cached k2 CAPNG_EFFECTIVE)(nr := (eff cap_new = perm_yes)))"
    by (rule update_area_run [OF laws]) (use 1 2 e in simp)
  have 4: "caps k' = caps k3 \<and> cached k' = (cached k3)(CAPNG_INHERITABLE := (cached k3 CAPNG_INHERITABLE)(nr := (inherit cap_new = perm_yes)))"
    by (rule update_area_run [OF laws]) (use 1 2 3 i in simp)
  from 1 2 3 4 show ?thesis by (simp add: state_of_def)
qed

lemma update_loop_run:
  assumes laws: "capng_laws lib caps cached"
  shows "forA (update_cap lib state_old) (map (\<lambda>nr. (nr, new nr)) nrs) k = (Inr u, k') \<Longrightarrow> distinct nrs \<Longrightarrow>
    (\<And>nr. nr \<in> set nrs \<Longrightarrow> find_key nr state_old = Some (state_of (cached k) nr)) \<Longrightarrow>
    caps k' = caps k \<and> (\<forall>n. state_of (cached k') n = (if n \<in> set nrs then new n else state_of (cached k) n))"
proof (induction nrs arbitrary: k)
  case (Cons nr nrs)
  obtain u1 k1 where 1: "update_cap lib state_old (nr, new nr) k = (Inr u1, k1)"
    and 2: "forA (update_cap lib state_old) (map (\<lambda>nr. (nr, new nr)) nrs) k1 = (Inr u, k')"
    using Cons.prems(1) by (auto dest!: andThen_eq_InrD)
  have run1: "caps k1 = caps k \<and> (\<forall>n. state_of (cached k1) n = (if n = nr then new nr else state_of (cached k) n))"
    by (rule update_cap_run [OF laws _ 1]) (simp add: Cons.prems(3))
  have "caps k' = caps k1 \<and> (\<forall>n. state_of (cached k') n = (if n \<in> set nrs then new n else state_of (cached k1) n))"
    by (rule Cons.IH [OF 2]) (use Cons.prems(2,3) run1 in auto)
  with run1 show ?case by auto
qed simp

lemma apply_now_run:
  assumes laws: "capng_laws lib caps cached" and run: "security_apply_now lib full k = (Inr u, k')"
  shows "cached k' = caps k' \<and>
    (\<forall>nr \<le> CAP_LAST_CAP lib. state_of (caps k') nr = apply_change (change_for full nr) (state_of (caps k) nr)) \<and>
    (\<forall>nr > CAP_LAST_CAP lib. state_of (caps k') nr = state_of (caps k) nr)"
proof -
  let ?nrs = "[0..<Suc (CAP_LAST_CAP lib)]"
  let ?new = "\<lambda>nr. apply_change (change_for full nr) (state_of (caps k) nr)"
  obtain m k1 where read: "read_process_caps lib k = (Inr m, k1)"
    and rest: "andThen (secure_capng_get_caps_process lib) (\<lambda>_.
       andThen (forA (update_cap lib m) (map (\<lambda>item. (fst item, apply_change (change_for full (fst item)) (snd item))) m)) (\<lambda>_.
       secure_capng_apply lib CAPNG_SELECT_BOTH)) k1 = (Inr u, k')"
    using run by (auto simp: security_apply_now_def Let_def dest!: andThen_eq_InrD)
  note m = read_process_caps_run [OF laws read]
  have new: "map (\<lambda>item. (fst item, apply_change (change_for full (fst item)) (snd item))) m = map (\<lambda>nr. (nr, ?new nr)) ?nrs"
    by (simp add: m(3) comp_def del: upt_Suc)
  obtain u2 k2 u3 k3 where get: "secure_capng_get_caps_process lib k1 = (Inr u2, k2)"
    and loop: "forA (update_cap lib m) (map (\<lambda>nr. (nr, ?new nr)) ?nrs) k2 = (Inr u3, k3)"
    and app: "secure_capng_apply lib CAPNG_SELECT_BOTH k3 = (Inr u, k')"
    using rest unfolding new by (blast dest: andThen_eq_InrD)
  have k2: "caps k2 = caps k" "cached k2 = caps k"
    using get_caps_process_run [OF laws get] m by simp_all
  have "caps k3 = caps k2 \<and> (\<forall>n. state_of (cached k3) n = (if n \<in> set ?nrs then ?new n else state_of (cached k2) n))"
    by (rule update_loop_run [OF laws loop])
      (auto simp: m(3) map_find_linorder map_of_map_restrict k2 restrict_map_def simp del: upt_Suc)
  moreover have "caps k' = cached k3" "cached k' = cached k3"
    using laws app by (auto simp: capng_laws_def secure_capng_apply_def split: prod.splits if_splits)
  ultimately show ?thesis by (auto simp: k2 simp del: upt_Suc)
qed

text \<open>
  C25: when \<open>security_apply_now\<close> returns, the kernel has given every capability the state that
  its own rule, or else the rule for all others, makes of the state before, and the
  copy of the library agrees with the kernel.
\<close>

theorem security_apply_now_refines:
  assumes "capng_laws lib caps cached" and "security_apply_now lib full k = (Inr (), k')"
  shows "state_of (caps k') nr =
           (if nr \<le> CAP_LAST_CAP lib then apply_change (change_for full nr) (state_of (caps k) nr) else state_of (caps k) nr) \<and>
         cached k' = caps k'"
  using apply_now_run [OF assms] by (auto simp: not_le)

text \<open>A kernel and a library that behave, with the capabilities of a process started by sudo.\<close>

record cap_kernel =
  kernel_sets :: cap_sets
  library_sets :: cap_sets
  kernel_uid :: nat

definition example_capng :: "cap_kernel capng" where
  "example_capng =
     \<lparr>CAP_LAST_CAP = 20,
      capng_have_capability = (\<lambda>ty nr k. if library_sets k ty nr then 1 else 0),
      capng_have_capabilities = (\<lambda>sel k. if \<exists>ty \<in> {CAPNG_EFFECTIVE, CAPNG_PERMITTED, CAPNG_INHERITABLE}. \<exists>nr \<in> {0..20}. library_sets k ty nr then 1 else 0),
      capng_get_caps_process = (\<lambda>k. (0, k\<lparr>library_sets := kernel_sets k\<rparr>)),
      capng_update = (\<lambda>act ty nr k. (0, k\<lparr>library_sets := (library_sets k)(ty := (library_sets k ty)(nr := (act = CAPNG_ADD)))\<rparr>)),
      capng_apply = (\<lambda>sel k. (0, k\<lparr>kernel_sets := library_sets k\<rparr>)),
      capng_name_to_capability = (\<lambda>name. if name = ''NET_ADMIN'' then 12 else if name = ''NET_RAW'' then 13 else
         if name = ''SETUID'' then 7 else if name = ''SETGID'' then 6 else if name = ''SETPCAP'' then 8 else if name = ''CHOWN'' then 0 else -1),
      capng_capability_to_name = (\<lambda>nr. Some ''cap'')\<rparr>"

definition example_kernel :: cap_kernel where
  "example_kernel = \<lparr>kernel_sets = (\<lambda>ty nr. True), library_sets = (\<lambda>ty nr. False), kernel_uid = 1000\<rparr>"

lemma example_capng_laws: "capng_laws example_capng kernel_sets library_sets"
  by (auto simp: capng_laws_def example_capng_def CAPNG_NONE_def)

section \<open>A library whose calls succeed\<close>

definition returns :: "('s, 'a) action \<Rightarrow> bool" where
  "returns m \<longleftrightarrow> (\<forall>s. \<exists>a s'. m s = (Inr a, s'))"

lemma returnsD: "returns m \<Longrightarrow> \<exists>a s'. m s = (Inr a, s')"
  by (simp add: returns_def)

lemma returns_ret [simp]: "returns (ret a)" "returns (Pair (Inr a))" "returns (liftR (Inr a))"
  by (simp_all add: returns_def)

lemma returns_andThen: "returns m \<Longrightarrow> (\<And>a s s'. m s = (Inr a, s') \<Longrightarrow> returns (f a)) \<Longrightarrow> returns (andThen m f)"
  unfolding returns_def by (metis andThen_Inr)

lemma returns_forA: "(\<And>x. x \<in> set xs \<Longrightarrow> returns (f x)) \<Longrightarrow> returns (forA f xs)"
proof (induction xs)
  case (Cons x xs)
  then show ?case unfolding forA.simps by (intro returns_andThen) auto
qed (simp add: returns_def)

definition capng_succeeds :: "('k, 'z) capng_scheme \<Rightarrow> bool" where
  "capng_succeeds lib \<longleftrightarrow>
     (\<forall>ty nr k. capng_have_capability lib ty nr k \<in> {0, 1}) \<and> (\<forall>k. fst (capng_get_caps_process lib k) = 0) \<and>
     (\<forall>act ty nr k. fst (capng_update lib act ty nr k) = 0) \<and> (\<forall>sel k. fst (capng_apply lib sel k) = 0) \<and>
     (\<forall>nr \<le> CAP_LAST_CAP lib. capng_capability_to_name lib nr \<noteq> None)"

lemma read_loop_returns:
  "capng_succeeds lib \<Longrightarrow> \<exists>m. foldR (\<lambda>nr m. bindR (read_cap_state lib nr k) (\<lambda>s. Inr (emplace_key nr s m))) nrs acc = Inr m"
proof (induction nrs arbitrary: acc)
  case (Cons nr nrs)
  have "secure_capng_have_capability lib ty nr k = Inr (capng_have_capability lib ty nr k)" for ty
  proof -
    have "capng_have_capability lib ty nr k \<in> {0, 1}" using Cons.prems by (simp add: capng_succeeds_def)
    then show ?thesis by (auto simp: secure_capng_have_capability_def Let_def CAPNG_FAIL_def)
  qed
  with Cons.IH [OF Cons.prems] show ?case by (simp add: read_cap_state_def)
qed simp

lemma returns_get_caps: "capng_succeeds lib \<Longrightarrow> returns (secure_capng_get_caps_process lib)"
  by (auto simp: returns_def capng_succeeds_def secure_capng_get_caps_process_def split: prod.splits) (metis fst_conv)

lemma returns_read_process_caps: "capng_succeeds lib \<Longrightarrow> returns (read_process_caps lib)"
  unfolding read_process_caps_def
  by (rule returns_andThen [OF returns_get_caps]) (auto simp: returns_def dest: read_loop_returns)

lemma returns_update_area:
  "capng_succeeds lib \<Longrightarrow> nr \<le> CAP_LAST_CAP lib \<Longrightarrow> ty \<in> {CAPNG_EFFECTIVE, CAPNG_PERMITTED, CAPNG_INHERITABLE, CAPNG_BOUNDING_SET} \<Longrightarrow>
     returns (update_area lib ty nr perm_new perm_old)"
  by (auto simp: returns_def capng_succeeds_def update_area_def secure_capng_update_def get_last_cap_nr_def split: prod.splits)
    (metis fst_conv)+

lemma returns_update_cap:
  assumes "capng_succeeds lib" and "nr \<le> CAP_LAST_CAP lib" and "find_key nr state_old \<noteq> None"
  shows "returns (update_cap lib state_old (nr, cap_new))"
  using assms(3) by (auto simp: update_cap_def Let_def returns_def [of "liftR x" for x] intro!: returns_andThen returns_update_area assms(1,2))

lemma returns_security_apply_now:
  assumes "capng_laws lib caps cached" and "capng_succeeds lib"
  shows "returns (security_apply_now lib full)"
  unfolding security_apply_now_def Let_def
proof (rule returns_andThen [OF returns_read_process_caps [OF assms(2)]], rule returns_andThen [OF returns_get_caps [OF assms(2)]],
    rule returns_andThen [OF returns_forA])
  fix m k k' item
  assume read: "read_process_caps lib k = (Inr m, k')"
    and "item \<in> set (map (\<lambda>item. (fst item, apply_change (change_for full (fst item)) (snd item))) m)"
  then obtain nr s where item: "item = (nr, s)" and nr: "nr \<le> CAP_LAST_CAP lib" "find_key nr m \<noteq> None"
    by (auto simp: read_process_caps_run(3) [OF assms(1) read] map_find_linorder map_of_map_restrict simp del: upt_Suc)
  show "returns (update_cap lib m item)" unfolding item by (rule returns_update_cap [OF assms(2) nr])
next
  show "returns (secure_capng_apply lib CAPNG_SELECT_BOTH)"
    using assms(2) by (auto simp: returns_def capng_succeeds_def secure_capng_apply_def split: prod.splits) (metis fst_conv)
qed

lemma example_capng_succeeds: "capng_succeeds example_capng"
  by (simp add: capng_succeeds_def example_capng_def)

theorem security_apply_now_refines_witness:
  "\<exists>k'. security_apply_now example_capng (cap_statechange_full_new\<lparr>all_others := cap_statechange_new perm_disable perm_disable perm_disable\<rparr>)
          example_kernel = (Inr (), k') \<and>
        state_of (kernel_sets k') 7 = \<lparr>eff = perm_no, permit = perm_no, inherit = perm_no, bounding = perm_yes\<rparr>"
proof -
  let ?full = "cap_statechange_full_new\<lparr>all_others := cap_statechange_new perm_disable perm_disable perm_disable\<rparr>"
  obtain k' where run: "security_apply_now example_capng ?full example_kernel = (Inr (), k')"
    using returns_security_apply_now [OF example_capng_laws example_capng_succeeds] unfolding returns_def by (metis old.unit.exhaust)
  from security_apply_now_refines [OF example_capng_laws run, of 7] run show ?thesis
    by (simp add: example_capng_def change_for_def cap_statechange_full_new_def cap_statechange_new_def apply_change_def
        apply_change_perm_def state_of_def example_kernel_def perm_if_def)
qed

text \<open>
  The last capability cannot be named: its number is valid for the library and is refused
  here. A change of nothing counts as a change, and one of the inheritable or the bounding set alone may
  not.
\<close>

lemma last_capability_refused:
  "secure_capng_name_to_capability lib (c_str name) = Inr (int (CAP_LAST_CAP lib)) \<Longrightarrow> cap_name_to_nr lib name = Inl Runtime_error"
  by (simp add: cap_name_to_nr_def get_last_cap_nr_def)

lemma is_change_inverted:
  "is_change cap_statechange_none"
  "\<not> is_change (cap_statechange_none\<lparr>ch_inherit := perm_disable, ch_bounding := perm_disable\<rparr>)"
  by (simp_all add: is_change_def cap_statechange_none_def)

end
