(* ===== verification/Privileges.thy ===== *)
theory Privileges
  imports Capabilities Datastore
begin

text \<open>
  What the program does with its privileges on Linux: \<^verbatim>\<open>src/src/utils/privileges.cpp\<close>. It is
  started as root, by sudo, to configure the card; \<open>drop_root\<close> goes back to the user,
  and the capabilities are given up in three steps: at the start, after the card is set
  up, and before the main loop, which begins with \<open>verify_privileges_are_as_for_mainloop\<close>.

  The calls of the operating system extend the library of the theory \<open>Capabilities\<close>.
  \<open>note\<close> and \<open>clue\<close> tell whether the log prints messages of those levels: their arguments are
  only evaluated then, and evaluating them reads the capabilities again.
\<close>

section \<open>The code\<close>

record 'k proc_lib = "'k capng" +
  getuid :: "'k \<Rightarrow> nat"
  geteuid :: "'k \<Rightarrow> nat"
  SUDO_USER :: "string option"
  getpwnam :: "string \<Rightarrow> (nat \<times> nat \<times> string option) option"     \<comment> \<open>user, group, home directory\<close>
  capng_change_id :: "nat \<Rightarrow> nat \<Rightarrow> 'k \<Rightarrow> int \<times> 'k"

definition get_security_info :: "('k, 'z) proc_lib_scheme \<Rightarrow> bool \<Rightarrow> ('k, unit) action" where
  \<comment> \<open>\<open>noexcept\<close>: an exception that is not caught ends the process; the text is left out\<close>
  "get_security_info lib verbose k =
     (case andThen (read_process_caps lib) (\<lambda>caps_now.
           andThen (liftR (print_state_names lib 0 caps_now)) (\<lambda>_.
             if verbose then andThen (liftR (print_state_names lib 20 caps_now)) (\<lambda>_. ret ()) else ret ())) k of
        (Inr _, k') \<Rightarrow> (Inr (), k')
      | (Inl e, k') \<Rightarrow> (if e = Runtime_error then Inr () else Inl Abort, k'))"

definition security_apply_cap_change :: "('k, 'z) proc_lib_scheme \<Rightarrow> bool \<Rightarrow> bool \<Rightarrow> cap_statechange_full \<Rightarrow> ('k, unit) action" where
  "security_apply_cap_change lib note clue change =
     andThen (if note then get_security_info lib True else ret ()) (\<lambda>_.
     andThen (if clue then andThen (liftR (print_change_names lib 20 (given change))) (\<lambda>_. ret ()) else ret ()) (\<lambda>_.
     andThen (security_apply_now lib change) (\<lambda>_.
     if note then get_security_info lib True else ret ())))"

definition do_we_need_to_change_uid_or_gid :: "('k, 'z) proc_lib_scheme \<Rightarrow> 'k \<Rightarrow> bool result" where
  "do_we_need_to_change_uid_or_gid lib k =
     (let uid = getuid lib k; euid = geteuid lib k
      in if uid \<noteq> euid then Inl Abort
         else if euid = 0 then Inr True else if uid = 0 then Inr True else Inr False)"

definition need_change_uid :: "('k, 'z) proc_lib_scheme \<Rightarrow> ('k, bool) action" where
  "need_change_uid lib k = (do_we_need_to_change_uid_or_gid lib k, k)"

definition security_drop_root_from_sudo :: "('k, 'z) proc_lib_scheme \<Rightarrow> bool \<Rightarrow> ('k, string) action" where
  \<comment> \<open>returns the home directory of \<open>t_changes_from_sudo\<close>\<close>
  "security_drop_root_from_sudo lib note =
     andThen (need_change_uid lib) (\<lambda>root.
       if \<not> root then ret ''''
       else
         andThen (if note then get_security_info lib False else ret ()) (\<lambda>_.
         case SUDO_USER lib of
           None \<Rightarrow> raise Runtime_error
         | Some sudo_user_name \<Rightarrow>
             (case getpwnam lib (c_str sudo_user_name) of
               None \<Rightarrow> raise System_error
             | Some (normal_user_uid, normal_user_gid, pw_dir) \<Rightarrow>
                 if normal_user_uid = 0 then raise Runtime_error
                 else
                   andThen (secure_capng_get_caps_process lib) (\<lambda>_.
                   andThen (\<lambda>k. case capng_change_id lib normal_user_uid normal_user_gid k of
                              (rv, k') \<Rightarrow> (if rv \<noteq> 0 then Inl System_error else Inr (), k')) (\<lambda>_.
                   andThen (if note then get_security_info lib False else ret ()) (\<lambda>_.
                   andThen (need_change_uid lib) (\<lambda>still_root.
                     if still_root then raise Abort
                     else ret (case pw_dir of None \<Rightarrow> '''' | Some dir \<Rightarrow> dir))))))))"

definition disable_all :: cap_statechange where
  "disable_all = cap_statechange_new perm_disable perm_disable perm_disable"

definition keep_all :: cap_statechange where
  "keep_all = cap_statechange_new perm_unchanged perm_unchanged perm_unchanged"

definition set_given_caps ::
    "('k, 'z) capng_scheme \<Rightarrow> cap_statechange \<Rightarrow> string list \<Rightarrow> cap_statechange_full \<Rightarrow> cap_statechange_full result" where
  "set_given_caps lib change names = foldR (\<lambda>name full. set_given_cap lib name change full) names"

definition drop_privileges_on_startup :: "('k, 'z) proc_lib_scheme \<Rightarrow> bool \<Rightarrow> bool \<Rightarrow> ('k, unit) action" where
  "drop_privileges_on_startup lib note clue =
     andThen (liftR (set_given_caps lib keep_all [''NET_ADMIN'', ''NET_RAW'']
                       (set_all_others disable_all cap_statechange_full_new))) (\<lambda>change.
     andThen (need_change_uid lib) (\<lambda>root.
     andThen (liftR (if root then set_given_caps lib keep_all [''SETUID'', ''SETGID'', ''SETPCAP'', ''CHOWN''] change
                     else Inr change)) (\<lambda>change'.
     security_apply_cap_change lib note clue change')))"

definition drop_privileges_after_tuntap :: "('k, 'z) proc_lib_scheme \<Rightarrow> bool \<Rightarrow> bool \<Rightarrow> ('k, unit) action" where
  "drop_privileges_after_tuntap lib note clue =
     andThen (liftR (set_given_caps lib disable_all [''NET_ADMIN'', ''NET_RAW'']
                       (set_all_others keep_all cap_statechange_full_new))) (\<lambda>change.
     security_apply_cap_change lib note clue change)"

definition drop_privileges_before_mainloop :: "('k, 'z) proc_lib_scheme \<Rightarrow> bool \<Rightarrow> bool \<Rightarrow> ('k, unit) action" where
  "drop_privileges_before_mainloop lib note clue =
     security_apply_cap_change lib note clue (set_all_others disable_all cap_statechange_full_new)"

definition verify_privileges_are_as_for_mainloop :: "('k, 'z) proc_lib_scheme \<Rightarrow> 'k \<Rightarrow> unit result" where
  "verify_privileges_are_as_for_mainloop lib k =
     bindR (secure_capng_have_capabilities lib CAPNG_SELECT_CAPS k) (\<lambda>rv.
       if rv > CAPNG_NONE then Inl Abort
       else bindR (do_we_need_to_change_uid_or_gid lib k) (\<lambda>root. if root then Inl Abort else Inr ()))"

definition drop_root :: "('k, 'z) proc_lib_scheme \<Rightarrow> bool \<Rightarrow> bool \<Rightarrow> ('k \<times> 'fs datastore, unit) action" where
  "drop_root lib note home_always_env =
     andThen (\<lambda>(k, ds).
        case security_drop_root_from_sudo lib note k of
          (Inr home, k') \<Rightarrow> (Inr home, (k', ds))
        | (Inl e, k') \<Rightarrow> (if e = Runtime_error then Inr '''' else Inl e, (k', ds))) (\<lambda>m_home_dir (k, ds).
     (Inr (), (k, set_home (if home_always_env then '''' else m_home_dir) ds)))"


section \<open>What the operations do to the sets of the process\<close>

definition proc_laws :: "('k, 'z) proc_lib_scheme \<Rightarrow> ('k \<Rightarrow> cap_sets) \<Rightarrow> ('k \<Rightarrow> cap_sets) \<Rightarrow> bool" where
  \<comment> \<open>only \<open>capng_change_id\<close> changes the user, and when it reports success it did\<close>
  "proc_laws lib caps cached \<longleftrightarrow> capng_laws lib caps cached \<and>
     (\<forall>u g k k'. capng_change_id lib u g k = (0, k') \<longrightarrow> getuid lib k' = u \<and> geteuid lib k' = u) \<and>
     (\<forall>k. let k' = snd (capng_get_caps_process lib k) in getuid lib k' = getuid lib k \<and> geteuid lib k' = geteuid lib k) \<and>
     (\<forall>act ty nr k. let k' = snd (capng_update lib act ty nr k) in getuid lib k' = getuid lib k \<and> geteuid lib k' = geteuid lib k) \<and>
     (\<forall>sel k. let k' = snd (capng_apply lib sel k) in getuid lib k' = getuid lib k \<and> geteuid lib k' = geteuid lib k)"

definition same_user :: "('k, 'z) proc_lib_scheme \<Rightarrow> 'k \<Rightarrow> 'k \<Rightarrow> bool" where
  "same_user lib k k' \<longleftrightarrow> getuid lib k' = getuid lib k \<and> geteuid lib k' = geteuid lib k"

lemma same_user_reflp: "reflp (same_user lib)" and same_user_transp: "transp (same_user lib)"
  by (auto simp: same_user_def intro: reflpI transpI)

lemma same_user_primitive:
  assumes "proc_laws lib caps cached"
  shows "keeps (same_user lib) (secure_capng_get_caps_process lib)"
    and "keeps (same_user lib) (secure_capng_update lib act ty nr)"
    and "keeps (same_user lib) (secure_capng_apply lib sel)"
  using assms
  by (auto simp: proc_laws_def Let_def same_user_def secure_capng_get_caps_process_def secure_capng_update_def
      secure_capng_apply_def intro!: keepsI split: prod.splits) (metis snd_conv)+

lemma same_user_read: "proc_laws lib caps cached \<Longrightarrow> keeps (same_user lib) (read_process_caps lib)"
  unfolding read_process_caps_def
  by (rule keeps_andThen [OF same_user_transp same_user_primitive(1)]) (auto simp: keeps_def same_user_def)

lemma same_user_apply_now:
  assumes "proc_laws lib caps cached"
  shows "keeps (same_user lib) (security_apply_now lib full)"
proof -
  have area: "keeps (same_user lib) (update_area lib ty nr a b)" for ty nr a b
    by (simp add: update_area_def same_user_primitive [OF assms] keeps_ret [OF same_user_reflp])
  have cap: "keeps (same_user lib) (update_cap lib m item)" for m item
    unfolding update_cap_def Let_def by (intro keeps_andThen [OF same_user_transp] keeps_liftR [OF same_user_reflp] area)
  show ?thesis
    unfolding security_apply_now_def Let_def
    by (intro keeps_andThen [OF same_user_transp] same_user_read [OF assms] same_user_primitive [OF assms]
        keeps_forA [OF same_user_reflp same_user_transp] cap)
qed

lemma read_process_caps_error: "read_process_caps lib k = (Inl e, k') \<Longrightarrow> e = Capmodpp_error"
proof -
  have "foldR (\<lambda>nr m. bindR (read_cap_state lib nr k) (\<lambda>s. Inr (emplace_key nr s m))) nrs acc = Inl e \<Longrightarrow> e = Capmodpp_error" for nrs acc k
    by (induction nrs arbitrary: acc)
      (auto simp: bindR_eq_Inl_conv read_cap_state_def secure_capng_have_capability_def Let_def split: if_splits)
  then show "read_process_caps lib k = (Inl e, k') \<Longrightarrow> e = Capmodpp_error"
    by (auto simp: read_process_caps_def andThen_def secure_capng_get_caps_process_def split: prod.splits sum.splits if_splits)
qed

lemma security_info_run:
  assumes "proc_laws lib caps cached" and "get_security_info lib verbose k = (Inr u, k')"
  shows "caps k' = caps k \<and> cached k' = caps k \<and> same_user lib k k'"
proof -
  obtain r k1 where read: "read_process_caps lib k = (r, k1)" by force
  have k1: "k' = k1"
    using assms(2) read by (auto simp: get_security_info_def andThen_def split: sum.splits prod.splits if_splits)
  obtain m where "r = Inr m"
    using assms(2) read read_process_caps_error [of lib k] by (cases r) (auto simp: get_security_info_def)
  with read k1 read_process_caps_run [of lib caps cached k m k'] assms(1) have "caps k' = caps k \<and> cached k' = caps k"
    by (simp add: proc_laws_def)
  moreover have "same_user lib k k'" using keepsD [OF same_user_read [OF assms(1)], of k] read k1 by simp
  ultimately show ?thesis by simp
qed

lemma cap_change_run:
  assumes laws: "proc_laws lib caps cached" and run: "security_apply_cap_change lib note clue change k = (Inr u, k')"
  shows "cached k' = caps k' \<and> same_user lib k k' \<and>
    (\<forall>nr \<le> CAP_LAST_CAP lib. state_of (caps k') nr = apply_change (change_for change nr) (state_of (caps k) nr))"
proof -
  obtain u1 k1 u2 k2 u3 k3 where
      1: "(if note then get_security_info lib True else ret ()) k = (Inr u1, k1)"
    and 2: "(if clue then andThen (liftR (print_change_names lib 20 (given change))) (\<lambda>_. ret ()) else ret ()) k1 = (Inr u2, k2)"
    and 3: "security_apply_now lib change k2 = (Inr u3, k3)"
    and 4: "(if note then get_security_info lib True else ret ()) k3 = (Inr u, k')"
    using run by (auto simp: security_apply_cap_change_def dest!: andThen_eq_InrD)
  have k1: "caps k1 = caps k \<and> same_user lib k k1"
    using 1 security_info_run [OF laws, of True k u1 k1] by (auto simp: same_user_def split: if_splits)
  have k2: "k2 = k1" using 2 by (auto simp: andThen_def split: if_splits sum.splits)
  have k3: "cached k3 = caps k3 \<and> (\<forall>nr \<le> CAP_LAST_CAP lib. state_of (caps k3) nr = apply_change (change_for change nr) (state_of (caps k2) nr))"
    using apply_now_run [OF _ 3, of caps cached] laws by (simp add: proc_laws_def)
  have "same_user lib k2 k3" using keepsD [OF same_user_apply_now [OF laws, of change], of k2] 3 by simp
  moreover have "caps k' = caps k3 \<and> cached k' = caps k3 \<and> same_user lib k3 k'"
    using 4 k3 security_info_run [OF laws, of True k3 u k'] by (auto simp: same_user_def split: if_splits)
  ultimately show ?thesis using k1 k2 k3 by (auto simp: same_user_def)
qed

lemma set_given_caps_run:
  "set_given_caps lib change names full = Inr full' \<Longrightarrow> map_sorted (given full) \<Longrightarrow>
     map_sorted (given full') \<and> all_others full' = all_others full \<and>
     (\<forall>nr. find_key nr (given full') =
        (case find_key nr (given full) of Some c \<Rightarrow> Some c
         | None \<Rightarrow> if \<exists>name \<in> set names. cap_name_to_nr lib name = Inr nr then Some change else None))"
proof (induction names arbitrary: full)
  case Nil
  then show ?case by (auto simp: set_given_caps_def split: option.splits)
next
  case (Cons name names)
  then obtain nr0 where nr0: "cap_name_to_nr lib name = Inr nr0"
    and rest: "set_given_caps lib change names (full\<lparr>given := emplace_key nr0 change (given full)\<rparr>) = Inr full'"
    by (auto simp: set_given_caps_def set_given_cap_def bindR_eq_Inr_conv)
  from Cons.IH [OF rest] Cons.prems(2) nr0 show ?case
    by (auto simp: map_sorted_emplace_key map_find_linorder map_of_emplace_key split: option.splits)
qed

lemma change_for_given:
  assumes "set_given_caps lib change names (set_all_others others cap_statechange_full_new) = Inr full"
  shows "change_for full nr = (if \<exists>name \<in> set names. cap_name_to_nr lib name = Inr nr then change else others)"
  using set_given_caps_run [OF assms]
  by (auto simp: change_for_def set_all_others_def cap_statechange_full_new_def map_sorted_def)

lemma set_given_caps_Nil: "set_given_caps lib change [] full = Inr full"
  by (simp add: set_given_caps_def)

lemma set_given_caps_append:
  "set_given_caps lib change (ms @ ns) full = bindR (set_given_caps lib change ms full) (set_given_caps lib change ns)"
  by (simp add: set_given_caps_def foldR_append)

lemma apply_changes [simp]:
  "apply_change disable_all s = s\<lparr>eff := perm_no, permit := perm_no, inherit := perm_no\<rparr>"
  "apply_change keep_all s = s"
  by (simp_all add: apply_change_def disable_all_def keep_all_def cap_statechange_new_def apply_change_perm_def)

definition holds_cap :: "cap_sets \<Rightarrow> nat \<Rightarrow> bool" where
  \<comment> \<open>in one of the sets that let the process or its children use it\<close>
  "holds_cap c nr \<longleftrightarrow> c CAPNG_EFFECTIVE nr \<or> c CAPNG_PERMITTED nr \<or> c CAPNG_INHERITABLE nr"

definition named_cap :: "('k, 'z) capng_scheme \<Rightarrow> string list \<Rightarrow> nat \<Rightarrow> bool" where
  "named_cap lib names nr \<longleftrightarrow> (\<exists>name \<in> set names. cap_name_to_nr lib name = Inr nr)"

lemma state_of_dropped:
  "state_of c' nr = (state_of c nr)\<lparr>eff := perm_no, permit := perm_no, inherit := perm_no\<rparr> \<Longrightarrow>
     \<not> holds_cap c' nr \<and> c' CAPNG_BOUNDING_SET nr = c CAPNG_BOUNDING_SET nr"
  "state_of c' nr = state_of c nr \<Longrightarrow> holds_cap c' nr = holds_cap c nr \<and> c' CAPNG_BOUNDING_SET nr = c CAPNG_BOUNDING_SET nr"
  by (auto simp: state_of_def holds_cap_def perm_if_def split: if_splits)

lemma startup_run:
  assumes "proc_laws lib caps cached" and "drop_privileges_on_startup lib note clue k = (Inr u, k')" and "nr \<le> CAP_LAST_CAP lib"
  shows "holds_cap (caps k') nr \<longleftrightarrow> holds_cap (caps k) nr \<and>
           named_cap lib ([''NET_ADMIN'', ''NET_RAW''] @ (if getuid lib k = 0 then [''SETUID'', ''SETGID'', ''SETPCAP'', ''CHOWN''] else [])) nr"
    and "caps k' CAPNG_BOUNDING_SET nr = caps k CAPNG_BOUNDING_SET nr"
proof -
  let ?names = "[''NET_ADMIN'', ''NET_RAW''] @ (if getuid lib k = 0 then [''SETUID'', ''SETGID'', ''SETPCAP'', ''CHOWN''] else [])"
  obtain change1 root change where 1: "set_given_caps lib keep_all [''NET_ADMIN'', ''NET_RAW'']
        (set_all_others disable_all cap_statechange_full_new) = Inr change1"
    and 2: "do_we_need_to_change_uid_or_gid lib k = Inr root"
    and 3: "(if root then set_given_caps lib keep_all [''SETUID'', ''SETGID'', ''SETPCAP'', ''CHOWN''] change1 else Inr change1) = Inr change"
    and 4: "security_apply_cap_change lib note clue change k = (Inr u, k')"
    using assms(2) by (auto simp: drop_privileges_on_startup_def need_change_uid_def dest!: andThen_eq_InrD)
  have "root \<longleftrightarrow> getuid lib k = 0" using 2 by (auto simp: do_we_need_to_change_uid_or_gid_def Let_def split: if_splits)
  with 1 3 have "set_given_caps lib keep_all ?names (set_all_others disable_all cap_statechange_full_new) = Inr change"
    by (auto simp only: set_given_caps_append bindR_simps set_given_caps_Nil split: if_splits)
  note for_nr = change_for_given [OF this, of nr]
  have "state_of (caps k') nr = apply_change (change_for change nr) (state_of (caps k) nr)"
    using cap_change_run [OF assms(1) 4] assms(3) by blast
  with for_nr state_of_dropped [of "caps k'" nr "caps k"]
  show "holds_cap (caps k') nr \<longleftrightarrow> holds_cap (caps k) nr \<and> named_cap lib ?names nr"
    and "caps k' CAPNG_BOUNDING_SET nr = caps k CAPNG_BOUNDING_SET nr"
    unfolding named_cap_def by (metis apply_changes)+
qed

lemma after_tuntap_run:
  assumes "proc_laws lib caps cached" and "drop_privileges_after_tuntap lib note clue k = (Inr u, k')" and "nr \<le> CAP_LAST_CAP lib"
  shows "holds_cap (caps k') nr \<longleftrightarrow> holds_cap (caps k) nr \<and> \<not> named_cap lib [''NET_ADMIN'', ''NET_RAW''] nr"
    and "caps k' CAPNG_BOUNDING_SET nr = caps k CAPNG_BOUNDING_SET nr"
proof -
  obtain change where 1: "set_given_caps lib disable_all [''NET_ADMIN'', ''NET_RAW'']
        (set_all_others keep_all cap_statechange_full_new) = Inr change"
    and 2: "security_apply_cap_change lib note clue change k = (Inr u, k')"
    using assms(2) by (auto simp: drop_privileges_after_tuntap_def dest!: andThen_eq_InrD)
  have "state_of (caps k') nr = apply_change (change_for change nr) (state_of (caps k) nr)"
    using cap_change_run [OF assms(1) 2] assms(3) by blast
  with change_for_given [OF 1, of nr] state_of_dropped [of "caps k'" nr "caps k"]
  show "holds_cap (caps k') nr \<longleftrightarrow> holds_cap (caps k) nr \<and> \<not> named_cap lib [''NET_ADMIN'', ''NET_RAW''] nr"
    and "caps k' CAPNG_BOUNDING_SET nr = caps k CAPNG_BOUNDING_SET nr"
    unfolding named_cap_def by (metis apply_changes)+
qed

lemma before_mainloop_run:
  assumes "proc_laws lib caps cached" and "drop_privileges_before_mainloop lib note clue k = (Inr u, k')"
  shows "cached k' = caps k'" "same_user lib k k'"
    and "nr \<le> CAP_LAST_CAP lib \<Longrightarrow> \<not> holds_cap (caps k') nr \<and> caps k' CAPNG_BOUNDING_SET nr = caps k CAPNG_BOUNDING_SET nr"
proof -
  let ?change = "set_all_others disable_all cap_statechange_full_new"
  have run: "security_apply_cap_change lib note clue ?change k = (Inr u, k')"
    using assms(2) by (simp add: drop_privileges_before_mainloop_def)
  from cap_change_run [OF assms(1) run] show "cached k' = caps k'" "same_user lib k k'" by simp_all
  have "change_for ?change nr = disable_all" by (simp add: change_for_def set_all_others_def cap_statechange_full_new_def)
  with cap_change_run [OF assms(1) run]
  show "nr \<le> CAP_LAST_CAP lib \<Longrightarrow> \<not> holds_cap (caps k') nr \<and> caps k' CAPNG_BOUNDING_SET nr = caps k CAPNG_BOUNDING_SET nr"
    using state_of_dropped(1) by (metis apply_changes(1))
qed

section \<open>Properties\<close>

text \<open>
  C23: no step gains a capability, and each drops what it should: after the start the process
  holds, of the capabilities it had, the two for network cards, and the four needed to change the
  user when it still is root; after the card is set up not the two any more; before the main loop
  none. The bounding set is never changed.
\<close>

theorem privileges_only_dropped:
  assumes "proc_laws lib caps cached" and "nr \<le> CAP_LAST_CAP lib"
  shows "(drop_privileges_on_startup lib note clue k = (Inr (), k') \<longrightarrow>
            (holds_cap (caps k') nr \<longleftrightarrow> holds_cap (caps k) nr \<and>
              named_cap lib ([''NET_ADMIN'', ''NET_RAW''] @ (if getuid lib k = 0 then [''SETUID'', ''SETGID'', ''SETPCAP'', ''CHOWN''] else [])) nr) \<and>
            caps k' CAPNG_BOUNDING_SET nr = caps k CAPNG_BOUNDING_SET nr) \<and>
         (drop_privileges_after_tuntap lib note clue k = (Inr (), k') \<longrightarrow>
            (holds_cap (caps k') nr \<longleftrightarrow> holds_cap (caps k) nr \<and> \<not> named_cap lib [''NET_ADMIN'', ''NET_RAW''] nr) \<and>
            caps k' CAPNG_BOUNDING_SET nr = caps k CAPNG_BOUNDING_SET nr) \<and>
         (drop_privileges_before_mainloop lib note clue k = (Inr (), k') \<longrightarrow>
            \<not> holds_cap (caps k') nr \<and> caps k' CAPNG_BOUNDING_SET nr = caps k CAPNG_BOUNDING_SET nr)"
  using startup_run [OF assms(1) _ assms(2), of "note" clue k _ k'] after_tuntap_run [OF assms(1) _ assms(2), of "note" clue k _ k']
    before_mainloop_run(3) [OF assms(1), of "note" clue k _ k' nr] assms(2)
  by blast

lemma returns_print_names:
  assumes "capng_succeeds lib" and "\<And>item. item \<in> set m \<Longrightarrow> fst item \<le> CAP_LAST_CAP lib"
  shows "\<exists>names. print_state_names lib level m = Inr names"
proof -
  have name: "\<exists>s. secure_capng_capability_to_name lib nr = Inr s \<and> cap_nr_to_name lib nr = Inr s" if "nr \<le> CAP_LAST_CAP lib" for nr
    using assms(1) that by (auto simp: capng_succeeds_def secure_capng_capability_to_name_def cap_nr_to_name_def get_last_cap_nr_def)
  have "\<exists>ys. mapR (\<lambda>item. secure_capng_capability_to_name lib (fst item)) xs = Inr ys" "\<exists>ys. mapR (\<lambda>item. cap_nr_to_name lib (fst item)) xs = Inr ys"
    if "\<forall>item \<in> set xs. fst item \<le> CAP_LAST_CAP lib" for xs :: "(nat \<times> cap_state) list"
    using that by (induction xs) (auto dest: name)
  then show ?thesis using assms(2) by (auto simp: print_state_names_def)
qed

lemma returns_security_info:
  assumes "proc_laws lib caps cached" and "capng_succeeds lib"
  shows "returns (get_security_info lib verbose)"
proof -
  have "\<exists>k'. get_security_info lib verbose k = (Inr (), k')" for k
  proof -
    obtain m k' where read: "read_process_caps lib k = (Inr m, k')"
      using returnsD [OF returns_read_process_caps [OF assms(2)]] by blast
    have "fst item \<le> CAP_LAST_CAP lib" if "item \<in> set m" for item
      using that read_process_caps_run(3) [OF _ read, of caps cached] assms(1) by (auto simp: proc_laws_def simp del: upt_Suc)
    from returns_print_names [OF assms(2) this] obtain a b where "print_state_names lib 0 m = Inr a" "print_state_names lib 20 m = Inr b"
      by blast
    then show ?thesis by (simp add: get_security_info_def andThen_def read)
  qed
  then show ?thesis by (auto simp: returns_def)
qed

lemma returns_before_mainloop:
  assumes "proc_laws lib caps cached" and "capng_succeeds lib"
  shows "returns (drop_privileges_before_mainloop lib note clue)"
proof -
  have [simp]: "print_change_names lib 20 (given (set_all_others disable_all cap_statechange_full_new)) = Inr []"
    by (simp add: print_change_names_def set_all_others_def cap_statechange_full_new_def)
  have "capng_laws lib caps cached" using assms(1) by (simp add: proc_laws_def)
  note change = returns_security_apply_now [OF this assms(2)]
  show ?thesis
    unfolding drop_privileges_before_mainloop_def security_apply_cap_change_def
    using change returns_security_info [OF assms]
    by (intro returns_andThen) (simp_all add: returns_andThen)
qed

text \<open>
  C24: with a library whose calls succeed and answer as documented (\<open>capng_succeeds\<close>), giving up the last privileges succeeds
  and leaves the process none of the capabilities the library knows, up to \<open>CAP_LAST_CAP\<close>, in its effective, permitted and
  inheritable sets; the bounding set stays as it was. The test at the start of the main loop then passes exactly for a process
  whose real and effective user are the same and not root; otherwise it aborts, also a process that is not root but has another
  effective user.
\<close>

theorem mainloop_unprivileged:
  assumes "proc_laws lib caps cached" and "capng_succeeds lib"
  shows "\<exists>k'. drop_privileges_before_mainloop lib note clue k = (Inr (), k') \<and>
              (\<forall>nr. nr \<le> CAP_LAST_CAP lib \<longrightarrow>
                 \<not> holds_cap (caps k') nr \<and> caps k' CAPNG_BOUNDING_SET nr = caps k CAPNG_BOUNDING_SET nr) \<and>
              verify_privileges_are_as_for_mainloop lib k' =
                (if getuid lib k = geteuid lib k \<and> getuid lib k \<noteq> 0 then Inr () else Inl Abort)"
proof -
  obtain k' where run: "drop_privileges_before_mainloop lib note clue k = (Inr (), k')"
    using returnsD [OF returns_before_mainloop [OF assms]] by (metis old.unit.exhaust)
  note k' = before_mainloop_run [OF assms(1) run]
  have "capng_have_capabilities lib CAPNG_SELECT_CAPS k' = CAPNG_NONE"
    using assms(1) k'(1,3) by (auto simp: proc_laws_def capng_laws_def holds_cap_def)
  then have "verify_privileges_are_as_for_mainloop lib k' =
      (if getuid lib k' = geteuid lib k' \<and> getuid lib k' \<noteq> 0 then Inr () else Inl Abort)"
    by (simp add: verify_privileges_are_as_for_mainloop_def secure_capng_have_capabilities_def Let_def CAPNG_NONE_def CAPNG_FAIL_def
        do_we_need_to_change_uid_or_gid_def)
  then show ?thesis using run k'(2,3) by (auto simp: same_user_def)
qed

definition user_after :: "('k, 'z) proc_lib_scheme \<Rightarrow> 'k \<Rightarrow> nat \<times> string" where
  \<comment> \<open>the user \<open>drop_root\<close> leaves, and the home directory it sets\<close>
  "user_after lib k =
     (if getuid lib k \<noteq> 0 then (getuid lib k, '''')
      else case Option.bind (SUDO_USER lib) (\<lambda>name. getpwnam lib (c_str name)) of
             None \<Rightarrow> (0, '''')
           | Some (uid, gid, pw_dir) \<Rightarrow> if uid = 0 then (0, '''') else (uid, case pw_dir of None \<Rightarrow> '''' | Some dir \<Rightarrow> dir))"

lemma info_if_run:
  assumes "proc_laws lib caps cached" and "capng_succeeds lib"
  shows "\<exists>k'. (if note then get_security_info lib v else ret ()) k = (Inr (), k') \<and> same_user lib k k'"
proof (cases "note")
  case True
  obtain u k' where run: "get_security_info lib v k = (Inr u, k')"
    using returnsD [OF returns_security_info [OF assms]] by blast
  with True security_info_run [OF assms(1) run] show ?thesis by auto
qed (simp add: same_user_def)

lemma drop_root_from_sudo_root:
  assumes "proc_laws lib caps cached" and "capng_succeeds lib" and "getuid lib k = 0" "geteuid lib k = 0"
    and "SUDO_USER lib = None \<or> (\<exists>name gid dir. SUDO_USER lib = Some name \<and> getpwnam lib (c_str name) = Some (0, gid, dir))"
  shows "\<exists>k'. security_drop_root_from_sudo lib note k = (Inl Runtime_error, k') \<and> getuid lib k' = 0"
proof -
  obtain k1 where "(if note then get_security_info lib False else ret ()) k = (Inr (), k1)" "same_user lib k k1"
    using info_if_run [OF assms(1,2)] by blast
  with assms(3-5) show ?thesis
    by (auto simp: security_drop_root_from_sudo_def need_change_uid_def do_we_need_to_change_uid_or_gid_def Let_def andThen_def same_user_def)
qed

lemma drop_root_from_sudo_user:
  assumes "proc_laws lib caps cached" and "capng_succeeds lib" and "getuid lib k = 0" "geteuid lib k = 0"
    and "SUDO_USER lib = Some name" and "getpwnam lib (c_str name) = Some (uid, gid, pw_dir)" and "uid \<noteq> 0"
    and "\<And>k. fst (capng_change_id lib uid gid k) = 0"
  shows "\<exists>k'. security_drop_root_from_sudo lib note k = (Inr (case pw_dir of None \<Rightarrow> '''' | Some dir \<Rightarrow> dir), k') \<and> getuid lib k' = uid"
proof -
  obtain k1 where 1: "(if note then get_security_info lib False else ret ()) k = (Inr (), k1)" "same_user lib k k1"
    using info_if_run [OF assms(1,2)] by blast
  obtain u k2 where 2: "secure_capng_get_caps_process lib k1 = (Inr u, k2)"
    using returnsD [OF returns_get_caps [OF assms(2)]] by blast
  obtain k3 where 3: "capng_change_id lib uid gid k2 = (0, k3)" using assms(8) [of k2] by (metis fst_conv old.prod.exhaust)
  have uid: "getuid lib k3 = uid" "geteuid lib k3 = uid" using assms(1) 3 by (auto simp: proc_laws_def)
  obtain k4 where 4: "(if note then get_security_info lib False else ret ()) k3 = (Inr (), k4)" "same_user lib k3 k4"
    using info_if_run [OF assms(1,2)] by blast
  from 1 2 3 4 uid assms(3-7) show ?thesis
    by (simp add: security_drop_root_from_sudo_def need_change_uid_def do_we_need_to_change_uid_or_gid_def Let_def andThen_def same_user_def)
qed

text \<open>
  \<open>drop_root\<close> does not fail for want of a user to go back to: a process of root that was not
  started by sudo, or by a sudo of root, goes on as root, while one started by sudo
  from a user ends as that user, with his home directory as the place of its files. The documentation
  of the function promises a process that is not root, or an exception.
\<close>

theorem drop_root_outcome:
  assumes "proc_laws lib caps cached" and "capng_succeeds lib" and "getuid lib k = geteuid lib k"
    and "\<And>name. SUDO_USER lib = Some name \<Longrightarrow> getpwnam lib (c_str name) \<noteq> None"
    and "\<And>uid gid k. fst (capng_change_id lib uid gid k) = 0"
  shows "\<exists>k'. drop_root lib note home_always_env (k, ds) =
           (Inr (), (k', set_home (if home_always_env then '''' else snd (user_after lib k)) ds)) \<and> getuid lib k' = fst (user_after lib k)"
proof (cases "getuid lib k = 0")
  case False
  then show ?thesis
    using assms(3) by (simp add: drop_root_def andThen_def user_after_def security_drop_root_from_sudo_def need_change_uid_def
        do_we_need_to_change_uid_or_gid_def Let_def)
next
  case True
  then have root: "getuid lib k = 0" "geteuid lib k = 0" using assms(3) by simp_all
  show ?thesis
  proof (cases "SUDO_USER lib = None \<or> (\<exists>name gid dir. SUDO_USER lib = Some name \<and> getpwnam lib (c_str name) = Some (0, gid, dir))")
    case True
    obtain k' where "security_drop_root_from_sudo lib note k = (Inl Runtime_error, k')" "getuid lib k' = 0"
      using drop_root_from_sudo_root [OF assms(1,2) root True] by blast
    with True root show ?thesis by (auto simp: drop_root_def andThen_def user_after_def)
  next
    case False
    then obtain name uid gid dir where u: "SUDO_USER lib = Some name" "getpwnam lib (c_str name) = Some (uid, gid, dir)" "uid \<noteq> 0"
      using assms(4) by (metis option.exhaust old.prod.exhaust)
    obtain k' where "security_drop_root_from_sudo lib note k = (Inr (case dir of None \<Rightarrow> '''' | Some dir \<Rightarrow> dir), k')" "getuid lib k' = uid"
      using drop_root_from_sudo_user [OF assms(1,2) root u assms(5)] by blast
    with root u show ?thesis by (simp add: drop_root_def andThen_def user_after_def)
  qed
qed

section \<open>A process started by sudo\<close>

definition example_proc :: "cap_kernel proc_lib" where
  "example_proc = capng.extend example_capng
     \<lparr>getuid = kernel_uid, geteuid = kernel_uid, SUDO_USER = Some ''joe'', getpwnam = (\<lambda>_. Some (1000, 1000, Some ''/home/joe'')),
      capng_change_id = (\<lambda>uid gid k. (0, k\<lparr>kernel_uid := uid\<rparr>))\<rparr>"

lemma example_proc_laws: "proc_laws example_proc kernel_sets library_sets" and example_proc_succeeds: "capng_succeeds example_proc"
  using example_capng_laws example_capng_succeeds
  by (simp_all add: proc_laws_def capng_laws_def capng_succeeds_def example_proc_def example_capng_def capng.defs)

theorem privileges_only_dropped_witness:
  "let k' = snd (drop_privileges_on_startup example_proc False False example_kernel)
   in holds_cap (kernel_sets k') 12 \<and> \<not> holds_cap (kernel_sets k') 7"
proof -
  have quiet: "returns (security_apply_cap_change example_proc False False change)" for change
    using returns_security_apply_now [of example_proc kernel_sets library_sets] example_proc_laws example_proc_succeeds
    by (auto simp: security_apply_cap_change_def proc_laws_def intro!: returns_andThen)
  have names: "cap_name_to_nr example_proc ''NET_ADMIN'' = Inr 12" "cap_name_to_nr example_proc ''NET_RAW'' = Inr 13"
    by (simp_all add: cap_name_to_nr_def secure_capng_name_to_capability_def c_str_def max_expected_cap_name_length_def
        safe_less_eq_than_def get_last_cap_nr_def example_proc_def example_capng_def capng.defs)
  have "do_we_need_to_change_uid_or_gid example_proc example_kernel = Inr False"
    by (simp add: do_we_need_to_change_uid_or_gid_def example_proc_def capng.defs example_kernel_def)
  then obtain k' where run: "drop_privileges_on_startup example_proc False False example_kernel = (Inr (), k')"
    using names returnsD [OF quiet]
    by (simp add: drop_privileges_on_startup_def set_given_caps_def set_given_cap_def need_change_uid_def andThen_def) blast
  show ?thesis
    using privileges_only_dropped [OF example_proc_laws, of 12 False False example_kernel k']
      privileges_only_dropped [OF example_proc_laws, of 7 False False example_kernel k'] run
    by (simp add: named_cap_def example_proc_def example_capng_def capng.defs example_kernel_def holds_cap_def cap_name_to_nr_def
        secure_capng_name_to_capability_def c_str_def max_expected_cap_name_length_def safe_less_eq_than_def get_last_cap_nr_def Let_def)
qed

theorem mainloop_unprivileged_witness:
  "\<exists>k'. drop_privileges_before_mainloop example_proc True True example_kernel = (Inr (), k') \<and>
        \<not> holds_cap (kernel_sets k') 12 \<and> verify_privileges_are_as_for_mainloop example_proc k' = Inr ()"
  using mainloop_unprivileged [OF example_proc_laws example_proc_succeeds, of True True example_kernel]
  by (auto simp: example_proc_def example_capng_def capng.defs example_kernel_def)

theorem drop_root_outcome_witness:
  "\<exists>k'. drop_root example_proc True False (example_kernel\<lparr>kernel_uid := 0\<rparr>, example_store) = (Inr (), (k', set_home ''/home/joe'' example_store))
        \<and> kernel_uid k' = 1000"
  using drop_root_outcome [OF example_proc_laws example_proc_succeeds, of "example_kernel\<lparr>kernel_uid := 0\<rparr>" True False example_store]
  by (simp add: user_after_def example_proc_def example_capng_def capng.defs example_kernel_def)

end
