(* ===== verification/Mutexed_Vector.thy ===== *)
theory Mutexed_Vector
  imports Galaxy_Prelude
begin

text \<open>
  The vector of individually locked objects that holds cables and network cards of the new
  program: \<^verbatim>\<open>src/src/stdplus/vector_mutexed_obj.hpp\<close>.

  The elements are pointers, \<open>None\<close> is the null pointer. Operations hold the lock of the
  container, so its shape does not change under them, and the lock of one element while they look at or
  change it; whenever \<open>run_on_matching\<close> holds no lock of an element, other threads may change
  any of them. Those changes are an argument of the model: \<open>others t i\<close> is what other threads do to the
  object \<open>i\<close> at the \<open>t\<close>-th such point. \<open>trace\<close> collects the objects the function was run on.
\<close>

section \<open>The code\<close>

type_synonym 'o mutexed_data = "'o option list"

definition grow_to :: "nat \<Rightarrow> 'o mutexed_data \<Rightarrow> 'o mutexed_data" where
  \<comment> \<open>\<open>resize\<close> appends null pointers\<close>
  "grow_to n data = (if \<not> n > length data then data else data @ replicate (n - length data) None)"

definition mutexed_push_back :: "'o \<Rightarrow> 'o mutexed_data \<Rightarrow> 'o mutexed_data" where
  "mutexed_push_back obj data = data @ [Some obj]"

definition run_on :: "nat \<Rightarrow> ('o \<Rightarrow> 'r \<times> 'o) \<Rightarrow> ('o mutexed_data, 'r) action" where
  "run_on ix f data =
     (case vec_at data ix of
        Inl e \<Rightarrow> (Inl e, data)
      | Inr None \<Rightarrow> (Inl Undefined_behaviour, data)
      | Inr (Some obj) \<Rightarrow> (case f obj of (r, obj') \<Rightarrow> (Inr r, data[ix := Some obj'])))"

definition interfere :: "(nat \<Rightarrow> nat \<Rightarrow> 'o \<Rightarrow> 'o) \<Rightarrow> nat \<Rightarrow> 'o mutexed_data \<Rightarrow> 'o mutexed_data" where
  "interfere others t data = map (\<lambda>(i, x). map_option (others t i) x) (enumerate 0 data)"

lemma length_interfere [simp]: "length (interfere others t data) = length data"
  by (simp add: interfere_def)

lemma interfere_nth [simp]: "i < length data \<Longrightarrow> interfere others t data ! i = map_option (others t i) (data ! i)"
  by (simp add: interfere_def nth_enumerate_eq)

lemma interfere_ident [simp]: "interfere (\<lambda>_ _ x. x) t data = data"
  by (rule nth_equalityI) (simp_all add: option.map_ident)

record ('o, 'r) matching_run =
  outcome :: "'r result"
  run_data :: "'o mutexed_data"
  trace :: "(nat \<times> 'o) list"

function run_matching_loop ::
    "(nat \<Rightarrow> nat \<Rightarrow> 'o \<Rightarrow> 'o) \<Rightarrow> ('o \<Rightarrow> bool) \<Rightarrow> ('o \<Rightarrow> 'r \<times> 'o) \<Rightarrow> nat \<Rightarrow> nat \<Rightarrow> nat \<Rightarrow> nat \<Rightarrow> bool \<Rightarrow>
     'o mutexed_data \<Rightarrow> (nat \<times> 'o) list \<Rightarrow> ('o, 'r) matching_run" where
  "run_matching_loop others fun_test fun_run limit_matched t iter so_far is_not_enough data tr =
     (if \<not> iter < length data
      then \<lparr>outcome = Inl (if is_not_enough then Not_enough_match_found else No_match_found), run_data = data, trace = tr\<rparr>
      else
        let data1 = interfere others t data
        in case data1 ! iter of
             None \<Rightarrow> \<lparr>outcome = Inl Undefined_behaviour, run_data = data1, trace = tr\<rparr>
           | Some obj_ro \<Rightarrow>
               if \<not> fun_test obj_ro
               then run_matching_loop others fun_test fun_run limit_matched (t + 1) (iter + 1) so_far is_not_enough data1 tr
               else
                 let data2 = interfere others (t + 1) data1; obj = others (t + 1) iter obj_ro
                 in if \<not> fun_test obj
                    then run_matching_loop others fun_test fun_run limit_matched (t + 2) (iter + 1) so_far is_not_enough data2 tr
                    else case fun_run obj of
                      (r, obj') \<Rightarrow>
                        if so_far + 1 \<ge> limit_matched
                        then \<lparr>outcome = Inr r, run_data = data2[iter := Some obj'], trace = tr @ [(iter, obj)]\<rparr>
                        else run_matching_loop others fun_test fun_run limit_matched (t + 2) (iter + 1) (so_far + 1) True
                               (data2[iter := Some obj']) (tr @ [(iter, obj)]))"
  by pat_completeness auto

termination
  by (relation "measure (\<lambda>(others, ft, fr, limit, t, iter, so_far, ne, data, tr). length data - iter)") (auto simp: Let_def)

declare run_matching_loop.simps [simp del]

definition run_on_matching ::
    "(nat \<Rightarrow> nat \<Rightarrow> 'o \<Rightarrow> 'o) \<Rightarrow> ('o \<Rightarrow> bool) \<Rightarrow> ('o \<Rightarrow> 'r \<times> 'o) \<Rightarrow> nat \<Rightarrow> 'o mutexed_data \<Rightarrow> ('o, 'r) matching_run" where
  "run_on_matching others fun_test fun_run limit_matched data =
     run_matching_loop others fun_test fun_run limit_matched 0 0 0 False data []"

section \<open>Every run is on a matching object\<close>

definition run_ok :: "('o \<Rightarrow> bool) \<Rightarrow> ('o \<Rightarrow> 'r \<times> 'o) \<Rightarrow> nat \<Rightarrow> ('o, 'r) matching_run \<Rightarrow> bool" where
  \<comment> \<open>each object at most once, only matching ones, and the result tells how many\<close>
  "run_ok fun_test fun_run limit res \<longleftrightarrow>
     sorted_wrt (<) (map fst (trace res)) \<and> (\<forall>(i, obj) \<in> set (trace res). fun_test obj) \<and>
     (case outcome res of
        Inr r \<Rightarrow> length (trace res) = max 1 limit \<and> r = fst (fun_run (snd (last (trace res))))
      | Inl e \<Rightarrow> length (trace res) < max 1 limit \<and>
          (e = No_match_found \<longrightarrow> trace res = []) \<and> (e = Not_enough_match_found \<longrightarrow> trace res \<noteq> []))"

lemma run_matching_loop_ok:
  assumes "so_far = length tr" and "is_not_enough \<longleftrightarrow> tr \<noteq> []" and "so_far < max 1 limit"
    and "sorted_wrt (<) (map fst tr)" and "\<forall>(i, obj) \<in> set tr. i < iter \<and> fun_test obj"
  shows "run_ok fun_test fun_run limit (run_matching_loop others fun_test fun_run limit t iter so_far is_not_enough data tr)"
  using assms
proof (induction others fun_test fun_run limit t iter so_far is_not_enough data tr rule: run_matching_loop.induct)
  case (1 others ft fr limit t iter so_far ne data tr)
  show ?case
  proof (cases "iter < length data")
    case False
    then show ?thesis using 1(4-8) by (subst run_matching_loop.simps) (auto simp: run_ok_def)
  next
    case True
    note step = run_matching_loop.simps [of others ft fr limit t iter so_far ne data tr]
    have later: "\<forall>(i, obj) \<in> set tr. i < iter + 1 \<and> ft obj" using 1(8) by auto
    show ?thesis
    proof (cases "data ! iter")
      case None
      then show ?thesis using True 1(4-8) by (subst step) (auto simp: run_ok_def Let_def)
    next
      case (Some x)
      let ?ro = "others t iter x" and ?obj = "others (t + 1) iter (others t iter x)"
      obtain r obj' where run: "fr ?obj = (r, obj')" by force
      consider "\<not> ft ?ro" | "ft ?ro" "\<not> ft ?obj" | "ft ?ro" "ft ?obj" by blast
      then show ?thesis
      proof cases
        case 1
        then show ?thesis using "1.IH"(1) [of "interfere others t data" ?ro] True Some "1.prems" later
          by (subst step) (simp add: Let_def)
      next
        case 2
        then show ?thesis using "1.IH"(2) [of "interfere others t data" ?ro "interfere others (t + 1) (interfere others t data)" ?obj]
            True Some "1.prems" later by (subst step) (simp add: Let_def)
      next
        case 3
        have sorted: "sorted_wrt (<) (map fst (tr @ [(iter, ?obj)]))" "\<forall>(i, obj) \<in> set (tr @ [(iter, ?obj)]). i < iter + 1 \<and> ft obj"
          using "1.prems"(4,5) 3 by (auto simp: sorted_wrt_append)
        show ?thesis
        proof (cases "so_far + 1 \<ge> limit")
          case True
          then show ?thesis using \<open>iter < length data\<close> Some 3 run "1.prems" sorted by (subst step) (auto simp: Let_def run_ok_def)
        next
          case False
          then show ?thesis
            using "1.IH"(3) [of "interfere others t data" ?ro "interfere others (t + 1) (interfere others t data)" ?obj r obj']
              True Some 3 run "1.prems"(1-3) sorted by (subst step) (simp add: Let_def)
        qed
      qed
    qed
  qed
qed

text \<open>
  C28: whatever other threads do to the objects in the meantime, \<open>run_on_matching\<close> runs its
  function only on objects that match at that moment, on each at most once; it returns the
  result of the last run when there were as many as asked for, and otherwise throws
  \<open>error_not_enough_match_found\<close> after at least one run, or \<open>error_no_match_found\<close> after none.
\<close>

theorem run_on_matching_safe:
  "run_ok fun_test fun_run limit (run_on_matching others fun_test fun_run limit data)"
  unfolding run_on_matching_def by (rule run_matching_loop_ok) auto

text \<open>
  Without interference a container of objects gives the first \<open>limit\<close> objects that match to the function.
\<close>

lemma undisturbed_loop:
  assumes "data = map Some objs" and "so_far < max 1 limit"
  shows "map fst (trace (run_matching_loop (\<lambda>_ _ x. x) fun_test fun_run limit t iter so_far ne data tr)) =
         map fst tr @ take (max 1 limit - so_far) (filter (\<lambda>i. fun_test (objs ! i)) [iter..<length objs])"
  using assms
proof (induction "length objs - iter" arbitrary: t iter so_far ne data tr objs)
  case 0
  then show ?case by (subst run_matching_loop.simps) simp
next
  case (Suc n)
  then have iter: "iter < length objs" and upt: "[iter..<length objs] = iter # [Suc iter..<length objs]"
    by (simp_all add: upt_conv_Cons)
  obtain r obj' where run: "fun_run (objs ! iter) = (r, obj')" by force
  have IH: "map fst (trace (run_matching_loop (\<lambda>_ _ x. x) fun_test fun_run limit t (Suc iter) sf ne d tr)) =
         map fst tr @ take (max 1 limit - sf) (filter (\<lambda>i. fun_test (os ! i)) [Suc iter..<length os])"
    if "d = map Some os" "sf < max 1 limit" "length os = length objs" for t sf ne d tr os
    using Suc(1) [of os "Suc iter"] Suc(2) that by simp
  show ?case
  proof (cases "fun_test (objs ! iter)")
    case False
    then show ?thesis
      using iter IH [of data objs so_far] Suc(3,4) by (subst run_matching_loop.simps) (simp add: Let_def upt)
  next
    case True
    have upd: "data[iter := Some obj'] = map Some (objs[iter := obj'])" by (simp add: Suc(3) map_update)
    have tail: "filter (\<lambda>i. fun_test (objs[iter := obj'] ! i)) [Suc iter..<length objs] = filter (\<lambda>i. fun_test (objs ! i)) [Suc iter..<length objs]"
      by (rule filter_cong) auto
    show ?thesis
    proof (cases "so_far + 1 \<ge> limit")
      case True
      then have "max 1 limit - so_far = 1" using Suc(4) by simp
      with True \<open>fun_test (objs ! iter)\<close> iter run show ?thesis
        by (subst run_matching_loop.simps) (simp add: Let_def upt Suc(3))
    next
      case False
      then have "max 1 limit - so_far = Suc (max 1 limit - Suc so_far)" by simp
      with False \<open>fun_test (objs ! iter)\<close> iter run show ?thesis
        using IH [of "data[iter := Some obj']" "objs[iter := obj']" "Suc so_far"] upd tail
        by (subst run_matching_loop.simps) (simp add: Let_def upt Suc(3))
    qed
  qed
qed

text \<open>
  A container that was grown holds null pointers, and using one of them has no meaning.
\<close>

lemma grown_element_is_null:
  "length data \<le> ix \<Longrightarrow> ix < n \<Longrightarrow> run_on ix f (grow_to n data) = (Inl Undefined_behaviour, grow_to n data)"
  by (simp add: run_on_def grow_to_def nth_append)

end
