(* ===== verification/Ioservice.thy ===== *)
theory Ioservice
  imports Galaxy_Prelude
begin

text \<open>
  The pool of \<open>io_service\<close> objects of the cables, \<^verbatim>\<open>src/src/cable/asio_ioservice_manager.cpp\<close>, with
  the invariant guards it is written with, the class \<open>c_ig\<close> of \<^verbatim>\<open>src/src/utils/check.hpp\<close>.

  A service is its index in the array; the vectors of idle work and of threads hold the index each
  element was made for. Starting a thread may fail: \<open>spawn\<close> tells for which services it
  succeeds. All operations run under the lock of the object, hence one after the other.
  A guard runs \<open>Precond\<close> on entry and again in its destructor; a destructor may not
  throw, so a violation found there ends the process.
\<close>

section \<open>The code\<close>

record c_asioservice_manager =
  siom_size :: nat
  m_last_ioservice :: nat
  m_ioservice_idle_works :: "nat list"
  m_ioservice_threads :: "nat list"
  siom_stop :: bool
  stopped_services :: "nat set"

definition m_ioservice_max :: nat where
  "m_ioservice_max = 16"

definition siom_Precond :: "c_asioservice_manager \<Rightarrow> unit result" where
  "siom_Precond s =
     (if \<not> siom_size s \<le> m_ioservice_max then Inl Err_check_prog
      else if siom_size s \<noteq> length (m_ioservice_threads s) then Inl Err_check_prog
      else if siom_size s \<noteq> length (m_ioservice_idle_works s) then Inl Err_check_prog
      else Inr ())"

datatype t_invariant_place = e_invariant_place_pre | e_invariant_place_post | e_invariant_place_both

definition c_ig :: "t_invariant_place \<Rightarrow> (c_asioservice_manager, 'a) action \<Rightarrow> (c_asioservice_manager, 'a) action" where
  \<comment> \<open>the guard around the body of a function\<close>
  "c_ig place m s =
     (case (if place = e_invariant_place_both \<or> place = e_invariant_place_pre then siom_Precond s else Inr ()) of
        Inl e \<Rightarrow> (Inl e, s)
      | Inr _ \<Rightarrow>
          (case m s of
             (r, s') \<Rightarrow>
               if place = e_invariant_place_both \<or> place = e_invariant_place_pre
               then (case siom_Precond s' of Inl e \<Rightarrow> (Inl Abort, s') | Inr _ \<Rightarrow> (r, s'))
               else (r, s')))"

abbreviation guard_inv :: "(c_asioservice_manager, 'a) action \<Rightarrow> (c_asioservice_manager, 'a) action" where
  "guard_inv \<equiv> c_ig e_invariant_place_both"

definition noexcept :: "('s, 'a) action \<Rightarrow> ('s, 'a) action" where
  "noexcept m s = (case m s of (Inl e, s') \<Rightarrow> (Inl Abort, s') | (Inr a, s') \<Rightarrow> (Inr a, s'))"

definition siom_get_size :: "(c_asioservice_manager, nat) action" where
  "siom_get_size = noexcept (guard_inv (\<lambda>s. (Inr (siom_size s), s)))"

definition siom_capacity :: "(c_asioservice_manager, nat) action" where
  "siom_capacity = noexcept (guard_inv (ret m_ioservice_max))"

definition run_ioservice :: "(nat \<Rightarrow> bool) \<Rightarrow> nat \<Rightarrow> (c_asioservice_manager, unit) action" where
  "run_ioservice spawn index s =
     (if \<not> index < m_ioservice_max then (Inl Out_of_range, s)
      else
        let s' = s\<lparr>m_ioservice_idle_works := m_ioservice_idle_works s @ [index]\<rparr>
        in if spawn index then (Inr (), s'\<lparr>m_ioservice_threads := m_ioservice_threads s @ [index]\<rparr>)
           else (Inl System_error, s'))"

definition stop_ioservice :: "nat \<Rightarrow> (c_asioservice_manager, unit) action" where
  "stop_ioservice index = guard_inv (\<lambda>s.
     if \<not> index < m_ioservice_max then (Inl Out_of_range, s)
     else (Inr (), s\<lparr>stopped_services := insert index (stopped_services s)\<rparr>))"

definition c_asioservice_manager_new :: "(nat \<Rightarrow> bool) \<Rightarrow> nat \<Rightarrow> c_asioservice_manager result" where
  \<comment> \<open>\<open>guard_inv_post\<close>; when it throws, threads that were started are destroyed while they run, which
      ends the process\<close>
  "c_asioservice_manager_new spawn new_size =
     (let s0 = \<lparr>siom_size = new_size, m_last_ioservice = 0, m_ioservice_idle_works = [], m_ioservice_threads = [],
                siom_stop = False, stopped_services = {}\<rparr>
      in case c_ig e_invariant_place_post
                (andThen (liftR (if \<not> new_size \<le> m_ioservice_max then Inl Err_check_prog else Inr ())) (\<lambda>_.
                 andThen (liftR (if \<not> new_size \<ge> 1 then Inl Err_check_prog else Inr ())) (\<lambda>_.
                 forA (run_ioservice spawn) [0..<new_size]))) s0 of
           (Inr _, s) \<Rightarrow> Inr s
         | (Inl e, s) \<Rightarrow> if m_ioservice_threads s \<noteq> [] then Inl Abort else Inl e)"

definition resize_step :: "(nat \<Rightarrow> bool) \<Rightarrow> nat \<Rightarrow> (c_asioservice_manager, unit) action" where
  "resize_step spawn i s = run_ioservice spawn i (s\<lparr>siom_size := i + 1\<rparr>)"

definition resize_to_at_least :: "(nat \<Rightarrow> bool) \<Rightarrow> nat \<Rightarrow> (c_asioservice_manager, unit) action" where
  "resize_to_at_least spawn new_size = guard_inv (\<lambda>s.
     if siom_stop s then (Inr (), s)
     else if new_size \<le> siom_size s then (Inr (), s)
     else
       andThen siom_capacity (\<lambda>c.
       andThen (liftR (if \<not> new_size \<le> c then Inl Err_check_input else Inr ())) (\<lambda>_.
       andThen (forA (resize_step spawn) [siom_size s..<new_size]) (\<lambda>_ s'.
       if siom_size s' \<noteq> new_size then (Inl Err_check_prog, s') else (Inr (), s')))) s)"

definition get_next_ioservice :: "(c_asioservice_manager, nat) action" where
  "get_next_ioservice = guard_inv (\<lambda>s0.
     let s = s0\<lparr>m_last_ioservice := (m_last_ioservice s0 + 1) mod 2 ^ 64\<rparr>
     in andThen siom_get_size (\<lambda>n s.
          if n = 0 then (Inl Undefined_behaviour, s)
          else
            let last = m_last_ioservice s mod n; s' = s\<lparr>m_last_ioservice := last\<rparr>
            in if \<not> last < m_ioservice_max then (Inl Err_check_prog, s') else (Inr last, s')) s)"

definition stop_all_threadsafe :: "(c_asioservice_manager, unit) action" where
  "stop_all_threadsafe = guard_inv (\<lambda>s. forA stop_ioservice [0..<siom_size s] s)"

definition siom_destructor :: "(c_asioservice_manager, nat list) action" where
  \<comment> \<open>a destructor may not throw; returns the threads it joins, in order\<close>
  "siom_destructor = noexcept (c_ig e_invariant_place_pre (\<lambda>s.
     andThen (forA stop_ioservice [0..<siom_size s]) (\<lambda>_ s'. (Inr (m_ioservice_threads s'), s')) s))"

datatype siom_op = Resize nat | Get_next | Stop_all

definition siom_step :: "(nat \<Rightarrow> bool) \<Rightarrow> siom_op \<Rightarrow> (c_asioservice_manager, nat option) action" where
  "siom_step spawn op =
     (case op of
        Resize n \<Rightarrow> andThen (resize_to_at_least spawn n) (\<lambda>_. ret None)
      | Get_next \<Rightarrow> andThen get_next_ioservice (\<lambda>i. ret (Some i))
      | Stop_all \<Rightarrow> andThen stop_all_threadsafe (\<lambda>_. ret None))"

section \<open>The invariant\<close>

definition siom_inv :: "c_asioservice_manager \<Rightarrow> bool" where
  "siom_inv s \<longleftrightarrow> 1 \<le> siom_size s \<and> siom_size s \<le> m_ioservice_max \<and>
     m_ioservice_threads s = [0..<siom_size s] \<and> m_ioservice_idle_works s = [0..<siom_size s] \<and>
     m_last_ioservice s < siom_size s"

lemma siom_inv_Precond: "siom_inv s \<Longrightarrow> siom_Precond s = Inr ()"
  by (simp add: siom_inv_def siom_Precond_def)

lemma guard_keeps:
  "siom_inv s \<Longrightarrow> m s = (r, s') \<Longrightarrow> siom_Precond s' = Inr () \<Longrightarrow> guard_inv m s = (r, s')"
  by (simp add: c_ig_def siom_inv_Precond)

lemma siom_queries:
  "siom_inv s \<Longrightarrow> siom_get_size s = (Inr (siom_size s), s)" "siom_inv s \<Longrightarrow> siom_capacity s = (Inr m_ioservice_max, s)"
  by (simp_all add: siom_get_size_def siom_capacity_def noexcept_def c_ig_def siom_inv_Precond)

lemma run_services:
  "n \<le> k \<Longrightarrow> k \<le> m_ioservice_max \<Longrightarrow> \<forall>i. n \<le> i \<and> i < k \<longrightarrow> spawn i \<Longrightarrow>
     m_ioservice_threads s = [0..<n] \<Longrightarrow> m_ioservice_idle_works s = [0..<n] \<Longrightarrow>
     forA (run_ioservice spawn) [n..<k] s = (Inr (), s\<lparr>m_ioservice_threads := [0..<k], m_ioservice_idle_works := [0..<k]\<rparr>)"
proof (induction "k - n" arbitrary: n s)
  case (Suc j)
  then have "n < k" by simp
  with Suc.prems have "run_ioservice spawn n s = (Inr (), s\<lparr>m_ioservice_idle_works := [0..<Suc n], m_ioservice_threads := [0..<Suc n]\<rparr>)"
    by (simp add: run_ioservice_def)
  with Suc.prems Suc.hyps(2) \<open>n < k\<close> show ?case
    using Suc.hyps(1) [of "Suc n" "s\<lparr>m_ioservice_idle_works := [0..<Suc n], m_ioservice_threads := [0..<Suc n]\<rparr>"]
    by (simp add: upt_conv_Cons [of n k] del: upt_Suc)
qed simp

lemma resize_services:
  "n \<le> k \<Longrightarrow> k \<le> m_ioservice_max \<Longrightarrow> \<forall>i. n \<le> i \<and> i < k \<longrightarrow> spawn i \<Longrightarrow>
     m_ioservice_threads s = [0..<n] \<Longrightarrow> m_ioservice_idle_works s = [0..<n] \<Longrightarrow> siom_size s = n \<Longrightarrow>
     forA (resize_step spawn) [n..<k] s =
       (Inr (), s\<lparr>siom_size := k, m_ioservice_threads := [0..<k], m_ioservice_idle_works := [0..<k]\<rparr>)"
proof (induction "k - n" arbitrary: n s)
  case (Suc j)
  then have "n < k" by simp
  with Suc.prems have "resize_step spawn n s =
      (Inr (), s\<lparr>siom_size := Suc n, m_ioservice_idle_works := [0..<Suc n], m_ioservice_threads := [0..<Suc n]\<rparr>)"
    by (simp add: run_ioservice_def resize_step_def)
  with Suc.prems Suc.hyps(2) \<open>n < k\<close> show ?case
    using Suc.hyps(1) [of "Suc n" "s\<lparr>siom_size := Suc n, m_ioservice_idle_works := [0..<Suc n], m_ioservice_threads := [0..<Suc n]\<rparr>"]
    by (simp add: upt_conv_Cons [of n k] del: upt_Suc)
qed simp

lemma thread_fails:
  assumes "n \<le> i" "i < k" "k \<le> m_ioservice_max" "\<not> spawn i" and "\<forall>j. n \<le> j \<and> j < i \<longrightarrow> spawn j"
    and "m_ioservice_threads s = [0..<n]" "m_ioservice_idle_works s = [0..<n]" "siom_size s = n"
  shows "\<exists>s'. forA (resize_step spawn) [n..<k] s = (Inl System_error, s') \<and> siom_Precond s' = Inl Err_check_prog"
proof -
  let ?s = "s\<lparr>siom_size := i, m_ioservice_threads := [0..<i], m_ioservice_idle_works := [0..<i]\<rparr>"
  have "forA (resize_step spawn) [n..<i] s = (Inr (), ?s)" using assms by (intro resize_services) auto
  moreover have "resize_step spawn i ?s = (Inl System_error, ?s\<lparr>siom_size := i + 1, m_ioservice_idle_works := [0..<i] @ [i]\<rparr>)"
    using assms(2-4) by (simp add: resize_step_def run_ioservice_def)
  ultimately show ?thesis
    using assms(1-3) by (simp add: forA_split_at [OF assms(1,2)] siom_Precond_def)
qed

lemma resize_run:
  assumes "siom_inv s"
  shows "resize_to_at_least spawn n s =
     (if siom_stop s \<or> n \<le> siom_size s then (Inr (), s)
      else if n > m_ioservice_max then (Inl Err_check_input, s)
      else if \<forall>i. siom_size s \<le> i \<and> i < n \<longrightarrow> spawn i
      then (Inr (), s\<lparr>siom_size := n, m_ioservice_threads := [0..<n], m_ioservice_idle_works := [0..<n]\<rparr>)
      else (Inl Abort, snd (resize_to_at_least spawn n s)))"
proof -
  consider "siom_stop s \<or> n \<le> siom_size s" | "\<not> (siom_stop s \<or> n \<le> siom_size s)" "n > m_ioservice_max"
    | "\<not> (siom_stop s \<or> n \<le> siom_size s)" "\<not> n > m_ioservice_max" "\<forall>i. siom_size s \<le> i \<and> i < n \<longrightarrow> spawn i"
    | "\<not> (siom_stop s \<or> n \<le> siom_size s)" "\<not> n > m_ioservice_max" "\<not> (\<forall>i. siom_size s \<le> i \<and> i < n \<longrightarrow> spawn i)" by blast
  then show ?thesis
  proof cases
    case 1
    with assms show ?thesis by (auto simp: resize_to_at_least_def c_ig_def siom_inv_Precond)
  next
    case 2
    with assms show ?thesis by (simp add: resize_to_at_least_def c_ig_def siom_inv_Precond siom_queries)
  next
    case 3
    with assms have "forA (resize_step spawn) [siom_size s..<n] s =
        (Inr (), s\<lparr>siom_size := n, m_ioservice_threads := [0..<n], m_ioservice_idle_works := [0..<n]\<rparr>)"
      by (intro resize_services) (auto simp: siom_inv_def)
    with 3 assms show ?thesis
      by (simp add: resize_to_at_least_def c_ig_def siom_inv_Precond siom_queries) (simp add: siom_Precond_def)
  next
    case 4
    then have ex: "\<exists>i. siom_size s \<le> i \<and> i < n \<and> \<not> spawn i" by blast
    define i where "i = (LEAST i. siom_size s \<le> i \<and> i < n \<and> \<not> spawn i)"
    have "siom_size s \<le> i \<and> i < n \<and> \<not> spawn i" unfolding i_def by (rule LeastI_ex [OF ex])
    moreover have "spawn j" if "siom_size s \<le> j" "j < i" for j
      using not_less_Least [of j "\<lambda>i. siom_size s \<le> i \<and> i < n \<and> \<not> spawn i"] that calculation unfolding i_def [symmetric] by auto
    ultimately obtain s' where "forA (resize_step spawn) [siom_size s..<n] s = (Inl System_error, s')" "siom_Precond s' = Inl Err_check_prog"
      using thread_fails [of "siom_size s" i n spawn s] 4 assms by (auto simp: siom_inv_def)
    with 4 assms have "fst (resize_to_at_least spawn n s) = Inl Abort"
      by (simp add: resize_to_at_least_def c_ig_def siom_inv_Precond siom_queries)
    with 4 show ?thesis by (metis prod.collapse)
  qed
qed

lemma get_next_run:
  assumes "siom_inv s"
  defines "i \<equiv> (m_last_ioservice s + 1) mod siom_size s"
  shows "get_next_ioservice s = (Inr i, s\<lparr>m_last_ioservice := i\<rparr>)" "siom_inv (s\<lparr>m_last_ioservice := i\<rparr>)"
proof -
  have last: "m_last_ioservice s < 16" and n: "1 \<le> siom_size s" "siom_size s \<le> 16"
    using assms(1) by (auto simp: siom_inv_def m_ioservice_max_def)
  then have i: "i < siom_size s" by (simp add: i_def)
  then show inv: "siom_inv (s\<lparr>m_last_ioservice := i\<rparr>)" using assms(1) by (simp add: siom_inv_def)
  let ?s = "s\<lparr>m_last_ioservice := m_last_ioservice s + 1\<rparr>"
  have "siom_Precond ?s = Inr ()" using assms(1) by (simp add: siom_Precond_def siom_inv_def)
  then have "siom_get_size ?s = (Inr (siom_size s), ?s)" by (simp add: siom_get_size_def noexcept_def c_ig_def)
  moreover have "(m_last_ioservice s + 1) mod 2 ^ 64 = m_last_ioservice s + 1" using last by simp
  ultimately show "get_next_ioservice s = (Inr i, s\<lparr>m_last_ioservice := i\<rparr>)"
    unfolding get_next_ioservice_def using n i
    by (intro guard_keeps [OF assms(1) _ siom_inv_Precond [OF inv]]) (simp add: i_def m_ioservice_max_def Let_def)
qed

lemma stop_services:
  "siom_inv s \<Longrightarrow> k \<le> m_ioservice_max \<Longrightarrow>
     forA stop_ioservice [0..<k] s = (Inr (), s\<lparr>stopped_services := {0..<k} \<union> stopped_services s\<rparr>)"
proof (induction k)
  case (Suc k)
  let ?s = "s\<lparr>stopped_services := {0..<k} \<union> stopped_services s\<rparr>"
  have "siom_inv ?s" using Suc.prems(1) by (simp add: siom_inv_def)
  then have "stop_ioservice k ?s = (Inr (), ?s\<lparr>stopped_services := insert k (stopped_services ?s)\<rparr>)"
    unfolding stop_ioservice_def using Suc.prems by (intro guard_keeps) (auto simp: siom_Precond_def siom_inv_def)
  with Suc show ?case by (simp add: forA_append atLeast0_lessThan_Suc)
qed simp

lemma stop_all_run:
  assumes "siom_inv s"
  shows "stop_all_threadsafe s = (Inr (), s\<lparr>stopped_services := {0..<siom_size s} \<union> stopped_services s\<rparr>)"
proof -
  let ?s = "s\<lparr>stopped_services := {0..<siom_size s} \<union> stopped_services s\<rparr>"
  have "siom_inv ?s" using assms by (simp add: siom_inv_def)
  then show ?thesis
    unfolding stop_all_threadsafe_def
    using stop_services [OF assms, of "siom_size s"] assms
    by (intro guard_keeps [OF assms _ siom_inv_Precond]) (simp_all add: siom_inv_def)
qed

text \<open>The destructor joins every thread, and each of them belongs to a service that was stopped, so that joining it ends.\<close>

lemma destructor_joins_stopped:
  assumes "siom_inv s"
  shows "\<exists>s'. siom_destructor s = (Inr [0..<siom_size s], s') \<and> set [0..<siom_size s] \<subseteq> stopped_services s'"
proof -
  let ?s = "s\<lparr>stopped_services := {0..<siom_size s} \<union> stopped_services s\<rparr>"
  have "siom_inv ?s" using assms by (simp add: siom_inv_def)
  then have "siom_destructor s = (Inr (m_ioservice_threads ?s), ?s)"
    using stop_services [OF assms, of "siom_size s"] assms siom_inv_Precond [OF assms] siom_inv_Precond [of ?s]
    by (simp add: siom_destructor_def noexcept_def c_ig_def siom_inv_def)
  with assms show ?thesis by (auto simp: siom_inv_def)
qed

section \<open>Properties\<close>

text \<open>
  C29: a manager that was constructed has a running thread and idle work for exactly the services
  below its size, in order, and every operation keeps that, whether it returns or refuses a size above
  the capacity; the only other outcome is the end of the process, and only when the operating system
  refuses a thread.
\<close>

theorem ioservice_pool_invariant:
  assumes "siom_inv s"
  shows "case siom_step spawn op s of
           (Inr _, s') \<Rightarrow> siom_inv s' \<and> siom_size s \<le> siom_size s'
         | (Inl e, s') \<Rightarrow> (e = Err_check_input \<and> s' = s \<and> (\<exists>n. op = Resize n \<and> m_ioservice_max < n)) \<or>
                          (e = Abort \<and> (\<exists>n i. op = Resize n \<and> siom_size s \<le> i \<and> i < n \<and> \<not> spawn i))"
proof (cases op)
  case (Resize n)
  obtain r s' where run: "resize_to_at_least spawn n s = (r, s')" by force
  have "siom_inv s' \<and> siom_size s \<le> siom_size s' \<and> r = Inr () \<or> r = Inl Err_check_input \<and> s' = s \<and> m_ioservice_max < n \<or>
      r = Inl Abort \<and> (\<exists>i. siom_size s \<le> i \<and> i < n \<and> \<not> spawn i)"
    using resize_run [OF assms, of spawn n] assms unfolding run by (auto simp: siom_inv_def split: if_splits)
  with run Resize show ?thesis by (fastforce simp: siom_step_def andThen_def)
next
  case Get_next
  then show ?thesis using get_next_run [OF assms] by (simp add: siom_step_def)
next
  case Stop_all
  then show ?thesis using stop_all_run [OF assms] assms by (simp add: siom_step_def siom_inv_def)
qed

lemma manager_new_inv:
  assumes "1 \<le> n" "n \<le> m_ioservice_max" "\<forall>i < n. spawn i"
  shows "\<exists>s. c_asioservice_manager_new spawn n = Inr s \<and> siom_inv s \<and> siom_size s = n \<and> \<not> siom_stop s"
  using assms run_services [of 0 n spawn]
  by (simp add: c_asioservice_manager_new_def c_ig_def siom_inv_def Let_def)

text \<open>A manager of no services, or of more than there are, is refused.\<close>

lemma manager_new_refused: "n = 0 \<or> n > m_ioservice_max \<Longrightarrow> c_asioservice_manager_new spawn n = Inl Err_check_prog"
  by (auto simp: c_asioservice_manager_new_def c_ig_def Let_def m_ioservice_max_def)

theorem ioservice_pool_invariant_witness:
  "\<exists>s. c_asioservice_manager_new (\<lambda>i. i < 8) 4 = Inr s \<and> siom_inv s \<and>
       (\<exists>s'. siom_step (\<lambda>i. i < 8) (Resize 12) s = (Inl Abort, s'))"
proof -
  obtain s where s: "c_asioservice_manager_new (\<lambda>i. i < 8) 4 = Inr s" "siom_inv s" "siom_size s = 4" "\<not> siom_stop s"
    using manager_new_inv [of 4 "\<lambda>i. i < 8"] by (auto simp: m_ioservice_max_def)
  have "\<not> (\<exists>s'. resize_to_at_least (\<lambda>i. i < 8) 12 s = (Inr (), s'))"
    using resize_run [OF s(2), of "\<lambda>i. i < 8" 12] s(3,4) by (auto simp: m_ioservice_max_def split: if_splits dest: spec [of _ 8])
  then show ?thesis
    using ioservice_pool_invariant [OF s(2), of "Resize 12" "\<lambda>i. i < 8"] s
    by (auto simp: siom_step_def andThen_def m_ioservice_max_def split: prod.splits sum.splits)
qed

fun get_services :: "nat \<Rightarrow> (c_asioservice_manager, nat list) action" where
  \<comment> \<open>a number of calls of \<open>get_next_ioservice\<close>\<close>
  "get_services 0 = ret []"
| "get_services (Suc k) = andThen get_next_ioservice (\<lambda>i. andThen (get_services k) (\<lambda>is. ret (i # is)))"

lemma get_services_run:
  "siom_inv s \<Longrightarrow> \<exists>s'. get_services k s = (Inr (map (\<lambda>j. (m_last_ioservice s + 1 + j) mod siom_size s) [0..<k]), s')"
proof (induction k arbitrary: s)
  case (Suc k)
  let ?i = "(m_last_ioservice s + 1) mod siom_size s"
  note got = get_next_run [OF Suc.prems]
  obtain s' where rest: "get_services k (s\<lparr>m_last_ioservice := ?i\<rparr>) =
      (Inr (map (\<lambda>j. (?i + 1 + j) mod siom_size s) [0..<k]), s')"
    using Suc.IH [OF got(2)] by auto
  have "(?i + 1 + j) mod siom_size s = (m_last_ioservice s + 1 + Suc j) mod siom_size s" for j
    by (metis add.assoc add_Suc_right mod_add_left_eq plus_1_eq_Suc)
  then have "map (\<lambda>j. (?i + 1 + j) mod siom_size s) [0..<k] = map (\<lambda>j. (m_last_ioservice s + 1 + j) mod siom_size s) [Suc 0..<Suc k]"
    by (simp add: map_Suc_upt [symmetric] del: upt_Suc)
  with got(1) rest show ?case by (simp add: upt_conv_Cons del: upt_Suc)
qed simp

text \<open>
  The services are handed out in turn: among as many consecutive requests as there are services, every
  service is returned exactly once.
\<close>

theorem ioservices_in_turn:
  assumes "siom_inv s"
  shows "\<exists>is s'. get_services (siom_size s) s = (Inr is, s') \<and> length is = siom_size s \<and> distinct is \<and> set is = {0..<siom_size s}"
proof -
  let ?n = "siom_size s" and ?is = "map (\<lambda>j. (m_last_ioservice s + 1 + j) mod siom_size s) [0..<siom_size s]"
  have "0 < ?n" using assms by (simp add: siom_inv_def)
  have inj: "inj_on (\<lambda>j. (m_last_ioservice s + 1 + j) mod ?n) {0..<?n}"
  proof (rule inj_onI)
    fix i j assume ij: "i \<in> {0..<?n}" "j \<in> {0..<?n}" and "(m_last_ioservice s + 1 + i) mod ?n = (m_last_ioservice s + 1 + j) mod ?n"
    then obtain p q where "i + ?n * p = j + ?n * q" by (auto simp: nat_mod_eq_iff)
    then have "i mod ?n = j mod ?n" by (metis mod_mult_self2)
    with ij show "i = j" by simp
  qed
  then have "distinct ?is" by (simp add: distinct_map)
  moreover have "set ?is = {0..<?n}"
  proof (rule card_subset_eq)
    show "set ?is \<subseteq> {0..<?n}" using \<open>0 < ?n\<close> by auto
    show "card (set ?is) = card {0..<?n}" using inj by (simp add: card_image)
  qed simp
  ultimately show ?thesis using get_services_run [OF assms, of ?n] by auto
qed

theorem ioservices_in_turn_witness:
  "\<exists>s is s'. c_asioservice_manager_new (\<lambda>_. True) 3 = Inr s \<and> get_services 3 s = (Inr is, s') \<and> distinct is \<and> set is = {0..<3}"
proof -
  obtain s where s: "c_asioservice_manager_new (\<lambda>_. True) 3 = Inr s" "siom_inv s" "siom_size s = 3"
    using manager_new_inv [of 3 "\<lambda>_. True"] by (auto simp: m_ioservice_max_def)
  from ioservices_in_turn [OF s(2)] s show ?thesis by metis
qed

end
