(* ===== verification/Mo_Reader.thy ===== *)
theory Mo_Reader
  imports Haship
begin

text \<open>
  Translations of the messages: \<^verbatim>\<open>src/src/mo_reader.cpp\<close> reads a GNU gettext message catalogue into a
  map from messages to translations.

  The stream is the contents of the file, a position and the failure flag: a failed stream
  neither moves nor reads any more. Four octets that could not be read are indeterminate in the code, and so is
  whatever is computed from them. The file system, the environment variable \<open>LANG\<close> and the locale are parameters.
  Sizes and offsets are 32-bit unsigned: sums of offsets wrap around.
\<close>

section \<open>The code\<close>

record mo_env =
  LANG :: "bytes option"
  setlocale :: "bytes option"
  mo_open :: "bytes \<Rightarrow> bytes option"

record mo_file_reader =
  m_messages_dir :: bytes
  m_mo_filename :: bytes
  mo_file :: bytes
  mo_pos :: nat
  mo_fail :: bool
  m_translation_map :: "bytes \<Rightarrow> bytes option"
  s_translation_map_ready :: bool

definition add_messages_dir :: "bytes \<Rightarrow> mo_file_reader \<Rightarrow> mo_file_reader" where
  "add_messages_dir path mo = mo\<lparr>m_messages_dir := path\<rparr>"

definition dot_mo :: bytes where
  "dot_mo = [0x2E, 0x6D, 0x6F]"

definition add_mo_filename :: "bytes \<Rightarrow> (mo_file_reader, unit) action" where
  "add_mo_filename name mo =
     (if m_mo_filename mo \<noteq> [] then (Inl Runtime_error, mo)
      else if length name < 4 then (Inl Invalid_argument, mo)
      else (Inr (), mo\<lparr>m_mo_filename := (if drop (length name - 3) name \<noteq> dot_mo then name @ dot_mo else name)\<rparr>))"

definition is_lower :: "byte \<Rightarrow> bool" where
  "is_lower c \<longleftrightarrow> 0x61 \<le> c \<and> c \<le> 0x7A"

definition get_system_lang_short_name :: "mo_env \<Rightarrow> bytes result" where
  "get_system_lang_short_name env =
     (let lang_env = (case LANG env of None \<Rightarrow> [] | Some l \<Rightarrow> l)
      in if length lang_env \<ge> 2 \<and> is_lower (lang_env ! 0) \<and> is_lower (lang_env ! 1) then Inr (take 2 lang_env)
         else case setlocale env of
                None \<Rightarrow> Inl Undefined_behaviour
              | Some locale \<Rightarrow> Inr (if locale = [0x43] then [0x65, 0x6E] else locale))"

definition seekg :: "nat \<Rightarrow> (mo_file_reader, unit) action" where
  "seekg p mo = (Inr (), if mo_fail mo then mo else mo\<lparr>mo_pos := p\<rparr>)"

definition read_octets :: "nat \<Rightarrow> (mo_file_reader, bytes) action" where
  "read_octets n mo =
     (if mo_fail mo then (Inr [], mo)
      else
        let got = take n (drop (mo_pos mo) (mo_file mo))
        in (Inr got, mo\<lparr>mo_pos := mo_pos mo + length got, mo_fail := length got < n\<rparr>))"

definition le32 :: "bytes \<Rightarrow> nat" where
  "le32 b = unat (b ! 0) + unat (b ! 1) * 2 ^ 8 + unat (b ! 2) * 2 ^ 16 + unat (b ! 3) * 2 ^ 24"

definition read_section :: "(mo_file_reader, nat) action" where
  "read_section = andThen (read_octets 4) (\<lambda>b. liftR (if length b < 4 then Inl Undefined_behaviour else Inr (le32 b)))"

definition read_string :: "nat \<Rightarrow> (mo_file_reader, bytes) action" where
  \<comment> \<open>into a string of that many zeros\<close>
  "read_string n = andThen (read_octets n) (\<lambda>b. ret (b @ replicate (n - length b) 0))"

definition read_table_string :: "nat \<Rightarrow> nat \<Rightarrow> (mo_file_reader, bytes) action" where
  "read_table_string offset_of_table i =
     andThen (seekg ((offset_of_table + i * 8) mod 2 ^ 32)) (\<lambda>_.
     andThen read_section (\<lambda>len.
     andThen read_section (\<lambda>offset.
     andThen (seekg offset) (\<lambda>_. read_string len))))"

definition load_entry :: "nat \<Rightarrow> nat \<Rightarrow> nat \<Rightarrow> (mo_file_reader, unit) action" where
  "load_entry originals translations i =
     andThen (read_table_string originals i) (\<lambda>orig_str.
     andThen (read_table_string translations i) (\<lambda>translate_str mo.
       (Inr (), if m_translation_map mo orig_str = None
                then mo\<lparr>m_translation_map := (m_translation_map mo)(orig_str \<mapsto> translate_str)\<rparr> else mo)))"

definition read_contents :: "(mo_file_reader, unit) action" where
  \<comment> \<open>\<open>read_file\<close> after the file was opened\<close>
  "read_contents =
     andThen read_section (\<lambda>magic_number.
     if magic_number = 0xde120495 then raise Runtime_error
     else if magic_number \<noteq> 0x950412de then raise Runtime_error
     else
       andThen read_section (\<lambda>file_format_revision.
       andThen read_section (\<lambda>number_of_strings.
       if number_of_strings = 0 then raise Runtime_error
       else
         andThen read_section (\<lambda>originals.
         andThen read_section (\<lambda>translations.
         andThen read_section (\<lambda>size_of_hashing_table.
         andThen read_section (\<lambda>offset_of_hashing_table.
         andThen (forA (load_entry originals translations) [0..<number_of_strings]) (\<lambda>_ mo.
           (Inr (), mo\<lparr>s_translation_map_ready := True\<rparr>)))))))))"

definition lc_messages :: bytes where
  "lc_messages = octets_of ''/LC_MESSAGES/''"

definition read_file :: "mo_env \<Rightarrow> (mo_file_reader, unit) action" where
  \<comment> \<open>called once, with a stream that was not open\<close>
  "read_file env mo =
     (case get_system_lang_short_name env of
        Inl e \<Rightarrow> (Inl e, mo)
      | Inr lang \<Rightarrow>
          (case mo_open env (m_messages_dir mo @ [0x2F] @ lang @ lc_messages @ m_mo_filename mo) of
             None \<Rightarrow> (Inl Runtime_error, mo)
           | Some contents \<Rightarrow> read_contents (mo\<lparr>mo_file := contents, mo_pos := 0, mo_fail := False\<rparr>)))"

definition gettext :: "mo_file_reader \<Rightarrow> bytes \<Rightarrow> bytes" where
  "gettext mo original_string =
     (if \<not> s_translation_map_ready mo then original_string
      else case m_translation_map mo original_string of None \<Rightarrow> original_string | Some t \<Rightarrow> t)"

section \<open>Catalogues\<close>

text \<open>
  What a file has to hold according to the manual of gettext to be the catalogue of a list of messages
  and translations, in the byte order of the reader.
\<close>

definition u32_at :: "bytes \<Rightarrow> nat \<Rightarrow> nat \<Rightarrow> bool" where
  "u32_at file p v \<longleftrightarrow> p + 4 \<le> length file \<and> le32 (take 4 (drop p file)) = v"

definition string_at :: "bytes \<Rightarrow> nat \<Rightarrow> nat \<Rightarrow> bytes \<Rightarrow> bool" where
  "string_at file table i s \<longleftrightarrow> u32_at file (table + i * 8) (length s) \<and>
     (\<exists>off. u32_at file (table + i * 8 + 4) off \<and> off + length s \<le> length file \<and> take (length s) (drop off file) = s)"

definition catalogue :: "bytes \<Rightarrow> (bytes \<times> bytes) list \<Rightarrow> bool" where
  "catalogue file es \<longleftrightarrow> length file < 2 ^ 32 \<and> es \<noteq> [] \<and> 28 \<le> length file \<and>
     u32_at file 0 0x950412de \<and> u32_at file 8 (length es) \<and>
     (\<exists>originals translations. u32_at file 12 originals \<and> u32_at file 16 translations \<and>
        (\<forall>i < length es. string_at file originals i (fst (es ! i)) \<and> string_at file translations i (snd (es ! i))))"

lemma read_section_run:
  "u32_at (mo_file mo) p v \<Longrightarrow> \<not> mo_fail mo \<Longrightarrow> mo_pos mo = p \<Longrightarrow> read_section mo = (Inr v, mo\<lparr>mo_pos := p + 4\<rparr>)"
  by (cases mo) (auto simp: read_section_def read_octets_def u32_at_def Let_def andThen_def)

lemma read_table_string_run:
  assumes "string_at (mo_file mo) table i s" and "\<not> mo_fail mo" and "length (mo_file mo) < 2 ^ 32"
  shows "\<exists>p. read_table_string table i mo = (Inr s, mo\<lparr>mo_pos := p\<rparr>)"
proof -
  obtain off where off: "u32_at (mo_file mo) (table + i * 8) (length s)" "u32_at (mo_file mo) (table + i * 8 + 4) off"
    "off + length s \<le> length (mo_file mo)" "take (length s) (drop off (mo_file mo)) = s"
    using assms(1) by (auto simp: string_at_def)
  then have "(table + i * 8) mod 2 ^ 32 = table + i * 8" using assms(3) by (simp add: u32_at_def)
  moreover have "length (take (length s) (drop off (mo_file mo))) = length s" using off(3) by simp
  moreover have "\<exists>p. mo\<lparr>mo_pos := q, mo_fail := False\<rparr> = mo\<lparr>mo_pos := p\<rparr>" for q
    using assms(2) by (intro exI [of _ q]) (cases mo; simp)
  ultimately show ?thesis
    using off assms(2) read_section_run [of "mo\<lparr>mo_pos := table + i * 8\<rparr>" "table + i * 8" "length s"]
      read_section_run [of "mo\<lparr>mo_pos := table + i * 8 + 4\<rparr>" "table + i * 8 + 4" off]
    by (simp add: read_table_string_def seekg_def andThen_def read_string_def read_octets_def Let_def)
qed

definition entries_map :: "(bytes \<times> bytes) list \<Rightarrow> (bytes \<Rightarrow> bytes option) \<Rightarrow> bytes \<Rightarrow> bytes option" where
  \<comment> \<open>what was there stays, and the first entry of a message counts\<close>
  "entries_map es m = map_of es ++ m"

lemma load_entry_run:
  assumes "string_at (mo_file mo) to i (fst e)" "string_at (mo_file mo) tt i (snd e)" and "\<not> mo_fail mo" and "length (mo_file mo) < 2 ^ 32"
  shows "\<exists>p. load_entry to tt i mo = (Inr (), mo\<lparr>mo_pos := p, m_translation_map := entries_map [e] (m_translation_map mo)\<rparr>)"
proof -
  obtain p where p: "read_table_string to i mo = (Inr (fst e), mo\<lparr>mo_pos := p\<rparr>)" using read_table_string_run [OF assms(1,3,4)] by blast
  obtain q where q: "read_table_string tt i (mo\<lparr>mo_pos := p\<rparr>) = (Inr (snd e), mo\<lparr>mo_pos := q\<rparr>)"
    using read_table_string_run [of "mo\<lparr>mo_pos := p\<rparr>" tt i "snd e"] assms(2-4) by auto
  have "entries_map [e] (m_translation_map mo) = (if m_translation_map mo (fst e) = None then (m_translation_map mo)(fst e \<mapsto> snd e) else m_translation_map mo)"
    by (cases e) (auto simp: entries_map_def map_add_def fun_eq_iff split: option.splits)
  with p q show ?thesis by (auto simp: load_entry_def andThen_def intro!: exI [of _ q])
qed

lemma load_entries_run:
  assumes "\<And>i. i < n \<Longrightarrow> string_at (mo_file mo) to i (fst (es ! i)) \<and> string_at (mo_file mo) tt i (snd (es ! i))"
    and "\<not> mo_fail mo" and "length (mo_file mo) < 2 ^ 32" and "n \<le> length es"
  shows "\<exists>p. forA (load_entry to tt) [0..<n] mo =
           (Inr (), mo\<lparr>mo_pos := p, m_translation_map := entries_map (take n es) (m_translation_map mo)\<rparr>)"
  using assms(1,4)
proof (induction n)
  case 0
  show ?case by (rule exI [of _ "mo_pos mo"]) (simp add: entries_map_def)
next
  case (Suc n)
  let ?m = "entries_map (take n es) (m_translation_map mo)"
  obtain p where p: "forA (load_entry to tt) [0..<n] mo = (Inr (), mo\<lparr>mo_pos := p, m_translation_map := ?m\<rparr>)"
    using Suc by auto
  obtain q where q: "load_entry to tt n (mo\<lparr>mo_pos := p, m_translation_map := ?m\<rparr>) =
      (Inr (), mo\<lparr>mo_pos := q, m_translation_map := entries_map [es ! n] ?m\<rparr>)"
    using load_entry_run [of "mo\<lparr>mo_pos := p, m_translation_map := ?m\<rparr>" to n "es ! n" tt] Suc.prems assms(2,3) by auto
  have "entries_map [es ! n] ?m = entries_map (take (Suc n) es) (m_translation_map mo)"
    using Suc.prems(2) by (simp add: entries_map_def take_Suc_conv_app_nth)
  with p q show ?case by (auto simp: forA_append)
qed

lemma u32_section: "p + 4 \<le> length file \<Longrightarrow> u32_at file p (le32 (take 4 (drop p file)))"
  by (simp add: u32_at_def)

lemma read_contents_run:
  assumes "catalogue (mo_file mo) es" and "mo_pos mo = 0" and "\<not> mo_fail mo"
  shows "\<exists>p. read_contents mo = (Inr (), mo\<lparr>mo_pos := p, m_translation_map := entries_map es (m_translation_map mo), s_translation_map_ready := True\<rparr>)"
proof -
  let ?f = "mo_file mo"
  obtain to tt where t: "u32_at ?f 12 to" "u32_at ?f 16 tt"
      "\<forall>i < length es. string_at ?f to i (fst (es ! i)) \<and> string_at ?f tt i (snd (es ! i))"
    using assms(1) by (auto simp: catalogue_def)
  have c: "length ?f < 2 ^ 32" "length es \<noteq> 0" "28 \<le> length ?f" "u32_at ?f 0 0x950412de" "u32_at ?f 8 (length es)"
    using assms(1) by (auto simp: catalogue_def)
  have sec: "read_section (mo\<lparr>mo_pos := p\<rparr>) = (Inr v, mo\<lparr>mo_pos := p + 4\<rparr>)" if "u32_at ?f p v" for p v
    using read_section_run [of "mo\<lparr>mo_pos := p\<rparr>" p v] that assms(3) by simp
  obtain p where p: "forA (load_entry to tt) [0..<length es] (mo\<lparr>mo_pos := 28\<rparr>) =
      (Inr (), mo\<lparr>mo_pos := p, m_translation_map := entries_map es (m_translation_map mo)\<rparr>)"
    using load_entries_run [of "length es" "mo\<lparr>mo_pos := 28\<rparr>" to es tt] t(3) assms(3) c(1) by auto
  have "mo = mo\<lparr>mo_pos := 0\<rparr>" using assms(2) by simp
  then have first: "read_section mo = (Inr 0x950412de, mo\<lparr>mo_pos := 4\<rparr>)" using sec [OF c(4)] by simp
  show ?thesis
    using first sec [OF u32_section, of 4] sec [OF c(5)] sec [OF t(1)] sec [OF t(2)] sec [OF u32_section, of 20] sec [OF u32_section, of 24] p c(2,3)
    by (intro exI [of _ p]) (simp add: read_contents_def andThen_def)
qed

text \<open>
  C30: from a file that is the catalogue of a list of messages, \<open>read_file\<close> loads all of them, and
  \<open>gettext\<close> then translates each message by its first entry and leaves every other text as it
  is.
\<close>

theorem catalogue_loaded:
  assumes "get_system_lang_short_name env = Inr lang"
    and "mo_open env (m_messages_dir mo @ [0x2F] @ lang @ lc_messages @ m_mo_filename mo) = Some file" and "catalogue file es"
    and "m_translation_map mo = (\<lambda>_. None)"
  shows "\<exists>mo'. read_file env mo = (Inr (), mo') \<and> (\<forall>text. gettext mo' text = (case map_of es text of None \<Rightarrow> text | Some t \<Rightarrow> t))"
proof -
  obtain p where "read_contents (mo\<lparr>mo_file := file, mo_pos := 0, mo_fail := False\<rparr>) =
      (Inr (), mo\<lparr>mo_file := file, mo_fail := False, mo_pos := p, m_translation_map := map_of es, s_translation_map_ready := True\<rparr>)"
    using read_contents_run [of "mo\<lparr>mo_file := file, mo_pos := 0, mo_fail := False\<rparr>" es] assms(3,4)
    by (auto simp: entries_map_def)
  then show ?thesis using assms(1,2) by (simp add: read_file_def gettext_def)
qed

definition example_catalogue :: bytes where
  "example_catalogue =
     [0xDE, 0x12, 0x04, 0x95, 0, 0, 0, 0, 1, 0, 0, 0, 28, 0, 0, 0, 36, 0, 0, 0, 0, 0, 0, 0, 0, 0, 0, 0,
      2, 0, 0, 0, 44, 0, 0, 0, 3, 0, 0, 0, 46, 0, 0, 0, 0x6E, 0x6F, 0x6E, 0x69, 0x65]"

definition example_mo_env :: mo_env where
  "example_mo_env = \<lparr>LANG = Some (octets_of ''pl_PL''), setlocale = None,
     mo_open = (\<lambda>name. if name = octets_of ''share/pl/LC_MESSAGES/galaxy42.mo'' then Some example_catalogue else None)\<rparr>"

definition example_mo_reader :: mo_file_reader where
  "example_mo_reader = \<lparr>m_messages_dir = octets_of ''share'', m_mo_filename = octets_of ''galaxy42.mo'', mo_file = [], mo_pos = 0,
     mo_fail = False, m_translation_map = (\<lambda>_. None), s_translation_map_ready = False\<rparr>"

theorem catalogue_loaded_witness:
  "\<exists>mo'. read_file example_mo_env example_mo_reader = (Inr (), mo') \<and> gettext mo' (octets_of ''no'') = octets_of ''nie'' \<and>
         gettext mo' (octets_of ''yes'') = octets_of ''yes''"
proof -
  have cat: "catalogue example_catalogue [(octets_of ''no'', octets_of ''nie'')]"
    unfolding catalogue_def example_catalogue_def string_at_def u32_at_def le32_def octets_of_def
    by (auto intro!: exI [of _ 28] exI [of _ 36] exI [of _ 44] exI [of _ 46])
  show ?thesis
    using catalogue_loaded [OF _ _ cat, of example_mo_env "octets_of ''pl''" example_mo_reader]
    by (auto simp: example_mo_env_def example_mo_reader_def get_system_lang_short_name_def octets_of_def lc_messages_def is_lower_def)
qed

text \<open>A file that ends inside its tables is not refused: the reader goes on with octets that were never read.\<close>

lemma truncated_catalogue:
  "read_file (example_mo_env\<lparr>mo_open := \<lambda>_. Some (take 30 example_catalogue)\<rparr>) example_mo_reader =
     (Inl Undefined_behaviour, snd (read_file (example_mo_env\<lparr>mo_open := \<lambda>_. Some (take 30 example_catalogue)\<rparr>) example_mo_reader))"
proof -
  have "fst (read_file (example_mo_env\<lparr>mo_open := \<lambda>_. Some (take 30 example_catalogue)\<rparr>) example_mo_reader) = Inl Undefined_behaviour"
    by (simp add: read_file_def example_mo_env_def example_mo_reader_def get_system_lang_short_name_def octets_of_def is_lower_def
        read_contents_def read_section_def read_octets_def example_catalogue_def le32_def andThen_def Let_def load_entry_def
        read_table_string_def seekg_def)
  then show ?thesis by (metis prod.collapse)
qed

end
