(* ===== verification/Rpc_Client.thy ===== *)
theory Rpc_Client
  imports Rpc_Server
begin

text \<open>
  The other end of the remote control: the connection of the graphical interface,
  \<^verbatim>\<open>src/src-gui/netclient.cpp\<close>, and the buffer that puts the frames of the server together again,
  \<^verbatim>\<open>src/src-gui/dataeater.cpp\<close>; and a call from the client to the server and back.

  The socket is a record of what matters here: whether it is connected, how many octets each \<open>write\<close> takes (a
  negative number: error), and the octets it took. Received octets come in pieces of any size, one call of
  \<open>onTcpReceive\<close> for each. \<open>executed\<close> lists the messages that were handed to \<open>parseAndExecMsg\<close>.
\<close>

section \<open>The code\<close>

record dataeater =
  m_internal_buffer :: bytes
  m_commands_list :: "bytes list"
  m_last_command :: bytes
  m_is_processing :: bool
  m_frame_size :: nat
  m_current_index :: nat

definition dataeater_new :: dataeater where
  \<comment> \<open>\<open>m_frame_size\<close> and \<open>m_current_index\<close> are set before they are read\<close>
  "dataeater_new = \<lparr>m_internal_buffer = [], m_commands_list = [], m_last_command = [], m_is_processing = False,
     m_frame_size = 0, m_current_index = 0\<rparr>"

definition crypto_auth_hmacsha512_BYTES :: nat where
  "crypto_auth_hmacsha512_BYTES = 64"

definition pop_msg_size :: "dataeater \<Rightarrow> nat \<times> dataeater" where
  \<comment> \<open>called with two octets in the buffer\<close>
  "pop_msg_size d =
     (let b = m_internal_buffer d
      in ((unat (b ! 0) * 256 mod 65536 + unat (b ! 1)) mod 65536, d\<lparr>m_internal_buffer := drop 2 b\<rparr>))"

function read_command :: "dataeater \<Rightarrow> dataeater" where
  \<comment> \<open>the loop\<close>
  "read_command d =
     (if m_current_index d = m_frame_size d + crypto_auth_hmacsha512_BYTES
      then d\<lparr>m_commands_list := m_commands_list d @ [m_last_command d], m_last_command := [], m_is_processing := False\<rparr>
      else case m_internal_buffer d of
             [] \<Rightarrow> d
           | c # rest \<Rightarrow> read_command (d\<lparr>m_last_command := m_last_command d @ [c], m_internal_buffer := rest,
                                         m_current_index := m_current_index d + 1\<rparr>))"
  by pat_completeness auto

termination
  by (relation "measure (\<lambda>d. length (m_internal_buffer d))") auto

declare read_command.simps [simp del]

definition continiueProcessing :: "dataeater \<Rightarrow> dataeater" where
  "continiueProcessing d =
     (if \<not> m_is_processing d then
        if length (m_internal_buffer d) < 2 then d
        else case pop_msg_size d of
               (n, d') \<Rightarrow> read_command (d'\<lparr>m_frame_size := n, m_current_index := 0, m_is_processing := True\<rparr>)
      else read_command d)"

definition eat :: "bytes \<Rightarrow> dataeater \<Rightarrow> dataeater" where
  "eat data d = continiueProcessing (d\<lparr>m_internal_buffer := m_internal_buffer d @ data\<rparr>)"

definition getLastCommand :: "dataeater \<Rightarrow> bytes" where
  \<comment> \<open>the list is never popped\<close>
  "getLastCommand d = (if m_commands_list d = [] then [] else last (m_commands_list d))"

record netClient =
  client_hmac_key :: bytes
  m_data_eater :: dataeater
  socket_up :: bool
  socket_write :: "bytes \<Rightarrow> int"
  written :: bytes
  executed :: "bytes list"

definition netClient_new :: "(bytes \<Rightarrow> int) \<Rightarrow> netClient" where
  "netClient_new sock =
     \<lparr>client_hmac_key = replicate 32 0x42, m_data_eater = dataeater_new, socket_up = False, socket_write = sock,
      written = [], executed = []\<rparr>"

definition startConnect :: "bool \<Rightarrow> netClient \<Rightarrow> bool \<times> netClient" where
  \<comment> \<open>whether the connection is made within the five seconds\<close>
  "startConnect success cl = (success, cl\<lparr>socket_up := success\<rparr>)"

definition closeConnection :: "netClient \<Rightarrow> netClient" where
  "closeConnection cl = cl\<lparr>socket_up := False\<rparr>"

definition serialize_msg :: "bytes \<Rightarrow> bytes result" where
  "serialize_msg msg =
     (if \<not> length msg \<le> 65535 then Inl Abort
      else Inr ([of_nat (length msg div 256), of_nat (length msg mod 256)] @ msg))"

definition write_all :: "bytes \<Rightarrow> (netClient, unit) action" where
  \<comment> \<open>\<open>m_socket->write\<close> and the comparison of its result\<close>
  "write_all data cl =
     (let n = socket_write cl data; cl' = cl\<lparr>written := written cl @ take (nat n) data\<rparr>
      in if n \<noteq> int (length data) then (Inl Runtime_error, cl') else (Inr (), cl'))"

definition send_msg :: "'j rpc_lib \<Rightarrow> bytes \<Rightarrow> (netClient, unit) action" where
  "send_msg lib msg cl =
     (if \<not> socket_up cl then (Inr (), cl)
      else andThen (liftR (serialize_msg msg)) (\<lambda>packet.
           andThen (write_all packet) (\<lambda>_.
           write_all (hmacsha512 lib msg (client_hmac_key cl)))) cl)"

definition check_auth :: "'j rpc_lib \<Rightarrow> bytes \<Rightarrow> netClient \<Rightarrow> bool" where
  "check_auth lib cmd_and_auth cl =
     (if length cmd_and_auth \<le> crypto_auth_hmacsha512_BYTES then False
      else let cmd_size = length cmd_and_auth - crypto_auth_hmacsha512_BYTES
           in hmacsha512_verify lib (drop cmd_size cmd_and_auth) (take cmd_size cmd_and_auth) (client_hmac_key cl))"

definition onTcpReceive :: "'j rpc_lib \<Rightarrow> bytes \<Rightarrow> netClient \<Rightarrow> netClient" where
  \<comment> \<open>\<open>data\<close>: what \<open>readAll\<close> returns\<close>
  "onTcpReceive lib data cl =
     (let cl' = cl\<lparr>m_data_eater := eat data (m_data_eater cl)\<rparr>; last_cmd = getLastCommand (m_data_eater cl')
      in if last_cmd = [] then cl'
         else if \<not> check_auth lib last_cmd cl' then cl'\<lparr>socket_up := False\<rparr>
         else cl'\<lparr>executed := executed cl' @ [take (length last_cmd - crypto_auth_hmacsha512_BYTES) last_cmd]\<rparr>)"

section \<open>Frames come together whatever the pieces\<close>

lemma read_command_run:
  "m_current_index d \<le> m_frame_size d + 64 \<Longrightarrow>
   read_command d =
     (let missing = m_frame_size d + 64 - m_current_index d; b = m_internal_buffer d
      in if length b < missing
         then d\<lparr>m_last_command := m_last_command d @ b, m_internal_buffer := [], m_current_index := m_current_index d + length b\<rparr>
         else d\<lparr>m_commands_list := m_commands_list d @ [m_last_command d @ take missing b], m_last_command := [],
                m_is_processing := False, m_internal_buffer := drop missing b, m_current_index := m_frame_size d + 64\<rparr>)"
proof (induction d rule: read_command.induct)
  case (1 d)
  show ?case
  proof (cases "m_current_index d = m_frame_size d + 64")
    case True
    then show ?thesis by (subst read_command.simps) (simp add: crypto_auth_hmacsha512_BYTES_def)
  next
    case False
    show ?thesis
    proof (cases "m_internal_buffer d")
      case Nil
      with False 1(2) show ?thesis by (subst read_command.simps) (simp add: crypto_auth_hmacsha512_BYTES_def)
    next
      case (Cons c rest)
      have "m_frame_size d + 64 - m_current_index d = Suc (m_frame_size d + 64 - Suc (m_current_index d))"
        using False 1(2) by simp
      with False Cons 1 show ?thesis
        by (subst read_command.simps) (simp add: crypto_auth_hmacsha512_BYTES_def Let_def)
    qed
  qed
qed

definition is_frame :: "bytes \<Rightarrow> bool" where
  \<comment> \<open>size, message and authenticator\<close>
  "is_frame fr \<longleftrightarrow> 66 \<le> length fr \<and> (unat (fr ! 0) * 256 mod 65536 + unat (fr ! 1)) mod 65536 = length fr - 66"

definition reading :: "bytes \<Rightarrow> bytes list \<Rightarrow> bytes \<Rightarrow> dataeater \<Rightarrow> bool" where
  \<comment> \<open>the state after a prefix \<open>p\<close> of a frame was eaten\<close>
  "reading fr cmds p d \<longleftrightarrow>
     (if length p < 2 then m_internal_buffer d = p \<and> \<not> m_is_processing d \<and> m_last_command d = [] \<and> m_commands_list d = cmds
      else if length p < length fr then
        m_internal_buffer d = [] \<and> m_is_processing d \<and> m_frame_size d = length fr - 66 \<and> m_current_index d = length p - 2 \<and>
        m_last_command d = drop 2 p \<and> m_commands_list d = cmds
      else m_internal_buffer d = [] \<and> \<not> m_is_processing d \<and> m_last_command d = [] \<and> m_commands_list d = cmds @ [drop 2 fr])"

lemma eat_reading:
  assumes "is_frame fr" and "reading fr cmds p d" and "fr = p @ c @ rest"
  shows "reading fr cmds (p @ c) (eat c d)"
proof -
  have len: "length fr = length p + length c + length rest" using assms(3) by simp
  consider "length (p @ c) < 2" | "length p < 2" "2 \<le> length (p @ c)" | "2 \<le> length p" "length p < length fr" | "length p = length fr"
    using len by fastforce
  then show ?thesis
  proof cases
    case 1
    with assms(2) show ?thesis by (simp add: reading_def eat_def continiueProcessing_def)
  next
    case 2
    let ?pc = "p @ c"
    have size: "(unat (?pc ! 0) * 256 mod 65536 + unat (?pc ! 1)) mod 65536 = length fr - 66"
    proof -
      have fr: "fr = ?pc @ rest" using assms(3) by simp
      have same: "fr ! i = ?pc ! i" if "i < length ?pc" for i unfolding fr using that by (simp only: nth_append if_True)
      have "fr ! 0 = ?pc ! 0" "fr ! 1 = ?pc ! 1" using 2(2) by (intro same, linarith)+
      then show ?thesis using assms(1) by (simp only: is_frame_def)
    qed
    have d: "m_internal_buffer d = p" "\<not> m_is_processing d" "m_last_command d = []" "m_commands_list d = cmds"
      using assms(2) 2(1) by (simp_all add: reading_def)
    let ?d = "d\<lparr>m_internal_buffer := drop 2 ?pc, m_frame_size := length fr - 66, m_current_index := 0, m_is_processing := True\<rparr>"
    have "eat c d = read_command ?d"
      using 2 d size by (simp add: eat_def continiueProcessing_def pop_msg_size_def Let_def)
    moreover have "66 \<le> length fr" using assms(1) by (simp add: is_frame_def)
    ultimately show ?thesis
      using 2 d len assms(3) by (cases rest) (auto simp: read_command_run reading_def Let_def)
  next
    case 3
    have d: "m_internal_buffer d = []" "m_is_processing d" "m_frame_size d = length fr - 66" "m_current_index d = length p - 2"
      "m_last_command d = drop 2 p" "m_commands_list d = cmds"
      using assms(2) 3 by (simp_all add: reading_def)
    have "66 \<le> length fr" using assms(1) by (simp add: is_frame_def)
    with 3 d len assms(3) show ?thesis
      by (cases rest) (auto simp: eat_def continiueProcessing_def read_command_run reading_def Let_def)
  next
    case 4
    then have "c = []" using len by simp
    with 4 assms(1,2) show ?thesis by (simp add: reading_def eat_def continiueProcessing_def is_frame_def)
  qed
qed

lemma eat_pieces:
  "is_frame fr \<Longrightarrow> reading fr cmds p d \<Longrightarrow> fr = p @ concat cs @ rest \<Longrightarrow> reading fr cmds (p @ concat cs) (fold eat cs d)"
proof (induction cs arbitrary: p d)
  case (Cons c cs)
  from eat_reading [OF Cons.prems(1,2), of c "concat cs @ rest"] Cons.prems(3) have "reading fr cmds (p @ c) (eat c d)" by simp
  from Cons.IH [OF Cons.prems(1) this] Cons.prems(3) show ?case by simp
qed simp

lemma frame_of_is_frame:
  assumes "length msg < 65536" and "length (hmacsha512 lib msg key) = 64"
  shows "is_frame (frame_of lib key msg)"
  using size_octets_value [OF assms(1)] assms(2)
  by (simp add: is_frame_def frame_of_def size_octets_def nth_append mod_add_left_eq)

section \<open>Calls\<close>

definition takes_all :: "netClient \<Rightarrow> bool" where
  "takes_all cl \<longleftrightarrow> (\<forall>data. socket_write cl data = int (length data))"

lemma send_msg_run:
  assumes "socket_up cl" and "takes_all cl" and "length msg < 65536"
  shows "send_msg lib msg cl = (Inr (), cl\<lparr>written := written cl @ frame_of lib (client_hmac_key cl) msg\<rparr>)"
  using assms
  by (simp add: send_msg_def serialize_msg_def write_all_def takes_all_def frame_of_def size_octets_def Let_def)

definition receive_all :: "'j rpc_lib \<Rightarrow> bytes list \<Rightarrow> netClient \<Rightarrow> netClient" where
  "receive_all lib cs cl = fold (onTcpReceive lib) cs cl"

lemma check_auth_fields [simp]:
  "check_auth lib x (cl\<lparr>m_data_eater := d\<rparr>) = check_auth lib x cl" "check_auth lib x (cl\<lparr>executed := e\<rparr>) = check_auth lib x cl"
  "check_auth lib x (cl\<lparr>written := w\<rparr>) = check_auth lib x cl"
  by (simp_all add: check_auth_def)

lemma check_auth_empty: "\<not> check_auth lib [] cl"
  by (simp add: check_auth_def)

definition between_frames :: "'j rpc_lib \<Rightarrow> netClient \<Rightarrow> bool" where
  \<comment> \<open>connected, no frame received in part, and the last one received, if any, was authentic\<close>
  "between_frames lib cl \<longleftrightarrow> socket_up cl \<and> m_internal_buffer (m_data_eater cl) = [] \<and> \<not> m_is_processing (m_data_eater cl) \<and>
     m_last_command (m_data_eater cl) = [] \<and>
     (m_commands_list (m_data_eater cl) \<noteq> [] \<longrightarrow> check_auth lib (last (m_commands_list (m_data_eater cl))) cl)"

definition old_answer :: "netClient \<Rightarrow> bytes list" where
  \<comment> \<open>the message of the last frame received, if there was one\<close>
  "old_answer cl = (let cmds = m_commands_list (m_data_eater cl)
     in if cmds = [] then [] else [take (length (last cmds) - crypto_auth_hmacsha512_BYTES) (last cmds)])"

lemma receive_prefix:
  assumes "is_frame fr" and "reading fr cmds p (m_data_eater cl)" and "fr = p @ concat cs @ rest" and "rest \<noteq> []"
    and "cmds \<noteq> [] \<longrightarrow> check_auth lib (last cmds) cl"
  shows "receive_all lib cs cl = cl\<lparr>m_data_eater := fold eat cs (m_data_eater cl), executed := executed cl @
     concat (replicate (length cs) (if cmds = [] then [] else [take (length (last cmds) - crypto_auth_hmacsha512_BYTES) (last cmds)]))\<rparr>"
  using assms(2,3,5)
proof (induction cs arbitrary: p cl)
  case (Cons c cs)
  let ?old = "if cmds = [] then [] else [take (length (last cmds) - crypto_auth_hmacsha512_BYTES) (last cmds)]"
  let ?cl = "cl\<lparr>m_data_eater := eat c (m_data_eater cl), executed := executed cl @ ?old\<rparr>"
  have r: "reading fr cmds (p @ c) (eat c (m_data_eater cl))"
    using eat_reading [OF assms(1) Cons.prems(1), of c "concat cs @ rest"] Cons.prems(2) by simp
  have "length (p @ c) < length fr" using Cons.prems(2) assms(4) by simp
  with r have list: "m_commands_list (eat c (m_data_eater cl)) = cmds" by (simp add: reading_def split: if_splits)
  have step: "onTcpReceive lib c cl = ?cl"
    using list Cons.prems(3) check_auth_empty [of lib cl]
    by (cases "cmds = []"; cases "last cmds = []") (simp_all add: onTcpReceive_def getLastCommand_def Let_def)
  have "receive_all lib cs ?cl = ?cl\<lparr>m_data_eater := fold eat cs (m_data_eater ?cl),
      executed := executed ?cl @ concat (replicate (length cs) ?old)\<rparr>"
    by (rule Cons.IH [of "p @ c"]) (use r Cons.prems(2,3) in simp_all)
  then show ?case by (simp add: receive_all_def step)
qed (simp add: receive_all_def)

lemma receive_frame:
  assumes "between_frames lib cl" and "concat cs = frame_of lib (client_hmac_key cl) msg" and "[] \<notin> set cs"
    and "0 < length msg" and "length msg < 65536" and "length (hmacsha512 lib msg (client_hmac_key cl)) = 64"
    and "hmacsha512_verify lib (hmacsha512 lib msg (client_hmac_key cl)) msg (client_hmac_key cl)"
  shows "between_frames lib (receive_all lib cs cl) \<and> old_answer (receive_all lib cs cl) = [msg] \<and>
         executed (receive_all lib cs cl) = executed cl @ concat (replicate (length cs - 1) (old_answer cl)) @ [msg]"
proof -
  let ?fr = "frame_of lib (client_hmac_key cl) msg" and ?cmds = "m_commands_list (m_data_eater cl)"
  have fr: "is_frame ?fr" by (rule frame_of_is_frame [OF assms(5,6)])
  have "cs \<noteq> []" using assms(2) fr by (auto simp: is_frame_def)
  then obtain ds c where cs: "cs = ds @ [c]" by (metis append_butlast_last_id)
  have "c \<noteq> []" using assms(3) by (auto simp: cs)
  have start: "reading ?fr ?cmds [] (m_data_eater cl)" using assms(1) by (simp add: reading_def between_frames_def)
  have pre: "receive_all lib ds cl = cl\<lparr>m_data_eater := fold eat ds (m_data_eater cl), executed := executed cl @
      concat (replicate (length ds) (old_answer cl))\<rparr>"
    unfolding old_answer_def Let_def
    by (rule receive_prefix [OF fr start _ \<open>c \<noteq> []\<close>]) (use assms(1,2) cs in \<open>simp_all add: between_frames_def\<close>)
  have split: "?fr = [] @ concat cs @ []" using assms(2) by simp
  have "reading ?fr ?cmds ?fr (fold eat cs (m_data_eater cl))"
    using eat_pieces [OF fr start split] assms(2) by simp
  moreover have "66 \<le> length ?fr" using fr by (simp add: is_frame_def)
  moreover have "drop 2 ?fr = msg @ hmacsha512 lib msg (client_hmac_key cl)" by (simp add: frame_of_def size_octets_def)
  ultimately have after: "m_commands_list (fold eat cs (m_data_eater cl)) = ?cmds @ [msg @ hmacsha512 lib msg (client_hmac_key cl)]"
    "m_internal_buffer (fold eat cs (m_data_eater cl)) = []" "\<not> m_is_processing (fold eat cs (m_data_eater cl))"
    "m_last_command (fold eat cs (m_data_eater cl)) = []"
    by (simp_all add: reading_def)
  have "receive_all lib cs cl = onTcpReceive lib c (receive_all lib ds cl)" by (simp add: receive_all_def cs)
  also have "\<dots> = cl\<lparr>m_data_eater := fold eat cs (m_data_eater cl),
      executed := executed cl @ concat (replicate (length ds) (old_answer cl)) @ [msg]\<rparr>"
    using assms(4,6,7) after(1)
    by (simp add: pre onTcpReceive_def getLastCommand_def check_auth_def crypto_auth_hmacsha512_BYTES_def Let_def cs)
  finally show ?thesis
    using assms(1,4,6,7) after
    by (simp add: between_frames_def old_answer_def check_auth_def crypto_auth_hmacsha512_BYTES_def Let_def cs)
qed

definition stream_events :: "nat \<Rightarrow> bytes \<Rightarrow> rpc_event list" where
  \<comment> \<open>how \<open>async_read\<close> takes a stream of one frame apart for a session: size, message, authenticator; then the answer is written\<close>
  "stream_events sid s =
     [Completed sid False (take 2 s), Completed sid False (take (length s - 66) (drop 2 s)),
      Completed sid False (drop (length s - 64) s), Completed sid False []]"

lemma stream_events_frame:
  "length (hmacsha512 lib msg key) = 64 \<Longrightarrow> stream_events sid (frame_of lib key msg) =
     [Completed sid False (size_octets (length msg)), Completed sid False msg, Completed sid False (hmacsha512 lib msg key), Completed sid False []]"
  by (simp add: stream_events_def frame_of_def size_octets_def)

text \<open>
  C19: a call from the client to the server and back: what \<open>send_msg\<close> writes, taken apart by the session of the server, runs the function the
  message names; if the connection of the server takes the frame of the answer whole (\<open>takes_frame\<close>), this frame, received in
  pieces of any sizes, hands the text of the answer to the client's \<open>parseAndExecMsg\<close>. The client may have received answers before:
  then each piece but the last one hands it the previous answer once more. Afterwards it is ready for the next call.
\<close>

theorem client_call_roundtrip:
  assumes "between_frames lib cl" and "takes_all cl" and "client_hmac_key cl = m_hmac_key srv"
    and "rpc_running srv" and "find_session sid srv = Some ses" and "pending ses = Wait_size" and "m_session_hmac_key ses = m_hmac_key srv"
    and "\<And>m. length (hmacsha512 lib m (m_hmac_key srv)) = 64 \<and> hmacsha512_verify lib (hmacsha512 lib m (m_hmac_key srv)) m (m_hmac_key srv)"
    and "0 < length msg" and "length msg < 65536"
    and "json_parse lib msg = Inr j" and "json_cmd lib j = Inr cmd" and "m_rpc_functions_map srv cmd = Some f"
    and "f msg (rpc_world srv) = (Inr answer, w')"
    and "0 < length (rpc_response lib ses j answer)" and "length (rpc_response lib ses j answer) \<le> 65535"
    and "takes_frame lib (m_hmac_key srv) (rpc_response lib ses j answer)"
  shows "\<exists>cl' srv' fr. send_msg lib msg cl = (Inr (), cl') \<and>
           rpc_steps lib (stream_events sid (drop (length (written cl)) (written cl'))) srv = (Inr (), srv') \<and>
           rpc_world srv' = w' \<and> rpc_sent srv' = rpc_sent srv @ [(sid, fr)] \<and>
           (\<forall>cs. concat cs = fr \<and> [] \<notin> set cs \<longrightarrow>
              between_frames lib (receive_all lib cs cl') \<and> old_answer (receive_all lib cs cl') = [rpc_response lib ses j answer] \<and>
              executed (receive_all lib cs cl') =
                executed cl @ concat (replicate (length cs - 1) (old_answer cl)) @ [rpc_response lib ses j answer])"
proof -
  let ?cl = "cl\<lparr>written := written cl @ frame_of lib (m_hmac_key srv) msg\<rparr>" and ?r = "rpc_response lib ses j answer"
  let ?fr = "frame_of lib (m_hmac_key srv) ?r"
  have sent: "send_msg lib msg cl = (Inr (), ?cl)"
    using send_msg_run [of cl msg lib] assms(1-3,10) by (simp add: between_frames_def)
  have events: "stream_events sid (drop (length (written cl)) (written ?cl)) =
      [Completed sid False (size_octets (length msg)), Completed sid False msg,
       Completed sid False (hmacsha512 lib msg (m_hmac_key srv)), Completed sid False []]"
    using assms(8) by (simp add: stream_events_frame)
  obtain srv' where run: "rpc_steps lib (stream_events sid (drop (length (written cl)) (written ?cl))) srv = (Inr (), srv')"
    "rpc_world srv' = w'" "rpc_sent srv' = rpc_sent srv @ [(sid, ?fr)]"
    using rpc_call_run [OF assms(4-7) _ _ assms(9-14,16)] assms(8,17) unfolding events takes_frame_def by fastforce
  have "between_frames lib ?cl" "client_hmac_key ?cl = m_hmac_key srv" "old_answer ?cl = old_answer cl"
    using assms(1,3) by (simp_all add: between_frames_def old_answer_def)
  then have "between_frames lib (receive_all lib cs ?cl) \<and> old_answer (receive_all lib cs ?cl) = [?r] \<and>
      executed (receive_all lib cs ?cl) = executed cl @ concat (replicate (length cs - 1) (old_answer cl)) @ [?r]"
    if "concat cs = ?fr" "[] \<notin> set cs" for cs
    using receive_frame [of lib ?cl cs ?r] that assms(8,15,16) by simp
  with sent run show ?thesis by blast
qed

definition example_client :: netClient where
  \<comment> \<open>a client that has received the answer \<open>[7]\<close> before\<close>
  "example_client = snd (startConnect True (netClient_new (\<lambda>data. int (length data))))
     \<lparr>m_data_eater := dataeater_new\<lparr>m_commands_list := [7 # replicate 64 (sum_list [7] + sum_list (replicate 32 0x42))]\<rparr>\<rparr>"

lemma example_client_ready: "between_frames example_rpc_lib example_client" "old_answer example_client = [[7]]"
  by (simp_all add: between_frames_def old_answer_def example_client_def startConnect_def netClient_new_def dataeater_new_def
      check_auth_def crypto_auth_hmacsha512_BYTES_def example_rpc_lib_def Let_def)

theorem client_call_roundtrip_witness:
  "\<exists>cl' srv' fr. send_msg example_rpc_lib [1, 2] example_client = (Inr (), cl') \<and>
     rpc_steps example_rpc_lib (stream_events 1 (drop (length (written example_client)) (written cl'))) example_rpc_session = (Inr (), srv') \<and>
     rpc_world srv' = 1 \<and> rpc_sent srv' = rpc_sent example_rpc_session @ [(1, fr)] \<and>
     (\<forall>cs. concat cs = fr \<and> [] \<notin> set cs \<longrightarrow>
        between_frames example_rpc_lib (receive_all example_rpc_lib cs cl') \<and>
        old_answer (receive_all example_rpc_lib cs cl') = [rpc_response example_rpc_lib (c_session_new (replicate 32 0x42) 1) [1, 2] [9]] \<and>
        executed (receive_all example_rpc_lib cs cl') = executed example_client @ concat (replicate (length cs - 1) (old_answer example_client)) @
          [rpc_response example_rpc_lib (c_session_new (replicate 32 0x42) 1) [1, 2] [9]])"
  by (rule client_call_roundtrip [OF example_client_ready(1) _ _ example_rpc_session_fields(1,2), where f = "\<lambda>m n. (Inr [9], n + 1)" and cmd = "[1, 2]"])
     (simp_all add: example_client_def startConnect_def netClient_new_def takes_all_def
       example_rpc_session_fields c_session_new_def example_rpc_lib_def rpc_response_def takes_frame_def sent_octets_def frame_of_def)

section \<open>What the client does with pieces that complete no frame\<close>

text \<open>
  The list of commands is read at its end and never shortened: once a command was received, each further piece that completes
  no frame makes the client execute that command again.
\<close>

lemma command_executed_again:
  assumes "m_commands_list (m_data_eater cl) = cmds @ [msg @ mac]" and "length mac = 64" and "msg \<noteq> []"
    and "m_internal_buffer (m_data_eater cl) = []" and "\<not> m_is_processing (m_data_eater cl)"
    and "hmacsha512_verify lib mac msg (client_hmac_key cl)"
  shows "executed (onTcpReceive lib [b] cl) = executed cl @ [msg]"
  using assms
  by (simp add: onTcpReceive_def eat_def continiueProcessing_def getLastCommand_def check_auth_def crypto_auth_hmacsha512_BYTES_def Let_def)

text \<open>Of two frames that arrive in one piece only the first is processed; the second waits for the next piece.\<close>

lemma two_frames_one_piece:
  assumes "is_frame fr" and "m_internal_buffer d = []" and "\<not> m_is_processing d" and "m_last_command d = []"
  shows "m_commands_list (eat (fr @ fr') d) = m_commands_list d @ [drop 2 fr] \<and> m_internal_buffer (eat (fr @ fr') d) = fr'
    \<and> \<not> m_is_processing (eat (fr @ fr') d)"
proof -
  have len: "66 \<le> length fr" using assms(1) by (simp add: is_frame_def)
  then have "(fr @ fr') ! 0 = fr ! 0" "(fr @ fr') ! 1 = fr ! 1" by (simp_all add: nth_append) auto
  then have "eat (fr @ fr') d = read_command (d\<lparr>m_internal_buffer := drop 2 (fr @ fr'), m_frame_size := length fr - 66, m_current_index := 0,
      m_is_processing := True\<rparr>)"
    using assms len by (simp add: eat_def continiueProcessing_def pop_msg_size_def Let_def is_frame_def)
  then show ?thesis using assms(4) len by (auto simp: read_command_run Let_def)
qed

end
