(* ===== verification/Start_Up.thy ===== *)
theory Start_Up
  imports Key_Tools Node_Reach
begin

text \<open>
  The start of the program: \<open>main_execution\<close> of \<^verbatim>\<open>src/src/the_program_tunserver.cpp\<close>, in the
  build without \<open>EXTLEVEL_IS_PREVIEW\<close> (the default), from the parsed options up to the call of \<open>run\<close>: the commands
  that only work on keys, the search for the keys of the node, their creation when there are none,
  and the peers of the command line.

  The state is the node and the data store. The options are what \<open>boost::program_options\<close> parsed; options with a default
  always have a value, so that the test of \<open>port\<close> and \<open>rpc-port\<close> does not fail; \<open>gen-key\<close> and \<open>myname\<close>
  are asked for, but only the preview build declares them. Printed text is left out.
\<close>

section \<open>The code\<close>

record ('bx, 'ux, 'fs) the_program =
  m_myserver :: "('bx, 'ux) c_tunserver"
  m_store :: "'fs datastore"

type_synonym ('bx, 'ux, 'fs, 'a) program_action = "(('bx, 'ux, 'fs) the_program, 'a) action"

record start_options =
  opt_debug :: bool
  opt_dlevel :: "int option"
  opt_quiet :: bool
  opt_info :: bool
  opt_my_key :: "string option"
  opt_list_my_keys :: bool
  opt_gen_key :: "key_options option"
  opt_gen_key_simple :: bool
  opt_remove_peers :: bool
  opt_remove_peers_timeout :: nat
  opt_set_prefix :: bytes
  opt_myname :: "bytes option"
  opt_peers :: "bytes list"

datatype main_result =
    Return_code int     \<comment> \<open>\<open>return\<close> before the main loop\<close>
  | Enter_main_loop     \<comment> \<open>the call of \<open>run\<close>\<close>

definition on_server :: "('bx, 'ux, 'a) tun_action \<Rightarrow> ('bx, 'ux, 'fs, 'a) program_action" where
  "on_server m p = (case m (m_myserver p) of (r, s) \<Rightarrow> (r, p\<lparr>m_myserver := s\<rparr>))"

definition set_server :: "(('bx, 'ux) c_tunserver \<Rightarrow> ('bx, 'ux) c_tunserver) \<Rightarrow> ('bx, 'ux, 'fs, unit) program_action" where
  "set_server f = on_server (\<lambda>s. (Inr (), f s))"

definition on_store :: "('fs datastore, 'a) action \<Rightarrow> ('bx, 'ux, 'fs, 'a) program_action" where
  "on_store m p = (case m (m_store p) of (r, ds) \<Rightarrow> (r, p\<lparr>m_store := ds\<rparr>))"

definition on_store_rng :: "('fs datastore \<times> nat, 'a) action \<Rightarrow> ('bx, 'ux, 'fs, 'a) program_action" where
  \<comment> \<open>key generation draws from the randomness of the process\<close>
  "on_store_rng m p =
     (let s = m_myserver p
      in case m (m_store p, w_rng (m_world s)) of
           (r, (ds, n)) \<Rightarrow> (r, p\<lparr>m_store := ds, m_myserver := s\<lparr>m_world := (m_world s)\<lparr>w_rng := n\<rparr>\<rparr>\<rparr>))"

definition dbg2_on :: "('bx, 'ux, 'fs) the_program \<Rightarrow> bool" where
  "dbg2_on p = dbg2_evaluated (m_world (m_myserver p))"

definition store_load :: "'fs fs_ops \<Rightarrow> bool \<Rightarrow> 'fs datastore \<Rightarrow> t_datastore \<Rightarrow> string \<Rightarrow> bytes result" where
  \<comment> \<open>private keys are loaded into locked memory\<close>
  "store_load ops dbg2 ds kind = (if kind = e_datastore_galaxy_wallet_PRV then load_string_mlocked ops dbg2 ds kind else load_string ops dbg2 ds kind)"

definition g_dbg_level_set :: "int \<Rightarrow> nat \<Rightarrow> nat" where
  \<comment> \<open>the level is an \<open>unsigned char\<close>; \<open>-1\<close> leaves it as it is\<close>
  "g_dbg_level_set level old = (if level \<noteq> -1 then nat (level mod 256) else old)"

definition main_debug_level :: "start_options \<Rightarrow> nat \<Rightarrow> nat" where
  "main_debug_level argm level0 =
     (let l1 = g_dbg_level_set 60 level0;
          l2 = (if opt_debug argm then g_dbg_level_set 10 l1 else l1);
          l3 = (case opt_dlevel argm of None \<Rightarrow> l2 | Some dlevel \<Rightarrow> if dlevel \<noteq> -1 then g_dbg_level_set dlevel l2 else l2)
      in if opt_quiet argm then g_dbg_level_set 200 l3 else l3)"

definition passes_catch :: "cpp_error \<Rightarrow> bool" where
  \<comment> \<open>what no \<open>catch(...)\<close> stops\<close>
  "passes_catch e \<longleftrightarrow> e = Abort \<or> e = Undefined_behaviour"

definition catch_any :: "('s, 'a) action \<Rightarrow> ('s, 'a) action \<Rightarrow> ('s, 'a) action" where
  \<comment> \<open>\<open>try { m } catch(...) { handler }\<close>\<close>
  "catch_any m handler s =
     (case m s of (Inl e, s') \<Rightarrow> if passes_catch e then (Inl e, s') else handler s' | (Inr a, s') \<Rightarrow> (Inr a, s'))"

subsection \<open>Commands on keys\<close>

definition show_info :: "'fs fs_ops \<Rightarrow> string option \<Rightarrow> ('bx, 'ux, 'fs, main_result) program_action" where
  \<comment> \<open>\<open>--info\<close>\<close>
  "show_info ops my_key p =
     (case my_key of
        None \<Rightarrow> (Inr (Return_code 1), p)
      | Some name \<Rightarrow>
          (bindR (fst (datastore_load (store_load ops (dbg2_on p) (m_store p)) pop_varstring name c_multikeys_pub_init))
             (\<lambda>_. Inr (Return_code 0)), p))"

definition list_my_keys :: "'fs fs_ops \<Rightarrow> bool \<Rightarrow> 'fs datastore \<Rightarrow> (string \<times> bool) list result" where
  \<comment> \<open>the names printed, each with the mark of the identity\<close>
  "list_my_keys ops dbg2 ds =
     bindR (get_parent_path ops ds e_datastore_galaxy_wallet_PRV '''') (\<lambda>keys_path.
     bindR (get_file_list ops ds keys_path) (\<lambda>keys.
     bindR (let r = load_string ops dbg2 ds e_datastore_galaxy_instalation_key_conf ''IDI''
            in if r = Inl Invalid_argument then Inr [] else r) (\<lambda>IDI_key.
       Inr (map (\<lambda>key_name. let actual_key = key_name_without_extension key_name in (actual_key, text_of IDI_key = actual_key)) keys))))"

subsection \<open>The keys of the node\<close>

definition have_keys_configured :: "'fs fs_ops \<Rightarrow> ('bx, 'ux, 'fs, bool) program_action" where
  "have_keys_configured ops =
     catch_any (\<lambda>p.
       andThen (liftR
         (bindR (get_parent_path ops (m_store p) e_datastore_galaxy_wallet_PRV '''') (\<lambda>keys_path.
          bindR (get_file_list ops (m_store p) keys_path) (\<lambda>keys.
          bindR (get_full_path ops (m_store p) e_datastore_galaxy_instalation_key_conf ''IDI'') (\<lambda>conf_IDI.
          bindR (is_file_ok ops (m_store p) conf_IDI) (\<lambda>conf_IDI_ok.
            Inr (length keys > 0, conf_IDI_ok))))))) (\<lambda>(have_keys, conf_IDI_ok).
         if have_keys then
           if conf_IDI_ok then ret True
           else andThen (on_store (program_action_set_IDI ops (dbg2_on p) (octets_of ''IDI''))) (\<lambda>_. ret True)
         else ret False) p)
     (ret False)"

definition tolower_char :: "byte \<Rightarrow> byte" where
  "tolower_char c = (if 0x41 \<le> c \<and> c \<le> 0x5A then c + 0x20 else c)"

definition read_prefix :: "bytes \<Rightarrow> ('bx, 'ux, 'fs, bytes) program_action" where
  \<comment> \<open>the \<open>lambda\<close> that computes \<open>ipv6_prefix\<close>\<close>
  "read_prefix text =
     andThen (liftR (check_input (length text = 4))) (\<lambda>_.
       let r = map tolower_char text in
       andThen (liftR (check_input (r ! 0 = 0x66))) (\<lambda>_.
       andThen (liftR (check_input (r ! 1 = 0x64))) (\<lambda>_.
       andThen (liftR (check_input (r ! 2 = 0x34))) (\<lambda>_.
       andThen (if r ! 3 = 0x32 then set_server (set_prefix_len 16)
                else if r ! 3 = 0x33 then set_server (set_prefix_len 16)
                else raise Invalid_argument) (\<lambda>_.
       ret r)))))"

definition load_my_key ::
    "('bx, 'ux) crypto_lib \<Rightarrow> host_lib \<Rightarrow> 'fs fs_ops \<Rightarrow> ('bx, 'ux, 'fs, unit) program_action" where
  "load_my_key lib host ops p = on_server (configure_mykey lib host (store_load ops (dbg2_on p) (m_store p))) p"

definition step_make_default_keys ::
    "('bx, 'ux) crypto_lib \<Rightarrow> host_lib \<Rightarrow> 'fs fs_ops \<Rightarrow> ('bx, 'ux, 'fs, unit) program_action" where
  "step_make_default_keys lib host ops p =
     andThen (on_store_rng (program_action_gen_key_simple lib ops (dbg2_on p))) (\<lambda>IDI_name.
     andThen (on_store (program_action_set_IDI ops (dbg2_on p) (octets_of IDI_name))) (\<lambda>_.
       load_my_key lib host ops)) p"

definition configure_keys ::
    "('bx, 'ux) crypto_lib \<Rightarrow> host_lib \<Rightarrow> 'fs fs_ops \<Rightarrow> bytes \<Rightarrow> ('bx, 'ux, 'fs, unit) program_action" where
  "configure_keys lib host ops set_prefix_text =
     andThen (have_keys_configured ops) (\<lambda>have_keys.
     andThen (read_prefix set_prefix_text) (\<lambda>ipv6_prefix.
     andThen (set_server (set_prefix ipv6_prefix)) (\<lambda>_.
       catch_any (if have_keys then load_my_key lib host ops else step_make_default_keys lib host ops)
         (raise Exception_error_exit))))"

subsection \<open>The whole start\<close>

definition join_peers ::
    "('bx, 'ux) crypto_lib \<Rightarrow> host_lib \<Rightarrow> start_options \<Rightarrow> ('bx, 'ux, 'fs, main_result) program_action" where
  \<comment> \<open>the name of the node and the peers of the command line\<close>
  "join_peers lib host argm =
     andThen (set_server (set_my_name (case opt_myname argm of None \<Rightarrow> octets_of ''galaxy'' | Some name \<Rightarrow> name))) (\<lambda>_.
     andThen (on_server (get_my_ipv6_nice lib)) (\<lambda>_.
     andThen (catch_any (forA (\<lambda>peer_ref. on_server (add_peer_simplestring host peer_ref)) (opt_peers argm))
                (raise Exception_error_exit)) (\<lambda>_.
     andThen (\<lambda>p. if length (m_peer (m_myserver p)) \<noteq> 0 then (Inr (), p)
                   else andThen (on_server (get_my_reference lib)) (\<lambda>_. ret ()) p) (\<lambda>_.
     ret Enter_main_loop))))"

definition set_up ::
    "('bx, 'ux) crypto_lib \<Rightarrow> host_lib \<Rightarrow> 'fs fs_ops \<Rightarrow> start_options \<Rightarrow> ('bx, 'ux, 'fs, main_result) program_action" where
  "set_up lib host ops argm =
     andThen (if opt_remove_peers argm then set_server enable_remove_peers else ret ()) (\<lambda>_.
     andThen (set_server (set_remove_peer_tometout (opt_remove_peers_timeout argm))) (\<lambda>_.
     andThen (configure_keys lib host ops (opt_set_prefix argm)) (\<lambda>_.
       join_peers lib host argm)))"

definition main_body ::
    "('bx, 'ux) crypto_lib \<Rightarrow> host_lib \<Rightarrow> 'fs fs_ops \<Rightarrow> start_options \<Rightarrow> ('bx, 'ux, 'fs, main_result) program_action" where
  \<comment> \<open>the body of the \<open>try\<close>\<close>
  "main_body lib host ops argm p =
     (if opt_info argm then show_info ops (opt_my_key argm) p
      else if opt_list_my_keys argm then (bindR (list_my_keys ops (dbg2_on p) (m_store p)) (\<lambda>_. Inr (Return_code 0)), p)
      else case opt_gen_key argm of
             Some options \<Rightarrow> andThen (on_store_rng (program_action_gen_key lib ops (dbg2_on p) options)) (\<lambda>_. ret (Return_code 0)) p
           | None \<Rightarrow>
               if opt_gen_key_simple argm
               then andThen (on_store_rng (program_action_gen_key_simple lib ops (dbg2_on p))) (\<lambda>_. ret (Return_code 0)) p
               else set_up lib host ops argm p)"

definition main_execution ::
    "('bx, 'ux) crypto_lib \<Rightarrow> host_lib \<Rightarrow> 'fs fs_ops \<Rightarrow> start_options \<Rightarrow> world \<Rightarrow> int \<Rightarrow> int \<Rightarrow> 'fs datastore
     \<Rightarrow> main_result result \<times> ('bx, 'ux, 'fs) the_program" where
  "main_execution lib host ops argm w port peer_timeout0 ds =
     (let w' = w\<lparr>g_dbg_level := main_debug_level argm (g_dbg_level w)\<rparr>
      in case main_body lib host ops argm \<lparr>m_myserver = c_tunserver_new w' port peer_timeout0, m_store = ds\<rparr> of
           (Inl e, p) \<Rightarrow> if e = Exception_error_exit then (Inr (Return_code 1), p) else (Inl e, p)
         | (Inr r, p) \<Rightarrow> (Inr r, p))"


section \<open>What the start does to the node and to the store\<close>

text \<open>
  \<open>proceeds rel m\<close>: unless the process is aborted, \<open>m\<close> goes from a state to one that is related to it.
\<close>

definition proceeds :: "('s \<Rightarrow> 's \<Rightarrow> bool) \<Rightarrow> ('s, 'a) action \<Rightarrow> bool" where
  "proceeds rel m \<longleftrightarrow> (\<forall>s r s'. m s = (r, s') \<longrightarrow> r \<noteq> Inl Abort \<longrightarrow> rel s s')"

named_theorems proceeds

lemma proceeds_andThen [proceeds]:
  assumes "transp rel" and "proceeds rel m" and "\<And>a. proceeds rel (f a)"
  shows "proceeds rel (andThen m f)"
  unfolding proceeds_def
proof (intro allI impI)
  fix s r s'
  assume run: "andThen m f s = (r, s')" "r \<noteq> Inl Abort"
  obtain q s1 where m: "m s = (q, s1)" by force
  show "rel s s'"
  proof (cases q)
    case (Inl e)
    with run m assms(2) show ?thesis by (auto simp: andThen_def proceeds_def)
  next
    case (Inr a)
    with m assms(2) have "rel s s1" by (auto simp: proceeds_def)
    moreover have "f a s1 = (r, s')" using run(1) m Inr by (simp add: andThen_def)
    with run(2) assms(3) have "rel s1 s'" by (auto simp: proceeds_def)
    ultimately show ?thesis using assms(1) by (meson transpE)
  qed
qed

lemma proceeds_catch_any [proceeds]:
  assumes "transp rel" and "proceeds rel m" and "proceeds rel handler"
  shows "proceeds rel (catch_any m handler)"
  unfolding proceeds_def
proof (intro allI impI)
  fix s r s'
  assume run: "catch_any m handler s = (r, s')" "r \<noteq> Inl Abort"
  obtain q s1 where m: "m s = (q, s1)" by force
  show "rel s s'"
  proof (cases "\<exists>e. q = Inl e \<and> \<not> passes_catch e")
    case True
    then obtain e where e: "q = Inl e" "\<not> passes_catch e" by blast
    then have "q \<noteq> Inl Abort" by (auto simp: passes_catch_def)
    with m assms(2) have "rel s s1" by (auto simp: proceeds_def)
    moreover have "handler s1 = (r, s')" using run(1) m e by (simp add: catch_any_def)
    with run(2) assms(3) have "rel s1 s'" by (auto simp: proceeds_def)
    ultimately show ?thesis using assms(1) by (meson transpE)
  next
    case False
    with run m have "q = r" "s1 = s'" by (auto simp: catch_any_def split: sum.splits if_splits)
    with run(2) m assms(2) show ?thesis by (auto simp: proceeds_def)
  qed
qed

lemma proceeds_same [proceeds]:
  "reflp rel \<Longrightarrow> proceeds rel (ret a)" "reflp rel \<Longrightarrow> proceeds rel (raise e)" "reflp rel \<Longrightarrow> proceeds rel (liftR q)"
  by (auto simp: proceeds_def ret_def raise_def liftR_def reflpD)

lemma proceeds_forA [proceeds]:
  "transp rel \<Longrightarrow> reflp rel \<Longrightarrow> (\<And>x. proceeds rel (f x)) \<Longrightarrow> proceeds rel (forA f xs)"
  by (induction xs) (auto intro!: proceeds)

lemma proceeds_if: "(b \<Longrightarrow> proceeds rel m) \<Longrightarrow> (\<not> b \<Longrightarrow> proceeds rel m') \<Longrightarrow> proceeds rel (if b then m else m')"
  by simp

lemma proceeds_unless: "reflp rel \<Longrightarrow> proceeds rel m \<Longrightarrow> proceeds rel (\<lambda>p. if b p then (Inr (), p) else m p)"
  by (auto simp: proceeds_def reflpD)

subsection \<open>The node\<close>

definition node_proceeds :: "('bx, 'ux) crypto_lib \<Rightarrow> host_lib \<Rightarrow> ('bx, 'ux, 'fs) the_program \<Rightarrow> ('bx, 'ux, 'fs) the_program \<Rightarrow> bool" where
  "node_proceeds lib host p p' \<longleftrightarrow> (node_reachable lib host (m_myserver p) \<longrightarrow> node_reachable lib host (m_myserver p'))"

lemma node_proceeds_order: "transp (node_proceeds lib host)" "reflp (node_proceeds lib host)"
  by (auto simp: node_proceeds_def intro!: transpI reflpI)

lemma on_server_proceeds:
  assumes "\<And>s r s'. m s = (r, s') \<Longrightarrow> r \<noteq> Inl Abort \<Longrightarrow> node_step lib host s s'"
  shows "proceeds (node_proceeds lib host) (on_server m)"
  using assms by (auto simp: proceeds_def node_proceeds_def on_server_def split: prod.splits intro: node_reachable.step)

lemma set_server_proceeds:
  assumes "\<And>s. node_step lib host s (f s)"
  shows "proceeds (node_proceeds lib host) (set_server f)"
  unfolding set_server_def by (rule on_server_proceeds) (use assms in auto)

lemma on_store_proceeds: "proceeds (node_proceeds lib host) (on_store m)"
  by (auto simp: proceeds_def node_proceeds_def on_store_def split: prod.splits)

lemma on_store_rng_proceeds: "proceeds (node_proceeds lib host) (on_store_rng m)"
proof -
  have "node_step lib host s (s\<lparr>m_world := (m_world s)\<lparr>w_rng := n\<rparr>\<rparr>)" for s :: "('a, 'b) c_tunserver" and n
    using node_step.outside [where s = s and n = n and level = "g_dbg_level (m_world s)"] by simp
  then show ?thesis
    by (auto simp: proceeds_def node_proceeds_def on_store_rng_def Let_def split: prod.splits intro: node_reachable.step)
qed

lemma my_reference_step: "get_my_reference lib s = (r, s') \<Longrightarrow> r \<noteq> Inl Abort \<Longrightarrow> node_step lib host s s'"
  by (auto simp: get_my_reference_def andThen_def ret_def split: prod.splits sum.splits intro: node_step.nice)

lemmas node_parts = proceeds_andThen [OF node_proceeds_order(1)] proceeds_catch_any [OF node_proceeds_order(1)]
  proceeds_same [OF node_proceeds_order(2)] proceeds_forA [OF node_proceeds_order] proceeds_if on_store_proceeds on_store_rng_proceeds

lemma load_my_key_proceeds: "proceeds (node_proceeds lib host) (load_my_key lib host ops)"
proof -
  have "proceeds (node_proceeds lib host) (on_server (configure_mykey lib host ld) :: ('a, 'b, 'c, unit) program_action)" for ld
    by (rule on_server_proceeds) (rule node_step.keys)
  then show ?thesis by (simp add: proceeds_def load_my_key_def)
qed

lemma have_keys_proceeds: "proceeds (node_proceeds lib host) (have_keys_configured ops)"
proof -
  have "proceeds (node_proceeds lib host) (andThen (liftR (q p)) (\<lambda>(a, b). if a then if b then ret True
      else andThen (on_store (program_action_set_IDI ops (dbg2_on p) name)) (\<lambda>_. ret True) else ret False))"
    for q and p :: "('a, 'b, 'c) the_program" and name
    by (intro node_parts) (auto intro!: node_parts)
  then show ?thesis
    unfolding have_keys_configured_def by (intro node_parts) (simp add: proceeds_def)
qed

lemma read_prefix_proceeds: "proceeds (node_proceeds lib host) (read_prefix text)"
  unfolding read_prefix_def Let_def
  by (intro node_parts set_server_proceeds node_step.prefix_len)

lemma make_keys_proceeds: "proceeds (node_proceeds lib host) (step_make_default_keys lib host ops)"
proof -
  have "proceeds (node_proceeds lib host) (andThen (on_store_rng (program_action_gen_key_simple lib ops d)) (\<lambda>IDI_name.
      andThen (on_store (program_action_set_IDI ops d (octets_of IDI_name))) (\<lambda>_. load_my_key lib host ops)))" for d
    by (intro node_parts load_my_key_proceeds)
  then show ?thesis by (simp add: proceeds_def step_make_default_keys_def)
qed

lemma set_up_proceeds: "proceeds (node_proceeds lib host) (set_up lib host ops argm)"
  unfolding set_up_def configure_keys_def join_peers_def
  by (intro node_parts proceeds_unless [OF node_proceeds_order(2)] have_keys_proceeds read_prefix_proceeds load_my_key_proceeds make_keys_proceeds
        set_server_proceeds on_server_proceeds)
      (auto intro: node_step.intros my_reference_step)


lemma key_command_proceeds:
  assumes "andThen (on_store_rng m) (\<lambda>_. ret (Return_code 0)) p = (r, p')" and "r \<noteq> Inl Abort"
  shows "node_proceeds lib host p p'"
proof -
  have "proceeds (node_proceeds lib host) (andThen (on_store_rng m) (\<lambda>_. ret (Return_code 0)))"
    by (intro node_parts)
  with assms show ?thesis by (auto simp: proceeds_def)
qed

lemma main_reachable:
  assumes "main_execution lib host ops argm w port t ds = (r, p)" and "r \<noteq> Inl Abort"
  shows "node_reachable lib host (m_myserver p)"
proof -
  let ?w = "w\<lparr>g_dbg_level := main_debug_level argm (g_dbg_level w)\<rparr>"
  let ?p = "\<lparr>m_myserver = c_tunserver_new ?w port t, m_store = ds\<rparr>"
  have ex: "proceeds (node_proceeds lib host) (\<lambda>p. (q p, p))" for q :: "('a, 'b, 'c) the_program \<Rightarrow> main_result result"
    by (simp add: proceeds_def node_proceeds_def)
  have info: "proceeds (node_proceeds lib host) (show_info ops k)" for k
    by (auto simp: proceeds_def show_info_def node_proceeds_def split: option.splits)
  have "proceeds (node_proceeds lib host) (main_body lib host ops argm)"
    using ex info set_up_proceeds [of lib host ops argm]
    by (auto dest!: key_command_proceeds simp: proceeds_def main_body_def split: option.splits if_splits)
  moreover obtain q p' where run: "main_body lib host ops argm ?p = (q, p')" by force
  moreover have "q \<noteq> Inl Abort" "p' = p" using assms run by (auto simp: main_execution_def split: sum.splits if_splits)
  moreover have "node_reachable lib host (m_myserver ?p)" by (simp add: node_reachable.start)
  ultimately show ?thesis unfolding proceeds_def node_proceeds_def by blast
qed

subsection \<open>The identity that is loaded\<close>

lemma store_load_dbg2: "store_load ops d ds kind name = Inr x \<Longrightarrow> store_load ops d' ds kind name = Inr x"
  by (auto simp: store_load_def load_string_def load_string_mlocked_def Let_def bindR_def split: sum.splits if_splits)

definition same_loads :: "(t_datastore \<Rightarrow> string \<Rightarrow> bytes result) \<Rightarrow> (t_datastore \<Rightarrow> string \<Rightarrow> bytes result) \<Rightarrow> bool" where
  "same_loads ld ld' \<longleftrightarrow> (\<forall>kind name x. ld kind name = Inr x \<longrightarrow> ld' kind name = Inr x)"

lemma datastore_load_same:
  "same_loads ld ld' \<Longrightarrow> datastore_load ld pop name mk = (Inr (), mk') \<Longrightarrow> datastore_load ld' pop name mk = (Inr (), mk')"
  by (auto simp: datastore_load_def same_loads_def Let_def split: t_crypto_use.splits sum.splits)

lemma load_IDI_same:
  assumes "same_loads ld ld'" and "configure_load_IDI lib host ld prefix = Inr y"
  shows "configure_load_IDI lib host ld' prefix = Inr y"
proof -
  have pair: "datastore_load_PRV_and_pub ld' name q = (Inr (), q')" if "datastore_load_PRV_and_pub ld name q = (Inr (), q')" for name q q'
    using that
    by (auto simp: datastore_load_PRV_and_pub_def andThen_def on_PRV_def on_pub_def datastore_load_same [OF assms(1)]
        split: prod.splits sum.splits)
  obtain IDI_name where name: "ld e_datastore_galaxy_instalation_key_conf ''IDI'' = Inr IDI_name"
    using assms(2) by (auto simp: configure_load_IDI_def split: sum.splits)
  then have "ld' e_datastore_galaxy_instalation_key_conf ''IDI'' = Inr IDI_name" using assms(1) by (simp add: same_loads_def)
  with name assms(2) pair show ?thesis
    by (auto simp: configure_load_IDI_def Let_def andThen_def split: prod.splits sum.splits)
qed


text \<open>The address of the node and the store do not change once the keys are configured.\<close>

definition settled :: "('bx, 'ux, 'fs) the_program \<Rightarrow> ('bx, 'ux, 'fs) the_program \<Rightarrow> bool" where
  "settled p p' \<longleftrightarrow> m_store p' = m_store p \<and> m_my_hip (m_myserver p') = m_my_hip (m_myserver p)"

lemma settled_order: "transp settled" "reflp settled"
  by (auto simp: settled_def intro!: transpI reflpI)

lemmas settled_parts = proceeds_andThen [OF settled_order(1)] proceeds_catch_any [OF settled_order(1)]
  proceeds_same [OF settled_order(2)] proceeds_forA [OF settled_order] proceeds_if proceeds_unless [OF settled_order(2)]

lemma settled_on_server:
  assumes "keeps (\<lambda>s t. m_my_hip t = m_my_hip s) m"
  shows "proceeds settled (on_server m)"
  using keepsD [OF assms] by (auto simp: proceeds_def settled_def on_server_def split: prod.splits) (metis snd_conv)

lemma keeps_hip:
  "keeps (\<lambda>s t. m_my_hip t = m_my_hip s) (add_peer_simplestring host simple)"
  "keeps (\<lambda>s t. m_my_hip t = m_my_hip s) (get_my_ipv6_nice lib)"
  "keeps (\<lambda>s t. m_my_hip t = m_my_hip s) (get_my_reference lib)"
  by (auto simp: keeps_def add_peer_simplestring_def add_peer_def delete_peer_from_black_list_def get_my_ipv6_nice_def
      get_my_reference_def on_world_def catch_exception_def andThen_def liftR_def ret_def Let_def split: prod.splits sum.splits if_splits)

lemma after_keys_settled:
  "proceeds settled (join_peers lib host argm)"
proof -
  have "proceeds settled (set_server (set_my_name name))" for name
    unfolding set_server_def by (rule settled_on_server) (simp add: keeps_def set_my_name_def)
  then show ?thesis unfolding join_peers_def by (intro settled_parts settled_on_server keeps_hip)
qed

definition has_identity ::
    "('bx, 'ux) crypto_lib \<Rightarrow> host_lib \<Rightarrow> 'fs fs_ops \<Rightarrow> bytes \<Rightarrow> ('bx, 'ux, 'fs) the_program \<Rightarrow> bool" where
  \<comment> \<open>the address of the node is that of the identity its store names, at every debug level\<close>
  "has_identity lib host ops prefix p \<longleftrightarrow>
     (\<forall>dbg2. \<exists>pair. configure_load_IDI lib host (store_load ops dbg2 (m_store p)) prefix = Inr (pair, m_my_hip (m_myserver p)))"

lemma settled_identity: "settled p p' \<Longrightarrow> has_identity lib host ops prefix p \<Longrightarrow> has_identity lib host ops prefix p'"
  by (simp add: settled_def has_identity_def)

lemma load_my_key_identity:
  assumes "load_my_key lib host ops p = (r, p')"
  shows "m_store p' = m_store p" and "r = Inr () \<Longrightarrow> has_identity lib host ops (m_node_ipv6_prefix (m_myserver p)) p'"
proof -
  obtain s' where run: "configure_mykey lib host (store_load ops (dbg2_on p) (m_store p)) (m_myserver p) = (r, s')" and p': "p' = p\<lparr>m_myserver := s'\<rparr>"
    using assms by (auto simp: load_my_key_def on_server_def split: prod.splits)
  then show "m_store p' = m_store p" by simp
  assume "r = Inr ()"
  with run obtain pair where
    "configure_load_IDI lib host (store_load ops (dbg2_on p) (m_store p)) (m_node_ipv6_prefix (m_myserver p)) = Inr (pair, m_my_hip s')"
    by (auto simp: configure_mykey_def Let_def split: sum.splits prod.splits)
  then have "configure_load_IDI lib host (store_load ops d (m_store p)) (m_node_ipv6_prefix (m_myserver p)) = Inr (pair, m_my_hip s')" for d
    by (rule load_IDI_same [rotated]) (use store_load_dbg2 in \<open>auto simp: same_loads_def\<close>)
  then show "has_identity lib host ops (m_node_ipv6_prefix (m_myserver p)) p'" by (auto simp: has_identity_def p')
qed

lemma read_prefix_run:
  assumes "read_prefix text p = (r, p')"
  shows "m_store p' = m_store p" and "r = Inr prefix \<Longrightarrow> prefix = map tolower_char text \<and> prefix \<in> {octets_of ''fd42'', octets_of ''fd43''}"
proof -
  show "m_store p' = m_store p"
    using assms by (auto simp: read_prefix_def andThen_def liftR_def set_server_def on_server_def raise_def ret_def Let_def split: sum.splits if_splits)
  assume "r = Inr prefix"
  then have ok: "length text = 4" "prefix = map tolower_char text" "prefix ! 0 = 0x66" "prefix ! 1 = 0x64" "prefix ! 2 = 0x34"
      "prefix ! 3 = 0x32 \<or> prefix ! 3 = 0x33"
    using assms by (auto simp: read_prefix_def andThen_def liftR_def check_input_def set_server_def on_server_def raise_def ret_def Let_def
        split: sum.splits if_splits)
  obtain a b c d where "prefix = [a, b, c, d]" using ok(1,2) by (auto simp: length_Suc_conv numeral_eq_Suc)
  with ok show "prefix = map tolower_char text \<and> prefix \<in> {octets_of ''fd42'', octets_of ''fd43''}" by (auto simp: octets_of_def)
qed

lemma make_keys_identity:
  assumes "step_make_default_keys lib host ops p = (Inr (), p')"
  shows "has_identity lib host ops (m_node_ipv6_prefix (m_myserver p)) p'"
proof -
  obtain IDI_name p1 p2 where 1: "on_store_rng (program_action_gen_key_simple lib ops (dbg2_on p)) p = (Inr IDI_name, p1)"
    and 2: "on_store (program_action_set_IDI ops (dbg2_on p) (octets_of IDI_name)) p1 = (Inr (), p2)"
    and 3: "load_my_key lib host ops p2 = (Inr (), p')"
    using assms unfolding step_make_default_keys_def by (auto dest!: andThen_eq_InrD)
  have "m_node_ipv6_prefix (m_myserver p2) = m_node_ipv6_prefix (m_myserver p)"
    using 1 2 by (auto simp: on_store_rng_def on_store_def Let_def split: prod.splits)
  with load_my_key_identity(2) [OF 3] show ?thesis by simp
qed

lemma configure_keys_identity:
  assumes "configure_keys lib host ops text p = (Inr (), p')"
  shows "map tolower_char text \<in> {octets_of ''fd42'', octets_of ''fd43''} \<and> has_identity lib host ops (map tolower_char text) p'"
proof -
  obtain have_keys p1 prefix p2 p3 where
    2: "read_prefix text p1 = (Inr prefix, p2)" and 3: "set_server (set_prefix prefix) p2 = (Inr (), p3)"
    and 4: "catch_any (if have_keys then load_my_key lib host ops else step_make_default_keys lib host ops) (raise Exception_error_exit) p3 = (Inr (), p')"
    using assms unfolding configure_keys_def by (auto dest!: andThen_eq_InrD)
  have "m_node_ipv6_prefix (m_myserver p3) = prefix" using 3 by (auto simp: set_server_def on_server_def set_prefix_def)
  moreover from 4 have "(if have_keys then load_my_key lib host ops else step_make_default_keys lib host ops) p3 = (Inr (), p')"
    by (auto simp: catch_any_def raise_def split: prod.splits sum.splits if_splits)
  then have "has_identity lib host ops (m_node_ipv6_prefix (m_myserver p3)) p'"
    using load_my_key_identity(2) make_keys_identity by (cases have_keys) fastforce+
  ultimately show ?thesis using read_prefix_run(2) [OF 2 refl] by auto
qed

lemma set_up_identity:
  assumes "set_up lib host ops argm p = (Inr r, p')"
  shows "map tolower_char (opt_set_prefix argm) \<in> {octets_of ''fd42'', octets_of ''fd43''} \<and>
         has_identity lib host ops (map tolower_char (opt_set_prefix argm)) p'"
proof -
  obtain p1 p2 where "configure_keys lib host ops (opt_set_prefix argm) p1 = (Inr (), p2)" and "join_peers lib host argm p2 = (Inr r, p')"
    using assms unfolding set_up_def by (auto dest!: andThen_eq_InrD)
  moreover from this(2) have "settled p2 p'" using after_keys_settled [of lib host argm] unfolding proceeds_def by blast
  ultimately show ?thesis using configure_keys_identity settled_identity by blast
qed

subsection \<open>A second start\<close>

definition keys_present :: "'fs fs_ops \<Rightarrow> 'fs datastore \<Rightarrow> bool" where
  \<comment> \<open>the wallet holds keys, and the identity is chosen\<close>
  "keys_present ops ds \<longleftrightarrow>
     (\<exists>path keys conf. get_parent_path ops ds e_datastore_galaxy_wallet_PRV '''' = Inr path \<and> get_file_list ops ds path = Inr keys \<and> keys \<noteq> [] \<and>
        get_full_path ops ds e_datastore_galaxy_instalation_key_conf ''IDI'' = Inr conf \<and> is_file_ok ops ds conf = Inr True)"

lemma have_keys_present: "keys_present ops (m_store p) \<Longrightarrow> have_keys_configured ops p = (Inr True, p)"
  by (auto simp: keys_present_def have_keys_configured_def catch_any_def ret_def)

lemma identity_conf_ok:
  assumes "has_identity lib host ops prefix p"
  shows "\<exists>conf. get_full_path ops (m_store p) e_datastore_galaxy_instalation_key_conf ''IDI'' = Inr conf \<and> is_file_ok ops (m_store p) conf = Inr True"
proof -
  obtain pair where "configure_load_IDI lib host (store_load ops False (m_store p)) prefix = Inr (pair, m_my_hip (m_myserver p))"
    using assms unfolding has_identity_def by blast
  then obtain name where "load_string ops False (m_store p) e_datastore_galaxy_instalation_key_conf ''IDI'' = Inr name"
    by (auto simp: configure_load_IDI_def store_load_def split: sum.splits)
  then show ?thesis by (auto simp: load_string_def Let_def bindR_def split: sum.splits if_splits)
qed

definition stays :: "'fs fs_ops \<Rightarrow> ('bx, 'ux, 'fs) the_program \<Rightarrow> ('bx, 'ux, 'fs) the_program \<Rightarrow> bool" where
  "stays ops p p' \<longleftrightarrow> (keys_present ops (m_store p) \<longrightarrow> m_store p' = m_store p)"

lemma stays_order: "transp (stays ops)" "reflp (stays ops)"
  by (auto simp: stays_def intro!: transpI reflpI)

lemma keeps_catch_any: "transp R \<Longrightarrow> keeps R m \<Longrightarrow> keeps R handler \<Longrightarrow> keeps R (catch_any m handler)"
  unfolding keeps_def catch_any_def by (auto split: prod.splits sum.splits) (metis snd_conv transpE)+

lemma stays_on_server: "keeps (stays ops) (on_server m)" "keeps (stays ops) (set_server f)"
  by (auto simp: keeps_def stays_def on_server_def set_server_def split: prod.splits)

lemma stays_read_prefix: "keeps (stays ops) (read_prefix text)"
  by (rule keepsI) (metis read_prefix_run(1) stays_def prod.collapse)

lemma stays_load_my_key: "keeps (stays ops) (load_my_key lib host ops)"
  by (rule keepsI) (metis load_my_key_identity(1) stays_def prod.collapse)

lemma stays_configure_keys: "keeps (stays ops) (configure_keys lib host ops text)"
proof (rule keepsI)
  fix p :: "('a, 'b, 'c) the_program"
  have "keeps (stays ops) (andThen (read_prefix text) (\<lambda>ipv6_prefix.
      andThen (set_server (set_prefix ipv6_prefix)) (\<lambda>_. catch_any (load_my_key lib host ops) (raise Exception_error_exit))))"
    by (intro keeps_andThen [OF stays_order(1)] keeps_catch_any [OF stays_order(1)] keeps_raise [OF stays_order(2)]
        stays_read_prefix stays_on_server stays_load_my_key)
  from keepsD [OF this, of p] show "stays ops p (snd (configure_keys lib host ops text p))"
    by (auto simp: stays_def configure_keys_def have_keys_present andThen_def [of "have_keys_configured ops"])
qed

lemma stays_set_up: "keeps (stays ops) (set_up lib host ops argm)"
proof -
  have "keeps (stays ops) (\<lambda>p. if length (m_peer (m_myserver p)) \<noteq> 0 then (Inr (), p) else andThen (on_server (get_my_reference lib)) (\<lambda>_. ret ()) p)"
    by (rule keepsI) (auto simp: stays_def andThen_def on_server_def ret_def split: prod.splits sum.splits)
  moreover have "keeps (stays ops) (if b then set_server f else ret ())" for b f
    by (cases b) (simp_all add: stays_on_server(2) keeps_ret [OF stays_order(2)])
  ultimately show ?thesis
    unfolding set_up_def join_peers_def
    by (intro keeps_andThen [OF stays_order(1)] keeps_catch_any [OF stays_order(1)] keeps_raise [OF stays_order(2)]
        keeps_ret [OF stays_order(2)] keeps_forA [OF stays_order(2,1)] stays_on_server stays_configure_keys)
qed

subsection \<open>The address of a loaded identity\<close>

lemma load_from_bin_dirty: "load_from_bin pop data mk = (Inr (), mk') \<Longrightarrow> m_hash_cached mk' = []"
  by (auto simp: load_from_bin_def load_body_def andThen_def on_snd_def set_hash_dirty_def raise_def
      split: sum.splits prod.splits if_splits)

lemma datastore_load_dirty: "datastore_load ld pop name mk = (Inr (), mk') \<Longrightarrow> m_hash_cached mk' = []"
  by (auto simp: datastore_load_def Let_def dest: load_from_bin_dirty split: t_crypto_use.splits sum.splits)

lemma fresh_hash_length:
  assumes "hash_sized lib" and "m_hash_cached mk = []" and "get_hash lib mk = (Inr h, mk')"
  shows "length h = 64"
  using assms by (auto simp: get_hash_def update_hash_def hash_sized_def Hash1_def Let_def split: sum.splits if_splits)

lemma fd_prefixes:
  "prefix \<in> {octets_of ''fd42'', octets_of ''fd43''} \<Longrightarrow> \<exists>c. string_as_bin_of_hex prefix = Inr [0xFD, c]"
  by (auto simp: octets_of_def string_as_bin_of_hex_def hex_octet_def hexchar2int_def)


abbreviation same_prefix :: "parser \<times> c_multikeys_pub \<Rightarrow> parser \<times> c_multikeys_pub \<Rightarrow> bool" where
  "same_prefix \<equiv> \<lambda>s t. m_ipv6_prefix (snd t) = m_ipv6_prefix (snd s)"

lemma same_prefix_order: "transp same_prefix" "reflp same_prefix"
  by (auto intro!: transpI reflpI)

lemma keeps_prefix_on_fst: "keeps same_prefix (on_fst m)"
  by (auto simp: keeps_def on_fst_def split: prod.splits)

lemma keeps_prefix_load: "keeps same_prefix (load_body pop)"
proof -
  have snd: "keeps same_prefix (on_snd (assign_system ix ks))" "keeps same_prefix (on_snd (\<lambda>mk. (Inr (), set_hash_dirty mk)))" for ix ks
    by (auto simp: keeps_def on_snd_def assign_system_def set_hash_dirty_def split: prod.splits)
  have tests: "keeps same_prefix (\<lambda>(p, mk). (if b p mk then Inl Runtime_error else Inr (), (p, mk)))" for b
    by (auto simp: keeps_def)
  note steps = keeps_andThen [OF same_prefix_order(1)] keeps_liftR [OF same_prefix_order(2)] keeps_assertA [OF same_prefix_order(2)]
    keeps_forA [OF same_prefix_order(2,1)] keeps_raise [OF same_prefix_order(2)] keeps_prefix_on_fst snd tests
  have "keeps same_prefix (load_system pop)" unfolding load_system_def
    by (intro steps)
  then show ?thesis unfolding load_body_def
    by (auto intro!: steps)
qed

lemma datastore_load_prefix:
  fixes mk :: c_multikeys_pub
  assumes "datastore_load ld pop name mk = (r, mk')"
  shows "m_ipv6_prefix mk' = m_ipv6_prefix mk"
proof -
  have "m_ipv6_prefix (snd (load_from_bin pop data (clear mk))) = m_ipv6_prefix (clear mk)" for data
    using keepsD [OF keeps_prefix_load, of pop "(_, clear mk)"]
    by (auto simp: load_from_bin_def split: sum.splits prod.splits) (metis snd_conv)
  moreover have "m_ipv6_prefix (clear mk) = m_ipv6_prefix mk" by (simp add: clear_def set_hash_dirty_def)
  ultimately show ?thesis
    using assms by (auto simp: datastore_load_def Let_def split: t_crypto_use.splits sum.splits) (metis snd_conv)+
qed

lemma hash_again: "get_hash lib mk = (Inr h, mk') \<Longrightarrow> get_hash lib mk' = (Inr h, mk')"
  using get_hash_caches [of lib mk h mk'] by (auto simp: get_hash_cached)

lemma get_hash_prefix: "get_hash lib (mk :: c_multikeys_pub) = (r, mk') \<Longrightarrow> m_ipv6_prefix mk' = m_ipv6_prefix mk"
  by (auto simp: get_hash_def update_hash_def Let_def split: sum.splits if_splits)

lemma IDI_address:
  assumes "hash_sized lib" and "v6_text_laws host" and "prefix \<in> {octets_of ''fd42'', octets_of ''fd43''}"
    and "configure_load_IDI lib host ld prefix = Inr (pair, hip)"
  shows "length hip = 16 \<and> hip ! 0 = 0xFD"
proof -
  obtain name q bin q1 hexdot q2 where
    load: "datastore_load_PRV_and_pub ld name (c_multikeys_PAIR_init\<lparr>m_pub := set_ipv6_prefix prefix c_multikeys_pub_init\<rparr>) = (Inr (), q)"
    and bin: "on_pub (get_ipv6_string_bin lib) q = (Inr bin, q1)" and hexdot: "on_pub (get_ipv6_string_hexdot lib) q1 = (Inr hexdot, q2)"
    and first: "bindR (vec_at bin 0) (\<lambda>c. if c \<noteq> 0xFD then Inl Runtime_error else Inr ()) = Inr ()"
    and hip: "c_haship_addr_by_addr_dot host hexdot = Inr hip"
    using assms(4) unfolding configure_load_IDI_def Let_def
    by (auto dest!: andThen_eq_InrD split: sum.splits prod.splits)
  have "datastore_load ld pop_varstring name (set_ipv6_prefix prefix c_multikeys_pub_init) = (Inr (), m_pub q)"
    using load by (auto simp: datastore_load_PRV_and_pub_def andThen_def on_PRV_def on_pub_def split: prod.splits sum.splits)
  then have q: "m_hash_cached (m_pub q) = []" "m_ipv6_prefix (m_pub q) = prefix"
    by (auto dest: datastore_load_dirty datastore_load_prefix simp: set_ipv6_prefix_def)
  obtain c where c: "string_as_bin_of_hex prefix = Inr [0xFD, c]" using fd_prefixes [OF assms(3)] by blast
  obtain h pub where h: "get_hash lib (m_pub q) = (Inr h, pub)"
    using bin by (auto simp: on_pub_def get_ipv6_string_bin_def andThen_def split: prod.splits sum.splits)
  have len: "length h = 64" by (rule fresh_hash_length [OF assms(1) q(1) h])
  have pub: "m_ipv6_prefix pub = prefix" using get_hash_prefix [OF h] q(2) by simp
  have "get_ipv6_string_bin lib (m_pub q) = (Inr ([0xFD, c] @ take 14 h), pub)"
    using get_ipv6_string_bin_eq [OF h len, of "[0xFD, c]"] c pub by simp
  then have 1: "bin = [0xFD, c] @ take 14 h" "m_pub q1 = pub" using bin by (auto simp: on_pub_def)
  have again: "get_ipv6_string_bin lib pub = (Inr bin, pub)"
    using get_ipv6_string_bin_eq [OF hash_again [OF h] len, of "[0xFD, c]"] c pub 1(1) by simp
  have l16: "length bin = 16" using len 1(1) by simp
  then obtain hex where hex: "string_as_hex_of_bin bin = Inr hex" using hex_of_bin_digits [of bin] by auto
  have "hexdot = hexdot_loop 0 (length hex) hex"
    using hexdot again hex 1(2) by (auto simp: on_pub_def get_ipv6_string_hexdot_def get_ipv6_string_hex_def andThen_def ret_def)
  then have "hip = bin" using by_addr_dot_hexdot [OF assms(2) l16 hex] hip by simp
  with l16 1(1) show ?thesis by simp
qed

section \<open>A stored identity is configured\<close>

lemma starts_fd_hexdot:
  assumes "string_as_hex_of_bin (0xFD # bs) = Inr hex"
  shows "starts_fd (hexdot_loop 0 n hex) = Inr ()"
proof -
  have nibbles: "int2hexchar (0xFD div 16) = Inr 0x66" "int2hexchar (0xFD mod 16) = Inr 0x64"
    by (simp_all add: int2hexchar_def)
  have "hex_encode_loop (0xFD # bs) = Inr hex" using assms by (auto simp: string_as_hex_of_bin_def Let_def simp del: hex_encode_loop.simps split: if_splits)
  then have "bindR (Inr 0x66) (\<lambda>bh. bindR (Inr 0x64) (\<lambda>bl. bindR (hex_encode_loop bs) (\<lambda>rest. Inr (bh # bl # rest)))) = Inr hex"
    by (simp only: hex_encode_loop.simps nibbles)
  then obtain rest where "hex = 0x66 # 0x64 # rest" by (auto simp: bindR_eq_Inr_conv)
  then show ?thesis by (simp add: starts_fd_def)
qed

lemma address_steps:
  assumes "hash_sized lib" and "systems_known (m_cryptolists_general pub)" and "m_hash_cached pub = []"
    and "m_ipv6_prefix pub \<in> {octets_of ''fd42'', octets_of ''fd43''}"
  shows "\<exists>bs hex pub'. length (0xFD # bs) = 16 \<and> string_as_hex_of_bin (0xFD # bs) = Inr hex \<and>
     get_ipv6_string_bin lib pub = (Inr (0xFD # bs), pub') \<and>
     get_ipv6_string_hexdot lib pub = (Inr (hexdot_loop 0 (length hex) hex), pub') \<and>
     get_ipv6_string_hexdot lib pub' = (Inr (hexdot_loop 0 (length hex) hex), pub') \<and>
     m_cryptolists_general pub' = m_cryptolists_general pub \<and> m_ipv6_prefix pub' = m_ipv6_prefix pub"
proof -
  obtain c where c: "string_as_bin_of_hex (m_ipv6_prefix pub) = Inr [0xFD, c]" using fd_prefixes [OF assms(4)] by blast
  obtain h where h: "length h = 64" "get_hash lib pub = (Inr h, pub\<lparr>m_hash_cached := h\<rparr>)"
    using get_hash_returns [OF assms(1-3)] by blast
  let ?pub = "pub\<lparr>m_hash_cached := h\<rparr>" and ?bin = "[0xFD, c] @ take 14 h"
  have bin: "get_ipv6_string_bin lib pub = (Inr ?bin, ?pub)" "get_ipv6_string_bin lib ?pub = (Inr ?bin, ?pub)"
    using get_ipv6_string_bin_eq [OF h(2,1), of "[0xFD, c]"] get_ipv6_string_bin_eq [OF hash_again [OF h(2)] h(1), of "[0xFD, c]"] c
    by simp_all
  have "length ?bin = 16" using h(1) by simp
  then obtain hex where hex: "string_as_hex_of_bin ?bin = Inr hex" using hex_of_bin_digits [of ?bin] by auto
  then have "get_ipv6_string_hexdot lib pub = (Inr (hexdot_loop 0 (length hex) hex), ?pub)"
    "get_ipv6_string_hexdot lib ?pub = (Inr (hexdot_loop 0 (length hex) hex), ?pub)"
    using bin by (simp_all add: get_ipv6_string_hexdot_def get_ipv6_string_hex_def andThen_def ret_def)
  with bin hex h(1) show ?thesis
    by (intro exI [of _ "c # take 14 h"] exI [of _ hex] exI [of _ ?pub]) simp
qed

definition stored_pair :: "(t_datastore \<Rightarrow> string \<Rightarrow> bytes result) \<Rightarrow> bytes list list \<Rightarrow> bytes list list \<Rightarrow> bool" where
  \<comment> \<open>the store names an identity, and holds these keys under its name\<close>
  "stored_pair ld prvs pubs \<longleftrightarrow> PRVkeys.keylists_ok prvs \<and> pubkeys.keylists_ok pubs \<and>
     (\<exists>name. ld e_datastore_galaxy_instalation_key_conf ''IDI'' = Inr name \<and>
        ld e_datastore_galaxy_wallet_PRV (map (\<lambda>c. char_of (unat c)) name) = Inr (PRVkeys.gmk_octets e_crypto_use_secret prvs) \<and>
        ld e_datastore_galaxy_pub (map (\<lambda>c. char_of (unat c)) name) = Inr (pubkeys.gmk_octets e_crypto_use_open pubs))"

lemma empty_lists_loaded: "length ls = 32 \<Longrightarrow> map (\<lambda>ix. if ls ! ix \<noteq> [] then ls ! ix else replicate 32 [] ! ix) [0..<32] = ls"
  by (intro nth_equalityI) simp_all

lemma cleared:
  "length (m_cryptolists_general mk) = 32 \<Longrightarrow> m_cryptolists_general (clear mk) = replicate 32 []" "m_crypto_use (clear mk) = m_crypto_use mk"
  by (simp_all add: clear_def set_hash_dirty_def map_replicate_const)

lemma load_stored_pair:
  assumes "PRVkeys.keylists_ok prvs" and "pubkeys.keylists_ok pubs"
    and "length (m_cryptolists_general (m_PRV q)) = 32" and "length (m_cryptolists_general (m_pub q)) = 32"
    and "m_crypto_use (m_PRV q) = e_crypto_use_secret" and "m_crypto_use (m_pub q) = e_crypto_use_open"
    and "ld e_datastore_galaxy_wallet_PRV name = Inr (PRVkeys.gmk_octets e_crypto_use_secret prvs)"
    and "ld e_datastore_galaxy_pub name = Inr (pubkeys.gmk_octets e_crypto_use_open pubs)"
  shows "\<exists>q'. datastore_load_PRV_and_pub ld name q = (Inr (), q') \<and> m_cryptolists_general (m_PRV q') = prvs \<and>
     m_cryptolists_general (m_pub q') = pubs \<and> m_hash_cached (m_pub q') = [] \<and> m_ipv6_prefix (m_pub q') = m_ipv6_prefix (m_pub q)"
proof -
  have len: "length prvs = 32" "length pubs = 32" using assms(1,2) by (auto simp: PRVkeys.keylists_ok_def pubkeys.keylists_ok_def)
  have prv: "datastore_load ld pop_locked_string name (m_PRV q) = (Inr (), (clear (m_PRV q))\<lparr>m_cryptolists_general := prvs, m_hash_cached := []\<rparr>)"
  proof -
    have "length (m_cryptolists_general (clear (m_PRV q))) = 32" by (simp add: cleared(1) [OF assms(3)])
    note loaded = PRVkeys.load_from_bin_eq [OF assms(1) this, unfolded cleared(1) [OF assms(3)] cleared(2) assms(5) empty_lists_loaded [OF len(1)]]
    show ?thesis using loaded assms(5,7) by (simp add: datastore_load_def)
  qed
  have pub: "datastore_load ld pop_varstring name (m_pub q) = (Inr (), (clear (m_pub q))\<lparr>m_cryptolists_general := pubs, m_hash_cached := []\<rparr>)"
  proof -
    have "length (m_cryptolists_general (clear (m_pub q))) = 32" by (simp add: cleared(1) [OF assms(4)])
    note loaded = pubkeys.load_from_bin_eq [OF assms(2) this, unfolded cleared(1) [OF assms(4)] cleared(2) assms(6) empty_lists_loaded [OF len(2)]]
    show ?thesis using loaded assms(6,8) by (simp add: datastore_load_def)
  qed
  show ?thesis using prv pub datastore_load_prefix [OF pub]
    by (auto simp: datastore_load_PRV_and_pub_def andThen_def on_PRV_def on_pub_def)
qed

lemma generate_IDC:
  assumes "length (generate_pubkey_from_privkey lib (randombytes lib (n + 1) 32)) \<le> SANE_MAX_SIZE_FOR_STRING"
  shows "\<exists>idc. generate_system lib e_crypto_system_type_X25519 1 (c_multikeys_PAIR_init, n) = (Inr (), (idc, n + 2)) \<and>
     pubkeys.keylists_ok (m_cryptolists_general (m_pub idc)) \<and> m_hash_cached (m_pub idc) = [] \<and>
     m_ipv6_prefix (m_pub idc) = octets_of ''fd42''"
proof -
  let ?prv = "randombytes lib (n + 1) 32"
  let ?pub = "c_multikeys_pub_init\<lparr>m_cryptolists_general := (replicate 32 [])[5 := [generate_pubkey_from_privkey lib ?prv]]\<rparr>"
  let ?idc = "\<lparr>m_pub = ?pub, m_PRV = c_multikeys_PRV_init\<lparr>m_cryptolists_general := (replicate 32 [])[5 := [?prv]]\<rparr>\<rparr>"
  have ok: "pubkeys.keylists_ok (m_cryptolists_general ?pub)"
    unfolding pubkeys.keylists_ok_def
    using assms by (auto simp: nth_list_update t_crypto_system_type_to_ID_def fits_size_t_def)
  have "generate_system lib e_crypto_system_type_X25519 1 (c_multikeys_PAIR_init, n) = (Inr (), (?idc, n + 2))"
    using pubkeys.serialize_bin_eq [OF ok]
    by (simp add: generate_system_def key_pair_generator_def generate_one_def generate_x25519_key_pair_def add_public_and_PRIVATE_def
        add_public_def add_PRIVATE_def add_key_def on_snd_def on_fst_def on_pub_def on_PRV_def andThen_def ret_def set_hash_dirty_def
        get_serialize_bin_pubkey_def c_multikeys_PAIR_init_def c_multikeys_pub_init_def c_multikeys_PRV_init_def multicryptostrings_init_def Let_def)
  with ok show ?thesis by (intro exI [of _ ?idc]) (simp add: c_multikeys_pub_init_def octets_of_def)
qed

lemma PAIR_init_uses:
  "m_crypto_use (m_PRV c_multikeys_PAIR_init) = e_crypto_use_secret" "m_crypto_use (m_pub c_multikeys_PAIR_init) = e_crypto_use_open"
  "length (m_cryptolists_general (m_PRV c_multikeys_PAIR_init)) = 32" "length (m_cryptolists_general (m_pub c_multikeys_PAIR_init)) = 32"
  "length (m_cryptolists_general c_multikeys_pub_init) = 32" "m_crypto_use c_multikeys_pub_init = e_crypto_use_open"
  by (simp_all add: c_multikeys_PAIR_init_def c_multikeys_pub_init_def c_multikeys_PRV_init_def multicryptostrings_init_def)

lemma configure_load_IDI_stored:
  assumes "hash_sized lib" and "v6_text_laws host" and "prefix \<in> {octets_of ''fd42'', octets_of ''fd43''}" and "stored_pair ld prvs pubs"
  shows "\<exists>my_IDI hip. configure_load_IDI lib host ld prefix = Inr (my_IDI, hip) \<and>
     m_cryptolists_general (m_PRV my_IDI) = prvs \<and> m_cryptolists_general (m_pub my_IDI) = pubs \<and>
     m_ipv6_prefix (m_pub my_IDI) = prefix \<and> (\<exists>shown. get_ipv6_string_hexdot lib (m_pub my_IDI) = (Inr shown, m_pub my_IDI))"
proof -
  obtain name where ok: "PRVkeys.keylists_ok prvs" "pubkeys.keylists_ok pubs"
    and conf: "ld e_datastore_galaxy_instalation_key_conf ''IDI'' = Inr name"
    and keys: "ld e_datastore_galaxy_wallet_PRV (map (\<lambda>c. char_of (unat c)) name) = Inr (PRVkeys.gmk_octets e_crypto_use_secret prvs)"
      "ld e_datastore_galaxy_pub (map (\<lambda>c. char_of (unat c)) name) = Inr (pubkeys.gmk_octets e_crypto_use_open pubs)"
    using assms(4) by (auto simp: stored_pair_def)
  let ?q = "c_multikeys_PAIR_init\<lparr>m_pub := set_ipv6_prefix prefix c_multikeys_pub_init\<rparr>"
  obtain q where q: "datastore_load_PRV_and_pub ld (map (\<lambda>c. char_of (unat c)) name) ?q = (Inr (), q)" "m_cryptolists_general (m_PRV q) = prvs"
    "m_cryptolists_general (m_pub q) = pubs" "m_hash_cached (m_pub q) = []" "m_ipv6_prefix (m_pub q) = prefix"
    using load_stored_pair [where ld = ld and q = ?q and name = "map (\<lambda>c. char_of (unat c)) name", OF ok] keys
    by (auto simp: PAIR_init_uses set_ipv6_prefix_def)
  have "systems_known (m_cryptolists_general (m_pub q))" using ok(2) q(3) by (auto simp: systems_known_def pubkeys.keylists_ok_def)
  from address_steps [OF assms(1) this q(4)] assms(3) q(5) obtain bs hex pub' where
    a: "length (0xFD # bs) = 16" "string_as_hex_of_bin (0xFD # bs) = Inr hex" "get_ipv6_string_bin lib (m_pub q) = (Inr (0xFD # bs), pub')"
      "get_ipv6_string_hexdot lib pub' = (Inr (hexdot_loop 0 (length hex) hex), pub')" "m_cryptolists_general pub' = m_cryptolists_general (m_pub q)"
      "m_ipv6_prefix pub' = prefix"
    using q(5) by auto
  show ?thesis
    using conf q(1-3) a(3-6) starts_fd_hexdot [OF a(2)] by_addr_dot_hexdot [OF assms(2) a(1,2)]
    by (simp add: configure_load_IDI_def Let_def andThen_def [of "datastore_load_PRV_and_pub _ _"] andThen_def on_pub_def)
qed

lemma configure_stored_pair:
  assumes "hash_sized lib" and "v6_text_laws host" and "m_node_ipv6_prefix s \<in> {octets_of ''fd42'', octets_of ''fd43''}"
    and "stored_pair ld prvs pubs"
    and sign: "\<And>q msg. m_cryptolists_general (m_PRV q) = prvs \<Longrightarrow> m_cryptolists_general (m_pub q) = pubs \<Longrightarrow>
        \<exists>ms. PAIR_multi_sign lib q msg = Inr ms \<and> PAIR_multi_sign_verify lib q ms msg = Inr ()"
    and "\<And>n. length (generate_pubkey_from_privkey lib (randombytes lib n 32)) \<le> SANE_MAX_SIZE_FOR_STRING"
  shows "\<exists>s' shown. configure_mykey lib host ld s = (Inr (), s') \<and>
     get_ipv6_string_hexdot lib (m_my_IDI_pub s') = (Inr shown, m_my_IDI_pub s') \<and> m_peer s' = m_peer s"
proof -
  obtain my_IDI hip shown where IDI: "configure_load_IDI lib host ld (m_node_ipv6_prefix s) = Inr (my_IDI, hip)"
      "m_cryptolists_general (m_PRV my_IDI) = prvs" "m_cryptolists_general (m_pub my_IDI) = pubs"
      "set_ipv6_prefix (m_node_ipv6_prefix s) (m_pub my_IDI) = m_pub my_IDI" "get_ipv6_string_hexdot lib (m_pub my_IDI) = (Inr shown, m_pub my_IDI)"
    using configure_load_IDI_stored [OF assms(1-4)] by (auto simp: set_ipv6_prefix_def)
  obtain idc where idc: "generate_system lib e_crypto_system_type_X25519 1 (c_multikeys_PAIR_init, w_rng (m_world s)) = (Inr (), (idc, w_rng (m_world s) + 2))"
      "pubkeys.keylists_ok (m_cryptolists_general (m_pub idc))" "m_hash_cached (m_pub idc) = []" "m_ipv6_prefix (m_pub idc) = octets_of ''fd42''"
    using generate_IDC [OF assms(6)] by blast
  obtain to_sign where ser: "serialize_bin push_varstring (m_pub idc) = Inr to_sign" using pubkeys.serialize_bin_eq [OF idc(2)] by blast
  obtain ms where ms: "PAIR_multi_sign lib my_IDI to_sign = Inr ms" "multi_sign_verify lib ms to_sign (m_pub my_IDI) = Inr ()"
    using sign [OF IDI(2,3)] by (auto simp: PAIR_multi_sign_verify_def)
  have "systems_known (m_cryptolists_general (m_pub idc))" using idc(2) by (auto simp: systems_known_def pubkeys.keylists_ok_def)
  from address_steps [OF assms(1) this idc(3)] idc(4) obtain bs hex pub' where
    a: "length (0xFD # bs) = 16" "string_as_hex_of_bin (0xFD # bs) = Inr hex"
      "get_ipv6_string_hexdot lib (m_pub idc) = (Inr (hexdot_loop 0 (length hex) hex), pub')"
    by auto
  show ?thesis
    using IDI idc(1) ser ms a(3) starts_fd_hexdot [OF a(2)] by_addr_dot_hexdot [OF assms(2) a(1,2)]
    by (simp add: configure_mykey_def Let_def andThen_def)
qed

lemma read_prefix_ok:
  assumes "map tolower_char text \<in> {octets_of ''fd42'', octets_of ''fd43''}"
  shows "read_prefix text p = (Inr (map tolower_char text), p\<lparr>m_myserver := set_prefix_len 16 (m_myserver p)\<rparr>)"
proof -
  have "length text = 4" using arg_cong [of "map tolower_char text" _ length] assms by (auto simp: octets_of_def)
  then obtain a b c d where chars: "text = [a, b, c, d]" by (auto simp: length_Suc_conv numeral_eq_Suc)
  have "tolower_char a = 0x66" "tolower_char b = 0x64" "tolower_char c = 0x34" "tolower_char d = 0x32 \<or> tolower_char d = 0x33"
    using assms by (auto simp: chars octets_of_def)
  then show ?thesis
    by (auto simp: read_prefix_def chars check_input_def set_server_def on_server_def andThen_def ret_def Let_def)
qed

definition no_command :: "start_options \<Rightarrow> bool" where
  "no_command argm \<longleftrightarrow> \<not> opt_info argm \<and> \<not> opt_list_my_keys argm \<and> opt_gen_key argm = None \<and> \<not> opt_gen_key_simple argm"

text \<open>A start on a store with an identity, without peers on the command line, reaches the main loop.\<close>

lemma stored_identity_enters:
  assumes "hash_sized lib" and "v6_text_laws host" and "no_command argm" and "opt_peers argm = []"
    and prefix: "map tolower_char (opt_set_prefix argm) \<in> {octets_of ''fd42'', octets_of ''fd43''}"
    and "keys_present ops ds" and "\<And>dbg2. stored_pair (store_load ops dbg2 ds) prvs pubs"
    and "\<And>q msg. m_cryptolists_general (m_PRV q) = prvs \<Longrightarrow> m_cryptolists_general (m_pub q) = pubs \<Longrightarrow>
        \<exists>ms. PAIR_multi_sign lib q msg = Inr ms \<and> PAIR_multi_sign_verify lib q ms msg = Inr ()"
    and "\<And>n. length (generate_pubkey_from_privkey lib (randombytes lib n 32)) \<le> SANE_MAX_SIZE_FOR_STRING"
  shows "\<exists>p. main_execution lib host ops argm w port t ds = (Inr Enter_main_loop, p)"
proof -
  have join: "\<exists>p'. join_peers lib host argm p = (Inr Enter_main_loop, p')"
    if "get_ipv6_string_hexdot lib (m_my_IDI_pub (m_myserver p)) = (Inr shown, m_my_IDI_pub (m_myserver p))" for p :: "('a, 'b, 'c) the_program" and shown
    using that assms(4)
    by (simp add: join_peers_def set_server_def on_server_def set_my_name_def get_my_ipv6_nice_def get_my_reference_def
        catch_any_def andThen_def ret_def split: option.split)
  have keys: "\<exists>p' shown. configure_keys lib host ops (opt_set_prefix argm) p = (Inr (), p') \<and>
      get_ipv6_string_hexdot lib (m_my_IDI_pub (m_myserver p')) = (Inr shown, m_my_IDI_pub (m_myserver p'))"
    if "m_store p = ds" for p :: "('a, 'b, 'c) the_program"
  proof -
    let ?s = "set_prefix (map tolower_char (opt_set_prefix argm)) (set_prefix_len 16 (m_myserver p))"
    let ?p = "p\<lparr>m_myserver := ?s\<rparr>"
    have "m_node_ipv6_prefix ?s \<in> {octets_of ''fd42'', octets_of ''fd43''}" using prefix by (simp add: set_prefix_def)
    from configure_stored_pair [OF assms(1,2) this assms(7-9)] obtain s' shown where
      s': "configure_mykey lib host (store_load ops (dbg2_on ?p) ds) ?s = (Inr (), s')" "get_ipv6_string_hexdot lib (m_my_IDI_pub s') = (Inr shown, m_my_IDI_pub s')"
      by blast
    have "load_my_key lib host ops ?p = (Inr (), ?p\<lparr>m_myserver := s'\<rparr>)"
      using s'(1) that by (simp add: load_my_key_def on_server_def)
    then have "configure_keys lib host ops (opt_set_prefix argm) p = (Inr (), ?p\<lparr>m_myserver := s'\<rparr>)"
      using have_keys_present [of ops p] assms(6) that read_prefix_ok [OF prefix, of p]
      by (simp add: configure_keys_def andThen_def set_server_def on_server_def catch_any_def)
    with s'(2) show ?thesis by auto
  qed
  have "\<exists>p'. set_up lib host ops argm p = (Inr Enter_main_loop, p')" if "m_store p = ds" for p :: "('a, 'b, 'c) the_program"
  proof -
    have "\<exists>p1. (if opt_remove_peers argm then set_server enable_remove_peers else ret ()) p = (Inr (), p1) \<and> m_store p1 = ds"
      using that by (simp add: set_server_def on_server_def ret_def)
    then obtain p1 where p1: "(if opt_remove_peers argm then set_server enable_remove_peers else ret ()) p = (Inr (), p1)" "m_store p1 = ds" by blast
    obtain p2 where p2: "set_server (set_remove_peer_tometout (opt_remove_peers_timeout argm)) p1 = (Inr (), p2)" "m_store p2 = ds"
      using p1(2) by (auto simp: set_server_def on_server_def)
    obtain p3 shown where p3: "configure_keys lib host ops (opt_set_prefix argm) p2 = (Inr (), p3)"
        "get_ipv6_string_hexdot lib (m_my_IDI_pub (m_myserver p3)) = (Inr shown, m_my_IDI_pub (m_myserver p3))"
      using keys [OF p2(2)] by blast
    from join [OF p3(2)] show ?thesis using p1(1) p2(1) p3(1) by (simp add: set_up_def andThen_def)
  qed
  then obtain p' where "set_up lib host ops argm \<lparr>m_myserver = c_tunserver_new (w\<lparr>g_dbg_level := main_debug_level argm (g_dbg_level w)\<rparr>) port t, m_store = ds\<rparr> =
      (Inr Enter_main_loop, p')"
    by (metis the_program.select_convs(2))
  then show ?thesis using assms(3) by (simp add: main_execution_def main_body_def no_command_def)
qed

text \<open>
  Keys without a chosen identity: the code warns that it makes the default identity of the keys, but \<open>is_file_ok\<close> throws for the file that is
  missing, so the branch is not reached: the program goes on as if there were no keys, and creates new ones.
\<close>

lemma missing_conf_ignores_keys:
  assumes "get_parent_path ops (m_store p) e_datastore_galaxy_wallet_PRV '''' = Inr path" and "get_file_list ops (m_store p) path = Inr keys"
    and "get_full_path ops (m_store p) e_datastore_galaxy_instalation_key_conf ''IDI'' = Inr conf" and "fs_exists ops (ds_files (m_store p)) conf = Inr False"
  shows "have_keys_configured ops p = (Inr False, p)"
  using assms by (simp add: have_keys_configured_def catch_any_def is_file_ok_def passes_catch_def raise_def ret_def)

section \<open>A store for the examples\<close>

definition list_fs :: "(string \<times> bytes) list fs_ops" where
  \<comment> \<open>files in a list, directories everywhere\<close>
  "list_fs =
     \<lparr>fs_exists = (\<lambda>fs p. Inr (map_of fs p \<noteq> None)), fs_is_regular = (\<lambda>fs p. Inr (map_of fs p \<noteq> None)),
      fs_is_directory = (\<lambda>fs p. Inr False), fs_is_empty = (\<lambda>fs p. Inr (map_of fs p = Some [])),
      fs_canonical = (\<lambda>fs p. if map_of fs p = None then Inl Filesystem_error else Inr p),
      fs_create_directories = (\<lambda>p fs. (Inr True, fs)),
      fs_touch = (\<lambda>p fs. if map_of fs p = None then (p, []) # fs else fs),
      fs_write = (\<lambda>p d fs. (True, (p, d) # filter (\<lambda>(q, _). q \<noteq> p) fs)),
      fs_read = (\<lambda>fs p. case map_of fs p of None \<Rightarrow> [] | Some d \<Rightarrow> d),
      fs_fopen = (\<lambda>fs p. map_option (\<lambda>d. (length d, d)) (map_of fs p)),
      fs_remove = (\<lambda>p fs. (Inr (map_of fs p \<noteq> None), filter (\<lambda>(q, _). q \<noteq> p) fs)),
      fs_list = (\<lambda>fs dir. Inr (filter (\<lambda>p. take (length dir) p = dir) (map fst fs))),
      path_filename = (\<lambda>p. rev (takeWhile (\<lambda>c. c \<noteq> CHR ''/'') (rev p))),
      path_parent = (\<lambda>p. rev (tl (dropWhile (\<lambda>c. c \<noteq> CHR ''/'') (rev p)))), env_HOME = Some ''/root''\<rparr>"

definition list_keys :: "bytes list list" where
  "list_keys = (replicate 32 [])[6 := [[7], [8]]]"

definition list_store :: "(string \<times> bytes) list datastore" where
  "list_store =
     \<lparr>ds_files = [(''/root/.config/antinet/galaxy42/config/IDI.conf'', octets_of ''IDI''),
                  (''/root/.config/antinet/galaxy42/public/IDI.pub'', pubkeys.gmk_octets e_crypto_use_open list_keys),
                  (''/root/.config/antinet/galaxy42/wallet/IDI.PRV'', PRVkeys.gmk_octets e_crypto_use_secret list_keys)],
      home_dir = '''', user_lines = []\<rparr>"

definition list_options :: "bytes \<Rightarrow> start_options" where
  "list_options prefix = \<lparr>opt_debug = False, opt_dlevel = None, opt_quiet = False, opt_info = False, opt_my_key = None, opt_list_my_keys = False,
     opt_gen_key = None, opt_gen_key_simple = False, opt_remove_peers = False, opt_remove_peers_timeout = 30,
     opt_set_prefix = prefix, opt_myname = None, opt_peers = []\<rparr>"

definition example_start_world :: world where
  "example_start_world = \<lparr>w_clock = (\<lambda>_. 0), w_clock_reads = 0, m_disabled = False, w_sent = [], w_tun = [],
     w_tun_write = (\<lambda>packet. Some (length packet)), w_rng = 0, g_dbg_level = 100\<rparr>"

lemma list_wallet:
  "get_parent_path list_fs list_store e_datastore_galaxy_wallet_PRV '''' = Inr ''/root/.config/antinet/galaxy42/wallet/''"
  "get_file_list list_fs list_store ''/root/.config/antinet/galaxy42/wallet/'' = Inr [''IDI.PRV'']"
  by (simp_all add: get_parent_path_def get_file_list_def list_fs_def list_store_def)

lemma list_keys_present: "keys_present list_fs list_store"
  unfolding keys_present_def
  by (rule exI [of _ "''/root/.config/antinet/galaxy42/wallet/''"], rule exI [of _ "[''IDI.PRV'']"],
      rule exI [of _ "''/root/.config/antinet/galaxy42/config/IDI.conf''"])
    (simp add: list_wallet, simp add: get_full_path_def get_parent_path_def is_file_ok_def list_fs_def list_store_def)

lemma list_stored_pair: "stored_pair (store_load list_fs dbg2 list_store) list_keys list_keys"
proof -
  have "pubkeys.keylists_ok list_keys" "PRVkeys.keylists_ok list_keys"
    unfolding pubkeys.keylists_ok_def PRVkeys.keylists_ok_def
    by (auto simp: list_keys_def nth_list_update t_crypto_system_type_to_ID_def fits_size_t_def SANE_MAX_SIZE_FOR_STRING_def)
  moreover have "map (\<lambda>c. char_of (unat c)) (octets_of ''IDI'') = ''IDI''" by code_simp
  ultimately show ?thesis
    unfolding stored_pair_def
    by (intro conjI exI [of _ "octets_of ''IDI''"])
      (simp_all add: store_load_def load_string_def load_string_mlocked_def get_full_path_def get_parent_path_def is_file_ok_def
        list_fs_def list_store_def Let_def)
qed

lemma list_keys_sign:
  assumes "m_cryptolists_general (m_PRV q) = list_keys" and "m_cryptolists_general (m_pub q) = list_keys"
  shows "\<exists>ms. PAIR_multi_sign example_lib q msg = Inr ms \<and> PAIR_multi_sign_verify example_lib q ms msg = Inr ()"
proof -
  let ?ms = "c_multisign_init\<lparr>m_cryptolists_general := (replicate 32 [])[6 := [7 # msg, 8 # msg], 11 := []]\<rparr>"
  have "multi_sign example_lib (m_PRV q) msg = Inr ?ms"
    by (rule multi_sign_eq) (simp_all add: assms list_keys_def sign_one_def)
  moreover have "multi_sign_verify example_lib ?ms msg (m_pub q) = Inr ()"
    by (subst multi_sign_verify_iff) (auto simp: assms list_keys_def nth_list_update)
  ultimately show ?thesis by (auto simp: PAIR_multi_sign_def PAIR_multi_sign_verify_def)
qed

lemma list_start_enters:
  assumes "prefix \<in> {octets_of ''fd42'', octets_of ''FD42''}"
  shows "\<exists>p. main_execution example_lib example_host list_fs (list_options prefix) w port t list_store = (Inr Enter_main_loop, p)"
proof (rule stored_identity_enters [OF hash_sized_example v6_text_laws_example _ _ _ list_keys_present list_stored_pair list_keys_sign])
  show "map tolower_char (opt_set_prefix (list_options prefix)) \<in> {octets_of ''fd42'', octets_of ''fd43''}"
    using assms by (auto simp: list_options_def octets_of_def tolower_char_def)
  show "length (generate_pubkey_from_privkey example_lib (randombytes example_lib n 32)) \<le> SANE_MAX_SIZE_FOR_STRING" for n
    by (simp add: example_lib_def SANE_MAX_SIZE_FOR_STRING_def)
qed (simp_all add: list_options_def no_command_def)

section \<open>Properties\<close>

lemma main_enters_set_up:
  assumes "main_execution lib host ops argm w port t ds = (Inr Enter_main_loop, p)"
  shows "\<exists>p0. m_store p0 = ds \<and> set_up lib host ops argm p0 = (Inr Enter_main_loop, p)"
proof -
  let ?p = "\<lparr>m_myserver = c_tunserver_new (w\<lparr>g_dbg_level := main_debug_level argm (g_dbg_level w)\<rparr>) port t, m_store = ds\<rparr>"
  have "main_body lib host ops argm ?p = (Inr Enter_main_loop, p)"
    using assms by (auto simp: main_execution_def Let_def split: prod.splits sum.splits if_splits)
  moreover have "show_info ops k q \<noteq> (Inr Enter_main_loop, q')" for k and q q' :: "('a, 'b, 'c) the_program"
    by (auto simp: show_info_def bindR_def split: option.splits sum.splits)
  ultimately have "set_up lib host ops argm ?p = (Inr Enter_main_loop, p)"
    by (auto simp: main_body_def ret_def bindR_eq_Inr_conv dest!: andThen_eq_InrD split: if_splits option.splits)
  then show ?thesis by (intro exI [of _ ?p]) simp
qed

lemma main_identity:
  assumes "main_execution lib host ops argm w port t ds = (Inr Enter_main_loop, p)"
  shows "map tolower_char (opt_set_prefix argm) \<in> {octets_of ''fd42'', octets_of ''fd43''} \<and> has_identity lib host ops (map tolower_char (opt_set_prefix argm)) p"
  using main_enters_set_up [OF assms] set_up_identity by blast

text \<open>
  C20: a program that reaches the main loop has a node that was set up by its own methods only, so that it satisfies the invariant of
  the node; its prefix is \<open>fd42\<close> or \<open>fd43\<close>; its address is that of the identity that its data store names; and the
  assertions of \<open>prepare_socket\<close> on that address hold.
\<close>

theorem start_reaches_main_loop:
  assumes "hash_sized lib" and "v6_text_laws host"
    and "main_execution lib host ops argm w port t ds = (Inr Enter_main_loop, p)"
  shows "node_reachable lib host (m_myserver p) \<and> node_wf lib (m_myserver p) \<and>
         map tolower_char (opt_set_prefix argm) \<in> {octets_of ''fd42'', octets_of ''fd43''} \<and>
         has_identity lib host ops (map tolower_char (opt_set_prefix argm)) p \<and>
         fst (prepare_socket device_ready (m_myserver p)) \<noteq> Inl Abort"
proof -
  have reach: "node_reachable lib host (m_myserver p)" by (rule main_reachable [OF assms(3)]) simp
  note id = main_identity [OF assms(3)]
  then obtain pair where "configure_load_IDI lib host (store_load ops True (m_store p)) (map tolower_char (opt_set_prefix argm)) = Inr (pair, m_my_hip (m_myserver p))"
    unfolding has_identity_def by blast
  from IDI_address [OF assms(1,2) conjunct1 [OF id] this]
  have "fst (prepare_socket device_ready (m_myserver p)) \<noteq> Inl Abort" by (simp add: prepare_socket_def Let_def)
  with reach id node_reachable_wf [OF assms(2) reach] show ?thesis by blast
qed

theorem start_reaches_main_loop_witness:
  "\<exists>p. main_execution example_lib example_host list_fs (list_options (octets_of ''FD42'')) example_start_world 9042 60 list_store = (Inr Enter_main_loop, p) \<and>
     node_wf example_lib (m_myserver p) \<and> has_identity example_lib example_host list_fs (octets_of ''fd42'') p \<and>
     fst (prepare_socket (\<lambda>_ _. True) (m_myserver p)) \<noteq> Inl Abort"
proof -
  obtain p where p: "main_execution example_lib example_host list_fs (list_options (octets_of ''FD42'')) example_start_world 9042 60 list_store = (Inr Enter_main_loop, p)"
    using list_start_enters [of "octets_of ''FD42''"] by blast
  have "map tolower_char (opt_set_prefix (list_options (octets_of ''FD42''))) = octets_of ''fd42''"
    by (simp add: list_options_def octets_of_def tolower_char_def)
  with p start_reaches_main_loop [OF hash_sized_example v6_text_laws_example p, of "\<lambda>_ _. True"] show ?thesis by auto
qed

lemma main_keeps_store:
  assumes "opt_gen_key argm = None" and "\<not> opt_gen_key_simple argm"
    and run: "main_execution lib host ops argm w port t ds = (r, p)" and present: "keys_present ops ds"
  shows "m_store p = ds"
proof -
  define p0 :: "('a, 'b, 'c) the_program" where
    "p0 = \<lparr>m_myserver = c_tunserver_new (w\<lparr>g_dbg_level := main_debug_level argm (g_dbg_level w)\<rparr>) port t, m_store = ds\<rparr>"
  have p: "p = snd (main_body lib host ops argm p0)"
    using run by (auto simp: main_execution_def p0_def Let_def split: prod.splits sum.splits if_splits)
  show ?thesis
  proof (cases "opt_info argm \<or> opt_list_my_keys argm")
    case True
    then show ?thesis using p by (auto simp: main_body_def show_info_def p0_def split: option.split)
  next
    case False
    then have "main_body lib host ops argm p0 = set_up lib host ops argm p0" using assms(1,2) by (simp add: main_body_def)
    then show ?thesis
      using p keepsD [OF stays_set_up [of ops lib host argm], of p0] present by (simp add: stays_def p0_def)
  qed
qed

text \<open>
  C21: once a start has reached the main loop and left a wallet that lists keys, every later start that is not told to
  generate keys and is given the same prefix, whatever its other options, its port and its random numbers, leaves the data
  store as it is; if it too reaches the main loop, the node has the same address. (A start with \<open>--gen-key\<close> or
  \<open>--gen-key-simple\<close> does change the store, and ends after that.)
\<close>

theorem restart_keeps_identity:
  assumes "main_execution lib host ops argm w port t ds = (Inr Enter_main_loop, p)"
    and "get_parent_path ops (m_store p) e_datastore_galaxy_wallet_PRV '''' = Inr path" and "get_file_list ops (m_store p) path = Inr keys" and "keys \<noteq> []"
    and "opt_gen_key argm' = None" and "\<not> opt_gen_key_simple argm'" and "map tolower_char (opt_set_prefix argm') = map tolower_char (opt_set_prefix argm)"
    and "main_execution lib host ops argm' w' port' t' (m_store p) = (r, p')"
  shows "m_store p' = m_store p \<and> (r = Inr Enter_main_loop \<longrightarrow> m_my_hip (m_myserver p') = m_my_hip (m_myserver p))"
proof -
  note first = conjunct2 [OF main_identity [OF assms(1)]]
  have "keys_present ops (m_store p)" using identity_conf_ok [OF first] assms(2-4) by (auto simp: keys_present_def)
  then have store: "m_store p' = m_store p" by (rule main_keeps_store [OF assms(5,6,8)])
  have "m_my_hip (m_myserver p') = m_my_hip (m_myserver p)" if "r = Inr Enter_main_loop"
  proof -
    from main_identity [of lib host ops argm' w' port' t' "m_store p" p'] assms(8) that
    have "has_identity lib host ops (map tolower_char (opt_set_prefix argm)) p'" by (simp add: assms(7))
    with first store show ?thesis unfolding has_identity_def by (metis prod.inject sum.inject(2))
  qed
  with store show ?thesis by blast
qed

theorem restart_keeps_identity_witness:
  "\<exists>p p'. main_execution example_lib example_host list_fs (list_options (octets_of ''fd42'')) example_start_world 9042 60 list_store = (Inr Enter_main_loop, p) \<and>
     main_execution example_lib example_host list_fs (list_options (octets_of ''FD42'')) (example_start_world\<lparr>w_rng := 9\<rparr>) 9043 60 (m_store p) =
       (Inr Enter_main_loop, p') \<and>
     m_my_hip (m_myserver p') = m_my_hip (m_myserver p)"
proof -
  obtain p where p: "main_execution example_lib example_host list_fs (list_options (octets_of ''fd42'')) example_start_world 9042 60 list_store = (Inr Enter_main_loop, p)"
    using list_start_enters [of "octets_of ''fd42''"] by blast
  obtain p0 where p0: "m_store p0 = list_store" "set_up example_lib example_host list_fs (list_options (octets_of ''fd42'')) p0 = (Inr Enter_main_loop, p)"
    using main_enters_set_up [OF p] by blast
  have store: "m_store p = list_store"
    using keepsD [OF stays_set_up [of list_fs example_lib example_host "list_options (octets_of ''fd42'')"], of p0] p0 list_keys_present
    by (simp add: stays_def)
  obtain p' where p': "main_execution example_lib example_host list_fs (list_options (octets_of ''FD42'')) (example_start_world\<lparr>w_rng := 9\<rparr>) 9043 60 (m_store p) =
      (Inr Enter_main_loop, p')"
    using list_start_enters [of "octets_of ''FD42''"] unfolding store by blast
  have "opt_gen_key (list_options (octets_of ''FD42'')) = None" "\<not> opt_gen_key_simple (list_options (octets_of ''FD42''))"
    "map tolower_char (opt_set_prefix (list_options (octets_of ''FD42''))) = map tolower_char (opt_set_prefix (list_options (octets_of ''fd42'')))"
    by (simp_all add: list_options_def octets_of_def tolower_char_def)
  from restart_keeps_identity [OF p _ _ _ this p', unfolded store, OF list_wallet] p p' store show ?thesis by auto
qed

end
