(* ===== verification/Spec2Isabelle.thy ===== *)
theory Spec2Isabelle
  imports Node_Theorems Eint Tab Ndp Netbuf Rpc_Server Datastore Key_Tools Tuntap Engine Capabilities Privileges Mutexed_Vector
    Ioservice Mo_Reader Node_Control Rpc_Client Start_Up
begin

text \<open>
  \<^bold>\<open>Galaxy42\<close>: a node of an encrypted mesh network.

  A node owns a virtual network card (TUN). A packet that the system sends through the card
  goes, boxed in a tunnel, over UDP to the node its IPv6 address belongs to, directly or forwarded by
  peers; the address is the hash of the keys of the node. Peers introduce themselves by greetings,
  routes to unknown addresses are searched for with queries that peers pass on, and a control program talks to the
  node over an authenticated TCP connection.

  \<^bold>\<open>How the code is modelled.\<close>
  A function of the source is a function of HOL with the name it has there. Code that changes objects is an
  \<open>action\<close>: from a state to a result and a new state. A result is \<open>Inr\<close> of a value or \<open>Inl\<close> of a
  \<open>cpp_error\<close>: an exception, by its class, or \<open>Abort\<close> for a failed assertion, a call of \<open>abort\<close> and an exception that leaves a
  \<open>noexcept\<close> function or a destructor; \<open>catch\<close> clauses let \<open>Abort\<close> pass. The state after a throw is the state the code leaves.
  Octets are \<open>8 word\<close>, machine integers are words or carry their wrap-around; \<open>std::map\<close> is a list of pairs in the order of its
  iteration (\<open>Std_Map\<close>). All definitions compute, except step relations and specifications.

  Code outside of the repository is a parameter: \<open>crypto_lib\<close> (libsodium, NTRU, SIDH and their generators),
  \<open>host_lib\<close> (text forms of addresses), \<open>world\<close> (clock, UDP socket, TUN device, debug level), \<open>rpc_lib\<close> and \<open>control_lib\<close>
  (JSON, message authentication, the connection to a bitcoin node), \<open>fs_ops\<close> (file system), \<open>capng\<close> and \<open>proc_lib\<close> (libcap-ng and the user calls of Linux),
  \<open>mo_env\<close> (environment and files of the translations), \<open>tun_stream\<close> (the device file). What is relied on is a named predicate: \<open>hash_sized\<close>,
  \<open>kex_laws\<close>, \<open>v6_text_laws\<close>, \<open>fs_laws\<close>, \<open>capng_laws\<close>, \<open>proc_laws\<close>; each is shown to hold of a concrete instance, on which the
  theorems are then applied.

  \<^bold>\<open>Theories, in the order of their dependencies.\<close>

  \<^item> \<open>Galaxy_Prelude\<close>: errors, actions and their composition, checked access, frames of actions
    (\<open>keeps\<close>), octets of integers.

  \<^item> \<open>Trivialserialize\<close> (\<^verbatim>\<open>src/trivialserialize.cpp, .hpp\<close>): generator and parser, all push and pop
    operations, containers, the locked string. Locales \<open>obj_codec\<close>, \<open>obj_vector\<close>, \<open>obj_map\<close> state what a codec of elements gives
    its containers; interpreted for strings, octets, maps. Round trips; the parser stays inside its data on every outcome.

  \<^item> \<open>String_Codec\<close> (\<^verbatim>\<open>src/strings_utils.cpp\<close>), \<open>Crypto_Basic\<close> (\<^verbatim>\<open>src/crypto/crypto_basic.cpp\<close>), \<open>Multikeys\<close>, \<open>Multisign\<close>
    (\<^verbatim>\<open>src/crypto/multikeys.cpp, .tpl.hpp\<close>): the hexadecimal codec, crypto systems and hashes, collections of keys, fingerprints, addresses,
    signing, verification, key generation. An accepted multi-signature has a good signature of every signing key.

  \<^item> \<open>Crypto_Stream\<close>, \<open>Key_Agreement\<close> (\<^verbatim>\<open>src/crypto/crypto.cpp\<close>): key agreement of a stream, boxing, tunnels. Both ends
    complete the exchange with the same key, for any mix of systems; what one end boxes the other unboxes.

  \<^item> \<open>Haship\<close> (\<^verbatim>\<open>src/haship.cpp, src/protocol.hpp\<close>), \<open>Ip46_Addr\<close> (\<^verbatim>\<open>src/c_ip46_addr.cpp\<close>), \<open>Peering\<close> (\<^verbatim>\<open>src/c_peering.cpp,
    src/httpdbg/peering_stats.cpp, src/c_udp_wrapper.cpp\<close>), \<open>Peer_Reference\<close> (\<^verbatim>\<open>src/galaxysrv_peers.cpp, src/galaxy42_utils.cpp, src/cable/base\<close>): addresses,
    peers and how they are written.

  \<^item> \<open>Std_Map\<close>, \<open>Routing\<close>, \<open>Tunserver\<close>, \<open>Rpc\<close>, \<open>Event_Loop\<close> (\<^verbatim>\<open>src/tunserver.cpp, .hpp\<close>): the routing manager, the record \<open>c_tunserver\<close> with
    peers, black list, tunnels and routes, the methods of the remote control, and the passes of the event loop with every
    handler. The locale \<open>galaxy_node\<close> is what the routing manager asks of the node; \<open>Node_Lemmas\<close> interprets it on \<open>tun_node\<close>.

  \<^item> \<open>Node_Lemmas\<close>, \<open>Node_Invariant\<close>, \<open>Node_Reach\<close>: what each handler sends and changes; the invariant \<open>node_wf\<close>; the step relation
    \<open>node_step\<close>, in which passes of the loop, set-up methods and remote calls follow each other in any order, returning or throwing;
    every reachable state satisfies the invariant.

  \<^item> \<open>Forwarding\<close>, \<open>Greeting\<close>, \<open>Tun_Delivery\<close>, \<open>Node_Theorems\<close>: what the node does as a whole. Data is forwarded at most
    five times and reaches a direct peer; greetings change only the identity whose signature was verified; a packet comes out of
    the card of the other node as it went in; and single datagrams that end the process or weaken a tunnel.

  \<^item> \<open>Rpc_Server\<close> (\<^verbatim>\<open>src/rpc/rpc.cpp\<close>): sessions as a state machine over the events of the network library. The locale
    \<open>rpc_service\<close> is the contract with the functions it serves. \<open>Node_Control\<close> registers the functions of the node (constructor of \<open>c_tunserver\<close>, and
    \<^verbatim>\<open>src/bitcoin_node_cli.cpp\<close>), interprets the contract on them, and composes server and node: remote control reaches no state that the node does not
    reach by its own methods; a remote ban takes effect; a remote status request can end the process.

  \<^item> \<open>Rpc_Client\<close> (\<^verbatim>\<open>src-gui/netclient.cpp, src-gui/dataeater.cpp\<close>): the connection of the control program and the buffer that puts
    frames together; a call from the client to the server and back, and what the client does after the first answer.

  \<^item> \<open>Start_Up\<close> (\<^verbatim>\<open>src/the_program_tunserver.cpp\<close>): the start of the program, from its options to the main loop: commands on keys, finding or
    creating the identity, peers of the command line. A started node is reachable by \<open>node_step\<close>, has the address of the identity in its store,
    and a later start keeps both; a store with an identity does start.

  \<^item> \<open>Datastore\<close> (\<^verbatim>\<open>src/datastore.cpp, src/text_ui.cpp\<close>), \<open>Key_Tools\<close> (\<^verbatim>\<open>src/generate_crypto.cpp\<close>, the key actions of \<open>c_tunserver\<close>): files of
    the node and the programs that make its keys.

  \<^item> \<open>Capabilities\<close>, \<open>Privileges\<close> (\<^verbatim>\<open>src/utils/capmodpp.cpp, src/utils/privileges.cpp\<close>): applying a change refines the change of the sets;
    each step only drops, and the main loop is entered without capabilities and not as root.

  \<^item> \<open>Eint\<close>, \<open>Tab\<close>, \<open>Netbuf\<close>, \<open>Engine\<close>, \<open>Mutexed_Vector\<close>, \<open>Ioservice\<close>, \<open>Ndp\<close>, \<open>Tuntap\<close>, \<open>Mo_Reader\<close> (\<^verbatim>\<open>src/stdplus/, src/netbuf.cpp,
    src/galaxysrv_engine.cpp, src/cable/asio_ioservice_manager.cpp, src/c_ndp.cpp, src/tuntap/, src/mo_reader.cpp\<close>): libraries of the program: checked integers are exact,
    buffers own their blocks, locked vectors run only on matching objects whatever other threads do, the pool of services keeps its
    invariant, advertisements are valid, the cards of three systems cut packets in the same way (locale \<open>tuntap_device\<close>), catalogues are loaded.

  \<^bold>\<open>Bounds and fuel.\<close> No definition uses fuel: loops are structural or have a measure (positions that grow, counters
  that shrink). Sizes are those of the source: strings up to \<open>SANE_MAX_SIZE_FOR_STRING\<close>, packets to what the varint carries,
  16 services, messages of 65535 octets. The bound of five hops is \<open>ttl_max_accepted\<close>.

  \<^bold>\<open>Interleaving.\<close> The threads of the event loop, of the remote control and of the services take mutexes; the model
  runs their critical sections as steps, in any order. Other threads are explicit in \<open>Mutexed_Vector\<close>.

  \<^bold>\<open>Not modelled.\<close> Opening and configuring sockets and cards (ioctl, netlink, registry, select); \<open>galaxysrv.cpp\<close>, whose main
  loop is compiled out, and the cables it would use; tables of options, the options of the preview build, and JSON configuration; the wrappers of NTRU and SIDH, whose C libraries are
  submodules; \<open>xint.hpp\<close>, which forwards to boost and is not used by the node; printing, debugging and statistics charts; conversions to and from floating point;
  the windows and orders of the Qt interface; tools, benchmarks and tests. They do input and output, or forward to libraries that are not in the repository.
\<close>

end
